(* ===== verification/Prelude.thy ===== *)
theory Prelude
  imports Main "HOL-Library.Word" "HOL-Library.AList"
begin

text \<open>
  What the components share: the machine-integer types, Rust's checked arithmetic, fallible
  results, little-endian byte strings, hash maps as association lists, and the two interfaces
  almost every component is a client or a provider of: a keyed store and a machine with an
  invariant.
\<close>

unbundle bit_operations_syntax

section \<open>Machine integers\<close>

type_synonym u8 = "8 word"
type_synonym u16 = "16 word"
type_synonym u32 = "32 word"
type_synonym u64 = "64 word"
type_synonym u128 = "128 word"
type_synonym bytes = "u8 list"

text \<open>A Rust \<open>String\<close>: its Unicode scalar values, in order.\<close>

type_synonym ustring = "nat list"

text \<open>
  Rust's \<open>checked_add(1)\<close> on an unsigned integer of any width: \<open>None\<close> at the maximum.
\<close>

definition checked_succ :: "'w::len word \<Rightarrow> 'w word option" where
  "checked_succ x = (if x = - 1 then None else Some (x + 1))"

definition checked_pred :: "'w::len word \<Rightarrow> 'w word option" where
  "checked_pred x = (if x = 0 then None else Some (x - 1))"

lemma checked_succ_unat: "checked_succ x = Some y \<Longrightarrow> unat y = Suc (unat x)"
  by (auto simp: checked_succ_def unatSuc add.commute[of _ 1] split: if_splits)
     (metis add.commute eq_neg_iff_add_eq_0 unatSuc)

lemma checked_succ_less: "checked_succ x = Some y \<Longrightarrow> x < y"
  by (simp add: word_less_nat_alt checked_succ_unat)

lemma checked_succ_nonzero: "checked_succ x = Some y \<Longrightarrow> y \<noteq> 0"
  by (metis checked_succ_unat nat.distinct(1) unat_0)

lemma checked_succ_not_max: "checked_succ x = Some y \<Longrightarrow> x \<noteq> - 1"
  by (auto simp: checked_succ_def)

lemma checked_succ_Some: "x \<noteq> - 1 \<Longrightarrow> checked_succ x = Some (x + 1)"
  by (simp add: checked_succ_def)

lemma checked_pred_unat: "checked_pred x = Some y \<Longrightarrow> unat x = Suc (unat y)"
  by (auto simp: checked_pred_def split: if_splits)
     (metis diff_add_cancel unatSuc add.commute)

text \<open>
  Lengths (\<open>usize\<close> on the 64-bit hosts the server is built for) are natural numbers, with the
  conversions and the checked addition the code performs on them.
\<close>

definition u32_try_from :: "nat \<Rightarrow> u32 option" where
  "u32_try_from n = (if int n < 2 ^ 32 then Some (of_nat n) else None)"

definition usize_checked_add :: "nat \<Rightarrow> nat \<Rightarrow> nat option" where
  "usize_checked_add a b = (if int a + int b < 2 ^ 64 then Some (a + b) else None)"

definition u32_checked_add :: "u32 \<Rightarrow> u32 \<Rightarrow> u32 option" where
  "u32_checked_add a b = (if uint a + uint b < 2 ^ 32 then Some (a + b) else None)"

lemma unat_u32_less: "unat (w :: u32) < 4294967296"
  using unsigned_less[of w, where ?'a = nat] by simp

lemma unat_u64_less: "unat (w :: u64) < 18446744073709551616"
  using unsigned_less[of w, where ?'a = nat] by simp

lemma u32_try_from_Some: "u32_try_from n = Some w \<longleftrightarrow> unat w = n"
  using unat_u32_less[of w]
  by (auto simp: u32_try_from_def unat_of_nat intro!: word_unat_eq_iff[THEN iffD2])

lemma u32_try_from_None: "u32_try_from n = None \<longleftrightarrow> 2 ^ 32 \<le> n"
  by (auto simp: u32_try_from_def)

lemma uint_sum_less: "uint (a :: u32) + uint b < 4294967296 \<longleftrightarrow> unat a + unat b < 4294967296"
  unfolding uint_nat by linarith

lemma u32_checked_add_None: "u32_checked_add a b = None \<longleftrightarrow> 2 ^ 32 \<le> unat a + unat b"
  by (simp add: u32_checked_add_def uint_sum_less not_less)

lemma u32_checked_add_Some: "u32_checked_add a b = Some c \<longleftrightarrow> unat c = unat a + unat b"
proof -
  have "unat (a + b) = unat a + unat b" if "unat a + unat b < 4294967296"
    using that by (simp add: unat_word_ariths)
  then show ?thesis
    using unat_u32_less[of c]
    by (auto simp: u32_checked_add_def uint_sum_less word_unat_eq_iff)
qed

lemma usize_checked_add_Some: "usize_checked_add a b = Some c \<Longrightarrow> c = a + b"
  by (auto simp: usize_checked_add_def split: if_splits)

lemma usize_checked_add_small [simp]: "n < 2 ^ 63 \<Longrightarrow> usize_checked_add n 4 = Some (n + 4)"
  by (auto simp: usize_checked_add_def)

section \<open>Fallible results\<close>

text \<open>
  A Rust \<open>Result<T, E>\<close> is \<open>'e + 'a\<close>, with \<open>Inl\<close> the error. \<open>attempt\<close> is the operator
  \<open>?\<close>, \<open>ok_or\<close> and \<open>ensure\<close> the two ways the code turns a check into an early return.
\<close>

definition attempt :: "'e + 'a \<Rightarrow> ('a \<Rightarrow> 'e + 'b) \<Rightarrow> 'e + 'b" where
  "attempt r f = (case r of Inl e \<Rightarrow> Inl e | Inr x \<Rightarrow> f x)"

definition ok_or :: "'e \<Rightarrow> 'a option \<Rightarrow> 'e + 'a" where
  "ok_or e x = (case x of None \<Rightarrow> Inl e | Some y \<Rightarrow> Inr y)"

definition ensure :: "bool \<Rightarrow> 'e \<Rightarrow> 'e + unit" where
  "ensure b e = (if b then Inr () else Inl e)"

lemma attempt_simps [simp]: "attempt (Inl e) f = Inl e" "attempt (Inr x) f = f x"
  by (simp_all add: attempt_def)

lemma ok_or_simps [simp]: "ok_or e None = Inl e" "ok_or e (Some x) = Inr x"
  by (simp_all add: ok_or_def)

lemma ensure_simps [simp]: "ensure True e = Inr ()" "ensure False e = Inl e"
  by (simp_all add: ensure_def)

lemma attempt_Inr: "attempt r f = Inr y \<longleftrightarrow> (\<exists>x. r = Inr x \<and> f x = Inr y)"
  by (cases r) auto

lemma attempt_Inl: "attempt r f = Inl e \<longleftrightarrow> r = Inl e \<or> (\<exists>x. r = Inr x \<and> f x = Inl e)"
  by (cases r) auto

lemma ok_or_Inr: "ok_or e x = Inr y \<longleftrightarrow> x = Some y"
  by (cases x) auto

lemma ok_or_Inl: "ok_or e x = Inl e' \<longleftrightarrow> x = None \<and> e' = e"
  by (cases x) auto

lemma ensure_Inr: "ensure b e = Inr u \<longleftrightarrow> b"
  by (cases b) auto

lemma ensure_Inl: "ensure b e = Inl e' \<longleftrightarrow> \<not> b \<and> e' = e"
  by (cases b) auto

lemmas result_eqs = attempt_Inr attempt_Inl ok_or_Inr ok_or_Inl ensure_Inr ensure_Inl

section \<open>Little-endian byte strings\<close>

definition le16 :: "u16 \<Rightarrow> bytes" where
  "le16 w = [ucast w, ucast (drop_bit 8 w)]"

definition le32 :: "u32 \<Rightarrow> bytes" where
  "le32 w = [ucast w, ucast (drop_bit 8 w), ucast (drop_bit 16 w), ucast (drop_bit 24 w)]"

text \<open>
  \<open>from_le_bytes\<close> on the array the caller indexed out of its buffer; the code only calls it on
  buffers it has already measured, so the last equation is never reached from the model.
\<close>

fun of_le16 :: "bytes \<Rightarrow> u16" where
  "of_le16 (a # b # _) = ucast a OR push_bit 8 (ucast b)"
| "of_le16 _ = 0"

fun of_le32 :: "bytes \<Rightarrow> u32" where
  "of_le32 (a # b # c # d # _) =
     ucast a OR push_bit 8 (ucast b) OR push_bit 16 (ucast c) OR push_bit 24 (ucast d)"
| "of_le32 _ = 0"

lemma not_bit_u8 [simp]: "8 \<le> n \<Longrightarrow> \<not> bit (a :: u8) n"
  using bit_imp_le_length[of a n] by auto

lemma length_le [simp]: "length (le16 v) = 2" "length (le32 w) = 4"
  by (simp_all add: le16_def le32_def)

lemma of_le16_le16 [simp]: "of_le16 (le16 w @ r) = w"
proof -
  have "bit (of_le16 (le16 w @ r)) n = bit w n" if "n < 16" for n
    using that by (cases "n < 8") (auto simp: le16_def bit_simps)
  then show ?thesis by (intro bit_word_eqI) simp
qed

lemma of_le32_le32 [simp]: "of_le32 (le32 w @ r) = w"
proof -
  have "bit (of_le32 (le32 w @ r)) n = bit w n" if "n < 32" for n
    using that by (cases "n < 8"; cases "n < 16"; cases "n < 24") (auto simp: le32_def bit_simps)
  then show ?thesis by (intro bit_word_eqI) simp
qed

lemmas of_le_le_Nil [simp] = of_le16_le16 [of _ "[]", simplified] of_le32_le32 [of _ "[]", simplified]

lemma le16_of_le16: "le16 (of_le16 [a, b]) = [a, b]"
  by (auto simp: le16_def bit_simps intro!: bit_word_eqI)

lemma le32_of_le32: "le32 (of_le32 [a, b, c, d]) = [a, b, c, d]"
  by (auto simp: le32_def bit_simps intro!: bit_word_eqI)

lemma le32_xor: "le32 (v XOR w) = map2 (XOR) (le32 v) (le32 w)"
  by (auto simp: le32_def bit_simps intro!: bit_word_eqI)

lemma le32_inj: "le32 v = le32 w \<Longrightarrow> v = w"
  by (metis of_le_le_Nil(2))

lemma length_4E:
  assumes "length xs = 4"
  obtains a b c d where "xs = [a, b, c, d]"
  using assms by (auto simp: length_Suc_conv eval_nat_numeral)

lemma le32_of_le32_take: "4 \<le> length xs \<Longrightarrow> le32 (of_le32 xs) = take 4 xs"
  by (cases xs rule: of_le32.cases) (auto simp: le32_of_le32[simplified])
section \<open>Hash maps\<close>

text \<open>
  A \<open>HashMap\<close> is an association list with distinct keys. Lookup is \<^const>\<open>map_of\<close>; iteration
  is in list order, one of the orders the code's hash map may take, so no theorem about an
  iteration depends on the order of its result.
\<close>

type_synonym ('k, 'v) table = "('k \<times> 'v) list"

definition tput :: "'k \<Rightarrow> 'v \<Rightarrow> ('k, 'v) table \<Rightarrow> ('k, 'v) table" where
  "tput = AList.update"

definition tdel :: "'k \<Rightarrow> ('k, 'v) table \<Rightarrow> ('k, 'v) table" where
  "tdel = AList.delete"

definition wf_table :: "('k, 'v) table \<Rightarrow> bool" where
  "wf_table t \<longleftrightarrow> distinct (map fst t)"

lemma tput_code [code, simp]:
  "tput k v [] = [(k, v)]"
  "tput k v (p # t) = (if fst p = k then (k, v) # t else p # tput k v t)"
  by (simp_all add: tput_def)

lemma tdel_code [code]: "tdel k t = filter (\<lambda>p. fst p \<noteq> k) t"
  by (auto simp: tdel_def AList.delete_eq intro!: filter_cong)

lemma map_of_tput [simp]: "map_of (tput k v t) = (map_of t)(k \<mapsto> v)"
  by (simp add: tput_def AList.update_conv')

lemma map_of_tdel [simp]: "map_of (tdel k t) = (map_of t)(k := None)"
  by (simp add: tdel_def AList.delete_conv')

lemma tput_same [simp]: "map_of t k = Some v \<Longrightarrow> tput k v t = t"
  by (induction t) auto

lemma tput_tput [simp]: "tput k v (tput k u t) = tput k v t"
  by (induction t) auto

lemma tdel_tput [simp]: "tdel k (tput k v t) = tdel k t"
  by (induction t) (simp_all add: tdel_code)

lemma wf_table_Nil [simp, intro]: "wf_table []"
  by (simp add: wf_table_def)

lemma wf_tput [simp, intro]: "wf_table t \<Longrightarrow> wf_table (tput k v t)"
  by (simp add: wf_table_def tput_def AList.distinct_update)

lemma wf_tdel [simp, intro]: "wf_table t \<Longrightarrow> wf_table (tdel k t)"
  by (simp add: wf_table_def tdel_def AList.distinct_delete)

lemma wf_filter: "wf_table t \<Longrightarrow> wf_table (filter P t)"
  by (simp add: wf_table_def distinct_map_filter)

lemma length_tput: "length (tput k v t) = (if map_of t k = None then Suc (length t) else length t)"
  by (induction t) auto

lemma length_tdel:
  "wf_table t \<Longrightarrow> length (tdel k t) = (if map_of t k = None then length t else length t - 1)"
proof (induction t)
  case (Cons p t)
  have "length (filter (\<lambda>q. fst q \<noteq> fst p) t) = length t"
    using Cons.prems by (metis (mono_tags, lifting) filter_True image_eqI list.set_map
        distinct.simps(2) list.simps(9) wf_table_def)
  with Cons show ?case
    by (cases p; cases t) (auto simp: tdel_code wf_table_def)
qed (simp add: tdel_code)

lemma length_tdel_le: "length (tdel k t) \<le> length t"
  by (simp add: tdel_code)

lemma map_of_in_set: "wf_table t \<Longrightarrow> map_of t k = Some v \<longleftrightarrow> (k, v) \<in> set t"
  by (simp add: wf_table_def)

lemma in_map_filter: "y \<in> set (List.map_filter f xs) \<longleftrightarrow> (\<exists>x\<in>set xs. f x = Some y)"
  by (induction xs) (auto simp: map_filter_simps split: option.splits)

lemma card_dom_table: "wf_table t \<Longrightarrow> card (dom (map_of t)) = length t"
  by (simp add: dom_map_of_conv_image_fst wf_table_def card_image distinct_map flip: card_distinct)
     (metis distinct_card distinct_map length_map set_map)

lemma set_tdel: "set (tdel k t) = {p \<in> set t. fst p \<noteq> k}"
  by (auto simp: tdel_code)

lemma map_of_map_snd:
  "map_of (map (\<lambda>(k, v). (k, f k v)) t) k = map_option (f k) (map_of t k)"
  by (induction t) auto

lemma wf_map_snd [simp]: "wf_table (map (\<lambda>(k, v). (k, f k v)) t) = wf_table t"
  by (simp add: wf_table_def case_prod_beta' comp_def)

subsection \<open>The keyed store as an interface\<close>

text \<open>
  What the registries rely on from their hash maps, and the two facts they use it for: a guarded
  insertion respects a capacity, and a removal never grows the store.
\<close>

locale keyed_store =
  fixes get :: "'t \<Rightarrow> 'k \<Rightarrow> 'v option"
    and put :: "'k \<Rightarrow> 'v \<Rightarrow> 't \<Rightarrow> 't"
    and del :: "'k \<Rightarrow> 't \<Rightarrow> 't"
    and count :: "'t \<Rightarrow> nat"
    and wf :: "'t \<Rightarrow> bool"
  assumes get_put: "get (put k v t) = (get t)(k \<mapsto> v)"
    and get_del: "get (del k t) = (get t)(k := None)"
    and wf_put: "wf t \<Longrightarrow> wf (put k v t)"
    and wf_del: "wf t \<Longrightarrow> wf (del k t)"
    and count_put: "count (put k v t) = (if get t k = None then Suc (count t) else count t)"
    and count_del: "wf t \<Longrightarrow> count (del k t) = (if get t k = None then count t else count t - 1)"
begin

lemma put_within_capacity:
  "count t \<le> cap \<Longrightarrow> get t k \<noteq> None \<or> count t < cap \<Longrightarrow> count (put k v t) \<le> cap"
  by (auto simp: count_put)

lemma del_within_capacity: "wf t \<Longrightarrow> count t \<le> cap \<Longrightarrow> count (del k t) \<le> cap"
  by (auto simp: count_del)

lemma replace_count: "wf t \<Longrightarrow> get t k = Some v \<Longrightarrow> k' \<noteq> k \<Longrightarrow> get t k' = None \<Longrightarrow>
    0 < count t \<Longrightarrow> count (put k' v' (del k t)) = count t"
  by (simp add: count_put count_del get_del)

lemma get_put_other: "k' \<noteq> k \<Longrightarrow> get (put k v t) k' = get t k'"
  by (simp add: get_put)

lemma put_del_lookup: "get (put k v (del k' t)) k = Some v"
  by (simp add: get_put)

end

interpretation tbl: keyed_store map_of tput tdel length wf_table
  by unfold_locales (simp_all add: length_tput length_tdel)

section \<open>Machines with an invariant\<close>

text \<open>
  A component that takes commands one at a time. Its invariant holds initially and is kept by
  every command, so it holds after every sequence of commands. A fenced machine also has a
  quantity no command decreases (a generation counter, a revision, a sealed flag).
\<close>

locale machine =
  fixes start :: "'s \<Rightarrow> bool"
    and step :: "'s \<Rightarrow> 'c \<Rightarrow> 's"
    and inv :: "'s \<Rightarrow> bool"
  assumes inv_start: "start s \<Longrightarrow> inv s"
    and inv_step: "inv s \<Longrightarrow> inv (step s c)"
begin

lemma inv_run: "inv s \<Longrightarrow> inv (foldl step s cs)"
  by (induction cs arbitrary: s) (simp_all add: inv_step)

lemma inv_reachable: "start s \<Longrightarrow> inv (foldl step s cs)"
  by (simp add: inv_run inv_start)

lemma run_induct:
  assumes "inv s" and "P s" and "\<And>s c. inv s \<Longrightarrow> P s \<Longrightarrow> P (step s c)"
  shows "P (foldl step s cs)"
  using assms(1,2) by (induction cs arbitrary: s) (simp_all add: inv_step assms(3))

end

locale fenced_machine = machine start step inv
  for start :: "'s \<Rightarrow> bool" and step :: "'s \<Rightarrow> 'c \<Rightarrow> 's" and inv :: "'s \<Rightarrow> bool" +
  fixes fence :: "'s \<Rightarrow> 'o::preorder"
  assumes fence_step: "inv s \<Longrightarrow> fence s \<le> fence (step s c)"
begin

lemma fence_run: "inv s \<Longrightarrow> fence s \<le> fence (foldl step s cs)"
  by (rule run_induct[where P = "\<lambda>s'. fence s \<le> fence s'"])
     (blast intro: order_trans fence_step)+

end

end
