(* ===== verification/Cipher.thy ===== *)
theory Cipher
  imports Prelude
begin

text \<open>
  The payload transform of \<open>crates/p4475-core/src/crypto.rs\<close>: a word-wise XOR keystream over
  16-byte blocks with a byte-wise tail, and the checksum of the plaintext it returns. The section
  ends with the interface the two wire envelopes use.
\<close>

section \<open>The transform\<close>

definition KEY_XORS :: "u32 list" where
  "KEY_XORS = [347277256, 2361332396, 604215233, 4089260480]"

definition derived_keys :: "u32 \<Rightarrow> u32 list" where
  "derived_keys key = map (\<lambda>mask. key XOR mask) KEY_XORS"

definition read_word :: "bytes \<Rightarrow> nat \<Rightarrow> u32" where
  "read_word block offset = of_le32 (drop offset block)"

definition write_word :: "bytes \<Rightarrow> nat \<Rightarrow> u32 \<Rightarrow> bytes" where
  "write_word block offset v = take offset block @ le32 v @ drop (offset + 4) block"

definition key_stream :: "u32 list \<Rightarrow> bytes" where
  "key_stream keys = concat (map le32 keys)"

text \<open>One turn of the word loop: the block, updated in place, and the running checksum.\<close>

definition encrypt_word :: "bytes \<times> u32 \<Rightarrow> nat \<times> u32 \<Rightarrow> bytes \<times> u32" where
  "encrypt_word st kw = (case st of (block, checksum) \<Rightarrow> case kw of (word_index, key_word) \<Rightarrow>
     let offset = word_index * 4;
         plaintext = read_word block offset
     in (write_word block offset (plaintext XOR key_word), checksum XOR plaintext))"

definition decrypt_word :: "bytes \<times> u32 \<Rightarrow> nat \<times> u32 \<Rightarrow> bytes \<times> u32" where
  "decrypt_word st kw = (case st of (block, checksum) \<Rightarrow> case kw of (word_index, key_word) \<Rightarrow>
     let offset = word_index * 4;
         plaintext = read_word block offset XOR key_word
     in (write_word block offset plaintext, checksum XOR plaintext))"

text \<open>The loop over the \<open>n\<close> full 16-byte blocks of the buffer.\<close>

fun crypt_blocks ::
  "(bytes \<times> u32 \<Rightarrow> nat \<times> u32 \<Rightarrow> bytes \<times> u32) \<Rightarrow> u32 list \<Rightarrow> nat \<Rightarrow> bytes \<Rightarrow> u32 \<Rightarrow> bytes \<times> u32" where
  "crypt_blocks word keys 0 data checksum = ([], checksum)"
| "crypt_blocks word keys (Suc n) data checksum =
     (let (block, checksum') = foldl word (take 16 data, checksum) (enumerate 0 keys);
          (rest, checksum'') = crypt_blocks word keys n (drop 16 data) checksum'
      in (block @ rest, checksum''))"

text \<open>The byte loops over the tail, \<open>index\<close> counting from 0.\<close>

fun encrypt_tail :: "bytes \<Rightarrow> nat \<Rightarrow> bytes \<Rightarrow> u32 \<Rightarrow> bytes \<times> u32" where
  "encrypt_tail stream index [] checksum = ([], checksum)"
| "encrypt_tail stream index (byte # tail) checksum =
     (let checksum' = checksum XOR push_bit index (ucast byte);
          (rest, checksum'') = encrypt_tail stream (Suc index) tail checksum'
      in ((byte XOR stream ! index) # rest, checksum''))"

fun decrypt_tail :: "bytes \<Rightarrow> nat \<Rightarrow> bytes \<Rightarrow> u32 \<Rightarrow> bytes \<times> u32" where
  "decrypt_tail stream index [] checksum = ([], checksum)"
| "decrypt_tail stream index (byte # tail) checksum =
     (let plain = byte XOR stream ! index;
          checksum' = checksum XOR push_bit index (ucast plain);
          (rest, checksum'') = decrypt_tail stream (Suc index) tail checksum'
      in (plain # rest, checksum''))"

text \<open>Both return the transformed buffer and the checksum of the plaintext.\<close>

definition encrypt_in_place :: "bytes \<Rightarrow> u32 \<Rightarrow> bytes \<times> u32" where
  "encrypt_in_place data key =
     (let keys = derived_keys key;
          full_length = length data div 16 * 16;
          (body, checksum) = crypt_blocks encrypt_word keys (length data div 16) data 0;
          stream = key_stream keys;
          (tail, checksum') = encrypt_tail stream 0 (drop full_length data) checksum
      in (body @ tail, checksum'))"

definition decrypt_in_place :: "bytes \<Rightarrow> u32 \<Rightarrow> bytes \<times> u32" where
  "decrypt_in_place data key =
     (let keys = derived_keys key;
          full_length = length data div 16 * 16;
          (body, checksum) = crypt_blocks decrypt_word keys (length data div 16) data 0;
          stream = key_stream keys;
          (tail, checksum') = decrypt_tail stream 0 (drop full_length data) checksum
      in (body @ tail, checksum'))"

section \<open>Blocks\<close>

lemma length_derived_keys [simp]: "length (derived_keys key) = 4"
  by (simp add: derived_keys_def KEY_XORS_def)

lemma length_key_stream [simp]: "length keys = 4 \<Longrightarrow> length (key_stream keys) = 16"
  by (auto simp: key_stream_def elim!: length_4E)

text \<open>Every full block is four little-endian words, and each loop works on them separately.\<close>

lemma block_words:
  assumes "length block = 16"
  obtains w0 w1 w2 w3 where "block = le32 w0 @ le32 w1 @ le32 w2 @ le32 w3"
proof -
  let ?w = "\<lambda>i. of_le32 (drop i block)"
  have "le32 (?w 0) = take 4 block" "le32 (?w 4) = take 4 (drop 4 block)"
    "le32 (?w 8) = take 4 (drop 8 block)" "le32 (?w 12) = take 4 (drop 12 block)"
    using assms by (simp_all add: le32_of_le32_take)
  moreover have "drop 12 block = take 4 (drop 12 block)"
    using assms by simp
  moreover have "block = take 4 block @ drop 4 block"
    "drop 4 block = take 4 (drop 4 block) @ drop 8 block"
    "drop 8 block = take 4 (drop 8 block) @ drop 12 block"
    using append_take_drop_id[of 4 "drop 4 block"] append_take_drop_id[of 4 "drop 8 block"]
    by simp_all
  ultimately have "block = le32 (?w 0) @ le32 (?w 4) @ le32 (?w 8) @ le32 (?w 12)"
    by metis
  then show thesis by (rule that)
qed

lemma encrypt_block:
  "foldl encrypt_word (le32 w0 @ le32 w1 @ le32 w2 @ le32 w3, ck) (enumerate 0 [k0, k1, k2, k3]) =
     (le32 (w0 XOR k0) @ le32 (w1 XOR k1) @ le32 (w2 XOR k2) @ le32 (w3 XOR k3),
      ck XOR w0 XOR w1 XOR w2 XOR w3)"
  by (simp add: encrypt_word_def write_word_def read_word_def Let_def xor.assoc)

lemma decrypt_block:
  "foldl decrypt_word (le32 w0 @ le32 w1 @ le32 w2 @ le32 w3, ck) (enumerate 0 [k0, k1, k2, k3]) =
     (le32 (w0 XOR k0) @ le32 (w1 XOR k1) @ le32 (w2 XOR k2) @ le32 (w3 XOR k3),
      ck XOR (w0 XOR k0) XOR (w1 XOR k1) XOR (w2 XOR k2) XOR (w3 XOR k3))"
  by (simp add: decrypt_word_def write_word_def read_word_def Let_def xor.assoc)

lemma derived_keys_list:
  obtains k0 k1 k2 k3 where "derived_keys key = [k0, k1, k2, k3]"
  by (metis length_4E length_derived_keys)

lemma crypt_blocks_length:
  assumes "word \<in> {encrypt_word, decrypt_word}" "n * 16 \<le> length data" "length keys = 4"
  shows "length (fst (crypt_blocks word keys n data ck)) = n * 16"
  using assms
proof (induction n arbitrary: data ck)
  case (Suc n)
  have "length (take 16 data) = 16" using Suc.prems by simp
  then obtain w0 w1 w2 w3 where w: "take 16 data = le32 w0 @ le32 w1 @ le32 w2 @ le32 w3"
    by (rule block_words)
  obtain k0 k1 k2 k3 where k: "keys = [k0, k1, k2, k3]"
    using Suc.prems(3) by (rule length_4E)
  let ?p = "foldl word (take 16 data, ck) (enumerate 0 keys)"
  from k have "length (fst ?p) = 16"
    using Suc.prems(1)
    by (auto simp only: w encrypt_block decrypt_block fst_conv length_append length_le)
  moreover have "length (fst (crypt_blocks word keys n (drop 16 data) (snd ?p))) = n * 16"
    using Suc.prems by (intro Suc.IH) simp_all
  ultimately show ?case by (simp add: Let_def case_prod_beta')
qed simp

text \<open>The block loop reads nothing past its blocks.\<close>

lemma crypt_blocks_take:
  "crypt_blocks word keys n (take (n * 16) data) ck = crypt_blocks word keys n data ck"
proof (induction n arbitrary: data ck)
  case (Suc n)
  have "take 16 (take (Suc n * 16) data) = take 16 data"
    "drop 16 (take (Suc n * 16) data) = take (n * 16) (drop 16 data)"
    by (simp_all add: take_drop add.commute)
  then show ?case by (simp only: crypt_blocks.simps Suc.IH)
qed simp

text \<open>Decrypting what the block loop encrypted restores the data and repeats the checksum.\<close>

lemma crypt_blocks_roundtrip:
  assumes "n * 16 \<le> length data" "length keys = 4"
    and "crypt_blocks encrypt_word keys n data ck = (out, ck')"
  shows "crypt_blocks decrypt_word keys n (out @ rest) ck = (take (n * 16) data, ck')"
  using assms
proof (induction n arbitrary: data ck out ck')
  case (Suc n)
  have "length (take 16 data) = 16" using Suc.prems by simp
  then obtain w0 w1 w2 w3 where w: "take 16 data = le32 w0 @ le32 w1 @ le32 w2 @ le32 w3"
    by (rule block_words)
  obtain k0 k1 k2 k3 where k: "keys = [k0, k1, k2, k3]"
    using Suc.prems(2) by (rule length_4E)
  let ?c = "ck XOR w0 XOR w1 XOR w2 XOR w3"
  obtain out2 where out2: "crypt_blocks encrypt_word keys n (drop 16 data) ?c = (out2, ck')"
    and out: "out = (le32 (w0 XOR k0) @ le32 (w1 XOR k1) @ le32 (w2 XOR k2) @ le32 (w3 XOR k3)) @ out2"
    using Suc.prems(3) by (auto simp: w k encrypt_block split: prod.splits simp del: append_assoc enumerate_simps)
  have IH: "crypt_blocks decrypt_word keys n (out2 @ rest) ?c = (take (n * 16) (drop 16 data), ck')"
    using Suc.prems(1,2) by (intro Suc.IH[OF _ _ out2]) simp_all
  have d: "foldl decrypt_word (take 16 (out @ rest), ck) (enumerate 0 keys) = (take 16 data, ?c)"
    by (simp add: out k w decrypt_block xor.assoc del: enumerate_simps)
  have "drop 16 (out @ rest) = out2 @ rest" by (simp add: out)
  then show ?case
    using IH d by (simp add: take_add)
qed simp

lemma length_encrypt_tail [simp]: "length (fst (encrypt_tail stream i tail ck)) = length tail"
  by (induction tail arbitrary: i ck) (simp_all add: Let_def case_prod_beta')

lemma length_decrypt_tail [simp]: "length (fst (decrypt_tail stream i tail ck)) = length tail"
  by (induction tail arbitrary: i ck) (simp_all add: Let_def case_prod_beta')

lemma tail_roundtrip:
  "encrypt_tail stream i tail ck = (out, ck') \<Longrightarrow> decrypt_tail stream i out ck = (tail, ck')"
  by (induction tail arbitrary: i ck out ck')
     (auto simp: Let_def xor.assoc split: prod.splits)

section \<open>The checksum notices every changed byte\<close>

text \<open>The loops only XOR into the running checksum, so a difference in it survives them.\<close>

lemma xor_cancel:
  "(a XOR b = a XOR c) = (b = (c :: 'w::len word))" "(b XOR a = c XOR a) = (b = (c :: 'w::len word))"
  by (metis xor.assoc xor.commute xor.left_neutral xor_self_eq)+

lemma push_byte_inj:
  assumes "i \<le> 24" "push_bit i (ucast (x :: u8)) = (push_bit i (ucast y) :: u32)"
  shows "x = y"
proof (rule bit_word_eqI)
  fix n assume "n < LENGTH(8)"
  moreover have "bit (push_bit i (ucast x :: u32)) (n + i) = bit (push_bit i (ucast y :: u32)) (n + i)"
    using assms(2) by simp
  ultimately show "bit x n = bit y n"
    using assms(1) by (simp add: bit_simps)
qed

lemma blocks_checksum_linear:
  assumes "n * 16 \<le> length data" "length keys = 4"
  shows "snd (crypt_blocks decrypt_word keys n data ck) =
         ck XOR snd (crypt_blocks decrypt_word keys n data 0)"
  using assms
proof (induction n arbitrary: data ck)
  case (Suc n)
  have "length (take 16 data) = 16" using Suc.prems by simp
  then obtain w0 w1 w2 w3 where w: "take 16 data = le32 w0 @ le32 w1 @ le32 w2 @ le32 w3"
    by (rule block_words)
  obtain k0 k1 k2 k3 where k: "keys = [k0, k1, k2, k3]"
    using Suc.prems(2) by (rule length_4E)
  let ?c = "(w0 XOR k0) XOR (w1 XOR k1) XOR (w2 XOR k2) XOR (w3 XOR k3)"
  have *: "snd (crypt_blocks decrypt_word keys n (drop 16 data) c) =
      c XOR snd (crypt_blocks decrypt_word keys n (drop 16 data) 0)" for c
    using Suc.prems by (intro Suc.IH) simp_all
  have "snd (crypt_blocks decrypt_word keys (Suc n) data c) =
      snd (crypt_blocks decrypt_word keys n (drop 16 data) (c XOR ?c))" for c
    by (simp add: w k decrypt_block Let_def case_prod_beta' xor.assoc del: enumerate_simps)
  then show ?case
    using *[of "ck XOR ?c"] *[of "0 XOR ?c"] by (simp only: xor.assoc xor.left_neutral)
qed simp

lemma tail_checksum_linear:
  "snd (decrypt_tail stream i tail ck) = ck XOR snd (decrypt_tail stream i tail 0)"
proof (induction tail arbitrary: i ck)
  case (Cons b tail)
  show ?case
    by (simp add: Let_def case_prod_beta')
       (subst (1 2) Cons.IH, simp add: xor.assoc)
qed simp

lemma le32_update_neq:
  assumes "i < 4" "b \<noteq> le32 w ! i"
  obtains w' where "(le32 w)[i := b] = le32 w'" "w' \<noteq> w"
proof -
  have "le32 (of_le32 ((le32 w)[i := b])) = (le32 w)[i := b]"
    by (simp add: le32_of_le32_take)
  moreover have "(le32 w)[i := b] \<noteq> le32 w"
    using assms by (metis length_le(2) nth_list_update_eq)
  ultimately show thesis by (metis that)
qed

lemma words_update_neq:
  assumes "i < 4 * length ws" "b \<noteq> concat (map le32 ws) ! i"
  obtains w' where "(concat (map le32 ws))[i := b] = concat (map le32 (ws[i div 4 := w']))"
    and "w' \<noteq> ws ! (i div 4)"
  using assms
proof (induction ws arbitrary: i thesis)
  case (Cons w ws)
  show ?case
  proof (cases "i < 4")
    case True
    with Cons.prems(3) have "b \<noteq> le32 w ! i" by (simp add: nth_append)
    with True obtain w' where "(le32 w)[i := b] = le32 w'" "w' \<noteq> w" by (rule le32_update_neq)
    with True Cons.prems(1)[of w'] show ?thesis by (simp add: list_update_append)
  next
    case False
    then have div: "i div 4 = Suc ((i - 4) div 4)" by (simp add: le_div_geq)
    have "i - 4 < 4 * length ws" "b \<noteq> concat (map le32 ws) ! (i - 4)"
      using False Cons.prems(2,3) by (auto simp: nth_append)
    then obtain w' where
      "(concat (map le32 ws))[i - 4 := b] = concat (map le32 (ws[(i - 4) div 4 := w']))"
      "w' \<noteq> ws ! ((i - 4) div 4)"
      by (rule Cons.IH[rotated])
    with False Cons.prems(1)[of w'] show ?thesis
      by (simp add: div list_update_append)
  qed
qed simp

lemma block_checksum_changes:
  assumes "length block = 16" "length keys = 4" "i < 16" "b \<noteq> block ! i"
  shows "snd (foldl decrypt_word (block[i := b], ck) (enumerate 0 keys)) \<noteq>
         snd (foldl decrypt_word (block, ck) (enumerate 0 keys))"
proof -
  obtain w0 w1 w2 w3 where w: "block = concat (map le32 [w0, w1, w2, w3])"
    using assms(1) by (rule block_words) simp
  obtain k0 k1 k2 k3 where k: "keys = [k0, k1, k2, k3]"
    using assms(2) by (rule length_4E)
  have "i < 4 * length [w0, w1, w2, w3]" using assms(3) by simp
  from this assms(4)[unfolded w] obtain w' where
    w': "block[i := b] = concat (map le32 ([w0, w1, w2, w3][i div 4 := w']))"
    "w' \<noteq> [w0, w1, w2, w3] ! (i div 4)"
    unfolding w by (rule words_update_neq)
  consider "i div 4 = 0" | "i div 4 = Suc 0" | "i div 4 = Suc (Suc 0)" | "i div 4 = Suc (Suc (Suc 0))"
    using assms(3) by linarith
  then show ?thesis
    using w'(2) unfolding w'(1) unfolding w k
    by cases (simp_all only: list_update.simps nat.case nth_Cons_0 nth_Cons_Suc concat.simps list.map
        append_Nil2 decrypt_block snd_conv xor_cancel not_False_eq_True)
qed

lemma blocks_checksum_changes:
  assumes "n * 16 \<le> length data" "length keys = 4" "i < n * 16" "b \<noteq> data ! i"
  shows "snd (crypt_blocks decrypt_word keys n (data[i := b]) ck) \<noteq>
         snd (crypt_blocks decrypt_word keys n data ck)"
  using assms
proof (induction n arbitrary: data i ck)
  case (Suc n)
  let ?blk = "\<lambda>d. foldl decrypt_word (take 16 d, ck) (enumerate 0 keys)"
  have unfold: "snd (crypt_blocks decrypt_word keys (Suc n) d ck) =
      snd (?blk d) XOR snd (crypt_blocks decrypt_word keys n (drop 16 d) 0)"
    if "length d = length data" for d
    using Suc.prems(1,2) that blocks_checksum_linear[of n "drop 16 d" keys "snd (?blk d)"]
    by (simp add: Let_def case_prod_beta')
  show ?case
  proof (cases "i < 16")
    case True
    then have "snd (?blk (data[i := b])) \<noteq> snd (?blk data)"
      using Suc.prems block_checksum_changes[of "take 16 data" keys i b ck]
      by (simp add: take_update_swap)
    with True show ?thesis by (simp add: unfold xor_cancel del: crypt_blocks.simps)
  next
    case False
    have "snd (crypt_blocks decrypt_word keys n ((drop 16 data)[i - 16 := b]) 0) \<noteq>
        snd (crypt_blocks decrypt_word keys n (drop 16 data) 0)"
      using False Suc.prems by (intro Suc.IH) auto
    with False show ?thesis
      by (simp add: unfold xor_cancel drop_update_swap del: crypt_blocks.simps)
  qed
qed simp

lemma tail_checksum_changes:
  assumes "j < length tail" "b \<noteq> tail ! j" "i + j \<le> 24"
  shows "snd (decrypt_tail stream i (tail[j := b]) ck) \<noteq> snd (decrypt_tail stream i tail ck)"
  using assms
proof (induction tail arbitrary: i j ck)
  case (Cons a tail)
  have unfold: "snd (decrypt_tail stream i (x # t) ck) = ck XOR
      push_bit i (ucast (x XOR stream ! i)) XOR snd (decrypt_tail stream (Suc i) t 0)" for x t
    using tail_checksum_linear[of stream "Suc i" t "ck XOR push_bit i (ucast (x XOR stream ! i))"]
    by (simp add: Let_def case_prod_beta' xor.assoc)
  show ?case
  proof (cases j)
    case 0
    have "push_bit i (ucast (b XOR stream ! i) :: u32) \<noteq> push_bit i (ucast (a XOR stream ! i))"
      using Cons.prems 0 push_byte_inj[of i "b XOR stream ! i" "a XOR stream ! i"]
      by (auto simp: xor_cancel)
    with 0 show ?thesis by (simp only: unfold list_update_code xor_cancel not_False_eq_True)
  next
    case (Suc j')
    with Cons show ?thesis
      by (simp only: unfold list_update_code xor_cancel length_Cons) simp
  qed
qed simp

section \<open>The transform as its clients see it\<close>

theorem decrypt_encrypt:
  assumes "encrypt_in_place data key = (cipher, checksum)"
  shows "decrypt_in_place cipher key = (data, checksum)"
proof -
  let ?n = "length data div 16" and ?keys = "derived_keys key"
  obtain body ck tail where b: "crypt_blocks encrypt_word ?keys ?n data 0 = (body, ck)"
    and t: "encrypt_tail (key_stream ?keys) 0 (drop (?n * 16) data) ck = (tail, checksum)"
    and c: "cipher = body @ tail"
    using assms by (auto simp: encrypt_in_place_def Let_def split: prod.splits)
  have "length body = ?n * 16"
    using crypt_blocks_length[of encrypt_word ?n data ?keys 0] b by simp
  moreover have "length tail = length data - ?n * 16"
    using length_encrypt_tail[of "key_stream ?keys" 0 "drop (?n * 16) data" ck] t by simp
  ultimately have len: "length cipher = length data" "drop (?n * 16) cipher = tail"
    by (simp_all add: c)
  have "crypt_blocks decrypt_word ?keys ?n cipher 0 = (take (?n * 16) data, ck)"
    unfolding c by (rule crypt_blocks_roundtrip[OF _ _ b]) simp_all
  moreover have "decrypt_tail (key_stream ?keys) 0 tail ck = (drop (?n * 16) data, checksum)"
    by (rule tail_roundtrip[OF t])
  ultimately show ?thesis
    using len by (simp add: decrypt_in_place_def Let_def)
qed

lemma length_encrypt [simp]: "length (fst (encrypt_in_place data key)) = length data"
  using crypt_blocks_length[of encrypt_word "length data div 16" data "derived_keys key" 0]
  by (simp add: encrypt_in_place_def Let_def case_prod_beta')

lemma length_decrypt [simp]: "length (fst (decrypt_in_place data key)) = length data"
  using crypt_blocks_length[of decrypt_word "length data div 16" data "derived_keys key" 0]
  by (simp add: decrypt_in_place_def Let_def case_prod_beta')

theorem decrypt_checksum_changes:
  assumes "i < length cipher" "b \<noteq> cipher ! i"
  shows "snd (decrypt_in_place (cipher[i := b]) key) \<noteq> snd (decrypt_in_place cipher key)"
proof -
  let ?n = "length cipher div 16" and ?keys = "derived_keys key"
  let ?sum = "\<lambda>c. snd (crypt_blocks decrypt_word ?keys ?n c 0)"
  let ?tail = "\<lambda>c. decrypt_tail (key_stream ?keys) 0 (drop (?n * 16) c)"
  have unfold: "snd (decrypt_in_place c key) = ?sum c XOR snd (?tail c 0)"
    if "length c = length cipher" for c
    using that tail_checksum_linear[of "key_stream ?keys" 0 "drop (?n * 16) c" "?sum c"]
    by (simp add: decrypt_in_place_def Let_def case_prod_beta')
  show ?thesis
  proof (cases "i < ?n * 16")
    case True
    with assms show ?thesis
      by (simp add: unfold xor_cancel blocks_checksum_changes)
  next
    case False
    have "snd (decrypt_tail (key_stream ?keys) 0 ((drop (?n * 16) cipher)[i - ?n * 16 := b]) 0)
        \<noteq> snd (?tail cipher 0)"
      using False assms by (intro tail_checksum_changes) auto
    moreover have "take (?n * 16) (cipher[i := b]) = take (?n * 16) cipher"
      using False by simp
    then have "?sum (cipher[i := b]) = ?sum cipher"
      by (metis crypt_blocks_take)
    ultimately show ?thesis
      using False by (simp add: unfold xor_cancel drop_update_swap)
  qed
qed

text \<open>
  The interface of the two envelopes. A client seals a payload as the ciphertext followed by its
  checksum, XORed with the key and a constant of its own, and opens it the other way round.
\<close>

locale checksummed_cipher =
  fixes enc :: "bytes \<Rightarrow> u32 \<Rightarrow> bytes \<times> u32"
    and dec :: "bytes \<Rightarrow> u32 \<Rightarrow> bytes \<times> u32"
  assumes dec_enc: "enc data key = (cipher, checksum) \<Longrightarrow> dec cipher key = (data, checksum)"
    and enc_length: "length (fst (enc data key)) = length data"
    and dec_detects: "i < length cipher \<Longrightarrow> b \<noteq> cipher ! i \<Longrightarrow>
      snd (dec (cipher[i := b]) key) \<noteq> snd (dec cipher key)"
begin

lemma open_sealed:
  assumes "enc data key = (cipher, checksum)"
  shows "fst (dec cipher key) = data"
    and "snd (dec cipher key) = key XOR (key XOR checksum XOR tag) XOR tag"
  using dec_enc[OF assms] by (simp_all add: xor.assoc xor.left_commute)

lemma sealed_byte_detected:
  assumes "enc data key = (cipher, checksum)" "i < length cipher" "b \<noteq> cipher ! i"
  shows "snd (dec (cipher[i := b]) key) \<noteq> key XOR (key XOR checksum XOR tag) XOR tag"
  using dec_detects[OF assms(2,3), of key] open_sealed(2)[OF assms(1), of tag] by simp

lemma sealed_trailer_detected:
  assumes "enc data key = (cipher, checksum)" "trailer \<noteq> key XOR checksum XOR tag"
  shows "snd (dec cipher key) \<noteq> key XOR trailer XOR tag"
  using assms(2) open_sealed(2)[OF assms(1), of tag] by (simp add: xor_cancel)

end

interpretation p4475: checksummed_cipher encrypt_in_place decrypt_in_place
  by unfold_locales (simp_all add: decrypt_encrypt decrypt_checksum_changes)

end
