(* ===== verification/Framing.thy ===== *)
theory Framing
  imports Cipher
begin

text \<open>
  The two wire envelopes: TCP frames (\<open>crates/p4475-core/src/frame.rs\<close>), whose key is an
  initialisation vector both ends advance after each frame, and UDP datagrams
  (\<open>crates/p4475-core/src/datagram.rs\<close>), which carry their key in clear.
\<close>

section \<open>TCP frames\<close>

definition HEADER_XOR :: u32 where "HEADER_XOR = 4164199944"
definition CHECKSUM_XOR :: u32 where "CHECKSUM_XOR = 3388492432"
definition IV_INCREMENT :: u32 where "IV_INCREMENT = 21446425"
definition DEFAULT_MAX_PAYLOAD :: nat where "DEFAULT_MAX_PAYLOAD = 1048576"

datatype frame_error =
  PayloadTooLarge nat nat
| PayloadLengthOverflow
| FrameTruncated nat nat
| InvalidEncryptedLength u32
| LengthMismatch nat nat
| FrameChecksumMismatch

definition advance_iv :: "u32 \<Rightarrow> u32" where
  "advance_iv iv = (let nxt = iv + IV_INCREMENT in if nxt = 0 then 1 else nxt)"

definition validate_payload_length :: "nat \<Rightarrow> nat \<Rightarrow> frame_error + unit" where
  "validate_payload_length len maximum =
     (if maximum < len then Inl (PayloadTooLarge len maximum) else Inr ())"

definition encode_plain :: "bytes \<Rightarrow> nat \<Rightarrow> frame_error + bytes" where
  "encode_plain payload maximum =
     attempt (validate_payload_length (length payload) maximum) (\<lambda>_.
     attempt (ok_or PayloadLengthOverflow (u32_try_from (length payload))) (\<lambda>len.
     Inr (le32 len @ payload)))"

definition decode_plain :: "bytes \<Rightarrow> nat \<Rightarrow> frame_error + bytes" where
  "decode_plain frame maximum =
     (if length frame < 4 then Inl (FrameTruncated 4 (length frame))
      else
        let payload_length = unat (of_le32 frame) in
        attempt (validate_payload_length payload_length maximum) (\<lambda>_.
        attempt (ok_or PayloadLengthOverflow (usize_checked_add payload_length 4)) (\<lambda>expected.
        if length frame \<noteq> expected then Inl (LengthMismatch expected (length frame))
        else Inr (drop 4 frame))))"

definition encrypted_body_length :: "u32 \<Rightarrow> u32 \<Rightarrow> nat \<Rightarrow> frame_error + nat" where
  "encrypted_body_length encoded_header iv maximum =
     (let declared = iv XOR encoded_header XOR HEADER_XOR in
      if declared < 4 then Inl (InvalidEncryptedLength declared)
      else
        let payload_length = unat (declared - 4) in
        attempt (validate_payload_length payload_length maximum) (\<lambda>_.
        Inr (unat declared)))"

text \<open>The second component is \<open>iv\<close> as the call leaves it.\<close>

definition encode_encrypted :: "bytes \<Rightarrow> u32 \<Rightarrow> nat \<Rightarrow> (frame_error + bytes) \<times> u32" where
  "encode_encrypted payload iv maximum =
     (case attempt (validate_payload_length (length payload) maximum) (\<lambda>_.
           attempt (ok_or PayloadLengthOverflow (u32_try_from (length payload))) (\<lambda>payload_length.
           ok_or PayloadLengthOverflow (u32_checked_add payload_length 4))) of
        Inl e \<Rightarrow> (Inl e, iv)
      | Inr declared \<Rightarrow>
          let active_iv = iv;
              encoded_header = active_iv XOR declared XOR HEADER_XOR;
              (encrypted, checksum) = encrypt_in_place payload active_iv;
              encoded_checksum = active_iv XOR checksum XOR CHECKSUM_XOR
          in (Inr (le32 encoded_header @ encrypted @ le32 encoded_checksum), advance_iv active_iv))"

definition decode_encrypted :: "bytes \<Rightarrow> u32 \<Rightarrow> nat \<Rightarrow> (frame_error + bytes) \<times> u32" where
  "decode_encrypted frame iv maximum =
     (if length frame < 4 then (Inl (FrameTruncated 4 (length frame)), iv)
      else
        let active_iv = iv; encoded_header = of_le32 frame in
        case attempt (encrypted_body_length encoded_header active_iv maximum) (\<lambda>body_length.
             attempt (ok_or PayloadLengthOverflow (usize_checked_add body_length 4)) (\<lambda>expected.
             ensure (length frame = expected) (LengthMismatch expected (length frame)))) of
          Inl e \<Rightarrow> (Inl e, iv)
        | Inr _ \<Rightarrow>
            let payload_end = length frame - 4;
                encoded_checksum = of_le32 (drop payload_end frame);
                (payload, actual_checksum) =
                  decrypt_in_place (drop 4 (take payload_end frame)) active_iv;
                expected_checksum = active_iv XOR encoded_checksum XOR CHECKSUM_XOR
            in if actual_checksum \<noteq> expected_checksum then (Inl FrameChecksumMismatch, iv)
               else (Inr payload, advance_iv active_iv))"

subsection \<open>Errors leave the vector alone\<close>

lemma validate_payload_length_Inr [simp]:
  "validate_payload_length len maximum = Inr u \<longleftrightarrow> len \<le> maximum"
  by (auto simp: validate_payload_length_def)

lemma validate_payload_length_ok [simp]:
  "len \<le> maximum \<Longrightarrow> validate_payload_length len maximum = Inr ()"
  by simp

lemma advance_iv_nonzero: "advance_iv iv \<noteq> 0"
  by (simp add: advance_iv_def Let_def)

lemma encode_encrypted_cases:
  obtains (error) e where "encode_encrypted payload iv maximum = (Inl e, iv)"
      "\<not> (length payload \<le> maximum \<and> length payload + 4 < 2 ^ 32)"
  | (ok) declared cipher checksum where
      "encode_encrypted payload iv maximum =
         (Inr (le32 (iv XOR declared XOR HEADER_XOR) @ cipher @
               le32 (iv XOR checksum XOR CHECKSUM_XOR)), advance_iv iv)"
      "length payload \<le> maximum" "unat declared = length payload + 4"
      "encrypt_in_place payload iv = (cipher, checksum)"
proof (cases "attempt (validate_payload_length (length payload) maximum) (\<lambda>_.
           attempt (ok_or PayloadLengthOverflow (u32_try_from (length payload))) (\<lambda>payload_length.
           ok_or PayloadLengthOverflow (u32_checked_add payload_length 4)))")
  case (Inl e)
  then have "\<not> (length payload \<le> maximum \<and> length payload + 4 < 2 ^ 32)"
    by (auto simp: result_eqs validate_payload_length_def u32_try_from_Some u32_try_from_None
        u32_checked_add_None split: if_splits)
  with Inl show thesis by (intro error) (auto simp: encode_encrypted_def)
next
  case (Inr declared)
  then have "length payload \<le> maximum" "unat declared = length payload + 4"
    by (auto simp: result_eqs u32_try_from_Some u32_checked_add_Some)
  with Inr ok show thesis
    by (cases "encrypt_in_place payload iv") (simp add: encode_encrypted_def Let_def)
qed

lemma decode_encrypted_iv:
  "decode_encrypted frame iv maximum = (Inl e, iv') \<Longrightarrow> iv' = iv"
  by (auto simp: decode_encrypted_def Let_def split: if_splits sum.splits prod.splits)

lemma encrypted_body_length_bound:
  assumes "encrypted_body_length encoded_header iv maximum = Inr n"
  shows "4 \<le> n" and "n \<le> maximum + 4" and "n < 2 ^ 32"
    and "n = unat (iv XOR encoded_header XOR HEADER_XOR)"
proof -
  let ?d = "iv XOR encoded_header XOR HEADER_XOR"
  have d: "\<not> ?d < 4" "unat (?d - 4) \<le> maximum" "n = unat ?d"
    using assms by (auto simp: encrypted_body_length_def Let_def result_eqs split: if_splits)
  then have "4 \<le> unat ?d" by (simp add: word_less_nat_alt not_less)
  then show "4 \<le> n" "n \<le> maximum + 4" "n < 2 ^ 32" "n = unat ?d"
    using d unat_u32_less[of ?d] by (simp_all add: unat_sub word_le_nat_alt)
qed

lemma encrypted_body_length_ok:
  assumes "unat declared = n + 4" "n \<le> maximum"
  shows "encrypted_body_length (iv XOR declared XOR HEADER_XOR) iv maximum = Inr (n + 4)"
proof -
  have "iv XOR (iv XOR declared XOR HEADER_XOR) XOR HEADER_XOR = declared"
    by (simp add: xor.assoc xor.left_commute)
  moreover have "\<not> declared < 4" using assms by (simp add: word_less_nat_alt)
  moreover from this have "unat (declared - 4) = n"
    using assms by (simp add: unat_sub word_le_nat_alt word_less_nat_alt)
  ultimately show ?thesis
    using assms by (simp add: encrypted_body_length_def Let_def)
qed

subsection \<open>Round trip and corruption\<close>

lemma decode_sealed:
  assumes "unat declared = length cipher + 4" "length cipher \<le> maximum"
  shows "decode_encrypted (le32 (iv XOR declared XOR HEADER_XOR) @ cipher @ le32 trailer) iv maximum =
     (let (payload, checksum) = decrypt_in_place cipher iv in
      if checksum \<noteq> iv XOR trailer XOR CHECKSUM_XOR then (Inl FrameChecksumMismatch, iv)
      else (Inr payload, advance_iv iv))"
proof -
  have "length cipher < 2 ^ 32" using assms(1) unat_u32_less[of declared] by simp
  then show ?thesis
    using encrypted_body_length_ok[OF assms]
    by (simp add: decode_encrypted_def Let_def del: encrypted_body_length_def)
qed

lemma decode_encode_encrypted:
  assumes "encode_encrypted payload iv maximum = (Inr frame, iv')"
  shows "decode_encrypted frame iv maximum = (Inr payload, iv')"
proof (cases rule: encode_encrypted_cases[of payload iv maximum])
  case (ok declared cipher checksum)
  have "length cipher = length payload"
    using length_encrypt[of payload iv] ok(4) by simp
  with ok assms show ?thesis
    using p4475.open_sealed(1)[OF ok(4)] p4475.open_sealed(2)[OF ok(4), of CHECKSUM_XOR]
    by (auto simp: decode_sealed case_prod_beta')
qed (use assms in simp)

lemma decode_corrupted_header:
  assumes "decode_encrypted frame iv maximum = (Inr payload, iv')" "i < 4" "b \<noteq> frame ! i"
  shows "\<exists>e. decode_encrypted (frame[i := b]) iv maximum = (Inl e, iv)"
proof -
  let ?h = "of_le32 frame" and ?h' = "of_le32 (frame[i := b])"
  have len: "4 \<le> length frame" and
    n: "encrypted_body_length ?h iv maximum = Inr (length frame - 4)"
    using assms(1)
    by (auto simp: decode_encrypted_def Let_def result_eqs usize_checked_add_def
        split: if_splits sum.splits prod.splits)
  have "le32 ?h' = (take 4 frame)[i := b]" "le32 ?h = take 4 frame"
    using len assms(2) by (simp_all add: le32_of_le32_take take_update_swap)
  then have "?h' \<noteq> ?h"
    using assms(2,3) len by (metis length_take min.absorb2 nth_list_update_eq nth_take)
  then have "iv XOR ?h' XOR HEADER_XOR \<noteq> iv XOR ?h XOR HEADER_XOR"
    by (simp add: xor_cancel)
  then have "encrypted_body_length ?h' iv maximum \<noteq> Inr (length frame - 4)"
    using encrypted_body_length_bound(4)[OF n] encrypted_body_length_bound(4)
    by (metis word_unat_eq_iff)
  then show ?thesis
    using len
    by (cases "encrypted_body_length ?h' iv maximum")
       (auto simp: decode_encrypted_def Let_def usize_checked_add_def result_eqs
         split: sum.splits if_splits prod.splits)
qed

lemma encode_corrupted:
  assumes "encode_encrypted payload iv maximum = (Inr frame, iv')"
    and "i < length frame" "b \<noteq> frame ! i"
  shows "\<exists>e. decode_encrypted (frame[i := b]) iv maximum = (Inl e, iv)"
proof (cases rule: encode_encrypted_cases[of payload iv maximum])
  case (ok declared cipher checksum)
  let ?trailer = "iv XOR checksum XOR CHECKSUM_XOR"
  have lc: "length cipher = length payload"
    using length_encrypt[of payload iv] ok(4) by simp
  have f: "frame = le32 (iv XOR declared XOR HEADER_XOR) @ cipher @ le32 ?trailer"
    using assms(1) ok(1) by simp
  consider "i < 4" | "4 \<le> i" "i - 4 < length cipher" | "4 + length cipher \<le> i"
    by linarith
  then show ?thesis
  proof cases
    case 1
    from decode_encode_encrypted[OF assms(1)] 1 assms(3) show ?thesis
      by (rule decode_corrupted_header)
  next
    case 2
    then have "b \<noteq> cipher ! (i - 4)" using assms(3) by (simp add: f nth_append)
    with 2 have "snd (decrypt_in_place (cipher[i - 4 := b]) iv) \<noteq>
        iv XOR ?trailer XOR CHECKSUM_XOR"
      by (intro p4475.sealed_byte_detected[OF ok(4)])
    moreover have "frame[i := b] =
        le32 (iv XOR declared XOR HEADER_XOR) @ cipher[i - 4 := b] @ le32 ?trailer"
      using 2 by (simp add: f list_update_append)
    ultimately show ?thesis
      using ok lc by (simp add: decode_sealed Let_def case_prod_beta')
  next
    case 3
    let ?j = "i - 4 - length cipher"
    have "?j < 4" using 3 assms(2) by (simp add: f)
    moreover have "\<not> i < 4" "\<not> i - 4 < length cipher" using 3 by linarith+
    then have "b \<noteq> le32 ?trailer ! ?j" using assms(3) by (simp add: f nth_append)
    ultimately obtain trailer where t: "(le32 ?trailer)[?j := b] = le32 trailer" "trailer \<noteq> ?trailer"
      by (rule le32_update_neq)
    have "frame[i := b] = le32 (iv XOR declared XOR HEADER_XOR) @ cipher @ le32 trailer"
      using 3 t(1) \<open>\<not> i < 4\<close> \<open>\<not> i - 4 < length cipher\<close>
      by (simp add: f list_update_append)
    with ok lc p4475.sealed_trailer_detected[OF ok(4) t(2)] show ?thesis
      by (simp add: decode_sealed Let_def case_prod_beta')
  qed
qed (use assms in simp)

text \<open>Several frames in a row: both ends step the vector once per frame.\<close>

fun encode_stream :: "bytes list \<Rightarrow> u32 \<Rightarrow> nat \<Rightarrow> (frame_error + bytes list) \<times> u32" where
  "encode_stream [] iv maximum = (Inr [], iv)"
| "encode_stream (p # ps) iv maximum =
     (case encode_encrypted p iv maximum of
        (Inl e, iv') \<Rightarrow> (Inl e, iv')
      | (Inr f, iv') \<Rightarrow>
          (case encode_stream ps iv' maximum of
             (Inl e, iv'') \<Rightarrow> (Inl e, iv'')
           | (Inr fs, iv'') \<Rightarrow> (Inr (f # fs), iv'')))"

fun decode_stream :: "bytes list \<Rightarrow> u32 \<Rightarrow> nat \<Rightarrow> (frame_error + bytes list) \<times> u32" where
  "decode_stream [] iv maximum = (Inr [], iv)"
| "decode_stream (f # fs) iv maximum =
     (case decode_encrypted f iv maximum of
        (Inl e, iv') \<Rightarrow> (Inl e, iv')
      | (Inr p, iv') \<Rightarrow>
          (case decode_stream fs iv' maximum of
             (Inl e, iv'') \<Rightarrow> (Inl e, iv'')
           | (Inr ps, iv'') \<Rightarrow> (Inr (p # ps), iv'')))"

section \<open>UDP datagrams\<close>

definition DATAGRAM_OVERHEAD :: nat where "DATAGRAM_OVERHEAD = 8"
definition ROUTED_HEADER_LENGTH :: nat where "ROUTED_HEADER_LENGTH = 12"
definition DATAGRAM_CHECKSUM_XOR :: u32 where "DATAGRAM_CHECKSUM_XOR = 1329075907"
definition DEFAULT_MAX_DATAGRAM_PAYLOAD :: nat where "DEFAULT_MAX_DATAGRAM_PAYLOAD = 65499"

datatype datagram_error =
  DatagramTooLarge nat nat
| DatagramTruncated nat nat
| DatagramChecksumMismatch
| RoutedHeaderTruncated nat

record routed_payload =
  account_id :: u32
  route_hash :: u32
  packet_name :: u32
  routed_body :: bytes

definition validate_datagram_length :: "nat \<Rightarrow> nat \<Rightarrow> datagram_error + unit" where
  "validate_datagram_length len maximum =
     (if maximum < len then Inl (DatagramTooLarge len maximum) else Inr ())"

definition encode_datagram :: "bytes \<Rightarrow> u32 \<Rightarrow> nat \<Rightarrow> datagram_error + bytes" where
  "encode_datagram payload iv maximum =
     attempt (validate_datagram_length (length payload) maximum) (\<lambda>_.
       let (encrypted, checksum) = encrypt_in_place payload iv;
           encoded_checksum = iv XOR checksum XOR DATAGRAM_CHECKSUM_XOR
       in Inr (le32 iv @ encrypted @ le32 encoded_checksum))"

definition decode_datagram :: "bytes \<Rightarrow> nat \<Rightarrow> datagram_error + (u32 \<times> bytes)" where
  "decode_datagram wire maximum =
     (if length wire < DATAGRAM_OVERHEAD
      then Inl (DatagramTruncated DATAGRAM_OVERHEAD (length wire))
      else
        let payload_length = length wire - DATAGRAM_OVERHEAD in
        attempt (validate_datagram_length payload_length maximum) (\<lambda>_.
          let iv = read_word wire 0;
              checksum_offset = length wire - 4;
              encoded_checksum = read_word wire checksum_offset;
              (payload, actual_checksum) =
                decrypt_in_place (drop 4 (take checksum_offset wire)) iv;
              expected_checksum = iv XOR encoded_checksum XOR DATAGRAM_CHECKSUM_XOR
          in if actual_checksum \<noteq> expected_checksum then Inl DatagramChecksumMismatch
             else Inr (iv, payload)))"

definition parse_routed_payload :: "bytes \<Rightarrow> datagram_error + routed_payload" where
  "parse_routed_payload payload =
     (if length payload < ROUTED_HEADER_LENGTH
      then Inl (RoutedHeaderTruncated (length payload))
      else Inr \<lparr>account_id = read_word payload 0, route_hash = read_word payload 4,
                packet_name = read_word payload 8, routed_body = drop ROUTED_HEADER_LENGTH payload\<rparr>)"

lemma validate_datagram_length_Inr [simp]:
  "validate_datagram_length len maximum = Inr u \<longleftrightarrow> len \<le> maximum"
  by (auto simp: validate_datagram_length_def)

lemma validate_datagram_length_ok [simp]:
  "len \<le> maximum \<Longrightarrow> validate_datagram_length len maximum = Inr ()"
  by simp

lemma decode_sealed_datagram:
  assumes "length cipher \<le> maximum"
  shows "decode_datagram (le32 iv @ cipher @ le32 trailer) maximum =
     (let (payload, checksum) = decrypt_in_place cipher iv in
      if checksum \<noteq> iv XOR trailer XOR DATAGRAM_CHECKSUM_XOR then Inl DatagramChecksumMismatch
      else Inr (iv, payload))"
  using assms by (simp add: decode_datagram_def DATAGRAM_OVERHEAD_def Let_def read_word_def)

lemma encode_datagram_ok:
  assumes "encode_datagram payload iv maximum = Inr wire"
  obtains cipher checksum where "encrypt_in_place payload iv = (cipher, checksum)"
    "length cipher \<le> maximum" "length cipher = length payload"
    "wire = le32 iv @ cipher @ le32 (iv XOR checksum XOR DATAGRAM_CHECKSUM_XOR)"
  using assms length_encrypt[of payload iv]
  by (cases "encrypt_in_place payload iv") (auto simp: encode_datagram_def result_eqs Let_def)

lemma decode_encode_datagram:
  assumes "encode_datagram payload iv maximum = Inr wire"
  shows "decode_datagram wire maximum = Inr (iv, payload)"
  using assms
proof (rule encode_datagram_ok)
  fix cipher checksum
  assume enc: "encrypt_in_place payload iv = (cipher, checksum)" and "length cipher \<le> maximum"
    and w: "wire = le32 iv @ cipher @ le32 (iv XOR checksum XOR DATAGRAM_CHECKSUM_XOR)"
  then show ?thesis
    using p4475.open_sealed(1)[OF enc] p4475.open_sealed(2)[OF enc, of DATAGRAM_CHECKSUM_XOR]
    by (simp add: w decode_sealed_datagram case_prod_beta')
qed

lemma datagram_corrupted:
  assumes "encode_datagram payload iv maximum = Inr wire"
    and "4 \<le> i" "i < length wire" "b \<noteq> wire ! i"
  shows "decode_datagram (wire[i := b]) maximum = Inl DatagramChecksumMismatch"
  using assms(1)
proof (rule encode_datagram_ok)
  fix cipher checksum
  assume enc: "encrypt_in_place payload iv = (cipher, checksum)" and le: "length cipher \<le> maximum"
    and w: "wire = le32 iv @ cipher @ le32 (iv XOR checksum XOR DATAGRAM_CHECKSUM_XOR)"
  let ?trailer = "iv XOR checksum XOR DATAGRAM_CHECKSUM_XOR"
  have i4: "\<not> i < 4" using assms(2) by simp
  show ?thesis
  proof (cases "i - 4 < length cipher")
    case True
    then have "b \<noteq> cipher ! (i - 4)" using assms(4) i4 by (simp add: w nth_append)
    with True have "snd (decrypt_in_place (cipher[i - 4 := b]) iv) \<noteq>
        iv XOR ?trailer XOR DATAGRAM_CHECKSUM_XOR"
      by (intro p4475.sealed_byte_detected[OF enc])
    with True i4 le show ?thesis
      by (simp add: w list_update_append decode_sealed_datagram case_prod_beta')
  next
    case False
    let ?j = "i - 4 - length cipher"
    have "?j < 4" using assms(2,3) False by (simp add: w)
    moreover have "b \<noteq> le32 ?trailer ! ?j" using assms(4) i4 False by (simp add: w nth_append)
    ultimately obtain trailer where t: "(le32 ?trailer)[?j := b] = le32 trailer" "trailer \<noteq> ?trailer"
      by (rule le32_update_neq)
    have "wire[i := b] = le32 iv @ cipher @ le32 trailer"
      using False i4 t(1) by (simp add: w list_update_append)
    with le p4475.sealed_trailer_detected[OF enc t(2)] show ?thesis
      by (simp add: decode_sealed_datagram case_prod_beta')
  qed
qed

section \<open>Properties\<close>

lemma sample_stream: "encode_stream [[1, 2, 3], [4]] 7 16 =
    (Inr [[8, 166, 52, 248, 206, 5, 176, 158, 74, 248, 201], [45, 153, 115, 249, 236, 180, 117, 191, 200]],
     42892857)"
  by code_simp

lemma sample_frame: "encode_encrypted [1, 2, 3] 7 16 =
    (Inr [8, 166, 52, 248, 206, 5, 176, 158, 74, 248, 201], 21446432)"
  by code_simp

text \<open>C25. Frame-stream round trip. Whatever a sender encodes, frame after frame from a shared
  vector, a receiver that starts from the same vector decodes to the same payloads, and the two
  ends finish with the same vector.\<close>

theorem stream_roundtrip:
  assumes "encode_stream ps iv maximum = (Inr fs, iv')"
  shows "decode_stream fs iv maximum = (Inr ps, iv')"
  using assms
proof (induction ps arbitrary: iv fs)
  case (Cons p ps)
  then obtain f iv1 fs1 where "encode_encrypted p iv maximum = (Inr f, iv1)"
    "encode_stream ps iv1 maximum = (Inr fs1, iv')" "fs = f # fs1"
    by (auto split: prod.splits sum.splits)
  with Cons.IH[of iv1 fs1] show ?case by (simp add: decode_encode_encrypted)
qed simp

theorem stream_roundtrip_witness:
  "decode_stream [[8, 166, 52, 248, 206, 5, 176, 158, 74, 248, 201],
     [45, 153, 115, 249, 236, 180, 117, 191, 200]] 7 16 = (Inr [[1, 2, 3], [4]], 42892857)"
  by (rule stream_roundtrip[OF sample_stream])

text \<open>C31. Single-byte corruption of a TCP frame. If one byte of an encrypted frame (header, body or
  trailing checksum) is replaced by a different one, the receiver reports an error and keeps its
  vector, so the connection's key schedule is not disturbed.\<close>

theorem frame_corruption_rejected:
  assumes "encode_encrypted payload iv maximum = (Inr frame, iv')"
    and "i < length frame" "b \<noteq> frame ! i"
  shows "\<exists>e. decode_encrypted (frame[i := b]) iv maximum = (Inl e, iv)"
  using assms by (rule encode_corrupted)

theorem frame_corruption_rejected_witness:
  "\<exists>e. decode_encrypted ([8, 166, 52, 248, 206, 5, 176, 158, 74, 248, 201][5 := 77]) 7 16 = (Inl e, 7)"
  by (rule frame_corruption_rejected[OF sample_frame]) simp_all

text \<open>Encoding is total within its bounds. A payload is framed exactly when it fits the configured
  maximum and the 32-bit length field; the frame is then eight bytes longer and the vector has
  stepped once; otherwise nothing is framed and the vector is unchanged.\<close>

theorem encode_encrypted_total:
  "if length payload \<le> maximum \<and> length payload + 4 < 2 ^ 32
   then \<exists>frame. encode_encrypted payload iv maximum = (Inr frame, advance_iv iv) \<and>
        length frame = length payload + 8
   else \<exists>e. encode_encrypted payload iv maximum = (Inl e, iv)"
proof (cases rule: encode_encrypted_cases[of payload iv maximum])
  case (ok declared cipher checksum)
  then show ?thesis
    using length_encrypt[of payload iv] unat_u32_less[of declared] by simp
qed simp

text \<open>Lengths are bounded before anything is allocated. Whatever a peer writes in the encrypted
  header, a length the decoder accepts leaves room for the checksum and at most the configured
  maximum of payload.\<close>

theorem announced_length_bounded:
  "case encrypted_body_length encoded_header iv maximum of
     Inl e \<Rightarrow> True | Inr n \<Rightarrow> 4 \<le> n \<and> n \<le> maximum + 4 \<and>
       n = unat (iv XOR encoded_header XOR HEADER_XOR)"
  using encrypted_body_length_bound[of encoded_header iv maximum] by (auto split: sum.splits)

text \<open>C32. Datagrams round trip, and a changed byte anywhere behind the cleartext vector is reported as
  a checksum mismatch.\<close>

theorem datagram_roundtrip_and_detection:
  assumes "encode_datagram payload iv maximum = Inr wire"
  shows "decode_datagram wire maximum = Inr (iv, payload) \<and>
    (\<forall>i b. 4 \<le> i \<and> i < length wire \<and> b \<noteq> wire ! i \<longrightarrow>
      decode_datagram (wire[i := b]) maximum = Inl DatagramChecksumMismatch)"
  using assms by (simp add: decode_encode_datagram datagram_corrupted)

theorem datagram_roundtrip_and_detection_witness:
  "\<exists>wire. encode_datagram [1, 2, 3] 7 16 = Inr wire \<and> decode_datagram wire 16 = Inr (7, [1, 2, 3])"
proof -
  have "validate_datagram_length (length [1 :: u8, 2, 3]) 16 = Inr ()" by simp
  then obtain wire where e: "encode_datagram [1, 2, 3] 7 16 = Inr wire"
    by (cases "encrypt_in_place [1, 2, 3] 7") (simp add: encode_datagram_def)
  with datagram_roundtrip_and_detection[OF e] show ?thesis by blast
qed

end
