(* ===== verification/Encoding.thy ===== *)
theory Encoding
  imports Prelude
begin

text \<open>
  Wire primitives of \<open>crates/p4475-core/src\<close>: the packet-name hash (\<open>adler32.rs\<close>), the legacy
  scalar substitution (\<open>encoded.rs\<close>) and its exact loss.
\<close>

section \<open>Packet-name hash\<close>

definition MOD_ADLER :: u32 where "MOD_ADLER = 65521"

definition hash_step :: "u32 \<times> u32 \<Rightarrow> u8 \<Rightarrow> u32 \<times> u32" where
  "hash_step st byte = (case st of (a, b) \<Rightarrow>
     let a' = (a + ucast byte) mod MOD_ADLER; b' = (b + a') mod MOD_ADLER in (a', b'))"

definition hash :: "bytes \<Rightarrow> u32 \<Rightarrow> u32" where
  "hash bs seed =
     (let (a, b) = foldl hash_step (seed AND 0xffff, drop_bit 16 seed) bs in a OR push_bit 16 b)"

text \<open>A packet name is an ASCII literal of the program, so its characters are its bytes.\<close>

definition packet_hash :: "string \<Rightarrow> u32" where
  "packet_hash name = hash (map of_char name) 0"

lemma packet_hash_goldens:
  "packet_hash ''PcFirstMessage'' = 0x282b0580"
  "packet_hash ''PqLogin'' = 0x0a8302ba"
  "packet_hash ''PrChannelMoveIn'' = 0x2da405c9"
  by code_simp+

section \<open>Scalar substitution\<close>

definition MAX_ENCODED_SCALAR_BYTES :: nat where "MAX_ENCODED_SCALAR_BYTES = 255"

datatype encoded_scalar_error = EncodedTooLong nat

definition DECODE_TABLE :: bytes where
  "DECODE_TABLE = [
   79, 200, 44, 182, 173, 43, 108, 229, 46, 65, 174, 137, 154, 120, 126, 207, 91, 124, 189, 116,
   251, 220, 5, 239, 42, 167, 225, 205, 215, 90, 41, 45, 13, 4, 245, 231, 180, 133, 208, 59,
   178, 20, 110, 150, 219, 99, 203, 243, 141, 160, 81, 195, 31, 78, 228, 57, 181, 121, 76, 170,
   21, 143, 240, 37, 222, 9, 152, 138, 113, 56, 254, 27, 100, 75, 62, 52, 107, 69, 25, 196,
   123, 30, 193, 39, 19, 197, 36, 11, 128, 80, 230, 29, 32, 145, 58, 209, 176, 50, 129, 244,
   147, 102, 112, 151, 97, 70, 40, 168, 96, 83, 190, 86, 2, 51, 177, 217, 172, 105, 118, 38,
   210, 206, 201, 183, 1, 248, 74, 17, 246, 139, 22, 164, 55, 185, 67, 237, 159, 3, 184, 212,
   235, 156, 117, 162, 142, 214, 33, 127, 48, 213, 136, 211, 26, 194, 199, 169, 161, 134, 89, 227,
   140, 87, 10, 144, 77, 247, 187, 125, 82, 241, 23, 103, 16, 95, 192, 85, 6, 68, 149, 66,
   165, 8, 253, 61, 157, 224, 0, 166, 92, 7, 179, 255, 73, 49, 242, 236, 54, 153, 104, 202,
   115, 64, 111, 28, 233, 53, 72, 232, 171, 252, 135, 101, 18, 146, 98, 71, 221, 148, 24, 234,
   198, 114, 163, 109, 106, 249, 84, 186, 238, 94, 223, 155, 132, 175, 60, 88, 226, 35, 122, 15,
   34, 63, 204, 158, 218, 14, 130, 131, 191, 188, 93, 47, 216, 119, 250, 12]"

definition invert_decode_table :: bytes where
  "invert_decode_table =
     foldl (\<lambda>inverse encoded. inverse[unat (DECODE_TABLE ! encoded) := of_nat encoded])
       (replicate 256 0) [0..<256]"

definition ENCODE_TABLE :: bytes where "ENCODE_TABLE = invert_decode_table"

definition validate_encoded_length :: "nat \<Rightarrow> encoded_scalar_error + unit" where
  "validate_encoded_length len =
     (if MAX_ENCODED_SCALAR_BYTES < len then Inl (EncodedTooLong len) else Inr ())"

definition encode_array :: "bytes \<Rightarrow> bytes" where
  "encode_array plain =
     map (\<lambda>(position, b). ENCODE_TABLE ! ((position + unat b) mod 255)) (enumerate 0 plain)"

definition decode_array :: "bytes \<Rightarrow> bytes" where
  "decode_array encoded =
     map (\<lambda>(position, b). DECODE_TABLE ! unat b - of_nat position) (enumerate 0 encoded)"

definition encode_bytes :: "bytes \<Rightarrow> encoded_scalar_error + bytes" where
  "encode_bytes plain =
     attempt (validate_encoded_length (length plain)) (\<lambda>_.
     Inr (map (\<lambda>(position, b). ENCODE_TABLE ! ((position + unat b) mod 255)) (enumerate 0 plain)))"

definition decode_bytes :: "bytes \<Rightarrow> encoded_scalar_error + bytes" where
  "decode_bytes encoded =
     attempt (validate_encoded_length (length encoded)) (\<lambda>_.
     Inr (map (\<lambda>(position, b). DECODE_TABLE ! unat b - of_nat position) (enumerate 0 encoded)))"

definition encode_u8 :: "u8 \<Rightarrow> u8" where "encode_u8 v = ENCODE_TABLE ! (unat v mod 255)"
definition decode_u8 :: "u8 \<Rightarrow> u8" where "decode_u8 v = DECODE_TABLE ! unat v"
definition encode_u16 :: "u16 \<Rightarrow> bytes" where "encode_u16 v = encode_array (le16 v)"
definition decode_u16 :: "bytes \<Rightarrow> u16" where "decode_u16 bs = of_le16 (decode_array bs)"
definition encode_u32 :: "u32 \<Rightarrow> bytes" where "encode_u32 v = encode_array (le32 v)"
definition decode_u32 :: "bytes \<Rightarrow> u32" where "decode_u32 bs = of_le32 (decode_array bs)"

subsection \<open>The table is a permutation and its inverse is right\<close>

definition table_ints :: "int list" where
  "table_ints = [
   79, 200, 44, 182, 173, 43, 108, 229, 46, 65, 174, 137, 154, 120, 126, 207, 91, 124, 189, 116,
   251, 220, 5, 239, 42, 167, 225, 205, 215, 90, 41, 45, 13, 4, 245, 231, 180, 133, 208, 59,
   178, 20, 110, 150, 219, 99, 203, 243, 141, 160, 81, 195, 31, 78, 228, 57, 181, 121, 76, 170,
   21, 143, 240, 37, 222, 9, 152, 138, 113, 56, 254, 27, 100, 75, 62, 52, 107, 69, 25, 196,
   123, 30, 193, 39, 19, 197, 36, 11, 128, 80, 230, 29, 32, 145, 58, 209, 176, 50, 129, 244,
   147, 102, 112, 151, 97, 70, 40, 168, 96, 83, 190, 86, 2, 51, 177, 217, 172, 105, 118, 38,
   210, 206, 201, 183, 1, 248, 74, 17, 246, 139, 22, 164, 55, 185, 67, 237, 159, 3, 184, 212,
   235, 156, 117, 162, 142, 214, 33, 127, 48, 213, 136, 211, 26, 194, 199, 169, 161, 134, 89, 227,
   140, 87, 10, 144, 77, 247, 187, 125, 82, 241, 23, 103, 16, 95, 192, 85, 6, 68, 149, 66,
   165, 8, 253, 61, 157, 224, 0, 166, 92, 7, 179, 255, 73, 49, 242, 236, 54, 153, 104, 202,
   115, 64, 111, 28, 233, 53, 72, 232, 171, 252, 135, 101, 18, 146, 98, 71, 221, 148, 24, 234,
   198, 114, 163, 109, 106, 249, 84, 186, 238, 94, 223, 155, 132, 175, 60, 88, 226, 35, 122, 15,
   34, 63, 204, 158, 218, 14, 130, 131, 191, 188, 93, 47, 216, 119, 250, 12]"

lemma DECODE_TABLE_ints: "DECODE_TABLE = map of_int table_ints"
  by (simp add: DECODE_TABLE_def table_ints_def)

lemma distinct_table_ints: "distinct table_ints"
  by (simp add: table_ints_def)

lemma table_ints_range: "set table_ints \<subseteq> {0..<256}"
  by (simp add: table_ints_def)

lemma length_DECODE_TABLE [simp]: "length DECODE_TABLE = 256"
  by (simp add: DECODE_TABLE_def)

lemma distinct_DECODE_TABLE: "distinct DECODE_TABLE"
proof -
  have "inj_on (of_int :: int \<Rightarrow> u8) {0..<256}"
    by (rule inj_onI) (simp add: word_of_int_eq_iff take_bit_eq_mod)
  then show ?thesis
    using distinct_table_ints table_ints_range
    by (auto simp: DECODE_TABLE_ints distinct_map intro: inj_on_subset)
qed

lemma set_DECODE_TABLE: "set DECODE_TABLE = UNIV"
proof (rule card_subset_eq)
  show "card (set DECODE_TABLE) = card (UNIV :: u8 set)"
    using distinct_card[OF distinct_DECODE_TABLE] by (simp add: card_word)
qed simp_all

lemma invert_prefix:
  assumes "distinct table" "\<forall>x \<in> set table. unat x < length blank" "n \<le> length table"
  shows "\<forall>e < n. foldl (\<lambda>iv e. iv[unat (table ! e) := f e]) blank [0..<n] ! unat (table ! e) = f e"
    and "length (foldl (\<lambda>iv e. iv[unat (table ! e) := f e]) blank [0..<n]) = length blank"
  using assms
proof (induction n)
  case (Suc n)
  {
    case 1
    have "unat (table ! n) \<noteq> unat (table ! e)" if "e < n" for e
      using that 1 by (auto simp: nth_eq_iff_index_eq word_unat_eq_iff[symmetric])
    with 1 Suc show ?case by (auto simp: less_Suc_eq)
  next
    case 2
    with Suc show ?case by simp
  }
qed simp_all

lemma decode_encode_table: "DECODE_TABLE ! unat (ENCODE_TABLE ! unat k) = k"
proof -
  obtain e where e: "e < 256" "DECODE_TABLE ! e = k"
    using set_DECODE_TABLE by (metis UNIV_I in_set_conv_nth length_DECODE_TABLE)
  have "unat x < 256" for x :: u8
    using unsigned_less[of x, where ?'a = nat] by simp
  then have "ENCODE_TABLE ! unat (DECODE_TABLE ! e) = of_nat e"
    using invert_prefix(1)[OF distinct_DECODE_TABLE, of "replicate 256 (0 :: u8)" 256 of_nat] e(1)
    by (simp add: ENCODE_TABLE_def invert_decode_table_def)
  with e show ?thesis by (simp add: unat_of_nat)
qed

text \<open>
  What one byte becomes after encoding and decoding at a position: itself, or its successor when
  the position and the byte together reach the modulus 255.
\<close>

definition substituted :: "nat \<Rightarrow> u8 \<Rightarrow> u8" where
  "substituted position b = (if position + unat b < 255 then b else b + 1)"

lemma decode_encode_byte:
  assumes "position < 255"
  shows "DECODE_TABLE ! unat (ENCODE_TABLE ! ((position + unat b) mod 255)) - of_nat position =
         substituted position b"
proof -
  let ?k = "(position + unat b) mod 255"
  have b: "unat b < 256" using unsigned_less[of b, where ?'a = nat] by simp
  have "?k = unat (of_nat ?k :: u8)" by (simp add: unat_of_nat)
  then have *: "DECODE_TABLE ! unat (ENCODE_TABLE ! ?k) = of_nat ?k"
    using decode_encode_table[of "of_nat ?k"] by metis
  show ?thesis
  proof (cases "position + unat b < 255")
    case True
    then show ?thesis unfolding * by (simp add: substituted_def)
  next
    case False
    then have "?k = position + unat b - 255" using assms b by (simp add: mod_if)
    then have "int ?k = int position + int (unat b) - 255" using False by linarith
    then have "(of_nat ?k :: u8) = of_int (int position + int (unat b) - 255)"
      by (metis of_int_of_nat_eq)
    also have "\<dots> = of_nat position + b - 255" by simp
    finally show ?thesis using False unfolding * by (simp add: substituted_def)
  qed
qed

lemma decode_encode_array:
  "length plain \<le> 255 \<Longrightarrow>
   decode_array (encode_array plain) = map (\<lambda>(i, b). substituted i b) (enumerate 0 plain)"
  by (rule nth_equalityI)
     (simp_all add: decode_array_def encode_array_def nth_enumerate_eq decode_encode_byte)

lemma substituted_id: "substituted i b = b \<longleftrightarrow> i + unat b < 255"
  by (auto simp: substituted_def)

subsection \<open>The hash in closed form\<close>

text \<open>The two running sums as natural numbers: all bytes, and bytes weighted by what is left.\<close>

definition byte_sum :: "bytes \<Rightarrow> nat" where
  "byte_sum bs = sum_list (map unat bs)"

fun weighted_sum :: "bytes \<Rightarrow> nat" where
  "weighted_sum [] = 0"
| "weighted_sum (b # bs) = Suc (length bs) * unat b + weighted_sum bs"

lemma weighted_sum_snoc: "weighted_sum (bs @ [b]) = weighted_sum bs + byte_sum (bs @ [b])"
  by (induction bs) (simp_all add: byte_sum_def)

lemma hash_step_simp:
  "hash_step (a, b) x = ((a + ucast x) mod MOD_ADLER, (b + (a + ucast x) mod MOD_ADLER) mod MOD_ADLER)"
  by (simp add: hash_step_def Let_def)

lemma hash_state:
  "\<exists>a b. foldl hash_step (0, 0) bs = (a, b) \<and> unat a = byte_sum bs mod 65521 \<and>
     unat b = weighted_sum bs mod 65521"
proof (induction bs rule: rev_induct)
  case (snoc x bs)
  then obtain a b where *: "foldl hash_step (0, 0) bs = (a, b)"
    "unat a = byte_sum bs mod 65521" "unat b = weighted_sum bs mod 65521"
    by blast
  have x: "unat x < 256" using unsigned_less[of x, where ?'a = nat] by simp
  then have "unat (ucast x :: u32) = unat x" by (simp add: unsigned_ucast_eq take_bit_nat_eq_self)
  with x have a': "unat ((a + ucast x) mod MOD_ADLER) = byte_sum (bs @ [x]) mod 65521"
    using *(2) by (simp add: MOD_ADLER_def unat_mod unat_word_ariths byte_sum_def mod_add_left_eq)
  then have "unat ((b + (a + ucast x) mod MOD_ADLER) mod MOD_ADLER) = weighted_sum (bs @ [x]) mod 65521"
    using *(3) by (simp add: MOD_ADLER_def unat_mod unat_word_ariths weighted_sum_snoc mod_add_eq)
  with a' show ?case by (simp add: *(1) hash_step_simp)
qed (simp add: byte_sum_def)

section \<open>Properties\<close>

text \<open>C39. The packet-name hash is the zero-seeded Adler-32 of its bytes: the low half is the byte sum
  and the high half the sum of the prefix sums, both modulo 65521. No 32-bit addition overflows.\<close>

theorem hash_closed_form:
  "unat (hash bs 0) = byte_sum bs mod 65521 + 65536 * (weighted_sum bs mod 65521)"
proof -
  obtain a b where *: "foldl hash_step (0, 0) bs = (a, b)"
    "unat a = byte_sum bs mod 65521" "unat b = weighted_sum bs mod 65521"
    using hash_state by blast
  then have a: "unat a < 65536" and b: "unat b < 65536" by simp_all
  have "a AND push_bit 16 b = 0"
  proof (rule bit_word_eqI)
    fix n
    have "take_bit 16 (unat a) = unat a" using a by (simp add: take_bit_nat_eq_self)
    then have "\<not> bit (unat a) n" if "16 \<le> n" using that by (metis bit_take_bit_iff not_less)
    then have "\<not> bit a n" if "16 \<le> n" using that by (simp add: bit_unsigned_iff)
    then show "bit (a AND push_bit 16 b) n = bit (0 :: u32) n"
      by (auto simp: bit_simps)
  qed
  then have "a OR push_bit 16 b = a + push_bit 16 b"
    by (simp add: disjunctive_add_eq_or)
  also have "unat \<dots> = unat a + 65536 * unat b"
    using a b by (simp add: push_bit_eq_mult unat_word_ariths mult.commute)
  finally show ?thesis
    using * by (simp add: hash_def)
qed

text \<open>Exact loss of the legacy scalar substitution. Decoding an encoded buffer of at most 255 bytes
  returns every byte whose value plus position stays below 255, and the successor of every other;
  longer buffers are refused by both directions.\<close>

theorem scalar_substitution_loss:
  "(case encode_bytes plain of
      Inl e \<Rightarrow> e = EncodedTooLong (length plain) \<and> 255 < length plain
    | Inr encoded \<Rightarrow> length plain \<le> 255 \<and> length encoded = length plain \<and>
        decode_bytes encoded = Inr (map (\<lambda>(i, b). substituted i b) (enumerate 0 plain)))"
  using decode_encode_array[of plain]
  by (auto simp: encode_bytes_def decode_bytes_def validate_encoded_length_def
      MAX_ENCODED_SCALAR_BYTES_def encode_array_def decode_array_def)

text \<open>A 32-bit scalar survives the substitution exactly when each of its four little-endian bytes
  stays below 255 minus its position, so the loss never depends on the table.\<close>

theorem encoded_u32_lossless_iff:
  "decode_u32 (encode_u32 v) = v \<longleftrightarrow>
     (\<forall>i < 4. i + unat (le32 v ! i) < 255)"
proof -
  let ?xs = "map (\<lambda>(i, b). substituted i b) (enumerate 0 (le32 v))"
  have "decode_u32 (encode_u32 v) = of_le32 ?xs"
    by (simp add: decode_u32_def encode_u32_def decode_encode_array)
  moreover have "le32 (of_le32 ?xs) = ?xs" by (simp add: le32_of_le32_take)
  ultimately have "decode_u32 (encode_u32 v) = v \<longleftrightarrow> ?xs = le32 v"
    by (metis of_le_le_Nil(2))
  also have "\<dots> \<longleftrightarrow> (\<forall>i < 4. substituted i (le32 v ! i) = le32 v ! i)"
    by (auto simp: list_eq_iff_nth_eq nth_enumerate_eq)
  finally show ?thesis by (simp add: substituted_id)
qed

end
