(* ===== verification/Packet.thy ===== *)
theory Packet
  imports Encoding
begin

text \<open>
  The packet writer and reader of \<open>crates/p4475-core/src/packet.rs\<close> with their UTF-16 strings. A
  writer is the byte vector it has built; a reader is its buffer and an offset. The interface
  \<open>wire_codec\<close> is what a packet codec relies on from a field: its read takes off exactly the bytes
  its write appended.
\<close>

section \<open>UTF-16\<close>

text \<open>\<open>str::encode_utf16\<close> and \<open>String::from_utf16\<close> of Rust's standard library.\<close>

definition scalar_value :: "nat \<Rightarrow> bool" where
  "scalar_value c \<longleftrightarrow> c < 0xD800 \<or> (0xE000 \<le> c \<and> c < 0x110000)"

text \<open>The characters of a literal of the program, as a Rust string.\<close>

definition str :: "string \<Rightarrow> ustring" where
  "str = map of_char"

definition encode_char :: "nat \<Rightarrow> u16 list" where
  "encode_char c =
     (if c < 0x10000 then [of_nat c]
      else [of_nat (0xD800 + (c - 0x10000) div 0x400), of_nat (0xDC00 + (c - 0x10000) mod 0x400)])"

definition encode_utf16 :: "ustring \<Rightarrow> u16 list" where
  "encode_utf16 s = concat (map encode_char s)"

fun from_utf16 :: "u16 list \<Rightarrow> ustring option" where
  "from_utf16 [] = Some []"
| "from_utf16 (u # us) =
     (let n = unat u in
      if n < 0xD800 \<or> 0xE000 \<le> n then map_option (Cons n) (from_utf16 us)
      else if 0xDC00 \<le> n then None
      else case us of
        [] \<Rightarrow> None
      | v # vs \<Rightarrow>
          let m = unat v in
          if 0xDC00 \<le> m \<and> m < 0xE000
          then map_option (Cons (0x10000 + (n - 0xD800) * 0x400 + (m - 0xDC00))) (from_utf16 vs)
          else None)"

lemma unat_of_nat_u16: "n < 65536 \<Longrightarrow> unat (of_nat n :: u16) = n"
  by (simp add: unat_of_nat)

lemma from_utf16_encode_char:
  assumes "scalar_value c"
  shows "from_utf16 (encode_char c @ us) = map_option (Cons c) (from_utf16 us)"
proof (cases "c < 0x10000")
  case True
  then have "unat (of_nat c :: u16) = c" by (simp add: unat_of_nat)
  with True assms show ?thesis by (auto simp: encode_char_def scalar_value_def)
next
  case False
  let ?d = "c - 0x10000"
  have d: "?d div 0x400 < 0x400" "?d mod 0x400 < 0x400" "c = 0x10000 + ?d"
    using False assms by (simp_all add: scalar_value_def)
  then have "unat (of_nat (0xD800 + ?d div 0x400) :: u16) = 0xD800 + ?d div 0x400"
    "unat (of_nat (0xDC00 + ?d mod 0x400) :: u16) = 0xDC00 + ?d mod 0x400"
    by (intro unat_of_nat_u16; linarith)+
  moreover have "0x10000 + ?d div 0x400 * 0x400 + ?d mod 0x400 = c"
    using d(3) div_mult_mod_eq[of ?d "0x400"] by linarith
  ultimately show ?thesis
    using d False by (simp add: encode_char_def Let_def)
qed

lemma from_utf16_encode: "list_all scalar_value s \<Longrightarrow> from_utf16 (encode_utf16 s) = Some s"
  by (induction s) (simp_all add: encode_utf16_def from_utf16_encode_char)

section \<open>Writer\<close>

type_synonym writer = bytes

datatype packet_error =
  PacketTruncated nat nat
| NegativeStringLength int
| StringTooLong
| StringLengthOverflow
| StringLimitExceeded nat nat
| InvalidUtf16

definition new_writer :: writer where "new_writer = []"

definition write_u8 :: "writer \<Rightarrow> u8 \<Rightarrow> writer" where "write_u8 w v = w @ [v]"
definition write_u16 :: "writer \<Rightarrow> u16 \<Rightarrow> writer" where "write_u16 w v = w @ le16 v"
definition write_u32 :: "writer \<Rightarrow> u32 \<Rightarrow> writer" where "write_u32 w v = w @ le32 v"
definition write_bytes :: "writer \<Rightarrow> bytes \<Rightarrow> writer" where "write_bytes w v = w @ v"

text \<open>
  Signed integers are their two's-complement words and floats their IEEE bit patterns; the writer
  only moves their bytes.
\<close>

definition write_i16 :: "writer \<Rightarrow> u16 \<Rightarrow> writer" where "write_i16 w v = w @ le16 v"
definition write_i32 :: "writer \<Rightarrow> u32 \<Rightarrow> writer" where "write_i32 w v = w @ le32 v"
definition write_f32 :: "writer \<Rightarrow> u32 \<Rightarrow> writer" where "write_f32 w v = w @ le32 v"

definition write_encoded_u8 :: "writer \<Rightarrow> u8 \<Rightarrow> writer" where
  "write_encoded_u8 w v = write_u8 w (encode_u8 v)"

definition write_encoded_u16 :: "writer \<Rightarrow> u16 \<Rightarrow> writer" where
  "write_encoded_u16 w v = write_bytes w (encode_u16 v)"

definition write_encoded_u32 :: "writer \<Rightarrow> u32 \<Rightarrow> writer" where
  "write_encoded_u32 w v = write_bytes w (encode_u32 v)"

definition write_encoded_i32 :: "writer \<Rightarrow> u32 \<Rightarrow> writer" where
  "write_encoded_i32 w v = write_bytes w (encode_array (le32 v))"

definition write_encoded_f32 :: "writer \<Rightarrow> u32 \<Rightarrow> writer" where
  "write_encoded_f32 w v = write_bytes w (encode_array (le32 v))"

definition named :: "string \<Rightarrow> writer" where
  "named name = write_u32 new_writer (packet_hash name)"

definition write_utf16 :: "writer \<Rightarrow> ustring \<Rightarrow> packet_error + writer" where
  "write_utf16 w s =
     (let units = encode_utf16 s in
      if int (length units) < 2 ^ 31
      then Inr (foldl write_u16 (write_i32 w (of_nat (length units))) units)
      else Inl StringTooLong)"

section \<open>Reader\<close>

record reader =
  buffer :: bytes
  offset :: nat

type_synonym ('e, 'a) parser = "reader \<Rightarrow> ('e + 'a) \<times> reader"
type_synonym 'a read = "(packet_error, 'a) parser"

text \<open>Sequencing with \<open>?\<close>: an error ends the call with the reader as it then is.\<close>

definition rbind :: "('e, 'a) parser \<Rightarrow> ('a \<Rightarrow> ('e, 'b) parser) \<Rightarrow> ('e, 'b) parser" where
  "rbind m f r = (case m r of (Inl e, r') \<Rightarrow> (Inl e, r') | (Inr x, r') \<Rightarrow> f x r')"

definition rmap :: "('a \<Rightarrow> 'b) \<Rightarrow> ('e, 'a) parser \<Rightarrow> ('e, 'b) parser" where
  "rmap f m = rbind m (\<lambda>x r. (Inr (f x), r))"

definition new_reader :: "bytes \<Rightarrow> reader" where
  "new_reader bs = \<lparr>buffer = bs, offset = 0\<rparr>"

definition take_bytes :: "nat \<Rightarrow> bytes read" where
  "take_bytes len r =
     (case usize_checked_add (offset r) len of
        None \<Rightarrow> (Inl (PacketTruncated (offset r) len), r)
      | Some end_ \<Rightarrow>
          if length (buffer r) < end_ then (Inl (PacketTruncated (offset r) len), r)
          else (Inr (take len (drop (offset r) (buffer r))), r\<lparr>offset := end_\<rparr>))"

definition read_u8 :: "u8 read" where "read_u8 = rmap (\<lambda>bs. bs ! 0) (take_bytes 1)"
definition read_u16 :: "u16 read" where "read_u16 = rmap of_le16 (take_bytes 2)"
definition read_u32 :: "u32 read" where "read_u32 = rmap of_le32 (take_bytes 4)"
definition read_i16 :: "u16 read" where "read_i16 = rmap of_le16 (take_bytes 2)"
definition read_i32 :: "u32 read" where "read_i32 = rmap of_le32 (take_bytes 4)"
definition read_f32 :: "u32 read" where "read_f32 = rmap of_le32 (take_bytes 4)"
definition read_encoded_u8 :: "u8 read" where "read_encoded_u8 = rmap decode_u8 read_u8"
definition read_encoded_u16 :: "u16 read" where "read_encoded_u16 = rmap decode_u16 (take_bytes 2)"
definition read_encoded_u32 :: "u32 read" where "read_encoded_u32 = rmap decode_u32 (take_bytes 4)"

definition read_encoded_i32 :: "u32 read" where
  "read_encoded_i32 = rmap (\<lambda>bs. of_le32 (decode_array bs)) (take_bytes 4)"

definition read_encoded_f32 :: "u32 read" where
  "read_encoded_f32 = rmap (\<lambda>bs. of_le32 (decode_array bs)) (take_bytes 4)"

fun chunks_exact_2 :: "bytes \<Rightarrow> u16 list" where
  "chunks_exact_2 (a # b # bs) = of_le16 [a, b] # chunks_exact_2 bs"
| "chunks_exact_2 _ = []"

definition read_utf16_bounded :: "nat \<Rightarrow> ustring read" where
  "read_utf16_bounded maximum =
     rbind read_i32 (\<lambda>signed_length.
       if sint signed_length < 0 then (\<lambda>r. (Inl (NegativeStringLength (sint signed_length)), r))
       else
         let len = nat (sint signed_length) in
         if maximum < len then (\<lambda>r. (Inl (StringLimitExceeded len maximum), r))
         else if 2 ^ 64 \<le> int len * 2 then (\<lambda>r. (Inl StringLengthOverflow, r))
         else rbind (take_bytes (len * 2)) (\<lambda>bs r.
           case from_utf16 (chunks_exact_2 bs) of
             None \<Rightarrow> (Inl InvalidUtf16, r)
           | Some s \<Rightarrow> (Inr s, r)))"

definition read_utf16 :: "ustring read" where
  "read_utf16 = read_utf16_bounded (2 ^ 64 - 1)"

definition read_bytes :: "nat \<Rightarrow> bytes read" where "read_bytes len = take_bytes len"
definition position :: "reader \<Rightarrow> nat" where "position r = offset r"

definition remaining :: "reader \<Rightarrow> bytes" where
  "remaining r = drop (offset r) (buffer r)"

definition well_formed :: "reader \<Rightarrow> bool" where
  "well_formed r \<longleftrightarrow> offset r \<le> length (buffer r)"

section \<open>Reading is confined to the buffer\<close>

lemmas read_defs = read_u8_def read_u16_def read_u32_def read_i16_def read_i32_def read_f32_def
  read_encoded_u8_def read_encoded_u16_def read_encoded_u32_def read_encoded_i32_def
  read_encoded_f32_def read_bytes_def

text \<open>
  What every read keeps: the buffer is the same, the offset does not go back, and the reader stays
  inside its buffer.
\<close>

definition confined :: "'a read \<Rightarrow> bool" where
  "confined m \<longleftrightarrow> (\<forall>r. well_formed r \<longrightarrow>
     buffer (snd (m r)) = buffer r \<and> offset r \<le> offset (snd (m r)) \<and> well_formed (snd (m r)))"

named_theorems confined_intros

lemma confined_take [confined_intros]: "confined (take_bytes len)"
  by (auto simp: confined_def take_bytes_def well_formed_def dest: usize_checked_add_Some
      split: option.splits)

lemma confined_return [confined_intros]: "confined (\<lambda>r. (x, r))"
  by (simp add: confined_def)

lemma confined_rbind [confined_intros]:
  assumes "confined m" "\<And>x. confined (f x)"
  shows "confined (rbind m f)"
  unfolding confined_def
proof (intro allI impI)
  fix r assume r: "well_formed r"
  obtain res r' where m: "m r = (res, r')" by (cases "m r")
  with assms(1) r have "buffer r' = buffer r" "offset r \<le> offset r'" "well_formed r'"
    unfolding confined_def by (metis snd_conv)+
  then show "buffer (snd (rbind m f r)) = buffer r \<and> offset r \<le> offset (snd (rbind m f r)) \<and>
      well_formed (snd (rbind m f r))"
    using assms(2) m by (cases res) (auto simp: rbind_def confined_def intro: order_trans)
qed

lemma confined_rmap [confined_intros]: "confined m \<Longrightarrow> confined (rmap f m)"
  by (simp add: rmap_def confined_intros)

lemma confined_option [confined_intros]:
  assumes "confined f" "\<And>x. confined (g x)"
  shows "confined (\<lambda>r. case y of None \<Rightarrow> f r | Some x \<Rightarrow> g x r)"
  using assms by (cases y) simp_all

lemma confined_reads [confined_intros]:
  "confined read_u8" "confined read_u16" "confined read_u32" "confined read_i16" "confined read_i32"
  "confined read_f32" "confined read_encoded_u8" "confined read_encoded_u16"
  "confined read_encoded_u32" "confined read_encoded_i32" "confined read_encoded_f32"
  "confined (read_bytes len)"
  by (simp_all add: read_defs confined_intros)

lemma confined_utf16 [confined_intros]: "confined (read_utf16_bounded maximum)"
  unfolding read_utf16_bounded_def
  by (intro confined_intros) (simp_all add: confined_intros Let_def)

section \<open>Codecs\<close>

text \<open>
  A field of a packet: the bytes its writer appends and the read that takes them off again, up to
  a canonical form (the substitution of \<open>encoded.rs\<close> is not injective). The client facts are
  about fields in sequence, which is how every packet codec of the program is built.
\<close>

definition reader_at :: "bytes \<Rightarrow> bytes \<Rightarrow> reader" where
  "reader_at done todo = \<lparr>buffer = done @ todo, offset = length done\<rparr>"

definition host_fits :: "bytes \<Rightarrow> bool" where
  "host_fits bs \<longleftrightarrow> length bs < 2 ^ 63"

locale wire_codec =
  fixes put :: "'a \<Rightarrow> bytes"
    and get :: "'a read"
    and canon :: "'a \<Rightarrow> 'a"
    and valid :: "'a \<Rightarrow> bool"
  assumes get_put: "valid x \<Longrightarrow> host_fits (done @ put x @ todo) \<Longrightarrow>
    get (reader_at done (put x @ todo)) = (Inr (canon x), reader_at (done @ put x) todo)"
begin

fun get_list :: "nat \<Rightarrow> 'a list read" where
  "get_list 0 = (\<lambda>r. (Inr [], r))"
| "get_list (Suc n) = rbind get (\<lambda>x. rmap (Cons x) (get_list n))"

lemma get_list_put:
  "list_all valid xs \<Longrightarrow> host_fits (done @ concat (map put xs) @ todo) \<Longrightarrow>
   get_list (length xs) (reader_at done (concat (map put xs) @ todo)) =
     (Inr (map canon xs), reader_at (done @ concat (map put xs)) todo)"
proof (induction xs arbitrary: "done")
  case (Cons x xs)
  have "get (reader_at done (put x @ concat (map put xs) @ todo)) =
      (Inr (canon x), reader_at (done @ put x) (concat (map put xs) @ todo))"
    using Cons.prems by (intro get_put) simp_all
  with Cons.IH[of "done @ put x"] Cons.prems show ?case
    by (simp add: rbind_def rmap_def)
qed simp

lemma get_put_then:
  "valid x \<Longrightarrow> host_fits (done @ put x @ todo) \<Longrightarrow>
   rbind get k (reader_at done (put x @ todo)) = k (canon x) (reader_at (done @ put x) todo)"
  by (simp add: rbind_def get_put)

end

locale lossless_codec = wire_codec put get "\<lambda>x. x" valid
  for put :: "'a \<Rightarrow> bytes" and get :: "'a read" and valid :: "'a \<Rightarrow> bool"
begin

lemma put_injective:
  assumes "valid x" "valid y" "put x = put y" "host_fits (put x)"
  shows "x = y"
  using get_put[of x "[]" "[]"] get_put[of y "[]" "[]"] assms by simp

end

lemma take_reader_at [simp]:
  "host_fits (done @ bs @ todo) \<Longrightarrow> len = length bs \<Longrightarrow>
   take_bytes len (reader_at done (bs @ todo)) = (Inr bs, reader_at (done @ bs) todo)"
  by (auto simp: take_bytes_def reader_at_def usize_checked_add_def host_fits_def)

interpretation u8_codec: lossless_codec "\<lambda>v. [v]" read_u8 "\<lambda>_. True"
  by unfold_locales (simp add: read_u8_def rmap_def rbind_def del: append.simps)

interpretation u16_codec: lossless_codec le16 read_u16 "\<lambda>_. True"
  by unfold_locales (simp add: read_u16_def rmap_def rbind_def)

interpretation u32_codec: lossless_codec le32 read_u32 "\<lambda>_. True"
  by unfold_locales (simp add: read_u32_def rmap_def rbind_def)

interpretation i32_codec: lossless_codec le32 read_i32 "\<lambda>_. True"
  by unfold_locales (simp add: read_i32_def rmap_def rbind_def)

interpretation encoded_u32_codec: wire_codec encode_u32 read_encoded_u32
  "\<lambda>v. decode_u32 (encode_u32 v)" "\<lambda>_. True"
  by unfold_locales (simp add: read_encoded_u32_def rmap_def rbind_def encode_u32_def encode_array_def)


subsection \<open>Strings\<close>

definition utf16_units :: "ustring \<Rightarrow> nat" where
  "utf16_units s = length (encode_utf16 s)"

definition utf16_field :: "ustring \<Rightarrow> bytes" where
  "utf16_field s = le32 (of_nat (utf16_units s)) @ concat (map le16 (encode_utf16 s))"

lemma foldl_write_u16: "foldl write_u16 w us = w @ concat (map le16 us)"
  by (induction us arbitrary: w) (simp_all add: write_u16_def)

lemma write_utf16_eq:
  "write_utf16 w s = (if int (utf16_units s) < 2 ^ 31 then Inr (w @ utf16_field s)
     else Inl StringTooLong)"
  by (simp add: write_utf16_def Let_def foldl_write_u16 write_i32_def utf16_field_def
      utf16_units_def)

lemma chunks_le16: "chunks_exact_2 (concat (map le16 us)) = us"
proof (induction us)
  case (Cons u us)
  have "le16 u = [ucast u, ucast (drop_bit 8 u)]" by (simp add: le16_def)
  then have "chunks_exact_2 (le16 u @ bs) = of_le16 (le16 u) # chunks_exact_2 bs" for bs
    by (simp only: append_Cons append_Nil chunks_exact_2.simps)
  with Cons show ?case by simp
qed simp

lemma length_concat_le16 [simp]: "length (concat (map le16 us)) = length us * 2"
  by (induction us) simp_all

lemma sint_small: "int n < 2 ^ 31 \<Longrightarrow> sint (of_nat n :: u32) = int n"
  by (simp add: signed_of_nat signed_take_bit_int_eq_self)

lemma host_fits_append: "host_fits (a @ b) \<Longrightarrow> host_fits a"
  by (simp add: host_fits_def)

text \<open>What the bounded reader does with a length prefix, before it looks at the characters.\<close>

lemma read_utf16_prefix:
  assumes "int n < 2 ^ 31" "host_fits (done @ le32 (of_nat n) @ todo)"
  shows "read_utf16_bounded maximum (reader_at done (le32 (of_nat n) @ todo)) =
    (if maximum < n then (Inl (StringLimitExceeded n maximum), reader_at (done @ le32 (of_nat n)) todo)
     else rbind (take_bytes (n * 2)) (\<lambda>bs r. case from_utf16 (chunks_exact_2 bs) of
           None \<Rightarrow> (Inl InvalidUtf16, r) | Some s \<Rightarrow> (Inr s, r))
          (reader_at (done @ le32 (of_nat n)) todo))"
  using assms(1) unfolding read_utf16_bounded_def
  by (subst i32_codec.get_put_then[OF TrueI assms(2)]) (simp add: sint_small Let_def)

definition utf16_valid :: "nat \<Rightarrow> ustring \<Rightarrow> bool" where
  "utf16_valid maximum s \<longleftrightarrow>
     list_all scalar_value s \<and> utf16_units s \<le> maximum \<and> int (utf16_units s) < 2 ^ 31"

interpretation utf16_codec: lossless_codec utf16_field "read_utf16_bounded maximum"
  "utf16_valid maximum" for maximum
proof
  fix x "done" todo
  assume v: "utf16_valid maximum x" and h: "host_fits (done @ utf16_field x @ todo)"
  let ?d = "done @ le32 (of_nat (utf16_units x))"
  let ?cs = "concat (map le16 (encode_utf16 x))"
  have "take_bytes (utf16_units x * 2) (reader_at ?d (?cs @ todo)) =
      (Inr ?cs, reader_at (?d @ ?cs) todo)"
    using h by (intro take_reader_at) (simp_all add: utf16_field_def utf16_units_def)
  moreover have "host_fits (done @ le32 (of_nat (utf16_units x)) @ ?cs @ todo)"
    using h by (simp add: utf16_field_def)
  ultimately show "read_utf16_bounded maximum (reader_at done (utf16_field x @ todo)) =
      (Inr x, reader_at (done @ utf16_field x) todo)"
    using v by (simp add: utf16_field_def read_utf16_prefix rbind_def chunks_le16
        from_utf16_encode utf16_valid_def)
qed

section \<open>Properties\<close>

text \<open>C40. Strings round trip. What \<open>write_utf16\<close> appends for a string of Unicode scalar values is
  taken off again by \<open>read_utf16\<close>, which ends exactly behind it; the writer refuses a string only
  when its number of UTF-16 units is not a positive \<open>i32\<close>.\<close>

theorem utf16_roundtrip:
  assumes "list_all scalar_value s" "host_fits (w @ utf16_field s @ rest)"
  shows "(case write_utf16 w s of
      Inl e \<Rightarrow> e = StringTooLong \<and> 2 ^ 31 \<le> utf16_units s
    | Inr w' \<Rightarrow> read_utf16 (reader_at w (drop (length w) w' @ rest)) =
        (Inr s, reader_at w' rest))"
proof (cases "int (utf16_units s) < 2 ^ 31")
  case True
  then have "utf16_valid (2 ^ 64 - 1) s"
    using assms(1) by (simp add: utf16_valid_def)
  with utf16_codec.get_put[OF this assms(2)] True show ?thesis
    by (simp add: write_utf16_eq read_utf16_def)
qed (simp add: write_utf16_eq)

theorem utf16_roundtrip_witness:
  "(case write_utf16 [1] [0x41, 0x1F600] of
      Inl e \<Rightarrow> False
    | Inr w' \<Rightarrow> read_utf16 (reader_at [1] (drop 1 w' @ [9])) = (Inr [0x41, 0x1F600], reader_at w' [9]))"
  using utf16_roundtrip[of "[0x41, 0x1F600]" "[1]" "[9]"]
  by (simp add: scalar_value_def host_fits_def write_utf16_def utf16_field_def utf16_units_def
      encode_utf16_def encode_char_def Let_def)

text \<open>Every read of the packet reader is memory-safe: from an offset inside the buffer, the read
  leaves the buffer as it was, never moves the offset backwards, and ends inside the buffer, on
  success and on every error; and a primitive read that fails does not move the offset at all.\<close>

theorem reads_confined:
  "confined read_u8 \<and> confined read_u16 \<and> confined read_u32 \<and> confined read_i16 \<and>
   confined read_i32 \<and> confined read_f32 \<and> confined read_encoded_u8 \<and>
   confined read_encoded_u16 \<and> confined read_encoded_u32 \<and> confined read_encoded_i32 \<and>
   confined read_encoded_f32 \<and> confined (read_utf16_bounded maximum) \<and> confined (read_bytes len) \<and>
   (case take_bytes len r of (Inl e, r') \<Rightarrow> r' = r \<and> e = PacketTruncated (offset r) len
     | (Inr bs, r') \<Rightarrow> length bs = len \<and> remaining r = bs @ remaining r' \<and> position r' = position r + len)"
proof -
  have "case take_bytes len r of (Inl e, r') \<Rightarrow> r' = r \<and> e = PacketTruncated (offset r) len
     | (Inr bs, r') \<Rightarrow> length bs = len \<and> remaining r = bs @ remaining r' \<and> position r' = position r + len"
    by (auto simp: take_bytes_def remaining_def position_def add.commute[of _ len]
        simp flip: drop_drop dest!: usize_checked_add_Some split: option.splits)
  then show ?thesis by (simp add: confined_intros)
qed

text \<open>The bound of \<open>read_utf16_bounded\<close> is checked on the length prefix alone: a string that
  announces more units than allowed is refused before any of its characters is read, whatever
  follows the prefix, and the offset stops behind the prefix.\<close>

theorem utf16_limit_before_payload:
  assumes "int n < 2 ^ 31" "maximum < n" "host_fits (done @ le32 (of_nat n) @ todo)"
  shows "read_utf16_bounded maximum (reader_at done (le32 (of_nat n) @ todo)) =
    (Inl (StringLimitExceeded n maximum), reader_at (done @ le32 (of_nat n)) todo)"
  using assms by (simp add: read_utf16_prefix)

theorem utf16_limit_before_payload_witness:
  "read_utf16_bounded 16 (reader_at [] (le32 (of_nat 17) @ [])) =
    (Inl (StringLimitExceeded 17 16), reader_at ([] @ le32 (of_nat 17)) [])"
  by (rule utf16_limit_before_payload) (simp_all add: host_fits_def)

end
