(* ===== verification/Handshake.thy ===== *)
theory Handshake
  imports Packet Framing
begin

text \<open>
  The login handshake (\<open>crates/p4475-core/src/handshake.rs\<close>), the first user of the packet writer
  and of the plain frame, and the port topology (\<open>crates/p4475-core/src/ports.rs\<close>).
\<close>

section \<open>First message\<close>

definition CLIENT_VERSION :: u16 where "CLIENT_VERSION = 5136"
definition LOCALE_ID :: u16 where "LOCALE_ID = 1002"
definition CLIENT_LOCATION :: u8 where "CLIENT_LOCATION = 118"
definition FIRST_KEY :: u32 where "FIRST_KEY = 2919676295"
definition SECOND_KEY :: u32 where "SECOND_KEY = 263300380"

definition FIRST_KEY_TEXT :: string where
  "FIRST_KEY_TEXT = ''QyvKvO60jogWDupzJ7gm0kRQdooFjWRjSjlq0gu/x2k=''"

definition SECOND_KEY_TEXT :: string where
  "SECOND_KEY_TEXT = ''GXQstj1A95XiHvjrOGuPkzdyL+7qxETl/cPlUZk2KA4=''"

definition PATCH_URL :: string where
  "PATCH_URL = ''http://kart.dn.nexoncdn.co.kr/patch''"

definition COMPATIBILITY_BLOCK :: bytes where
  "COMPATIBILITY_BLOCK = [
   0, 0, 0, 0, 0, 0, 0, 0, 15, 0, 0, 0, 0, 0, 0, 0,
   0, 46, 49, 46, 49, 55, 46, 54, 0, 0, 0, 0, 0, 0, 0]"

definition initial_iv :: u32 where
  "initial_iv = FIRST_KEY XOR SECOND_KEY"

definition first_message_payload :: "packet_error + bytes" where
  "first_message_payload =
     (let packet = named ''PcFirstMessage'';
          packet = write_u16 packet LOCALE_ID;
          packet = write_u16 packet 1;
          packet = write_u16 packet CLIENT_VERSION
      in attempt (write_utf16 packet (str PATCH_URL)) (\<lambda>packet.
      let packet = write_u32 packet FIRST_KEY;
          packet = write_u32 packet SECOND_KEY;
          packet = write_u8 packet CLIENT_LOCATION
      in attempt (write_utf16 packet (str FIRST_KEY_TEXT)) (\<lambda>packet.
      let packet = write_bytes packet COMPATIBILITY_BLOCK
      in attempt (write_utf16 packet (str SECOND_KEY_TEXT)) (\<lambda>packet. Inr packet))))"

section \<open>Ports\<close>

definition DEFAULT_CONFIGURED_PORT :: u16 where "DEFAULT_CONFIGURED_PORT = 39311"

record port_overflow =
  overflow_configured_port :: u16
  required_offset :: u16

record port_topology =
  configured_port :: u16

definition new_topology :: "u16 \<Rightarrow> port_overflow + port_topology" where
  "new_topology port =
     (if uint port + 3 < 2 ^ 16 then Inr \<lparr>configured_port = port\<rparr>
      else Inl \<lparr>overflow_configured_port = port, required_offset = 3\<rparr>)"

definition configured :: "port_topology \<Rightarrow> u16" where "configured p = configured_port p"
definition login_tcp :: "port_topology \<Rightarrow> u16" where "login_tcp p = configured_port p + 1"
definition game_udp :: "port_topology \<Rightarrow> u16" where "game_udp p = configured_port p"
definition p2p_udp :: "port_topology \<Rightarrow> u16" where "p2p_udp p = configured_port p + 1"
definition messenger_tcp :: "port_topology \<Rightarrow> u16" where "messenger_tcp p = configured_port p + 2"
definition xun_sidecar_tcp :: "port_topology \<Rightarrow> u16" where "xun_sidecar_tcp p = configured_port p + 3"

section \<open>Properties\<close>

lemma units_str [simp]: "length (encode_utf16 (str cs)) = length cs" "utf16_units (str cs) = length cs"
proof -
  have "encode_char (of_char c) = [of_nat (of_char c)]" for c
  proof -
    have "(of_char c :: nat) < 0x10000" by (rule less_trans[OF nat_of_char_less_256]) simp
    then show ?thesis by (simp add: encode_char_def)
  qed
  then show "length (encode_utf16 (str cs)) = length cs"
    by (simp add: encode_utf16_def str_def comp_def)
  then show "utf16_units (str cs) = length cs" by (simp add: utf16_units_def)
qed

lemmas text_lengths = PATCH_URL_def FIRST_KEY_TEXT_def SECOND_KEY_TEXT_def

lemma first_message_fields:
  "first_message_payload = Inr (le32 (packet_hash ''PcFirstMessage'') @ le16 LOCALE_ID @ le16 1 @
     le16 CLIENT_VERSION @ utf16_field (str PATCH_URL) @ le32 FIRST_KEY @ le32 SECOND_KEY @
     [CLIENT_LOCATION] @ utf16_field (str FIRST_KEY_TEXT) @ COMPATIBILITY_BLOCK @
     utf16_field (str SECOND_KEY_TEXT))"
proof -
  have "int (utf16_units (str PATCH_URL)) < 2 ^ 31" "int (utf16_units (str FIRST_KEY_TEXT)) < 2 ^ 31"
    "int (utf16_units (str SECOND_KEY_TEXT)) < 2 ^ 31"
    by (simp_all add: text_lengths)
  then show ?thesis
    by (simp add: first_message_payload_def write_utf16_eq Let_def named_def new_writer_def
        write_u8_def write_u16_def write_u32_def write_bytes_def)
qed

lemma plain_frame_roundtrip:
  assumes "length payload \<le> maximum" "length payload < 2 ^ 32"
  shows "encode_plain payload maximum = Inr (le32 (of_nat (length payload)) @ payload)"
    and "decode_plain (le32 (of_nat (length payload)) @ payload) maximum = Inr payload"
proof -
  have "int (length payload) < 2 ^ 32" using assms(2) by simp
  then show "encode_plain payload maximum = Inr (le32 (of_nat (length payload)) @ payload)"
    using assms(1) by (simp add: encode_plain_def u32_try_from_def)
  have "unat (of_nat (length payload) :: u32) = length payload"
    using assms(2) by (simp add: unat_of_nat)
  then show "decode_plain (le32 (of_nat (length payload)) @ payload) maximum = Inr payload"
    using assms by (simp add: decode_plain_def Let_def)
qed

text \<open>The login handshake. The first message never fails to build; its packet hash is the one the
  client looks for, its body has the 308 bytes of the original server, and its plain frame has 312
  bytes and decodes to it.\<close>

theorem first_message_wire:
  "\<exists>payload frame. first_message_payload = Inr payload \<and> length payload = 308 \<and>
     take 4 payload = le32 0x282b0580 \<and>
     encode_plain payload DEFAULT_MAX_PAYLOAD = Inr frame \<and> length frame = 312 \<and>
     decode_plain frame DEFAULT_MAX_PAYLOAD = Inr payload"
proof -
  let ?p = "le32 (packet_hash ''PcFirstMessage'') @ le16 LOCALE_ID @ le16 1 @
     le16 CLIENT_VERSION @ utf16_field (str PATCH_URL) @ le32 FIRST_KEY @ le32 SECOND_KEY @
     [CLIENT_LOCATION] @ utf16_field (str FIRST_KEY_TEXT) @ COMPATIBILITY_BLOCK @
     utf16_field (str SECOND_KEY_TEXT)"
  have l: "length ?p = 308"
    by (simp add: utf16_field_def COMPATIBILITY_BLOCK_def text_lengths)
  have "take 4 ?p = le32 0x282b0580" by (simp add: packet_hash_goldens)
  with l first_message_fields obtain p where
    p: "first_message_payload = Inr p" "length p = 308" "take 4 p = le32 0x282b0580"
    by metis
  then show ?thesis
    using plain_frame_roundtrip[of p DEFAULT_MAX_PAYLOAD]
    by (intro exI[of _ p] exI[of _ "le32 308 @ p"]) (simp add: DEFAULT_MAX_PAYLOAD_def)
qed

text \<open>The port topology is accepted exactly when no derived port wraps: then the four TCP and UDP
  services sit at offsets 0 to 3 of the configured port as integers, and otherwise the error names
  the port and the offset.\<close>

theorem port_topology_offsets:
  "(case new_topology port of
      Inl e \<Rightarrow> 2 ^ 16 \<le> uint port + 3 \<and> overflow_configured_port e = port \<and> required_offset e = 3
    | Inr p \<Rightarrow> uint port + 3 < 2 ^ 16 \<and> uint (configured p) = uint port \<and>
        uint (game_udp p) = uint port \<and> uint (login_tcp p) = uint port + 1 \<and>
        uint (p2p_udp p) = uint port + 1 \<and> uint (messenger_tcp p) = uint port + 2 \<and>
        uint (xun_sidecar_tcp p) = uint port + 3)"
proof -
  have "uint (port + 1) = uint port + 1" "uint (port + 2) = uint port + 2"
    "uint (port + 3) = uint port + 3" if "uint port + 3 < 65536"
    using that by (simp_all add: uint_word_ariths)
  then show ?thesis
    by (simp add: new_topology_def configured_def game_udp_def login_tcp_def p2p_udp_def
        messenger_tcp_def xun_sidecar_tcp_def)
qed

end
