(* ===== verification/ProtocolFsm.thy ===== *)
theory ProtocolFsm
  imports Prelude
begin

text \<open>
  The protocol-visible state machine of the stock client
  (\<open>crates/p4475-client-oracle/src/protocol_fsm.rs\<close>): its states and events, the three transition
  functions and the transactional \<open>accept\<close>. The lemmas give its invariant over every event sequence,
  the graph of scenes it implements and the ceremony order it exists to enforce.
\<close>

section \<open>States and events\<close>

datatype transport_state = Disconnected | AwaitingFirstMessage | EncryptedUnauthenticated | Authenticated

datatype ceremony_phase = AwaitingNextStage | AwaitingResult | Podium

datatype scene_state =
  Offline
| Login
| RiderBootstrap
| Menu
| Migration
| RoomLobby
| Loading
| Racing
| Settling
| Ceremony ceremony_phase

record room_snapshot_state =
  session_data_seen :: bool
  slot_data_seen :: bool

definition complete :: "room_snapshot_state \<Rightarrow> bool" where
  "complete r \<longleftrightarrow> session_data_seen r \<and> slot_data_seen r"

record loading_state =
  game_control_zero_sent :: bool
  udp_time_sync_requested :: bool
  udp_time_sync_accepted :: bool

record protocol_state =
  transport :: transport_state
  scene :: scene_state
  migration_pending :: bool
  room_snapshot :: room_snapshot_state
  loading :: loading_state
  record_collection_flag :: "bool option"
  local_finish_reported :: bool

datatype event =
  ConnectionOpened
| ConnectionClosed
| ServerFirstMessage
| ServerLoginAccepted
| ServerRiderSnapshot
| ServerChannelSwitch bool
| ServerChannelMoveInAccepted
| ServerRoomAdmissionAccepted
| ServerRoomAdmissionRejected
| ServerSessionData
| ServerSlotData
| ServerRoomMutation
| ServerCommandStart
| ClientGameControlZero
| ClientUdpTimeSyncRequest
| ServerUdpTimeSyncReply
| ServerGameControlOne
| ServerStartCollectRecord bool
| ClientGameControlTwo
| ServerRaceTime
| ServerGameControlThree
| ServerGameControlFour
| ServerGameNextStage
| ServerGameResult
| ClientPodiumSchedulerCompleted
| ServerLeaveRoom

record transition_error =
  error_event :: event
  error_transport :: transport_state
  error_scene :: scene_state

definition default_room_snapshot :: room_snapshot_state where
  "default_room_snapshot = \<lparr>session_data_seen = False, slot_data_seen = False\<rparr>"

definition default_loading :: loading_state where
  "default_loading = \<lparr>game_control_zero_sent = False, udp_time_sync_requested = False,
     udp_time_sync_accepted = False\<rparr>"

definition new_fsm :: protocol_state where
  "new_fsm = \<lparr>transport = Disconnected, scene = Offline, migration_pending = False,
     room_snapshot = \<lparr>session_data_seen = False, slot_data_seen = False\<rparr>,
     loading = \<lparr>game_control_zero_sent = False, udp_time_sync_requested = False,
       udp_time_sync_accepted = False\<rparr>,
     record_collection_flag = None, local_finish_reported = False\<rparr>"

section \<open>Transitions\<close>

definition authenticated_in :: "protocol_state \<Rightarrow> scene_state \<Rightarrow> bool" where
  "authenticated_in s sc \<longleftrightarrow> transport s = Authenticated \<and> scene s = sc"

definition racing_or_settling :: "protocol_state \<Rightarrow> bool" where
  "racing_or_settling s \<longleftrightarrow> transport s = Authenticated \<and> scene s \<in> {Racing, Settling}"

definition return_to_room :: "protocol_state \<Rightarrow> protocol_state" where
  "return_to_room s = s\<lparr>scene := RoomLobby,
     room_snapshot := \<lparr>session_data_seen = True, slot_data_seen = True\<rparr>,
     loading := default_loading, record_collection_flag := None, local_finish_reported := False\<rparr>"

text \<open>A guarded arm of a \<open>match\<close>: a failed guard falls through to \<open>_ => return false\<close>.\<close>

definition arm :: "bool \<Rightarrow> protocol_state \<Rightarrow> protocol_state \<Rightarrow> bool \<times> protocol_state" where
  "arm guard s s' = (if guard then (True, s') else (False, s))"

definition apply_transport :: "event \<Rightarrow> protocol_state \<Rightarrow> bool \<times> protocol_state" where
  "apply_transport event s =
     (case event of
        ConnectionOpened \<Rightarrow> arm (transport s = Disconnected) s
          (s\<lparr>transport := AwaitingFirstMessage,
             scene := if migration_pending s then Migration else Login\<rparr>)
      | ConnectionClosed \<Rightarrow> arm True s
          (s\<lparr>transport := Disconnected,
             scene := if migration_pending s then Migration else Offline\<rparr>)
      | ServerFirstMessage \<Rightarrow> arm (transport s = AwaitingFirstMessage) s
          (s\<lparr>transport := EncryptedUnauthenticated\<rparr>)
      | ServerLoginAccepted \<Rightarrow>
          arm (transport s = EncryptedUnauthenticated \<and> \<not> migration_pending s) s
          (s\<lparr>transport := Authenticated, scene := RiderBootstrap\<rparr>)
      | ServerRiderSnapshot \<Rightarrow>
          arm (transport s = Authenticated \<and> scene s = RiderBootstrap) s (s\<lparr>scene := Menu\<rparr>)
      | ServerChannelSwitch reconnect \<Rightarrow>
          (if reconnect
           then arm (authenticated_in s Menu) s (s\<lparr>migration_pending := True, scene := Migration\<rparr>)
           else arm (authenticated_in s Menu) s (s\<lparr>migration_pending := False\<rparr>))
      | ServerChannelMoveInAccepted \<Rightarrow>
          arm (transport s = EncryptedUnauthenticated \<and> migration_pending s) s
          (s\<lparr>transport := Authenticated, scene := Menu, migration_pending := False\<rparr>)
      | _ \<Rightarrow> (False, s))"

definition apply_room :: "event \<Rightarrow> protocol_state \<Rightarrow> bool \<times> protocol_state" where
  "apply_room event s =
     (case event of
        ServerRoomAdmissionAccepted \<Rightarrow> arm (authenticated_in s Menu) s
          (s\<lparr>scene := RoomLobby, room_snapshot := default_room_snapshot\<rparr>)
      | ServerRoomAdmissionRejected \<Rightarrow> arm (authenticated_in s Menu) s
          (s\<lparr>room_snapshot := default_room_snapshot\<rparr>)
      | ServerSessionData \<Rightarrow> arm (authenticated_in s RoomLobby) s
          (s\<lparr>room_snapshot := (room_snapshot s)\<lparr>session_data_seen := True\<rparr>\<rparr>)
      | ServerSlotData \<Rightarrow> arm (authenticated_in s RoomLobby) s
          (s\<lparr>room_snapshot := (room_snapshot s)\<lparr>slot_data_seen := True\<rparr>\<rparr>)
      | ServerRoomMutation \<Rightarrow> arm (authenticated_in s RoomLobby) s s
      | ServerCommandStart \<Rightarrow> arm (authenticated_in s RoomLobby) s
          (s\<lparr>scene := Loading,
             room_snapshot := \<lparr>session_data_seen = True, slot_data_seen = True\<rparr>,
             loading := default_loading, record_collection_flag := None,
             local_finish_reported := False\<rparr>)
      | ServerLeaveRoom \<Rightarrow>
          arm (transport s = Authenticated \<and>
               (case scene s of RoomLobby \<Rightarrow> True | Loading \<Rightarrow> True | Racing \<Rightarrow> True | Settling \<Rightarrow> True
                | Ceremony _ \<Rightarrow> True | _ \<Rightarrow> False)) s
          (s\<lparr>scene := Menu, room_snapshot := default_room_snapshot, loading := default_loading,
             record_collection_flag := None, local_finish_reported := False\<rparr>)
      | _ \<Rightarrow> (False, s))"

definition apply_race :: "event \<Rightarrow> protocol_state \<Rightarrow> bool \<times> protocol_state" where
  "apply_race event s =
     (case event of
        ClientGameControlZero \<Rightarrow> arm (authenticated_in s Loading) s
          (s\<lparr>loading := (loading s)\<lparr>game_control_zero_sent := True\<rparr>\<rparr>)
      | ClientUdpTimeSyncRequest \<Rightarrow> arm (authenticated_in s Loading) s
          (s\<lparr>loading := (loading s)\<lparr>udp_time_sync_requested := True\<rparr>\<rparr>)
      | ServerUdpTimeSyncReply \<Rightarrow>
          arm (authenticated_in s Loading \<and> udp_time_sync_requested (loading s)) s
          (s\<lparr>loading := (loading s)\<lparr>udp_time_sync_accepted := True\<rparr>\<rparr>)
      | ServerGameControlOne \<Rightarrow> arm (authenticated_in s Loading) s (s\<lparr>scene := Racing\<rparr>)
      | ServerStartCollectRecord flag \<Rightarrow>
          arm (transport s = Authenticated \<and> scene s \<in> {Loading, Racing, Settling}) s
          (s\<lparr>record_collection_flag := Some flag\<rparr>)
      | ClientGameControlTwo \<Rightarrow> arm (authenticated_in s Racing) s (s\<lparr>local_finish_reported := True\<rparr>)
      | ServerRaceTime \<Rightarrow> arm (racing_or_settling s) s s
      | ServerGameControlThree \<Rightarrow> arm (authenticated_in s Racing) s (s\<lparr>scene := Settling\<rparr>)
      | ServerGameControlFour \<Rightarrow> arm (authenticated_in s Settling) s
          (s\<lparr>scene := Ceremony AwaitingNextStage\<rparr>)
      | ServerGameNextStage \<Rightarrow> arm (authenticated_in s (Ceremony AwaitingNextStage)) s
          (s\<lparr>scene := Ceremony AwaitingResult\<rparr>)
      | ServerGameResult \<Rightarrow> arm (authenticated_in s (Ceremony AwaitingResult)) s
          (s\<lparr>scene := Ceremony Podium\<rparr>)
      | ClientPodiumSchedulerCompleted \<Rightarrow> arm (authenticated_in s (Ceremony Podium)) s
          (return_to_room s)
      | _ \<Rightarrow> (False, s))"

definition apply_event :: "event \<Rightarrow> protocol_state \<Rightarrow> bool \<times> protocol_state" where
  "apply_event event s =
     (case event of
        ConnectionOpened \<Rightarrow> apply_transport event s
      | ConnectionClosed \<Rightarrow> apply_transport event s
      | ServerFirstMessage \<Rightarrow> apply_transport event s
      | ServerLoginAccepted \<Rightarrow> apply_transport event s
      | ServerRiderSnapshot \<Rightarrow> apply_transport event s
      | ServerChannelSwitch _ \<Rightarrow> apply_transport event s
      | ServerChannelMoveInAccepted \<Rightarrow> apply_transport event s
      | ServerRoomAdmissionAccepted \<Rightarrow> apply_room event s
      | ServerRoomAdmissionRejected \<Rightarrow> apply_room event s
      | ServerSessionData \<Rightarrow> apply_room event s
      | ServerSlotData \<Rightarrow> apply_room event s
      | ServerRoomMutation \<Rightarrow> apply_room event s
      | ServerCommandStart \<Rightarrow> apply_room event s
      | ServerLeaveRoom \<Rightarrow> apply_room event s
      | ClientGameControlZero \<Rightarrow> apply_race event s
      | ClientUdpTimeSyncRequest \<Rightarrow> apply_race event s
      | ServerUdpTimeSyncReply \<Rightarrow> apply_race event s
      | ServerGameControlOne \<Rightarrow> apply_race event s
      | ServerStartCollectRecord _ \<Rightarrow> apply_race event s
      | ClientGameControlTwo \<Rightarrow> apply_race event s
      | ServerRaceTime \<Rightarrow> apply_race event s
      | ServerGameControlThree \<Rightarrow> apply_race event s
      | ServerGameControlFour \<Rightarrow> apply_race event s
      | ServerGameNextStage \<Rightarrow> apply_race event s
      | ServerGameResult \<Rightarrow> apply_race event s
      | ClientPodiumSchedulerCompleted \<Rightarrow> apply_race event s)"

definition accept :: "event \<Rightarrow> protocol_state \<Rightarrow> (transition_error + protocol_state) \<times> protocol_state" where
  "accept event s =
     (let before = s; (ok, s') = apply_event event s in
      if ok then (Inr s', s')
      else (Inl \<lparr>error_event = event, error_transport = transport before,
                 error_scene = scene before\<rparr>, before))"

section \<open>Invariant\<close>

lemmas fsm_defs = apply_event_def apply_transport_def apply_room_def apply_race_def arm_def
  authenticated_in_def racing_or_settling_def return_to_room_def default_room_snapshot_def
  default_loading_def

lemma accept_ok: "accept e s = (Inr t, s') \<longleftrightarrow> apply_event e s = (True, t) \<and> s' = t"
  by (auto simp: accept_def Let_def split: prod.splits if_splits)

lemma accept_error: "accept e s = (Inl err, s') \<Longrightarrow>
    s' = s \<and> err = \<lparr>error_event = e, error_transport = transport s, error_scene = scene s\<rparr>"
  by (auto simp: accept_def Let_def split: prod.splits if_splits)

definition race_scene :: "scene_state \<Rightarrow> bool" where
  "race_scene sc \<longleftrightarrow> (case sc of Loading \<Rightarrow> True | Racing \<Rightarrow> True | Settling \<Rightarrow> True | Ceremony _ \<Rightarrow> True
     | _ \<Rightarrow> False)"

lemma race_scene_simps [simp]:
  "\<not> race_scene Offline" "\<not> race_scene Login" "\<not> race_scene RiderBootstrap" "\<not> race_scene Menu"
  "\<not> race_scene Migration" "\<not> race_scene RoomLobby" "race_scene Loading" "race_scene Racing"
  "race_scene Settling" "race_scene (Ceremony c)"
  by (simp_all add: race_scene_def)

lemma leave_guard:
  "(case sc of RoomLobby \<Rightarrow> True | Loading \<Rightarrow> True | Racing \<Rightarrow> True | Settling \<Rightarrow> True
    | Ceremony _ \<Rightarrow> True | _ \<Rightarrow> False) \<longleftrightarrow> sc = RoomLobby \<or> race_scene sc"
  by (cases sc) simp_all

text \<open>
  The scene agrees with the transport, a migration is pending exactly in the migration scene, a
  race scene has a complete room snapshot, a loading client has not finished, and a time
  synchronisation is accepted only after it was requested.
\<close>

definition fsm_inv :: "protocol_state \<Rightarrow> bool" where
  "fsm_inv s \<longleftrightarrow>
     (transport s \<noteq> Authenticated \<longrightarrow> scene s \<in> {Offline, Login, Migration}) \<and>
     (transport s = Disconnected \<longrightarrow> scene s \<noteq> Login) \<and>
     (scene s = Offline \<longrightarrow> transport s = Disconnected) \<and>
     (scene s = Login \<longrightarrow> transport s \<noteq> Authenticated) \<and>
     (migration_pending s \<longleftrightarrow> scene s = Migration) \<and>
     (race_scene (scene s) \<longrightarrow> complete (room_snapshot s)) \<and>
     (scene s = Loading \<longrightarrow> \<not> local_finish_reported s) \<and>
     (udp_time_sync_accepted (loading s) \<longrightarrow> udp_time_sync_requested (loading s))"

lemma fsm_inv_new: "fsm_inv new_fsm"
  by (simp add: fsm_inv_def new_fsm_def race_scene_def)

lemma fsm_inv_closed: "fsm_inv s \<Longrightarrow> apply_event ConnectionClosed s = (True, t) \<Longrightarrow> fsm_inv t"
proof -
  assume "apply_event ConnectionClosed s = (True, t)" and inv: "fsm_inv s"
  then have "transport t = Disconnected" "scene t = (if migration_pending s then Migration else Offline)"
    "migration_pending t = migration_pending s" "loading t = loading s"
    by (auto simp: apply_event_def apply_transport_def arm_def)
  with inv show "fsm_inv t" by (simp add: fsm_inv_def)
qed

lemma fsm_inv_transport:
  "fsm_inv s \<Longrightarrow> apply_transport e s = (True, t) \<Longrightarrow> e \<noteq> ConnectionClosed \<Longrightarrow> fsm_inv t"
  by (cases e; simp add: apply_transport_def arm_def split: if_splits;
      clarsimp simp: fsm_inv_def authenticated_in_def)

lemma fsm_inv_room: "fsm_inv s \<Longrightarrow> apply_room e s = (True, t) \<Longrightarrow> fsm_inv t"
  by (cases e; simp add: apply_room_def arm_def leave_guard split: if_splits;
      clarsimp simp: fsm_inv_def fsm_defs complete_def)

lemma fsm_inv_race: "fsm_inv s \<Longrightarrow> apply_race e s = (True, t) \<Longrightarrow> fsm_inv t"
  by (cases e; simp add: apply_race_def arm_def split: if_splits;
      clarsimp simp: fsm_inv_def fsm_defs complete_def)

lemma apply_event_cases:
  "apply_event e s = apply_transport e s \<or> apply_event e s = apply_room e s \<or>
   apply_event e s = apply_race e s"
  by (cases e) (simp_all add: apply_event_def)

lemma fsm_inv_apply: "fsm_inv s \<Longrightarrow> apply_event e s = (True, t) \<Longrightarrow> fsm_inv t"
  using fsm_inv_transport fsm_inv_room fsm_inv_race fsm_inv_closed apply_event_cases[of e s]
  by metis

lemma fsm_inv_accept: "fsm_inv s \<Longrightarrow> fsm_inv (snd (accept e s))"
  by (auto simp: accept_def Let_def fsm_inv_apply split: prod.splits)

interpretation fsm: machine "\<lambda>s. s = new_fsm" "\<lambda>s e. snd (accept e s)" fsm_inv
  by unfold_locales (simp_all add: fsm_inv_new fsm_inv_accept)

section \<open>The graph of scenes\<close>

text \<open>
  The contract: which scene each event leads to. \<open>accept\<close> refines it: an accepted event either
  follows an edge or is one of those that leave the scene alone.
\<close>

inductive edge :: "scene_state \<Rightarrow> event \<Rightarrow> scene_state \<Rightarrow> bool" where
  opened: "edge Offline ConnectionOpened Login"
| reopened: "edge Migration ConnectionOpened Migration"
| closed: "edge sc ConnectionClosed (if sc = Migration then Migration else Offline)"
| logged_in: "edge Login ServerLoginAccepted RiderBootstrap"
| bootstrapped: "edge RiderBootstrap ServerRiderSnapshot Menu"
| switched: "edge Menu (ServerChannelSwitch r) (if r then Migration else Menu)"
| moved_in: "edge Migration ServerChannelMoveInAccepted Menu"
| admitted: "edge Menu ServerRoomAdmissionAccepted RoomLobby"
| started: "edge RoomLobby ServerCommandStart Loading"
| released: "edge Loading ServerGameControlOne Racing"
| settled: "edge Racing ServerGameControlThree Settling"
| ceremony: "edge Settling ServerGameControlFour (Ceremony AwaitingNextStage)"
| next_stage: "edge (Ceremony AwaitingNextStage) ServerGameNextStage (Ceremony AwaitingResult)"
| result_shown: "edge (Ceremony AwaitingResult) ServerGameResult (Ceremony Podium)"
| podium_over: "edge (Ceremony Podium) ClientPodiumSchedulerCompleted RoomLobby"
| left: "sc = RoomLobby \<or> race_scene sc \<Longrightarrow> edge sc ServerLeaveRoom Menu"

inductive_cases edge_resultE: "edge sc ServerGameResult sc'"
inductive_simps edge_simps [simp]:
  "edge sc ConnectionOpened sc'" "edge sc ConnectionClosed sc'" "edge sc ServerLoginAccepted sc'"
  "edge sc ServerRiderSnapshot sc'" "edge sc (ServerChannelSwitch r) sc'"
  "edge sc ServerChannelMoveInAccepted sc'" "edge sc ServerRoomAdmissionAccepted sc'"
  "edge sc ServerCommandStart sc'" "edge sc ServerGameControlOne sc'"
  "edge sc ServerGameControlThree sc'" "edge sc ServerGameControlFour sc'"
  "edge sc ServerGameNextStage sc'" "edge sc ServerGameResult sc'"
  "edge sc ClientPodiumSchedulerCompleted sc'" "edge sc ServerLeaveRoom sc'"

definition moves :: "event \<Rightarrow> bool" where
  "moves e \<longleftrightarrow> e \<in> {ConnectionOpened, ConnectionClosed, ServerLoginAccepted, ServerRiderSnapshot,
     ServerChannelSwitch True, ServerChannelSwitch False, ServerChannelMoveInAccepted,
     ServerRoomAdmissionAccepted, ServerCommandStart, ServerGameControlOne, ServerGameControlThree,
     ServerGameControlFour, ServerGameNextStage, ServerGameResult, ClientPodiumSchedulerCompleted,
     ServerLeaveRoom}"

lemma transport_edge:
  "fsm_inv s \<Longrightarrow> apply_transport e s = (True, t) \<Longrightarrow>
   if moves e then edge (scene s) e (scene t) else scene t = scene s"
  by (cases e; simp add: apply_transport_def arm_def moves_def split: if_splits;
      clarsimp simp: fsm_inv_def authenticated_in_def; auto)

lemma room_edge:
  "apply_room e s = (True, t) \<Longrightarrow>
   if moves e then edge (scene s) e (scene t) else scene t = scene s"
  by (cases e; simp add: apply_room_def arm_def leave_guard moves_def split: if_splits;
      clarsimp simp: authenticated_in_def)

lemma race_edge:
  "apply_race e s = (True, t) \<Longrightarrow>
   if moves e then edge (scene s) e (scene t) else scene t = scene s"
  by (cases e; simp add: apply_race_def arm_def moves_def split: if_splits;
      clarsimp simp: authenticated_in_def return_to_room_def)

lemma apply_edge:
  "fsm_inv s \<Longrightarrow> apply_event e s = (True, t) \<Longrightarrow>
   if moves e then edge (scene s) e (scene t) else scene t = scene s"
  using transport_edge room_edge race_edge apply_event_cases[of e s] by metis

section \<open>The ceremony order\<close>

text \<open>The events of a sequence that are accepted and move the scene, in order.\<close>

fun moved :: "protocol_state \<Rightarrow> event list \<Rightarrow> event list" where
  "moved s [] = []"
| "moved s (e # es) =
     (case accept e s of
        (Inl _, s') \<Rightarrow> moved s' es
      | (Inr _, s') \<Rightarrow> (if moves e then [e] else []) @ moved s' es)"

definition run_fsm :: "protocol_state \<Rightarrow> event list \<Rightarrow> protocol_state" where
  "run_fsm = foldl (\<lambda>s e. snd (accept e s))"

lemma run_fsm_Cons [simp]: "run_fsm s (e # es) = run_fsm (snd (accept e s)) es"
  and run_fsm_Nil [simp]: "run_fsm s [] = s"
  by (simp_all add: run_fsm_def)

text \<open>What the last moves must have been for the client to be in a race scene.\<close>

fun race_history :: "scene_state \<Rightarrow> event list" where
  "race_history Loading = [ServerCommandStart]"
| "race_history Racing = [ServerCommandStart, ServerGameControlOne]"
| "race_history Settling = [ServerCommandStart, ServerGameControlOne, ServerGameControlThree]"
| "race_history (Ceremony AwaitingNextStage) =
    [ServerCommandStart, ServerGameControlOne, ServerGameControlThree, ServerGameControlFour]"
| "race_history (Ceremony AwaitingResult) =
    [ServerCommandStart, ServerGameControlOne, ServerGameControlThree, ServerGameControlFour,
     ServerGameNextStage]"
| "race_history (Ceremony Podium) =
    [ServerCommandStart, ServerGameControlOne, ServerGameControlThree, ServerGameControlFour,
     ServerGameNextStage, ServerGameResult]"
| "race_history _ = []"

lemma edge_history:
  "edge sc e sc' \<Longrightarrow> \<exists>pre. h = pre @ race_history sc \<Longrightarrow> \<exists>pre. h @ [e] = pre @ race_history sc'"
  by (induction rule: edge.induct) auto

lemma moved_history:
  "fsm_inv s \<Longrightarrow> \<exists>pre. h = pre @ race_history (scene s) \<Longrightarrow>
   \<exists>pre. h @ moved s es = pre @ race_history (scene (run_fsm s es))"
proof (induction es arbitrary: s h)
  case (Cons e es)
  obtain r s' where a: "accept e s = (r, s')" by (cases "accept e s")
  show ?case
  proof (cases r)
    case (Inl err)
    with a accept_error[of e s err s'] Cons show ?thesis by simp
  next
    case (Inr t)
    with a have ok: "apply_event e s = (True, s')" "t = s'" by (simp_all add: accept_ok)
    then have "fsm_inv s'" using Cons.prems(1) fsm_inv_apply by blast
    moreover have "\<exists>pre. h @ (if moves e then [e] else []) = pre @ race_history (scene s')"
      using apply_edge[OF Cons.prems(1) ok(1)] Cons.prems(2)
        edge_history[of "scene s" e "scene s'" h] by (cases "moves e") simp_all
    ultimately show ?thesis
      using Cons.IH[of s' "h @ (if moves e then [e] else [])"] a Inr by simp
  qed
qed simp

section \<open>Properties\<close>

lemma run_fsm_inv: "fsm_inv (run_fsm new_fsm es)"
  unfolding run_fsm_def by (rule fsm.inv_reachable) (rule refl)

text \<open>C34. Soundness of the client state machine. After any sequence of events from the initial state
  the invariant holds (scene and transport agree, a migration is pending exactly in the migration
  scene, race scenes have a complete snapshot), a rejected event changes nothing and reports the
  state it was rejected in, and an accepted one follows the scene graph.\<close>

theorem accept_refines_scene_graph:
  "fsm_inv (run_fsm new_fsm es) \<and>
   (case accept e (run_fsm new_fsm es) of
      (Inl err, s') \<Rightarrow> s' = run_fsm new_fsm es \<and> error_event err = e \<and>
        error_transport err = transport s' \<and> error_scene err = scene s'
    | (Inr t, s') \<Rightarrow> t = s' \<and> fsm_inv s' \<and>
        (if moves e then edge (scene (run_fsm new_fsm es)) e (scene s')
         else scene s' = scene (run_fsm new_fsm es)))"
proof (cases "accept e (run_fsm new_fsm es)")
  case (Pair r s')
  show ?thesis
  proof (cases r)
    case (Inl err)
    with Pair show ?thesis using run_fsm_inv accept_error[of e "run_fsm new_fsm es" err s'] by simp
  next
    case (Inr t)
    then have "apply_event e (run_fsm new_fsm es) = (True, s')" "t = s'"
      using Pair by (simp_all add: accept_ok)
    with Pair Inr run_fsm_inv[of es] fsm_inv_apply apply_edge[OF run_fsm_inv] show ?thesis by simp
  qed
qed

text \<open>C33. The ceremony order. Whenever the client accepts \<open>GameResult\<close>, the last scene-moving events
  it accepted are command start, game control 1, 3 and 4 and next stage, in this order, whatever
  else arrived before, between or was rejected.\<close>

theorem game_result_after_ceremony:
  "case accept ServerGameResult (run_fsm new_fsm es) of
     (Inl err, s') \<Rightarrow> error_scene err \<noteq> Ceremony AwaitingResult
   | (Inr t, s') \<Rightarrow> scene t = Ceremony Podium \<and>
       (\<exists>pre. moved new_fsm es = pre @ [ServerCommandStart, ServerGameControlOne,
          ServerGameControlThree, ServerGameControlFour, ServerGameNextStage])"
proof -
  let ?s = "run_fsm new_fsm es"
  have auth: "transport ?s = Authenticated" if "scene ?s = Ceremony AwaitingResult"
    using run_fsm_inv[of es] that by (auto simp: fsm_inv_def)
  have "\<exists>pre. moved new_fsm es = pre @ race_history (scene ?s)"
    using moved_history[OF fsm_inv_new, of "[]" es] by (simp add: new_fsm_def)
  then show ?thesis
    using auth
    by (auto simp: accept_def Let_def apply_event_def apply_race_def arm_def authenticated_in_def)
qed


end
