(* ===== verification/FinalStage.thy ===== *)
theory FinalStage
  imports Prelude
begin

text \<open>
  The podium schedulers of the stock client (\<open>crates/p4475-client-oracle/src/final_stage_scheduler.rs\<close>):
  the individual and the team variant, driven by 32-bit millisecond ticks that wrap. A tick of zero
  is also the sentinel of an unarmed timer. The lemmas relate the ticks to an absolute clock.
\<close>

definition INTRO_DELAY_MS :: u32 where "INTRO_DELAY_MS = 1000"
definition POST_ANIMATION_DELAY_MS :: u32 where "POST_ANIMATION_DELAY_MS = 100"
definition INDIVIDUAL_OBSERVER_HOLD_MS :: u32 where "INDIVIDUAL_OBSERVER_HOLD_MS = 2000"
definition INDIVIDUAL_READY_DWELL_MS :: u32 where "INDIVIDUAL_READY_DWELL_MS = 5000"
definition TEAM_RESULT_DWELL_MS :: u32 where "TEAM_RESULT_DWELL_MS = 7000"

datatype ready_stage = GameReady | ObserverReady

record final_stage_mode =
  observer :: bool
  manual_result_ui :: bool

definition ready_stage_of :: "final_stage_mode \<Rightarrow> ready_stage" where
  "ready_stage_of m = (if observer m then ObserverReady else GameReady)"

record individual_animation_signals =
  forward_complete :: bool
  reverse_complete :: bool

datatype scheduler_outcome = Waiting | InstallReadyStage ready_stage

section \<open>Individual scheduler\<close>

datatype individual_phase =
  IIntroDelay
| IFirstAnimation
| PostFirstAnimation
| ObserverFirstHold
| ObserverPanelSetup
| ObserverSecondAnimation
| ObserverSecondHold
| ReadyDwell

record individual_scheduler =
  ind_mode :: final_stage_mode
  ind_phase :: individual_phase
  ind_started_at :: u32
  observer_confirm_count :: u32

definition new_individual :: "final_stage_mode \<Rightarrow> individual_scheduler" where
  "new_individual mode = \<lparr>ind_mode = mode, ind_phase = IIntroDelay, ind_started_at = 0,
     observer_confirm_count = 0\<rparr>"

definition ind_arm :: "u32 \<Rightarrow> individual_scheduler \<Rightarrow> individual_scheduler" where
  "ind_arm now s = (if ind_started_at s = 0 then s\<lparr>ind_started_at := now\<rparr> else s)"

definition ind_enter_at :: "individual_phase \<Rightarrow> u32 \<Rightarrow> individual_scheduler \<Rightarrow> individual_scheduler" where
  "ind_enter_at phase now s = s\<lparr>ind_phase := phase, ind_started_at := now\<rparr>"

definition ind_elapsed :: "individual_scheduler \<Rightarrow> u32 \<Rightarrow> u32" where
  "ind_elapsed s now = now - ind_started_at s"

definition individual_update ::
  "u32 \<Rightarrow> individual_animation_signals \<Rightarrow> individual_scheduler \<Rightarrow> scheduler_outcome \<times> individual_scheduler" where
  "individual_update now animation s0 =
     (let s = ind_arm now s0; mode = ind_mode s in
      case ind_phase s of
        IIntroDelay \<Rightarrow>
          (Waiting, if observer mode \<or> INTRO_DELAY_MS < ind_elapsed s now
                    then ind_enter_at IFirstAnimation now s else s)
      | IFirstAnimation \<Rightarrow>
          (Waiting, if forward_complete animation then ind_enter_at PostFirstAnimation now s else s)
      | PostFirstAnimation \<Rightarrow>
          (Waiting, if POST_ANIMATION_DELAY_MS < ind_elapsed s now
                    then ind_enter_at (if observer mode then ObserverFirstHold else ReadyDwell) now s
                    else s)
      | ObserverFirstHold \<Rightarrow>
          (Waiting, if reverse_complete animation \<and> INDIVIDUAL_OBSERVER_HOLD_MS < ind_elapsed s now
                    then ind_enter_at ObserverPanelSetup now s else s)
      | ObserverPanelSetup \<Rightarrow>
          (Waiting, ind_enter_at ObserverSecondAnimation now (s\<lparr>observer_confirm_count := 0\<rparr>))
      | ObserverSecondAnimation \<Rightarrow>
          (Waiting, if forward_complete animation then ind_enter_at ObserverSecondHold now s else s)
      | ObserverSecondHold \<Rightarrow>
          (Waiting, if reverse_complete animation \<and> INDIVIDUAL_OBSERVER_HOLD_MS < ind_elapsed s now
                    then ind_enter_at ReadyDwell now s else s)
      | ReadyDwell \<Rightarrow>
          (if observer mode \<or> INDIVIDUAL_READY_DWELL_MS < ind_elapsed s now
           then InstallReadyStage (ready_stage_of mode) else Waiting, s))"

definition saturating_succ :: "u32 \<Rightarrow> u32" where
  "saturating_succ x = (case checked_succ x of None \<Rightarrow> x | Some y \<Rightarrow> y)"

definition individual_input :: "u32 \<Rightarrow> individual_scheduler \<Rightarrow> bool \<times> individual_scheduler" where
  "individual_input action s =
     (if \<not> manual_result_ui (ind_mode s) then (False, s)
      else if ind_phase s = ObserverFirstHold \<and> action = 13
      then (True, s\<lparr>ind_phase := ObserverPanelSetup, ind_started_at := 0\<rparr>)
      else if ind_phase s = ObserverSecondHold \<and> action = 8
      then (True, s\<lparr>ind_phase := IIntroDelay, ind_started_at := 0\<rparr>)
      else if ind_phase s = ObserverSecondHold \<and> action = 13
      then let s = s\<lparr>observer_confirm_count := saturating_succ (observer_confirm_count s)\<rparr> in
           (True, if 1 < observer_confirm_count s
                  then s\<lparr>ind_phase := ReadyDwell, ind_started_at := 0\<rparr> else s)
      else (False, s))"

section \<open>Team scheduler\<close>

datatype team_phase =
  TIntroDelay
| TFirstAnimation
| PostAnimation
| ResultDwell
| AwaitingManualConfirm
| DispatchReadyStage

record team_scheduler =
  team_mode :: final_stage_mode
  team_phase :: team_phase
  team_started_at :: u32

definition new_team :: "final_stage_mode \<Rightarrow> team_scheduler" where
  "new_team mode = \<lparr>team_mode = mode, team_phase = TIntroDelay, team_started_at = 0\<rparr>"

definition team_arm :: "u32 \<Rightarrow> team_scheduler \<Rightarrow> team_scheduler" where
  "team_arm now s = (if team_started_at s = 0 then s\<lparr>team_started_at := now\<rparr> else s)"

definition team_enter_unarmed :: "team_phase \<Rightarrow> team_scheduler \<Rightarrow> team_scheduler" where
  "team_enter_unarmed phase s = s\<lparr>team_phase := phase, team_started_at := 0\<rparr>"

definition team_elapsed :: "team_scheduler \<Rightarrow> u32 \<Rightarrow> u32" where
  "team_elapsed s now = now - team_started_at s"

definition team_update :: "u32 \<Rightarrow> bool \<Rightarrow> team_scheduler \<Rightarrow> scheduler_outcome \<times> team_scheduler" where
  "team_update now animation_complete s0 =
     (let s = team_arm now s0 in
      case team_phase s of
        TIntroDelay \<Rightarrow>
          (Waiting, if INTRO_DELAY_MS < team_elapsed s now
                    then team_enter_unarmed TFirstAnimation s else s)
      | TFirstAnimation \<Rightarrow>
          (Waiting, if animation_complete then team_enter_unarmed PostAnimation s else s)
      | PostAnimation \<Rightarrow>
          (Waiting, if POST_ANIMATION_DELAY_MS < team_elapsed s now
                    then team_enter_unarmed ResultDwell s else s)
      | ResultDwell \<Rightarrow>
          (Waiting, if TEAM_RESULT_DWELL_MS < team_elapsed s now
                    then team_enter_unarmed
                      (if manual_result_ui (team_mode s) then AwaitingManualConfirm
                       else DispatchReadyStage) s
                    else s)
      | AwaitingManualConfirm \<Rightarrow> (Waiting, s)
      | DispatchReadyStage \<Rightarrow> (InstallReadyStage (ready_stage_of (team_mode s)), s))"

definition team_input :: "u32 \<Rightarrow> team_scheduler \<Rightarrow> bool \<times> team_scheduler" where
  "team_input action s =
     (if manual_result_ui (team_mode s) \<and> team_phase s = AwaitingManualConfirm \<and> action = 13
      then (True, team_enter_unarmed DispatchReadyStage s) else (False, s))"

section \<open>Driving a scheduler from an absolute clock\<close>

text \<open>
  The two things that happen to a scheduler, at a time in milliseconds since some origin; the tick
  the client sees is that time modulo \<open>2 ^ 32\<close>.
\<close>

datatype 'a stimulus = Update nat 'a | Input nat u32

primrec at_time :: "'a stimulus \<Rightarrow> nat" where
  "at_time (Update t _) = t"
| "at_time (Input t _) = t"

primrec individual_step :: "individual_scheduler \<Rightarrow> individual_animation_signals stimulus \<Rightarrow> individual_scheduler" where
  "individual_step s (Update t a) = snd (individual_update (of_nat t) a s)"
| "individual_step s (Input t a) = snd (individual_input a s)"

primrec team_step :: "team_scheduler \<Rightarrow> bool stimulus \<Rightarrow> team_scheduler" where
  "team_step s (Update t a) = snd (team_update (of_nat t) a s)"
| "team_step s (Input t a) = snd (team_input a s)"

definition chronological :: "nat \<Rightarrow> 'a stimulus list \<Rightarrow> bool" where
  "chronological start evs \<longleftrightarrow> sorted (start # map at_time evs)"

lemma chronological_Cons:
  "chronological t0 (e # evs) \<longleftrightarrow> t0 \<le> at_time e \<and> chronological (at_time e) evs"
  by (auto simp: chronological_def)

lemma tick_elapsed: "ts \<le> t \<Longrightarrow> d < unat (of_nat t - of_nat ts :: u32) \<Longrightarrow> ts + d < t"
  by (simp flip: of_nat_diff add: unat_of_nat)

text \<open>
  A timer that was armed at \<open>ts\<close> or not at all. Arming keeps the lower bound on \<open>ts\<close>, and an elapsed
  delay moves it on, whether or not the tick wrapped in between.
\<close>

definition timer_since :: "nat \<Rightarrow> nat \<Rightarrow> u32 \<Rightarrow> bool" where
  "timer_since lower t started \<longleftrightarrow>
     lower \<le> t \<and> (started = 0 \<or> (\<exists>ts. lower \<le> ts \<and> ts \<le> t \<and> started = of_nat ts))"

lemma timer_enter: "lower \<le> t \<Longrightarrow> timer_since lower t (of_nat t)"
  by (auto simp: timer_since_def)

lemma timer_reset: "lower \<le> t \<Longrightarrow> timer_since lower t 0"
  by (auto simp: timer_since_def)

lemma timer_later: "timer_since lower t started \<Longrightarrow> t \<le> t' \<Longrightarrow> timer_since lower t' started"
  by (auto simp: timer_since_def)

lemma timer_arm:
  "timer_since lower t started \<Longrightarrow> timer_since lower t (if started = 0 then of_nat t else started)"
  by (auto simp: timer_since_def)

lemma timer_elapsed:
  assumes "timer_since lower t started" "d < of_nat t - (if started = 0 then of_nat t else started)"
  shows "lower + unat d < t"
proof (cases "started = 0")
  case True
  with assms(2) show ?thesis by simp
next
  case False
  with assms(1) obtain ts where "lower \<le> ts" "ts \<le> t" "started = of_nat ts"
    by (auto simp: timer_since_def)
  then have "ts + unat d < t"
    using assms(2) False by (intro tick_elapsed) (simp_all add: word_less_nat_alt)
  with \<open>lower \<le> ts\<close> show ?thesis by linarith
qed

subsection \<open>Team\<close>

fun team_lower :: "team_phase \<Rightarrow> nat" where
  "team_lower TIntroDelay = 0"
| "team_lower TFirstAnimation = 1001"
| "team_lower PostAnimation = 1001"
| "team_lower ResultDwell = 1102"
| "team_lower AwaitingManualConfirm = 8103"
| "team_lower DispatchReadyStage = 8103"

definition team_timed :: "nat \<Rightarrow> nat \<Rightarrow> team_scheduler \<Rightarrow> bool" where
  "team_timed t0 t s \<longleftrightarrow> timer_since (t0 + team_lower (team_phase s)) t (team_started_at s)"

lemmas delays = INTRO_DELAY_MS_def POST_ANIMATION_DELAY_MS_def INDIVIDUAL_OBSERVER_HOLD_MS_def
  INDIVIDUAL_READY_DWELL_MS_def TEAM_RESULT_DWELL_MS_def

lemmas timer_elapsed_ms =
  timer_elapsed[where d = 1000, simplified] timer_elapsed[where d = 100, simplified]
  timer_elapsed[where d = 7000, simplified] timer_elapsed[where d = 5000, simplified]

lemma timer_lower: "timer_since lower t started \<Longrightarrow> lower \<le> t"
  by (simp add: timer_since_def)

lemma team_timed_update:
  assumes "team_timed t0 t s"
  shows "team_timed t0 t (snd (team_update (of_nat t) a s))"
proof -
  let ?started = "if team_started_at s = 0 then of_nat t else team_started_at s"
  have armed: "team_arm (of_nat t) s = s\<lparr>team_started_at := ?started\<rparr>"
    by (simp add: team_arm_def)
  have "timer_since (t0 + team_lower (team_phase s)) t ?started"
    using assms by (intro timer_arm) (simp add: team_timed_def)
  moreover note * = timer_elapsed_ms[OF assms[unfolded team_timed_def]]
  ultimately show ?thesis
    using timer_lower[OF assms[unfolded team_timed_def]]
    unfolding team_update_def armed Let_def
    by (cases "team_phase s")
       (auto simp: team_timed_def team_enter_unarmed_def team_elapsed_def delays
         intro!: timer_reset dest!: * simp del: of_nat_Suc)
qed

lemma team_timed_step: "team_timed t0 t s \<Longrightarrow> t \<le> at_time e \<Longrightarrow> team_timed t0 (at_time e) (team_step s e)"
proof (cases e)
  case (Update t' a)
  moreover assume "team_timed t0 t s" "t \<le> at_time e"
  ultimately show ?thesis
    using team_timed_update[of t0 t' s a] timer_later by (simp add: team_timed_def)
next
  case (Input t' a)
  moreover assume *: "team_timed t0 t s" "t \<le> at_time e"
  ultimately have "team_timed t0 t' s" using timer_later by (simp add: team_timed_def)
  with Input show ?thesis
    by (auto simp: team_input_def team_timed_def team_enter_unarmed_def
        intro!: timer_reset dest: timer_lower)
qed

lemma team_timed_run:
  "team_timed t0 t s \<Longrightarrow> chronological t evs \<Longrightarrow>
   \<exists>t'. t \<le> t' \<and> team_timed t0 t' (foldl team_step s evs) \<and>
     (\<forall>e. chronological t (evs @ [e]) \<longrightarrow> t' \<le> at_time e)"
proof (induction evs arbitrary: t s)
  case (Cons e evs)
  then have "team_timed t0 (at_time e) (team_step s e)" "chronological (at_time e) evs"
    "t \<le> at_time e"
    by (auto simp: chronological_Cons intro: team_timed_step)
  from Cons.IH[OF this(1,2)] \<open>t \<le> at_time e\<close> show ?case
    by (auto simp: chronological_Cons intro: order_trans)
qed (auto simp: chronological_Cons)

subsection \<open>Individual, without observers\<close>

fun ind_lower :: "individual_phase \<Rightarrow> nat" where
  "ind_lower IIntroDelay = 0"
| "ind_lower IFirstAnimation = 1001"
| "ind_lower PostFirstAnimation = 1001"
| "ind_lower _ = 1102"

text \<open>A scheduler that is not an observer's stays in the four phases of the plain presentation.\<close>

definition plain_phase :: "individual_scheduler \<Rightarrow> bool" where
  "plain_phase s \<longleftrightarrow> \<not> observer (ind_mode s) \<and>
     ind_phase s \<in> {IIntroDelay, IFirstAnimation, PostFirstAnimation, ReadyDwell}"

definition ind_timed :: "nat \<Rightarrow> nat \<Rightarrow> individual_scheduler \<Rightarrow> bool" where
  "ind_timed t0 t s \<longleftrightarrow> timer_since (t0 + ind_lower (ind_phase s)) t (ind_started_at s)"

lemma plain_input: "plain_phase s \<Longrightarrow> individual_input a s = (False, s)"
  by (auto simp: plain_phase_def individual_input_def)

lemma plain_update:
  assumes "plain_phase s"
  shows "plain_phase (snd (individual_update now a s))"
  using assms unfolding individual_update_def Let_def
  by (cases "ind_phase s"; simp add: plain_phase_def ind_arm_def ind_enter_at_def)

lemma plain_phase_step: "plain_phase s \<Longrightarrow> plain_phase (individual_step s e)"
  by (cases e) (simp_all add: plain_input plain_update)

lemma plain_phase_new: "\<not> observer m \<Longrightarrow> plain_phase (new_individual m)"
  by (simp add: plain_phase_def new_individual_def)

interpretation plain: machine "\<lambda>s. \<exists>m. \<not> observer m \<and> s = new_individual m" individual_step plain_phase
  by unfold_locales (auto intro: plain_phase_new plain_phase_step)

lemma ind_timed_update:
  assumes "ind_timed t0 t s" "plain_phase s"
  shows "ind_timed t0 t (snd (individual_update (of_nat t) a s))"
proof -
  let ?started = "if ind_started_at s = 0 then of_nat t else ind_started_at s"
  have armed: "ind_arm (of_nat t) s = s\<lparr>ind_started_at := ?started\<rparr>"
    by (simp add: ind_arm_def)
  have "timer_since (t0 + ind_lower (ind_phase s)) t ?started"
    using assms by (intro timer_arm) (simp add: ind_timed_def)
  moreover note * = timer_elapsed_ms[OF assms(1)[unfolded ind_timed_def]]
  ultimately show ?thesis
    using timer_lower[OF assms(1)[unfolded ind_timed_def]] assms(2)
    unfolding individual_update_def armed Let_def
    by (cases "ind_phase s")
       (auto simp: ind_timed_def ind_enter_at_def ind_elapsed_def delays plain_phase_def
         intro!: timer_enter dest!: * simp del: of_nat_Suc)
qed

lemma ind_timed_step:
  "ind_timed t0 t s \<Longrightarrow> plain_phase s \<Longrightarrow> t \<le> at_time e \<Longrightarrow> ind_timed t0 (at_time e) (individual_step s e)"
  by (cases e) (auto simp: plain_input ind_timed_def intro: timer_later
      ind_timed_update[unfolded ind_timed_def])

lemma ind_timed_run:
  "ind_timed t0 t s \<Longrightarrow> plain_phase s \<Longrightarrow> chronological t evs \<Longrightarrow>
   \<exists>t'. t \<le> t' \<and> ind_timed t0 t' (foldl individual_step s evs) \<and>
     (\<forall>e. chronological t (evs @ [e]) \<longrightarrow> t' \<le> at_time e)"
proof (induction evs arbitrary: t s)
  case (Cons e evs)
  then have "ind_timed t0 (at_time e) (individual_step s e)" "chronological (at_time e) evs"
    "t \<le> at_time e" "plain_phase (individual_step s e)"
    by (auto simp: chronological_Cons intro: ind_timed_step plain_phase_step)
  from Cons.IH[OF this(1,4,2)] \<open>t \<le> at_time e\<close> show ?case
    by (auto simp: chronological_Cons intro: order_trans)
qed (auto simp: chronological_Cons)

section \<open>Properties\<close>

lemma team_mode_step: "team_mode (team_step s e) = team_mode s"
  by (cases e) (auto simp: team_update_def team_input_def team_arm_def team_enter_unarmed_def Let_def
      split: team_phase.splits)

lemma team_mode_run: "team_mode (foldl team_step s evs) = team_mode s"
  by (induction evs arbitrary: s) (simp_all add: team_mode_step)

lemma team_install:
  "team_update now a s = (InstallReadyStage r, s') \<longleftrightarrow>
     team_phase s = DispatchReadyStage \<and> r = ready_stage_of (team_mode s) \<and> s' = team_arm now s"
  by (auto simp: team_update_def Let_def team_arm_def split: team_phase.splits if_splits)

text \<open>
  Without a confirmation a manual presentation cannot reach its dispatch phase.
\<close>

definition unconfirmed :: "bool stimulus \<Rightarrow> bool" where
  "unconfirmed e \<longleftrightarrow> (case e of Update _ _ \<Rightarrow> True | Input _ action \<Rightarrow> action \<noteq> 13)"

lemma unconfirmed_step:
  assumes "manual_result_ui (team_mode s)" "team_phase s \<noteq> DispatchReadyStage" "unconfirmed e"
  shows "team_phase (team_step s e) \<noteq> DispatchReadyStage"
  using assms by (cases e; cases "team_phase s")
    (simp_all add: unconfirmed_def team_update_def team_input_def team_arm_def
      team_enter_unarmed_def Let_def)

lemma unconfirmed_run:
  "manual_result_ui (team_mode s) \<Longrightarrow> team_phase s \<noteq> DispatchReadyStage \<Longrightarrow> list_all unconfirmed evs \<Longrightarrow>
   team_phase (foldl team_step s evs) \<noteq> DispatchReadyStage"
  by (induction evs arbitrary: s) (simp_all add: unconfirmed_step team_mode_step)

text \<open>C36. A podium of the individual mode stays up long enough. Without an observer, whatever inputs and
  updates arrive and wherever the 32-bit tick wraps, the ready stage installed is the game's, and
  not before 6103 milliseconds after the scheduler started.\<close>

theorem individual_minimum_presentation:
  assumes "\<not> observer mode" "chronological t0 (evs @ [Update t a])"
  shows "case individual_update (of_nat t) a (foldl individual_step (new_individual mode) evs) of
      (Waiting, s') \<Rightarrow> plain_phase s'
    | (InstallReadyStage r, s') \<Rightarrow> t0 + 6103 \<le> t \<and> r = GameReady"
proof -
  let ?s = "foldl individual_step (new_individual mode) evs"
  have plain: "plain_phase ?s" by (rule plain.inv_reachable) (use assms(1) in auto)
  have "ind_timed t0 t0 (new_individual mode)" "chronological t0 evs"
    using assms(2) by (simp_all add: ind_timed_def new_individual_def timer_since_def
        chronological_def sorted_append)
  from ind_timed_run[OF this(1) plain_phase_new[OF assms(1)] this(2)]
  obtain t' where "ind_timed t0 t' ?s" "t' \<le> t" using assms(2) by fastforce
  then have timed: "ind_timed t0 t ?s" using timer_later by (simp add: ind_timed_def)
  have armed: "ind_arm (of_nat t) ?s = ?s\<lparr>ind_started_at :=
      if ind_started_at ?s = 0 then of_nat t else ind_started_at ?s\<rparr>"
    by (simp add: ind_arm_def)
  note * = timer_elapsed_ms(4)[OF timed[unfolded ind_timed_def]]
  show ?thesis
  proof (cases "individual_update (of_nat t) a ?s")
    case (Pair r s')
    have "plain_phase s'" using plain_update[OF plain, of "of_nat t" a] Pair by simp
    moreover have "ind_phase ?s = ReadyDwell \<and> INDIVIDUAL_READY_DWELL_MS < ind_elapsed (ind_arm (of_nat t) ?s) (of_nat t)
        \<and> r = InstallReadyStage GameReady" if "r \<noteq> Waiting"
      using Pair that plain armed
      by (auto simp: individual_update_def Let_def plain_phase_def ready_stage_of_def
          split: individual_phase.splits if_splits)
    ultimately show ?thesis
      using Pair * by (cases "r = Waiting") (auto simp: armed ind_elapsed_def delays)
  qed
qed

theorem individual_minimum_presentation_witness:
  "case individual_update (of_nat 9) \<lparr>forward_complete = True, reverse_complete = False\<rparr>
      (foldl individual_step (new_individual \<lparr>observer = False, manual_result_ui = True\<rparr>)
        [Update 5 \<lparr>forward_complete = True, reverse_complete = False\<rparr>, Input 7 13]) of
      (Waiting, s') \<Rightarrow> plain_phase s'
    | (InstallReadyStage r, s') \<Rightarrow> 2 + 6103 \<le> (9 :: nat) \<and> r = GameReady"
  by (rule individual_minimum_presentation) (simp_all add: chronological_def)

text \<open>A podium of the team mode stays up at least 8103 milliseconds in every mode and over every
  wrap of the tick, and the stage installed is the one the mode selects.\<close>

theorem team_minimum_presentation:
  assumes "chronological t0 (evs @ [Update t a])"
  shows "case team_update (of_nat t) a (foldl team_step (new_team mode) evs) of
      (Waiting, s') \<Rightarrow> team_mode s' = mode
    | (InstallReadyStage r, s') \<Rightarrow> t0 + 8103 \<le> t \<and> r = ready_stage_of mode"
proof -
  let ?s = "foldl team_step (new_team mode) evs"
  have "team_timed t0 t0 (new_team mode)" "chronological t0 evs"
    using assms by (simp_all add: team_timed_def new_team_def timer_since_def
        chronological_def sorted_append)
  from team_timed_run[OF this] obtain t' where "team_timed t0 t' ?s" "t' \<le> t"
    using assms by fastforce
  then have low: "t0 + team_lower (team_phase ?s) \<le> t"
    by (auto simp: team_timed_def timer_since_def)
  have mode: "team_mode ?s = mode" by (simp add: team_mode_run new_team_def)
  show ?thesis
  proof (cases "team_update (of_nat t) a ?s")
    case (Pair r s')
    then have "team_mode s' = mode"
      using team_mode_step[of ?s "Update t a"] mode by simp
    moreover have "t0 + 8103 \<le> t \<and> x = ready_stage_of mode" if "r = InstallReadyStage x" for x
      using Pair low mode that by (simp add: team_install)
    ultimately show ?thesis unfolding Pair by (cases r) simp_all
  qed
qed

theorem team_minimum_presentation_witness:
  "case team_update (of_nat 9) True (foldl team_step (new_team \<lparr>observer = True, manual_result_ui = False\<rparr>)
        [Update 5 True, Input 7 13]) of
      (Waiting, s') \<Rightarrow> team_mode s' = \<lparr>observer = True, manual_result_ui = False\<rparr>
    | (InstallReadyStage r, s') \<Rightarrow> 2 + 8103 \<le> (9 :: nat) \<and>
        r = ready_stage_of \<lparr>observer = True, manual_result_ui = False\<rparr>"
  by (rule team_minimum_presentation) (simp add: chronological_def)

text \<open>C37. A manual team presentation waits for its confirmation: as long as no input is action 13, no
  update installs a ready stage, however long it runs.\<close>

theorem team_manual_needs_confirmation:
  assumes "manual_result_ui mode" "list_all unconfirmed evs"
  shows "fst (team_update now a (foldl team_step (new_team mode) evs)) = Waiting"
proof -
  have "team_phase (foldl team_step (new_team mode) evs) \<noteq> DispatchReadyStage"
    using assms by (intro unconfirmed_run) (simp_all add: new_team_def)
  then show ?thesis
    using team_install[of now a] by (metis prod.collapse scheduler_outcome.exhaust)
qed

theorem team_manual_needs_confirmation_witness:
  "fst (team_update 99999 True (foldl team_step (new_team \<lparr>observer = False, manual_result_ui = True\<rparr>)
     [Update 5000 True, Input 5001 8, Update 9000 True])) = Waiting"
  by (rule team_manual_needs_confirmation) (simp_all add: unconfirmed_def)

lemma team_timer:
  assumes "phase \<in> {TIntroDelay, PostAnimation, ResultDwell}"
  shows "t \<noteq> 0 \<Longrightarrow> snd (team_update t a \<lparr>team_mode = m, team_phase = phase, team_started_at = 0\<rparr>) =
    \<lparr>team_mode = m, team_phase = phase, team_started_at = t\<rparr>"
  using assms by (auto simp: team_update_def team_arm_def team_elapsed_def delays)

lemma team_fires:
  assumes "s \<noteq> 0"
  shows "1000 < t - s \<Longrightarrow> snd (team_update t a \<lparr>team_mode = m, team_phase = TIntroDelay, team_started_at = s\<rparr>) =
    \<lparr>team_mode = m, team_phase = TFirstAnimation, team_started_at = 0\<rparr>"
    "100 < t - s \<Longrightarrow> snd (team_update t a \<lparr>team_mode = m, team_phase = PostAnimation, team_started_at = s\<rparr>) =
    \<lparr>team_mode = m, team_phase = ResultDwell, team_started_at = 0\<rparr>"
    "\<not> manual_result_ui m \<Longrightarrow> 7000 < t - s \<Longrightarrow>
    snd (team_update t a \<lparr>team_mode = m, team_phase = ResultDwell, team_started_at = s\<rparr>) =
    \<lparr>team_mode = m, team_phase = DispatchReadyStage, team_started_at = 0\<rparr>"
    "snd (team_update t True \<lparr>team_mode = m, team_phase = TFirstAnimation, team_started_at = s'\<rparr>) =
    \<lparr>team_mode = m, team_phase = PostAnimation, team_started_at = 0\<rparr>"
  using assms by (simp_all add: team_update_def team_arm_def team_elapsed_def team_enter_unarmed_def delays)



end
