(* ===== verification/Nickname.thy ===== *)
theory Nickname
  imports Packet
begin

text \<open>
  Nickname validation and canonical keys (\<open>crates/p4475-core/src/nickname.rs\<close>). Unicode
  normalisation and case folding are third-party crates, so they are parameters: the record \<open>host\<close>
  holds them, together with the two limits of the operating system the identity registry meets
  (the largest representable \<open>Instant\<close> and whether a reservation of the session index succeeds).
\<close>

record host =
  nfc :: "ustring \<Rightarrow> ustring"
  case_fold :: "ustring \<Rightarrow> ustring"
  clock_limit :: nat
  can_reserve :: "nat \<Rightarrow> bool"

definition MAXIMUM_NICKNAME_LENGTH :: nat where "MAXIMUM_NICKNAME_LENGTH = 32"

definition RESERVED_WINDOWS_NAMES :: "string list" where
  "RESERVED_WINDOWS_NAMES = [''CON'', ''PRN'', ''AUX'', ''NUL'', ''COM1'', ''COM2'', ''COM3'', ''COM4'',
     ''COM5'', ''COM6'', ''COM7'', ''COM8'', ''COM9'', ''LPT1'', ''LPT2'', ''LPT3'', ''LPT4'', ''LPT5'',
     ''LPT6'', ''LPT7'', ''LPT8'', ''LPT9'']"

datatype nickname_error =
  NicknameEmpty
| NicknameTooLong nat
| UnsafePathComponent
| InvalidCharacter nat
| ReservedWindowsName ustring

text \<open>\<open>str::trim\<close>, \<open>char::is_control\<close> and \<open>str::eq_ignore_ascii_case\<close> of Rust's standard library.\<close>

definition white_space :: "nat \<Rightarrow> bool" where
  "white_space c \<longleftrightarrow> (9 \<le> c \<and> c \<le> 13) \<or> c = 0x20 \<or> c = 0x85 \<or> c = 0xA0 \<or> c = 0x1680 \<or>
     (0x2000 \<le> c \<and> c \<le> 0x200A) \<or> c = 0x2028 \<or> c = 0x2029 \<or> c = 0x202F \<or> c = 0x205F \<or> c = 0x3000"

definition trim :: "ustring \<Rightarrow> ustring" where
  "trim s = rev (dropWhile white_space (rev (dropWhile white_space s)))"

definition is_control :: "nat \<Rightarrow> bool" where
  "is_control c \<longleftrightarrow> c < 0x20 \<or> (0x7F \<le> c \<and> c < 0xA0)"

definition ascii_upper :: "nat \<Rightarrow> nat" where
  "ascii_upper c = (if 97 \<le> c \<and> c \<le> 122 then c - 32 else c)"

definition eq_ignore_ascii_case :: "ustring \<Rightarrow> ustring \<Rightarrow> bool" where
  "eq_ignore_ascii_case s t \<longleftrightarrow> map ascii_upper s = map ascii_upper t"

definition invalid_windows_punctuation :: "nat \<Rightarrow> bool" where
  "invalid_windows_punctuation c \<longleftrightarrow> c \<in> set (str [CHR ''<'', CHR ''>'', CHR '':'', CHR 0x22, CHR ''/'',
     CHR 0x5C, CHR ''|'', CHR ''?'', CHR ''*''])"

definition dot :: nat where "dot = 0x2E"

definition base_name :: "ustring \<Rightarrow> ustring" where
  "base_name s = takeWhile (\<lambda>c. c \<noteq> dot) s"

definition normalize_nickname :: "host \<Rightarrow> ustring \<Rightarrow> nickname_error + ustring" where
  "normalize_nickname h v =
     (let nickname = nfc h (trim v) in
      if nickname = [] then Inl NicknameEmpty
      else if MAXIMUM_NICKNAME_LENGTH < length (encode_utf16 nickname)
      then Inl (NicknameTooLong MAXIMUM_NICKNAME_LENGTH)
      else if nickname = [dot] \<or> nickname = [dot, dot] \<or> last nickname = dot \<or> last nickname = 0x20
      then Inl UnsafePathComponent
      else case find (\<lambda>c. is_control c \<or> invalid_windows_punctuation c) nickname of
        Some c \<Rightarrow> Inl (InvalidCharacter c)
      | None \<Rightarrow>
          if list_ex (\<lambda>reserved. eq_ignore_ascii_case (base_name nickname) (str reserved))
               RESERVED_WINDOWS_NAMES
          then Inl (ReservedWindowsName (base_name nickname))
          else Inr nickname)"

definition canonical_nickname_key :: "host \<Rightarrow> ustring \<Rightarrow> ustring" where
  "canonical_nickname_key h nickname = nfc h (case_fold h (nfc h nickname))"

text \<open>
  What the code relies on from the normalisation crate: normalising is idempotent, and it neither
  uncovers nor creates white space at the ends of a string.
\<close>

definition stable_normalisation :: "host \<Rightarrow> bool" where
  "stable_normalisation h \<longleftrightarrow> (\<forall>s. nfc h (trim (nfc h (trim s))) = nfc h (trim s))"

lemma normalize_idem:
  assumes "stable_normalisation h" "normalize_nickname h v = Inr n"
  shows "normalize_nickname h n = Inr n"
proof -
  have "n = nfc h (trim v)"
    using assms(2) by (auto simp: normalize_nickname_def Let_def split: if_splits option.splits)
  then have "nfc h (trim n) = nfc h (trim v)"
    using assms(1) by (simp add: stable_normalisation_def)
  with assms(2) show ?thesis by (simp add: normalize_nickname_def)
qed

definition plain_host :: host where
  "plain_host = \<lparr>nfc = id, case_fold = map (\<lambda>c. if 65 \<le> c \<and> c \<le> 90 then c + 32 else c),
     clock_limit = 10 ^ 12, can_reserve = (\<lambda>_. True)\<rparr>"

lemma trim_trim: "trim (trim s) = trim s"
proof -
  let ?d = "dropWhile white_space"
  have idem: "?d t = t" if "t = [] \<or> \<not> white_space (hd t)" for t
    using that by (cases t) auto
  have *: "?d (rev (?d (rev (?d s)))) = rev (?d (rev (?d s)))"
  proof (rule idem)
    show "rev (?d (rev (?d s))) = [] \<or> \<not> white_space (hd (rev (?d (rev (?d s)))))"
    proof (cases "?d (rev (?d s)) = []")
      case False
      then have ne: "?d s \<noteq> []" by (metis dropWhile.simps(1) rev.simps(1))
      obtain pre where "rev (?d s) = pre @ ?d (rev (?d s))"
        by (metis takeWhile_dropWhile_id)
      then have "last (?d (rev (?d s))) = last (rev (?d s))"
        using False by (metis last_appendR)
      also have "\<dots> = hd (?d s)" using ne by (simp add: last_rev)
      finally show ?thesis
        using False ne hd_dropWhile by (metis hd_rev)
    qed simp
  qed
  have "?d (?d t) = ?d t" for t by (cases "?d t = []") (auto intro: idem hd_dropWhile)
  with * show ?thesis by (simp add: trim_def)
qed

lemma stable_plain: "stable_normalisation plain_host"
  by (simp add: stable_normalisation_def plain_host_def trim_trim)

text \<open>A nickname that passed is safe as a path component on every host.\<close>

definition safe_component :: "ustring \<Rightarrow> bool" where
  "safe_component s \<longleftrightarrow> s \<noteq> [] \<and> length (encode_utf16 s) \<le> 32 \<and> s \<noteq> str ''.'' \<and> s \<noteq> str ''..'' \<and>
     last s \<noteq> 0x20 \<and> last s \<noteq> 0x2E \<and>
     list_all (\<lambda>c. \<not> is_control c \<and> \<not> invalid_windows_punctuation c) s \<and>
     list_all (\<lambda>reserved. map ascii_upper (base_name s) \<noteq> str reserved) RESERVED_WINDOWS_NAMES"

lemma reserved_upper: "list_all (\<lambda>reserved. map ascii_upper (str reserved) = str reserved) RESERVED_WINDOWS_NAMES"
  by code_simp


end
