(* ===== verification/IdentityGate.thy ===== *)
theory IdentityGate
  imports Nickname
begin

text \<open>
  The operation gate of one identity generation (\<open>crates/p4475-server/src/identity.rs\<close>): a count of
  admitted operations and an atomic state that is open, frozen by one migration transfer, or
  retired. Each function is one method; its compare-exchange loops end with the first exchange that
  succeeds, so they are the update they exchange in. Methods that access the gate more than once
  take the interference of other tasks between their accesses as an argument.
\<close>

section \<open>Errors of the identity registry\<close>

datatype ip_addr = V4 u32 | V6 u128

datatype identity_error =
  EmptyNickname
| InvalidNickname nickname_error
| SessionAlreadyAuthenticated u64 ustring
| DuplicateIdentity ustring
| UnauthenticatedSession u64
| StaleSession u64
| UnknownUserNo u32
| NoMigrationPermit ustring
| MigrationExpired
| ChannelMismatch u16 u16
| TokenMismatch
| SourceIpMismatch ip_addr ip_addr
| StaleMigrationGeneration
| StaleMigrationPreflight
| TransferInProgress ustring
| OperationAdmissionClosed
| OperationGenerationRetired
| OperationCountExhausted
| MigrationOperationsActive
| UdpIngressPredatesGeneration
| IdentityOwnerUnavailable u32
| UserNoExhausted
| GenerationExhausted
| SessionIndexCapacityUnavailable
| MigrationTransferIdExhausted
| MigrationDeadlineOverflow

section \<open>The gate\<close>

record identity_gate =
  activated_udp_epoch :: u64
  active_operations :: u64
  gate_state :: u64

definition OPEN :: u64 where "OPEN = 0"
definition RETIRED :: u64 where "RETIRED = - 1"

definition gate_shared :: "u64 \<Rightarrow> identity_gate" where
  "gate_shared epoch = \<lparr>activated_udp_epoch = epoch, active_operations = 0, gate_state = OPEN\<rparr>"

definition gate_increment :: "identity_gate \<Rightarrow> (identity_error + unit) \<times> identity_gate" where
  "gate_increment g =
     (case checked_succ (active_operations g) of
        None \<Rightarrow> (Inl OperationCountExhausted, g)
      | Some nxt \<Rightarrow> (Inr (), g\<lparr>active_operations := nxt\<rparr>))"

definition gate_release :: "identity_gate \<Rightarrow> identity_gate" where
  "gate_release g =
     (if active_operations g = 0 then g else g\<lparr>active_operations := active_operations g - 1\<rparr>)"

definition gate_try_admit ::
  "(identity_gate \<Rightarrow> identity_gate) \<Rightarrow> (identity_gate \<Rightarrow> identity_gate) \<Rightarrow> identity_gate \<Rightarrow>
   (identity_error + unit) \<times> identity_gate" where
  "gate_try_admit before after g =
     (if gate_state g = RETIRED then (Inl OperationGenerationRetired, g)
      else if gate_state g \<noteq> OPEN then (Inl OperationAdmissionClosed, g)
      else case gate_increment (before g) of
        (Inl e, g) \<Rightarrow> (Inl e, g)
      | (Inr _, g) \<Rightarrow>
          let g = after g in
          if gate_state g = OPEN then (Inr (), g)
          else if gate_state g = RETIRED then (Inl OperationGenerationRetired, gate_release g)
          else (Inl OperationAdmissionClosed, gate_release g))"

definition gate_try_retain ::
  "(identity_gate \<Rightarrow> identity_gate) \<Rightarrow> (identity_gate \<Rightarrow> identity_gate) \<Rightarrow> identity_gate \<Rightarrow>
   (identity_error + unit) \<times> identity_gate" where
  "gate_try_retain before after g =
     (if gate_state g = RETIRED then (Inl OperationGenerationRetired, g)
      else case gate_increment (before g) of
        (Inl e, g) \<Rightarrow> (Inl e, g)
      | (Inr _, g) \<Rightarrow>
          let g = after g in
          if gate_state g = RETIRED then (Inl OperationGenerationRetired, gate_release g)
          else (Inr (), g))"

definition gate_freeze :: "u64 \<Rightarrow> identity_gate \<Rightarrow> bool \<times> identity_gate" where
  "gate_freeze t g = (if gate_state g = OPEN then (True, g\<lparr>gate_state := t\<rparr>) else (False, g))"

definition gate_reopen_exact :: "u64 \<Rightarrow> identity_gate \<Rightarrow> bool \<times> identity_gate" where
  "gate_reopen_exact t g = (if gate_state g = t then (True, g\<lparr>gate_state := OPEN\<rparr>) else (False, g))"

definition is_frozen_by :: "u64 \<Rightarrow> identity_gate \<Rightarrow> bool" where
  "is_frozen_by t g \<longleftrightarrow> gate_state g = t"

definition is_drained :: "identity_gate \<Rightarrow> bool" where
  "is_drained g \<longleftrightarrow> active_operations g = 0"

definition gate_retire_exact :: "u64 \<Rightarrow> identity_gate \<Rightarrow> bool \<times> identity_gate" where
  "gate_retire_exact t g =
     (if \<not> is_drained g then (False, g)
      else if gate_state g = t then (True, g\<lparr>gate_state := RETIRED\<rparr>) else (False, g))"

definition gate_retire_drained :: "identity_gate \<Rightarrow> bool \<times> identity_gate" where
  "gate_retire_drained g =
     (if \<not> is_drained g then (False, g)
      else if gate_state g = RETIRED then (is_drained g, g)
      else (is_drained (g\<lparr>gate_state := RETIRED\<rparr>), g\<lparr>gate_state := RETIRED\<rparr>))"

definition drained_while_frozen :: "u64 \<Rightarrow> identity_gate \<Rightarrow> identity_error + bool" where
  "drained_while_frozen t g =
     (if \<not> is_frozen_by t g then Inl StaleMigrationPreflight else Inr (is_drained g))"

section \<open>Counting\<close>

text \<open>Operations admitted and not yet released, as a number.\<close>

definition outstanding :: "identity_gate \<Rightarrow> nat" where
  "outstanding g = unat (active_operations g)"

lemma outstanding_0 [simp]: "outstanding g = 0 \<longleftrightarrow> is_drained g"
  by (simp add: outstanding_def is_drained_def unat_eq_0)

lemma outstanding_shared [simp]: "outstanding (gate_shared e) = 0" "gate_state (gate_shared e) = OPEN"
  by (simp_all add: gate_shared_def outstanding_def)

lemma outstanding_release: "outstanding (gate_release g) = outstanding g - 1"
  by (simp add: gate_release_def outstanding_def unat_minus_one)

lemma gate_state_release [simp]: "gate_state (gate_release g) = gate_state g"
  by (simp add: gate_release_def)

lemma outstanding_state [simp]: "outstanding (g\<lparr>gate_state := t\<rparr>) = outstanding g"
  by (simp add: outstanding_def)

lemma gate_increment_Inr:
  "gate_increment g = (Inr u, g') \<Longrightarrow> outstanding g' = Suc (outstanding g) \<and> gate_state g' = gate_state g"
  by (auto simp: gate_increment_def outstanding_def checked_succ_unat split: option.splits)

lemma gate_increment_Inl: "gate_increment g = (Inl e, g') \<Longrightarrow> g' = g"
  by (auto simp: gate_increment_def split: option.splits)

lemma gate_try_admit_Inr:
  "gate_try_admit id id g = (Inr u, g') \<Longrightarrow>
   gate_state g = OPEN \<and> gate_state g' = OPEN \<and> outstanding g' = Suc (outstanding g)"
  by (auto simp: gate_try_admit_def Let_def split: if_splits prod.splits sum.splits
      dest!: gate_increment_Inr)

lemma gate_try_admit_Inl: "gate_try_admit id id g = (Inl e, g') \<Longrightarrow> g' = g"
  by (auto simp: gate_try_admit_def Let_def split: if_splits prod.splits sum.splits
      dest: gate_increment_Inr gate_increment_Inl)

lemma gate_try_retain_Inr:
  "gate_try_retain id id g = (Inr u, g') \<Longrightarrow>
   gate_state g \<noteq> RETIRED \<and> gate_state g' = gate_state g \<and> outstanding g' = Suc (outstanding g)"
  by (auto simp: gate_try_retain_def Let_def split: if_splits prod.splits sum.splits
      dest!: gate_increment_Inr)

lemma gate_try_retain_Inl: "gate_try_retain id id g = (Inl e, g') \<Longrightarrow> g' = g"
  by (auto simp: gate_try_retain_def Let_def split: if_splits prod.splits sum.splits
      dest: gate_increment_Inr gate_increment_Inl)

lemma gate_retire_drained_True:
  "gate_retire_drained g = (True, g') \<longleftrightarrow> is_drained g \<and> g' = g\<lparr>gate_state := RETIRED\<rparr>"
  by (auto simp: gate_retire_drained_def is_drained_def)

lemma gate_retire_drained_False: "gate_retire_drained g = (False, g') \<longleftrightarrow> \<not> is_drained g \<and> g' = g"
  by (auto simp: gate_retire_drained_def is_drained_def)

section \<open>Admission gates as an interface\<close>

text \<open>
  What every operation gate of the server promises: an admission needs the gate open and is counted,
  a closed gate stays closed and admits nothing, and each release takes one off. The client facts
  are that a closed gate never grows and that it is drained after as many releases as were
  outstanding when it closed.
\<close>

locale admission_gate =
  fixes is_open :: "'g \<Rightarrow> bool"
    and count :: "'g \<Rightarrow> nat"
    and admit :: "'g \<Rightarrow> bool \<times> 'g"
    and release :: "'g \<Rightarrow> 'g"
    and ok :: "'g \<Rightarrow> bool"
  assumes admitted: "ok g \<Longrightarrow> admit g = (True, g') \<Longrightarrow> is_open g \<and> is_open g' \<and> count g' = Suc (count g)"
    and refused_closed: "ok g \<Longrightarrow> \<not> is_open g \<Longrightarrow>
      \<not> fst (admit g) \<and> count (snd (admit g)) = count g \<and> \<not> is_open (snd (admit g))"
    and released: "ok g \<Longrightarrow> count (release g) = count g - 1 \<and> is_open (release g) = is_open g"
    and ok_admit: "ok g \<Longrightarrow> ok (snd (admit g))"
    and ok_release: "ok g \<Longrightarrow> ok (release g)"
begin

text \<open>A run of attempts (\<open>True\<close>) and releases (\<open>False\<close>).\<close>

fun attempts :: "'g \<Rightarrow> bool list \<Rightarrow> 'g" where
  "attempts g [] = g"
| "attempts g (a # as) = attempts (if a then snd (admit g) else release g) as"

lemma closed_drains:
  "ok g \<Longrightarrow> \<not> is_open g \<Longrightarrow>
   \<not> is_open (attempts g as) \<and> count (attempts g as) = count g - length (filter Not as)"
  by (induction as arbitrary: g) (auto simp: refused_closed released ok_admit ok_release)

lemma closed_never_grows: "ok g \<Longrightarrow> \<not> is_open g \<Longrightarrow> count (attempts g as) \<le> count g"
  by (simp add: closed_drains)

lemma closed_becomes_empty:
  "ok g \<Longrightarrow> \<not> is_open g \<Longrightarrow> count g \<le> length (filter Not as) \<Longrightarrow> count (attempts g as) = 0"
  by (simp add: closed_drains)

end

definition identity_admit :: "identity_gate \<Rightarrow> bool \<times> identity_gate" where
  "identity_admit g = (case gate_try_admit id id g of (r, g') \<Rightarrow> (\<not> isl r, g'))"

interpretation identity_gate: admission_gate "\<lambda>g. gate_state g = OPEN" outstanding identity_admit
  gate_release "\<lambda>_. True"
proof
  fix g g' :: identity_gate
  assume "identity_admit g = (True, g')"
  then show "gate_state g = OPEN \<and> gate_state g' = OPEN \<and> outstanding g' = Suc (outstanding g)"
    by (auto simp: identity_admit_def split: prod.splits dest: gate_try_admit_Inr
        elim!: obj_sumE)
      (metis gate_try_admit_Inr isl_def old.sum.exhaust)+
next
  fix g :: identity_gate
  assume "gate_state g \<noteq> OPEN"
  then show "\<not> fst (identity_admit g) \<and> outstanding (snd (identity_admit g)) = outstanding g \<and>
      gate_state (snd (identity_admit g)) \<noteq> OPEN"
    by (auto simp: identity_admit_def gate_try_admit_def)
qed (simp_all add: outstanding_release)

section \<open>Properties\<close>

text \<open>C22. No admission straddles a freeze. Whatever other tasks and the actor do between the accesses
  of an admission, it only succeeds when the gate is open after its own increment; and when it is
  refused after its increment, it has taken that increment back.\<close>

theorem admission_never_straddles_freeze:
  "case gate_try_admit before after g of
     (Inr _, g') \<Rightarrow> gate_state g' = OPEN \<and> g' = after (snd (gate_increment (before g)))
   | (Inl OperationCountExhausted, g') \<Rightarrow> active_operations (before g) = - 1 \<and> g' = before g
   | (Inl e, g') \<Rightarrow> g' = g \<and> gate_state g \<noteq> OPEN \<or>
       g' = gate_release (after (snd (gate_increment (before g)))) \<and> gate_state g' \<noteq> OPEN"
  by (auto simp: gate_try_admit_def gate_increment_def Let_def checked_succ_def OPEN_def RETIRED_def
      split: option.splits if_splits)



end
