(* ===== verification/Identity.thy ===== *)
theory Identity
  imports IdentityGate
begin

text \<open>
  The identity registry of \<open>crates/p4475-server/src/identity.rs\<close>: who owns a nickname, the
  generation fence, and the migration of an identity from one channel socket to the next. The state
  is the actor's record; the gates its entries, leases and tickets share by \<open>Arc\<close> live in a store
  indexed by allocation number. A call that changes state returns its result and the registry.
\<close>

section \<open>Data\<close>

definition MIGRATION_TTL :: nat where "MIGRATION_TTL = 15000"
definition OFFLINE_MYROOM :: u64 where "OFFLINE_MYROOM = 0"

definition is_offline_myroom :: "u64 \<Rightarrow> bool" where
  "is_offline_myroom g \<longleftrightarrow> g = OFFLINE_MYROOM"

text \<open>\<open>UserNo\<close> and \<open>MigrationToken\<close> are non-zero integers.\<close>

definition new_user_no :: "u32 \<Rightarrow> u32 option" where
  "new_user_no v = (if v = 0 then None else Some v)"

definition new_migration_token :: "u16 \<Rightarrow> u16 option" where
  "new_migration_token v = (if v = 0 then None else Some v)"

record channel_binding =
  channel_id :: u16
  game_type :: u8

record identity_binding =
  bind_nickname :: ustring
  bind_user_no :: u32
  bind_generation :: u64
  bind_owner :: u64
  bind_source_ip :: ip_addr
  bind_channel :: "channel_binding option"

record legacy_ipv4_endpoint =
  ep_address :: u32
  ep_port :: u16

definition to_ipv4_mapped :: "u128 \<Rightarrow> u32 option" where
  "to_ipv4_mapped a = (if drop_bit 32 a = 0xFFFF then Some (ucast a) else None)"

definition legacy_p2p_endpoint :: "ip_addr \<Rightarrow> u16 \<Rightarrow> legacy_ipv4_endpoint" where
  "legacy_p2p_endpoint source_ip reported_port =
     (case source_ip of
        V4 address \<Rightarrow> \<lparr>ep_address = address, ep_port = reported_port\<rparr>
      | V6 address \<Rightarrow>
          (case to_ipv4_mapped address of
             None \<Rightarrow> \<lparr>ep_address = 0, ep_port = 0\<rparr>
           | Some a \<Rightarrow> \<lparr>ep_address = a, ep_port = reported_port\<rparr>))"

record migration_permit =
  permit_user_no :: u32
  source_generation :: u64
  source_session :: u64
  permit_source_ip :: ip_addr
  permit_channel :: channel_binding
  permit_token :: u16
  expires_at :: nat

record known_identity =
  known_nickname :: ustring
  known_user_no :: u32

record active_identity =
  known :: known_identity
  generation :: u64
  owner :: "u64 option"
  owner_ip :: ip_addr
  channel :: "channel_binding option"
  permit :: "migration_permit option"
  transfer_in_progress :: "u64 option"
  operation_gate :: nat

record released_identity =
  rel_nickname :: ustring
  rel_user_no :: u32
  rel_generation :: u64
  rel_source_ip :: ip_addr
  rel_channel :: "channel_binding option"

record deferred_release =
  def_canonical :: ustring
  def_identity :: released_identity
  def_gate :: nat

text \<open>The ticket of a validated migration, and the lease of an admitted operation.\<close>

datatype migration_source_state = Connected u64 | SourceDisconnected

record migration_preflight =
  pf_transfer_id :: u64
  pf_destination_session :: u64
  pf_destination_ip :: ip_addr
  pf_user_no :: u32
  pf_channel_id :: u16
  pf_channel :: channel_binding
  pf_token :: u16
  pf_source_generation :: u64
  pf_source_state :: migration_source_state
  pf_source_session :: u64
  pf_expires_at :: nat
  pf_nickname :: ustring
  pf_canonical :: ustring
  pf_gate :: nat

record operation_lease =
  lease_instance :: nat
  lease_gate :: nat
  lease_binding :: identity_binding

record migration_completion =
  comp_binding :: identity_binding
  comp_previous_binding :: identity_binding
  comp_previous_identity :: released_identity
  comp_previous_owner :: "u64 option"

text \<open>The replacement gate of a candidate is private until \<open>commit\<close> publishes it: it has no number yet.\<close>

record migration_candidate =
  cand_canonical :: ustring
  cand_gate :: nat
  cand_next_gate :: identity_gate
  cand_completion :: migration_completion

datatype disconnect_outcome =
  Unauthenticated
| Stale identity_binding
| Deferred identity_binding migration_permit
| Draining released_identity
| Released released_identity

record identity_registry =
  registry_instance :: nat
  known_by_name :: "(ustring, known_identity) table"
  name_by_user_no :: "(u32, ustring) table"
  active_by_name :: "(ustring, active_identity) table"
  session_bindings :: "(u64, identity_binding) table"
  deferred_releases :: "deferred_release list"
  next_user_no :: u32
  next_generation :: u64
  next_transfer_id :: u64
  gates :: "nat \<Rightarrow> identity_gate"
  next_gate :: nat

definition default_registry :: "nat \<Rightarrow> identity_registry" where
  "default_registry i = \<lparr>registry_instance = i, known_by_name = [], name_by_user_no = [],
     active_by_name = [], session_bindings = [], deferred_releases = [], next_user_no = 1,
     next_generation = 1, next_transfer_id = 1, gates = (\<lambda>_. gate_shared 0), next_gate = 0\<rparr>"

definition set_gate :: "nat \<Rightarrow> identity_gate \<Rightarrow> identity_registry \<Rightarrow> identity_registry" where
  "set_gate g x r = r\<lparr>gates := (gates r)(g := x)\<rparr>"

section \<open>Views\<close>

definition released_identity_of :: "active_identity \<Rightarrow> released_identity" where
  "released_identity_of a = \<lparr>rel_nickname = known_nickname (known a), rel_user_no = known_user_no (known a),
     rel_generation = generation a, rel_source_ip = owner_ip a, rel_channel = channel a\<rparr>"

definition identity_binding_of :: "active_identity \<Rightarrow> u64 \<Rightarrow> identity_binding" where
  "identity_binding_of a s = \<lparr>bind_nickname = known_nickname (known a),
     bind_user_no = known_user_no (known a), bind_generation = generation a, bind_owner = s,
     bind_source_ip = owner_ip a, bind_channel = channel a\<rparr>"

definition active_identity_binding :: "active_identity \<Rightarrow> identity_binding option" where
  "active_identity_binding a = map_option (identity_binding_of a) (owner a)"

section \<open>Allocation\<close>

definition allocate_user_no :: "identity_registry \<Rightarrow> (identity_error + u32) \<times> identity_registry" where
  "allocate_user_no r =
     (case checked_succ (next_user_no r) of
        None \<Rightarrow> (Inl UserNoExhausted, r)
      | Some nxt \<Rightarrow>
          (if next_user_no r = 0 then Inl UserNoExhausted else Inr (next_user_no r),
           r\<lparr>next_user_no := nxt\<rparr>))"

definition allocate_generation :: "identity_registry \<Rightarrow> (identity_error + u64) \<times> identity_registry" where
  "allocate_generation r =
     (case checked_succ (next_generation r) of
        None \<Rightarrow> (Inl GenerationExhausted, r)
      | Some nxt \<Rightarrow>
          (if next_generation r = 0 then Inl GenerationExhausted else Inr (next_generation r),
           r\<lparr>next_generation := nxt\<rparr>))"

definition allocate_transfer_id :: "identity_registry \<Rightarrow> (identity_error + u64) \<times> identity_registry" where
  "allocate_transfer_id r =
     (case checked_succ (next_transfer_id r) of
        None \<Rightarrow> (Inl MigrationTransferIdExhausted, r)
      | Some nxt \<Rightarrow>
          (if next_transfer_id r = 0 then Inl MigrationTransferIdExhausted else Inr (next_transfer_id r),
           r\<lparr>next_transfer_id := nxt\<rparr>))"

section \<open>Known identities\<close>

definition known_user_no_of :: "host \<Rightarrow> ustring \<Rightarrow> identity_registry \<Rightarrow> u32 option" where
  "known_user_no_of h nickname r =
     map_option known_user_no (map_of (known_by_name r) (canonical_nickname_key h nickname))"

definition ensure_known_user_no ::
  "host \<Rightarrow> ustring \<Rightarrow> identity_registry \<Rightarrow> (identity_error + u32) \<times> identity_registry" where
  "ensure_known_user_no h requested r =
     (case normalize_nickname h requested of
        Inl e \<Rightarrow> (Inl (InvalidNickname e), r)
      | Inr nickname \<Rightarrow>
          let key = canonical_nickname_key h nickname in
          (case map_of (known_by_name r) key of
             Some k \<Rightarrow> (Inr (known_user_no k), r)
           | None \<Rightarrow>
               (case allocate_user_no r of
                  (Inl e, r) \<Rightarrow> (Inl e, r)
                | (Inr user_no, r) \<Rightarrow>
                    (Inr user_no,
                     r\<lparr>known_by_name := tput key \<lparr>known_nickname = nickname, known_user_no = user_no\<rparr>
                         (known_by_name r),
                       name_by_user_no := tput user_no key (name_by_user_no r)\<rparr>))))"

definition offline_myroom_binding ::
  "host \<Rightarrow> ustring \<Rightarrow> identity_registry \<Rightarrow> (identity_error + identity_binding) option \<times> identity_registry" where
  "offline_myroom_binding h requested r =
     (case normalize_nickname h requested of
        Inl e \<Rightarrow> (Some (Inl (InvalidNickname e)), r)
      | Inr nickname \<Rightarrow>
          let key = canonical_nickname_key h nickname in
          (case ensure_known_user_no h nickname r of
             (Inl e, r) \<Rightarrow> (Some (Inl e), r)
           | (Inr user_no, r) \<Rightarrow>
               (case map_of (known_by_name r) key of
                  None \<Rightarrow> (None, r)
                | Some k \<Rightarrow>
                    (Some (Inr \<lparr>bind_nickname = known_nickname k, bind_user_no = user_no,
                       bind_generation = OFFLINE_MYROOM, bind_owner = 0, bind_source_ip = V4 0,
                       bind_channel = None\<rparr>), r))))"

section \<open>Claiming and authorising\<close>

text \<open>\<open>None\<close> is the panic of an \<open>expect\<close>.\<close>

definition claim_at ::
  "host \<Rightarrow> u64 \<Rightarrow> ip_addr \<Rightarrow> ustring \<Rightarrow> u64 \<Rightarrow> identity_registry \<Rightarrow>
   (identity_error + identity_binding) option \<times> identity_registry" where
  "claim_at h session source_ip requested activated_epoch r =
     (if trim requested = [] then (Some (Inl EmptyNickname), r)
      else case normalize_nickname h requested of
        Inl e \<Rightarrow> (Some (Inl (InvalidNickname e)), r)
      | Inr nickname \<Rightarrow>
      (case map_of (session_bindings r) session of
        Some b \<Rightarrow> (Some (Inl (SessionAlreadyAuthenticated session (bind_nickname b))), r)
      | None \<Rightarrow>
      let key = canonical_nickname_key h nickname in
      (case map_of (active_by_name r) key of
        Some a \<Rightarrow> (Some (Inl (DuplicateIdentity (known_nickname (known a)))), r)
      | None \<Rightarrow>
      (case find (\<lambda>d. def_canonical d = key) (deferred_releases r) of
        Some d \<Rightarrow> (Some (Inl (DuplicateIdentity (rel_nickname (def_identity d)))), r)
      | None \<Rightarrow>
      (case ensure_known_user_no h nickname r of
        (Inl e, r) \<Rightarrow> (Some (Inl e), r)
      | (Inr user_no, r) \<Rightarrow>
      (case map_of (known_by_name r) key of
        None \<Rightarrow> (None, r)
      | Some k \<Rightarrow>
      (case allocate_generation r of
        (Inl e, r) \<Rightarrow> (Some (Inl e), r)
      | (Inr gen, r) \<Rightarrow>
          let binding = \<lparr>bind_nickname = known_nickname k, bind_user_no = known_user_no k,
                bind_generation = gen, bind_owner = session, bind_source_ip = source_ip,
                bind_channel = None\<rparr>
          in (Some (Inr binding),
              (set_gate (next_gate r) (gate_shared activated_epoch) r)
                \<lparr>next_gate := next_gate r + 1,
                 active_by_name := tput key
                   \<lparr>known = k, generation = gen, owner = Some session, owner_ip = source_ip,
                    channel = None, permit = None, transfer_in_progress = None,
                    operation_gate = next_gate r\<rparr> (active_by_name r),
                 session_bindings := tput session binding (session_bindings r)\<rparr>))))))))"

definition claim ::
  "host \<Rightarrow> u64 \<Rightarrow> ip_addr \<Rightarrow> ustring \<Rightarrow> identity_registry \<Rightarrow>
   (identity_error + identity_binding) option \<times> identity_registry" where
  "claim h session source_ip requested r = claim_at h session source_ip requested 0 r"

definition authorize :: "host \<Rightarrow> u64 \<Rightarrow> identity_registry \<Rightarrow> identity_error + identity_binding" where
  "authorize h session r =
     (case map_of (session_bindings r) session of
        None \<Rightarrow> Inl (UnauthenticatedSession session)
      | Some b \<Rightarrow>
          (case map_of (active_by_name r) (canonical_nickname_key h (bind_nickname b)) of
             None \<Rightarrow> Inl (StaleSession session)
           | Some a \<Rightarrow>
               if owner a \<noteq> Some session \<or> generation a \<noteq> bind_generation b
               then Inl (StaleSession session)
               else if transfer_in_progress a \<noteq> None
               then Inl (TransferInProgress (known_nickname (known a)))
               else Inr b))"

text \<open>
  The admission on one gate, as the actor runs it: its other users only count up and down, so it is
  one step of the gate.
\<close>

definition try_admit ::
  "nat \<Rightarrow> identity_binding \<Rightarrow> identity_registry \<Rightarrow> (identity_error + operation_lease) \<times> identity_registry" where
  "try_admit g binding r =
     (case gate_try_admit id id (gates r g) of
        (Inl e, x) \<Rightarrow> (Inl e, set_gate g x r)
      | (Inr _, x) \<Rightarrow>
          (Inr \<lparr>lease_instance = registry_instance r, lease_gate = g, lease_binding = binding\<rparr>,
           set_gate g x r))"

definition try_retain ::
  "operation_lease \<Rightarrow> identity_registry \<Rightarrow> (identity_error + operation_lease) \<times> identity_registry" where
  "try_retain l r =
     (case gate_try_retain id id (gates r (lease_gate l)) of
        (Inl e, x) \<Rightarrow> (Inl e, set_gate (lease_gate l) x r)
      | (Inr _, x) \<Rightarrow> (Inr l, set_gate (lease_gate l) x r))"

definition drop_lease :: "operation_lease \<Rightarrow> identity_registry \<Rightarrow> identity_registry" where
  "drop_lease l r = set_gate (lease_gate l) (gate_release (gates r (lease_gate l))) r"

definition belongs_to :: "operation_lease \<Rightarrow> nat \<Rightarrow> bool" where
  "belongs_to l i \<longleftrightarrow> lease_instance l = i"

definition admit_operation ::
  "host \<Rightarrow> u64 \<Rightarrow> identity_registry \<Rightarrow> (identity_error + operation_lease) \<times> identity_registry" where
  "admit_operation h session r =
     (case authorize h session r of
        Inl e \<Rightarrow> (Inl e, r)
      | Inr b \<Rightarrow>
          (case map_of (active_by_name r) (canonical_nickname_key h (bind_nickname b)) of
             None \<Rightarrow> (Inl (StaleSession session), r)
           | Some a \<Rightarrow> try_admit (operation_gate a) b r))"

definition admit_udp_operation ::
  "u32 \<Rightarrow> u64 \<Rightarrow> identity_registry \<Rightarrow> (identity_error + operation_lease) \<times> identity_registry" where
  "admit_udp_operation user_no arrival_epoch r =
     (case map_of (name_by_user_no r) user_no of
        None \<Rightarrow> (Inl (UnknownUserNo user_no), r)
      | Some key \<Rightarrow>
      (case map_of (active_by_name r) key of
        None \<Rightarrow> (Inl (IdentityOwnerUnavailable user_no), r)
      | Some a \<Rightarrow>
      (case active_identity_binding a of
        None \<Rightarrow> (Inl (IdentityOwnerUnavailable user_no), r)
      | Some b \<Rightarrow>
          if transfer_in_progress a \<noteq> None
          then (Inl (TransferInProgress (known_nickname (known a))), r)
          else if arrival_epoch \<le> activated_udp_epoch (gates r (operation_gate a))
          then (Inl UdpIngressPredatesGeneration, r)
          else try_admit (operation_gate a) b r)))"

section \<open>Migration\<close>

definition instant_checked_add :: "host \<Rightarrow> nat \<Rightarrow> nat \<Rightarrow> nat option" where
  "instant_checked_add h now d = (if now + d \<le> clock_limit h then Some (now + d) else None)"

definition begin_migration ::
  "host \<Rightarrow> u64 \<Rightarrow> channel_binding \<Rightarrow> u16 \<Rightarrow> nat \<Rightarrow> identity_registry \<Rightarrow>
   (identity_error + migration_permit) \<times> identity_registry" where
  "begin_migration h session chan token now r =
     (case authorize h session r of
        Inl e \<Rightarrow> (Inl e, r)
      | Inr source \<Rightarrow>
      (case instant_checked_add h now MIGRATION_TTL of
        None \<Rightarrow> (Inl MigrationDeadlineOverflow, r)
      | Some deadline \<Rightarrow>
          let p = \<lparr>permit_user_no = bind_user_no source, source_generation = bind_generation source,
                source_session = session, permit_source_ip = bind_source_ip source,
                permit_channel = chan, permit_token = token, expires_at = deadline\<rparr>;
              key = canonical_nickname_key h (bind_nickname source)
          in case map_of (active_by_name r) key of
               None \<Rightarrow> (Inl (StaleSession session), r)
             | Some a \<Rightarrow>
                 (Inr p, r\<lparr>active_by_name := tput key (a\<lparr>permit := Some p\<rparr>) (active_by_name r)\<rparr>)))"

text \<open>
  The validated key, entry and permit. Indexing \<open>known_by_name\<close> with the key is a panic when it is
  missing, the outer \<open>None\<close>.
\<close>

definition validate_migration ::
  "u64 \<Rightarrow> ip_addr \<Rightarrow> u32 \<Rightarrow> u16 \<Rightarrow> u16 \<Rightarrow> nat \<Rightarrow> identity_registry \<Rightarrow>
   (identity_error + ustring \<times> active_identity \<times> migration_permit) option" where
  "validate_migration dest dest_ip user_no chan_id token now r =
     (case map_of (session_bindings r) dest of
        Some b \<Rightarrow> Some (Inl (SessionAlreadyAuthenticated dest (bind_nickname b)))
      | None \<Rightarrow>
      (case map_of (name_by_user_no r) user_no of
        None \<Rightarrow> Some (Inl (UnknownUserNo user_no))
      | Some key \<Rightarrow>
      (case map_of (active_by_name r) key of
        None \<Rightarrow> (case map_of (known_by_name r) key of
            None \<Rightarrow> None
          | Some k \<Rightarrow> Some (Inl (NoMigrationPermit (known_nickname k))))
      | Some a \<Rightarrow>
      (case permit a of
        None \<Rightarrow> Some (Inl (NoMigrationPermit (known_nickname (known a))))
      | Some p \<Rightarrow>
          Some (
          if expires_at p \<le> now then Inl MigrationExpired
          else if permit_user_no p \<noteq> user_no then Inl (UnknownUserNo user_no)
          else if channel_id (permit_channel p) \<noteq> chan_id
          then Inl (ChannelMismatch (channel_id (permit_channel p)) chan_id)
          else if permit_token p \<noteq> token then Inl TokenMismatch
          else if permit_source_ip p \<noteq> dest_ip then Inl (SourceIpMismatch (permit_source_ip p) dest_ip)
          else if source_generation p \<noteq> generation a \<or>
             (case owner a of None \<Rightarrow> False | Some s \<Rightarrow> s \<noteq> source_session p)
          then Inl StaleMigrationGeneration
          else Inr (key, a, p))))))"

fun from_owner :: "u64 option \<Rightarrow> migration_source_state" where
  "from_owner (Some s) = Connected s"
| "from_owner None = SourceDisconnected"

fun permits_current :: "migration_source_state \<Rightarrow> u64 option \<Rightarrow> u64 \<Rightarrow> bool" where
  "permits_current (Connected expected) (Some current) permit_source \<longleftrightarrow>
     expected = permit_source \<and> current = expected"
| "permits_current (Connected expected) None permit_source \<longleftrightarrow> expected = permit_source"
| "permits_current SourceDisconnected None permit_source \<longleftrightarrow> True"
| "permits_current SourceDisconnected (Some _) permit_source \<longleftrightarrow> False"

definition preflight_migration ::
  "u64 \<Rightarrow> ip_addr \<Rightarrow> u32 \<Rightarrow> u16 \<Rightarrow> u16 \<Rightarrow> nat \<Rightarrow> identity_registry \<Rightarrow>
   (identity_error + migration_preflight) option \<times> identity_registry" where
  "preflight_migration dest dest_ip user_no chan_id token now r =
     (case validate_migration dest dest_ip user_no chan_id token now r of
        None \<Rightarrow> (None, r)
      | Some (Inl e) \<Rightarrow> (Some (Inl e), r)
      | Some (Inr (key, a, p)) \<Rightarrow>
          if transfer_in_progress a \<noteq> None
          then (Some (Inl (TransferInProgress (known_nickname (known a)))), r)
          else case allocate_transfer_id r of
            (Inl e, r) \<Rightarrow> (Some (Inl e), r)
          | (Inr t, r) \<Rightarrow>
              let ticket = \<lparr>pf_transfer_id = t, pf_destination_session = dest,
                    pf_destination_ip = dest_ip, pf_user_no = user_no, pf_channel_id = chan_id,
                    pf_channel = permit_channel p, pf_token = token,
                    pf_source_generation = source_generation p,
                    pf_source_state = from_owner (owner a), pf_source_session = source_session p,
                    pf_expires_at = expires_at p, pf_nickname = known_nickname (known a),
                    pf_canonical = key, pf_gate = operation_gate a\<rparr>
              in case map_of (active_by_name r) key of
                   None \<Rightarrow> (Some (Inl StaleMigrationPreflight), r)
                 | Some a' \<Rightarrow>
                     if operation_gate a' \<noteq> operation_gate a \<or> generation a' \<noteq> source_generation p
                     then (Some (Inl StaleMigrationPreflight), r)
                     else case gate_freeze t (gates r (operation_gate a)) of
                       (False, x) \<Rightarrow>
                         (Some (Inl StaleMigrationPreflight), set_gate (operation_gate a) x r)
                     | (True, x) \<Rightarrow>
                         (Some (Inr ticket),
                          (set_gate (operation_gate a) x r)
                            \<lparr>active_by_name := tput key (a'\<lparr>transfer_in_progress := Some t\<rparr>)
                               (active_by_name r)\<rparr>))"

definition operations_drained :: "migration_preflight \<Rightarrow> identity_registry \<Rightarrow> bool" where
  "operations_drained f r = is_drained (gates r (pf_gate f))"

text \<open>One poll of \<open>wait_for_operations_drained\<close>: \<open>Inr False\<close> is another wait.\<close>

definition poll_operations_drained :: "migration_preflight \<Rightarrow> identity_registry \<Rightarrow> identity_error + bool" where
  "poll_operations_drained f r = drained_while_frozen (pf_transfer_id f) (gates r (pf_gate f))"

definition validate_preflighted_migration ::
  "migration_preflight \<Rightarrow> nat \<Rightarrow> identity_registry \<Rightarrow> (identity_error + unit) option" where
  "validate_preflighted_migration f now r =
     (case validate_migration (pf_destination_session f) (pf_destination_ip f) (pf_user_no f)
             (pf_channel_id f) (pf_token f) now r of
        None \<Rightarrow> None
      | Some (Inl e) \<Rightarrow> Some (Inl e)
      | Some (Inr (key, a, p)) \<Rightarrow> Some (
          if key \<noteq> pf_canonical f \<or> known_nickname (known a) \<noteq> pf_nickname f
            \<or> \<not> permits_current (pf_source_state f) (owner a) (source_session p)
            \<or> permit_channel p \<noteq> pf_channel f
            \<or> source_generation p \<noteq> pf_source_generation f
            \<or> source_session p \<noteq> pf_source_session f
            \<or> expires_at p \<noteq> pf_expires_at f
            \<or> transfer_in_progress a \<noteq> Some (pf_transfer_id f)
            \<or> operation_gate a \<noteq> pf_gate f
            \<or> \<not> is_frozen_by (pf_transfer_id f) (gates r (pf_gate f))
          then Inl StaleMigrationPreflight
          else if \<not> operations_drained f r then Inl MigrationOperationsActive
          else if next_generation r = 0 \<or> checked_succ (next_generation r) = None
          then Inl GenerationExhausted
          else Inr ()))"

definition exact_permit :: "migration_preflight \<Rightarrow> migration_permit \<Rightarrow> bool" where
  "exact_permit f p \<longleftrightarrow> permit_user_no p = pf_user_no f \<and> source_generation p = pf_source_generation f
     \<and> source_session p = pf_source_session f \<and> permit_channel p = pf_channel f
     \<and> permit_token p = pf_token f \<and> expires_at p = pf_expires_at f"

definition abort_preflighted_migration :: "migration_preflight \<Rightarrow> identity_registry \<Rightarrow> bool \<times> identity_registry" where
  "abort_preflighted_migration f r =
     (case map_of (active_by_name r) (pf_canonical f) of
        None \<Rightarrow> (False, r)
      | Some a \<Rightarrow>
          if generation a \<noteq> pf_source_generation f \<or> known_nickname (known a) \<noteq> pf_nickname f
            \<or> transfer_in_progress a \<noteq> Some (pf_transfer_id f)
            \<or> operation_gate a \<noteq> pf_gate f
            \<or> \<not> (case permit a of None \<Rightarrow> False | Some p \<Rightarrow> exact_permit f p)
          then (False, r)
          else case gate_reopen_exact (pf_transfer_id f) (gates r (operation_gate a)) of
            (False, x) \<Rightarrow> (False, set_gate (operation_gate a) x r)
          | (True, x) \<Rightarrow>
              (True, (set_gate (operation_gate a) x r)
                 \<lparr>active_by_name := tput (pf_canonical f) (a\<lparr>transfer_in_progress := None\<rparr>)
                    (active_by_name r)\<rparr>))"

text \<open>The body of the closure of \<open>prepare_preflighted_migration\<close>, before a failure aborts the ticket.\<close>

definition materialize_candidate ::
  "host \<Rightarrow> migration_preflight \<Rightarrow> nat \<Rightarrow> identity_registry \<Rightarrow>
   (identity_error + migration_candidate) option \<times> identity_registry" where
  "materialize_candidate h f now r =
     (case validate_preflighted_migration f now r of
        None \<Rightarrow> (None, r)
      | Some (Inl e) \<Rightarrow> (Some (Inl e), r)
      | Some (Inr _) \<Rightarrow>
      (case validate_migration (pf_destination_session f) (pf_destination_ip f) (pf_user_no f)
             (pf_channel_id f) (pf_token f) now r of
        None \<Rightarrow> (None, r)
      | Some (Inl e) \<Rightarrow> (Some (Inl e), r)
      | Some (Inr (key, a, p)) \<Rightarrow>
      (case allocate_generation r of
        (Inl e, r) \<Rightarrow> (Some (Inl e), r)
      | (Inr gen, r) \<Rightarrow>
          if \<not> can_reserve h (length (session_bindings r) + 1)
          then (Some (Inl SessionIndexCapacityUnavailable), r)
          else
            (Some (Inr \<lparr>cand_canonical = key, cand_gate = operation_gate a,
               cand_next_gate = gate_shared 0,
               cand_completion =
                 \<lparr>comp_binding = \<lparr>bind_nickname = known_nickname (known a),
                    bind_user_no = known_user_no (known a), bind_generation = gen,
                    bind_owner = pf_destination_session f, bind_source_ip = pf_destination_ip f,
                    bind_channel = Some (permit_channel p)\<rparr>,
                  comp_previous_binding = identity_binding_of a (source_session p),
                  comp_previous_identity = released_identity_of a,
                  comp_previous_owner = owner a\<rparr>\<rparr>), r))))"

definition prepare_preflighted_migration ::
  "host \<Rightarrow> migration_preflight \<Rightarrow> nat \<Rightarrow> identity_registry \<Rightarrow>
   (identity_error + migration_candidate) option \<times> identity_registry" where
  "prepare_preflighted_migration h f now r =
     (case materialize_candidate h f now r of
        (Some (Inl e), r) \<Rightarrow> (Some (Inl e), snd (abort_preflighted_migration f r))
      | (res, r) \<Rightarrow> (res, r))"

text \<open>
  The guard of a locked migration. Its two exclusive borrows are the entry at \<open>cg_key\<close> and the
  session index of the registry it is committed to or dropped on.
\<close>

record commit_guard =
  cg_key :: ustring
  cg_transfer_id :: u64
  cg_destination_session :: u64
  cg_channel :: channel_binding
  cg_gate :: nat
  cg_next_gate :: identity_gate
  cg_completion :: migration_completion

definition lock_prepared_migration ::
  "migration_preflight \<Rightarrow> migration_candidate \<Rightarrow> nat \<Rightarrow> identity_registry \<Rightarrow>
   (identity_error + commit_guard) option \<times> identity_registry" where
  "lock_prepared_migration f c now r =
     (case validate_preflighted_migration f now r of
        None \<Rightarrow> (None, r)
      | Some (Inl e) \<Rightarrow> (Some (Inl e), snd (abort_preflighted_migration f r))
      | Some (Inr _) \<Rightarrow>
          if cand_canonical c \<noteq> pf_canonical f
            \<or> bind_owner (comp_binding (cand_completion c)) \<noteq> pf_destination_session f
            \<or> bind_user_no (comp_binding (cand_completion c)) \<noteq> pf_user_no f
            \<or> bind_channel (comp_binding (cand_completion c)) \<noteq> Some (pf_channel f)
            \<or> bind_generation (comp_previous_binding (cand_completion c)) \<noteq> pf_source_generation f
            \<or> cand_gate c \<noteq> pf_gate f
          then (Some (Inl StaleMigrationPreflight), snd (abort_preflighted_migration f r))
          else case map_of (active_by_name r) (cand_canonical c) of
            None \<Rightarrow> (None, r)
          | Some _ \<Rightarrow>
              (Some (Inr \<lparr>cg_key = cand_canonical c, cg_transfer_id = pf_transfer_id f,
                 cg_destination_session = pf_destination_session f, cg_channel = pf_channel f,
                 cg_gate = cand_gate c, cg_next_gate = cand_next_gate c,
                 cg_completion = cand_completion c\<rparr>), r))"

definition commit_migration ::
  "commit_guard \<Rightarrow> u64 \<Rightarrow> identity_registry \<Rightarrow> migration_completion option \<times> identity_registry" where
  "commit_migration g epoch r =
     (case map_of (active_by_name r) (cg_key g) of
        None \<Rightarrow> (None, r)
      | Some a \<Rightarrow>
      (case gate_retire_exact (cg_transfer_id g) (gates r (cg_gate g)) of
        (False, x) \<Rightarrow> (None, set_gate (cg_gate g) x r)
      | (True, x) \<Rightarrow>
          let c = cg_completion g;
              r = set_gate (cg_gate g) x r;
              r = set_gate (next_gate r) ((cg_next_gate g)\<lparr>activated_udp_epoch := epoch\<rparr>) r
          in (Some c, r
               \<lparr>next_gate := next_gate r + 1,
                active_by_name := tput (cg_key g)
                  (a\<lparr>generation := bind_generation (comp_binding c),
                     owner := Some (cg_destination_session g),
                     owner_ip := bind_source_ip (comp_binding c),
                     channel := Some (cg_channel g),
                     permit := None,
                     transfer_in_progress := None,
                     operation_gate := next_gate r\<rparr>) (active_by_name r),
                session_bindings := tput (cg_destination_session g) (comp_binding c)
                  (session_bindings r)\<rparr>)))"

definition drop_commit_guard :: "commit_guard \<Rightarrow> identity_registry \<Rightarrow> identity_registry" where
  "drop_commit_guard g r =
     (case map_of (active_by_name r) (cg_key g) of
        None \<Rightarrow> r
      | Some a \<Rightarrow>
          if transfer_in_progress a = Some (cg_transfer_id g) \<and> operation_gate a = cg_gate g
          then (set_gate (cg_gate g) (snd (gate_reopen_exact (cg_transfer_id g) (gates r (cg_gate g)))) r)
             \<lparr>active_by_name := tput (cg_key g) (a\<lparr>transfer_in_progress := None\<rparr>) (active_by_name r)\<rparr>
          else r)"

definition complete_preflighted_at_udp_epoch ::
  "host \<Rightarrow> migration_preflight \<Rightarrow> nat \<Rightarrow> u64 \<Rightarrow> identity_registry \<Rightarrow>
   (identity_error + migration_completion) option \<times> identity_registry" where
  "complete_preflighted_at_udp_epoch h f now epoch r =
     (case prepare_preflighted_migration h f now r of
        (None, r) \<Rightarrow> (None, r)
      | (Some (Inl e), r) \<Rightarrow> (Some (Inl e), r)
      | (Some (Inr c), r) \<Rightarrow>
          (case lock_prepared_migration f c now r of
             (None, r) \<Rightarrow> (None, r)
           | (Some (Inl e), r) \<Rightarrow> (Some (Inl e), r)
           | (Some (Inr g), r) \<Rightarrow>
               (case commit_migration g epoch r of
                  (None, r) \<Rightarrow> (None, r)
                | (Some done, r) \<Rightarrow> (Some (Inr done), r))))"

definition complete_preflighted_migration ::
  "host \<Rightarrow> migration_preflight \<Rightarrow> nat \<Rightarrow> identity_registry \<Rightarrow>
   (identity_error + migration_completion) option \<times> identity_registry" where
  "complete_preflighted_migration h f now r = complete_preflighted_at_udp_epoch h f now 0 r"

definition complete_migration ::
  "host \<Rightarrow> u64 \<Rightarrow> ip_addr \<Rightarrow> u32 \<Rightarrow> u16 \<Rightarrow> u16 \<Rightarrow> nat \<Rightarrow> identity_registry \<Rightarrow>
   (identity_error + migration_completion) option \<times> identity_registry" where
  "complete_migration h dest dest_ip user_no chan_id token now r =
     (case preflight_migration dest dest_ip user_no chan_id token now r of
        (None, r) \<Rightarrow> (None, r)
      | (Some (Inl e), r) \<Rightarrow> (Some (Inl e), r)
      | (Some (Inr f), r) \<Rightarrow> complete_preflighted_migration h f now r)"

section \<open>Disconnect, expiry and release\<close>

definition disconnect :: "host \<Rightarrow> u64 \<Rightarrow> nat \<Rightarrow> identity_registry \<Rightarrow> disconnect_outcome \<times> identity_registry" where
  "disconnect h session now r =
     (case map_of (session_bindings r) session of
        None \<Rightarrow> (Unauthenticated, r)
      | Some b \<Rightarrow>
          let r = r\<lparr>session_bindings := tdel session (session_bindings r)\<rparr>;
              key = canonical_nickname_key h (bind_nickname b)
          in
          (case map_of (active_by_name r) key of
             None \<Rightarrow> (Stale b, r)
           | Some a \<Rightarrow>
               if owner a \<noteq> Some session \<or> generation a \<noteq> bind_generation b then (Stale b, r)
               else
                 (case (case permit a of None \<Rightarrow> None
                        | Some p \<Rightarrow> if now < expires_at p then Some p else None) of
                    Some p \<Rightarrow>
                      (Deferred b p,
                       r\<lparr>active_by_name := tput key (a\<lparr>owner := None\<rparr>) (active_by_name r)\<rparr>)
                  | None \<Rightarrow>
                      let r = r\<lparr>active_by_name := tdel key (active_by_name r)\<rparr>;
                          g = operation_gate a;
                          r = (case transfer_in_progress a of None \<Rightarrow> r
                               | Some t \<Rightarrow> set_gate g (snd (gate_reopen_exact t (gates r g))) r);
                          identity = released_identity_of a
                      in (case gate_retire_drained (gates r g) of
                            (True, x) \<Rightarrow> (Released identity, set_gate g x r)
                          | (False, x) \<Rightarrow>
                              (Draining identity, (set_gate g x r)
                                 \<lparr>deferred_releases := deferred_releases r @
                                    [\<lparr>def_canonical = key, def_identity = identity, def_gate = g\<rparr>]\<rparr>)))))"

text \<open>The two loops of \<open>expire_migrations\<close>: revoke the due permits, then release the ownerless keys.\<close>

definition revoke_due :: "nat \<Rightarrow> ustring \<Rightarrow> identity_registry \<times> ustring list \<Rightarrow> identity_registry \<times> ustring list" where
  "revoke_due now key st = (case st of (r, release_keys) \<Rightarrow>
     (case map_of (active_by_name r) key of
        None \<Rightarrow> st
      | Some a \<Rightarrow>
          if (case permit a of None \<Rightarrow> False | Some p \<Rightarrow> expires_at p \<le> now)
          then
            let a = a\<lparr>permit := None\<rparr>;
                (a, r) = (case transfer_in_progress a of None \<Rightarrow> (a, r)
                   | Some t \<Rightarrow>
                       (case gate_reopen_exact t (gates r (operation_gate a)) of
                          (True, x) \<Rightarrow> (a\<lparr>transfer_in_progress := None\<rparr>, set_gate (operation_gate a) x r)
                        | (False, x) \<Rightarrow> (a, set_gate (operation_gate a) x r)))
            in (r\<lparr>active_by_name := tput key a (active_by_name r)\<rparr>,
                if owner a = None then release_keys @ [key] else release_keys)
          else st))"

definition release_key :: "ustring \<Rightarrow> identity_registry \<times> released_identity list \<Rightarrow> identity_registry \<times> released_identity list" where
  "release_key key st = (case st of (r, released) \<Rightarrow>
     (case map_of (active_by_name r) key of
        None \<Rightarrow> st
      | Some a \<Rightarrow>
          let r = r\<lparr>active_by_name := tdel key (active_by_name r)\<rparr>;
              g = operation_gate a; identity = released_identity_of a
          in (case gate_retire_drained (gates r g) of
                (True, x) \<Rightarrow> (set_gate g x r, released @ [identity])
              | (False, x) \<Rightarrow>
                  ((set_gate g x r)\<lparr>deferred_releases := deferred_releases r @
                      [\<lparr>def_canonical = key, def_identity = identity, def_gate = g\<rparr>]\<rparr>, released))))"

definition expire_migrations :: "nat \<Rightarrow> identity_registry \<Rightarrow> released_identity list \<times> identity_registry" where
  "expire_migrations now r =
     (let (r, release_keys) = fold (revoke_due now) (map fst (active_by_name r)) (r, []);
          (r, released) = fold release_key release_keys (r, [])
      in (released, r))"

definition collect_one :: "deferred_release \<Rightarrow> identity_registry \<times> released_identity list \<Rightarrow> identity_registry \<times> released_identity list" where
  "collect_one d st = (case st of (r, released) \<Rightarrow>
     (case gate_retire_drained (gates r (def_gate d)) of
        (True, x) \<Rightarrow> (set_gate (def_gate d) x r, released @ [def_identity d])
      | (False, x) \<Rightarrow>
          ((set_gate (def_gate d) x r)\<lparr>deferred_releases := deferred_releases r @ [d]\<rparr>, released)))"

definition collect_drained_releases :: "identity_registry \<Rightarrow> released_identity list \<times> identity_registry" where
  "collect_drained_releases r =
     (let pending = deferred_releases r;
          (r, released) = fold collect_one pending (r\<lparr>deferred_releases := []\<rparr>, [])
      in (sort_key (\<lambda>i. unat (rel_user_no i)) released, r))"

definition drain_active :: "identity_registry \<Rightarrow> released_identity list \<times> identity_registry" where
  "drain_active r =
     collect_drained_releases
       (r\<lparr>session_bindings := [], active_by_name := [],
          deferred_releases := deferred_releases r @
            map (\<lambda>(key, a). \<lparr>def_canonical = key, def_identity = released_identity_of a,
              def_gate = operation_gate a\<rparr>) (active_by_name r)\<rparr>)"

section \<open>Queries\<close>

definition active_identity_of :: "host \<Rightarrow> ustring \<Rightarrow> identity_registry \<Rightarrow> identity_binding option" where
  "active_identity_of h nickname r =
     (case map_of (active_by_name r) (canonical_nickname_key h nickname) of
        None \<Rightarrow> None | Some a \<Rightarrow> active_identity_binding a)"

definition active_identity_by_user_no :: "u32 \<Rightarrow> identity_registry \<Rightarrow> identity_binding option" where
  "active_identity_by_user_no user_no r =
     (case map_of (name_by_user_no r) user_no of None \<Rightarrow> None
      | Some key \<Rightarrow> (case map_of (active_by_name r) key of None \<Rightarrow> None
         | Some a \<Rightarrow> active_identity_binding a))"

definition is_current_ownerless_binding :: "identity_binding \<Rightarrow> identity_registry \<Rightarrow> bool" where
  "is_current_ownerless_binding b r =
     (case map_of (name_by_user_no r) (bind_user_no b) of None \<Rightarrow> False
      | Some key \<Rightarrow> (case map_of (active_by_name r) key of None \<Rightarrow> False
         | Some a \<Rightarrow> (case permit a of None \<Rightarrow> False
            | Some p \<Rightarrow> owner a = None \<and> identity_binding_of a (source_session p) = b \<and>
                source_generation p = bind_generation b)))"

definition active_identities :: "identity_registry \<Rightarrow> identity_binding list" where
  "active_identities r = List.map_filter (\<lambda>(_, a). active_identity_binding a) (active_by_name r)"

definition active_count :: "identity_registry \<Rightarrow> nat" where
  "active_count r = length (active_by_name r)"

definition retained_identity_count :: "identity_registry \<Rightarrow> nat" where
  "retained_identity_count r = length (active_by_name r) + length (deferred_releases r)"

definition outstanding_operation_count :: "identity_registry \<Rightarrow> nat" where
  "outstanding_operation_count r =
     fold (\<lambda>n total. min (2 ^ 64 - 1) (total + n))
       (map (\<lambda>(_, a). outstanding (gates r (operation_gate a))) (active_by_name r) @
        map (\<lambda>d. outstanding (gates r (def_gate d))) (deferred_releases r)) 0"

definition transfer_in_progress_count :: "identity_registry \<Rightarrow> nat" where
  "transfer_in_progress_count r =
     length (filter (\<lambda>(_, a). transfer_in_progress a \<noteq> None) (active_by_name r))"

end
