(* ===== verification/IdentityInv.thy ===== *)
theory IdentityInv
  imports Identity
begin

text \<open>
  The invariant of the identity registry together with the leases its clients hold, and its
  preservation by every operation. The invariant is a conjunction of predicates on the components
  of the state each of them is about, so that an operation only meets the ones it changes.
\<close>

section \<open>The invariant\<close>

text \<open>Stable names: the two indexes are inverse to each other, numbers are never reused.\<close>

definition known_inv ::
  "host \<Rightarrow> (ustring \<Rightarrow> known_identity option) \<Rightarrow> (u32 \<Rightarrow> ustring option) \<Rightarrow> u32 \<Rightarrow> bool" where
  "known_inv h kn nm nu \<longleftrightarrow> 0 < nu \<and>
     (\<forall>k i. kn k = Some i \<longrightarrow> canonical_nickname_key h (known_nickname i) = k \<and>
        0 < known_user_no i \<and> known_user_no i < nu \<and> nm (known_user_no i) = Some k) \<and>
     (\<forall>n k. nm n = Some k \<longrightarrow> (\<exists>i. kn k = Some i \<and> known_user_no i = n))"

text \<open>The state word of the gate of an entry: open, or frozen by the entry's transfer.\<close>

definition frozen_state :: "u64 option \<Rightarrow> u64" where
  "frozen_state t = (case t of None \<Rightarrow> OPEN | Some i \<Rightarrow> i)"

text \<open>
  One active identity. \<open>K\<close> holds the keys whose permit the expiry sweep has just revoked and that
  it is about to release; it is empty between operations.
\<close>

definition permit_ok :: "active_identity \<Rightarrow> bool" where
  "permit_ok a \<longleftrightarrow> (case permit a of None \<Rightarrow> True | Some p \<Rightarrow>
     permit_user_no p = known_user_no (known a) \<and> source_generation p = generation a \<and>
     (owner a = None \<or> owner a = Some (source_session p)))"

definition entry_ok ::
  "ustring set \<Rightarrow> (ustring \<Rightarrow> known_identity option) \<Rightarrow> (u64 \<Rightarrow> identity_binding option) \<Rightarrow> u64 \<Rightarrow> u64 \<Rightarrow>
   (nat \<Rightarrow> u64) \<Rightarrow> nat \<Rightarrow> ustring \<Rightarrow> active_identity \<Rightarrow> bool" where
  "entry_ok K kn ses ngen ntr gs ng k a \<longleftrightarrow>
     kn k = Some (known a) \<and> 0 < generation a \<and> generation a < ngen \<and> permit_ok a \<and>
     (owner a = None \<longrightarrow> permit a \<noteq> None \<or> k \<in> K) \<and>
     (\<forall>s. owner a = Some s \<longrightarrow> ses s = Some (identity_binding_of a s)) \<and>
     (transfer_in_progress a \<noteq> None \<longrightarrow> permit a \<noteq> None) \<and>
     (\<forall>t. transfer_in_progress a = Some t \<longrightarrow> 0 < t \<and> t < ntr) \<and>
     operation_gate a < ng \<and> gs (operation_gate a) = frozen_state (transfer_in_progress a)"

definition separate :: "(ustring \<Rightarrow> active_identity option) \<Rightarrow> bool" where
  "separate act \<longleftrightarrow> (\<forall>k a k' a'. act k = Some a \<longrightarrow> act k' = Some a' \<longrightarrow> k \<noteq> k' \<longrightarrow>
     generation a \<noteq> generation a' \<and> operation_gate a \<noteq> operation_gate a')"

definition session_ok :: "(ustring \<Rightarrow> active_identity option) \<Rightarrow> u64 \<Rightarrow> u64 \<Rightarrow> identity_binding \<Rightarrow> bool" where
  "session_ok act ngen s b \<longleftrightarrow> bind_owner b = s \<and> 0 < bind_generation b \<and> bind_generation b < ngen \<and>
     (\<forall>k a. act k = Some a \<longrightarrow> generation a = bind_generation b \<longrightarrow> owner a = Some s)"

definition release_ok ::
  "(ustring \<Rightarrow> known_identity option) \<Rightarrow> (ustring \<Rightarrow> active_identity option) \<Rightarrow> u64 \<Rightarrow> (nat \<Rightarrow> u64) \<Rightarrow> nat \<Rightarrow>
   deferred_release \<Rightarrow> bool" where
  "release_ok kn act ngen gs ng d \<longleftrightarrow>
     act (def_canonical d) = None \<and>
     (\<exists>i. kn (def_canonical d) = Some i \<and> rel_user_no (def_identity d) = known_user_no i) \<and>
     0 < rel_generation (def_identity d) \<and> rel_generation (def_identity d) < ngen \<and>
     def_gate d < ng \<and> gs (def_gate d) \<noteq> RETIRED \<and>
     (\<forall>k a. act k = Some a \<longrightarrow> operation_gate a \<noteq> def_gate d \<and>
        generation a \<noteq> rel_generation (def_identity d))"

definition separate_releases :: "deferred_release list \<Rightarrow> bool" where
  "separate_releases ds \<longleftrightarrow> distinct (map def_gate ds) \<and> distinct (map def_canonical ds) \<and>
     distinct (map (rel_generation \<circ> def_identity) ds)"

definition states :: "identity_registry \<Rightarrow> nat \<Rightarrow> u64" where
  "states r g = gate_state (gates r g)"

definition tables_wf :: "identity_registry \<Rightarrow> bool" where
  "tables_wf r \<longleftrightarrow> wf_table (known_by_name r) \<and> wf_table (name_by_user_no r) \<and>
     wf_table (active_by_name r) \<and> wf_table (session_bindings r)"

definition reg_inv :: "host \<Rightarrow> ustring set \<Rightarrow> identity_registry \<Rightarrow> bool" where
  "reg_inv h K r \<longleftrightarrow> tables_wf r \<and>
     known_inv h (map_of (known_by_name r)) (map_of (name_by_user_no r)) (next_user_no r) \<and>
     0 < next_generation r \<and> 0 < next_transfer_id r \<and>
     (\<forall>k a. map_of (active_by_name r) k = Some a \<longrightarrow>
        entry_ok K (map_of (known_by_name r)) (map_of (session_bindings r)) (next_generation r)
          (next_transfer_id r) (states r) (next_gate r) k a) \<and>
     separate (map_of (active_by_name r)) \<and>
     (\<forall>s b. map_of (session_bindings r) s = Some b \<longrightarrow>
        session_ok (map_of (active_by_name r)) (next_generation r) s b) \<and>
     (\<forall>d \<in> set (deferred_releases r). release_ok (map_of (known_by_name r))
        (map_of (active_by_name r)) (next_generation r) (states r) (next_gate r) d) \<and>
     separate_releases (deferred_releases r)"

text \<open>Every outstanding lease is counted by its gate and belongs to a generation that is retained.\<close>

definition retains :: "(ustring \<Rightarrow> active_identity option) \<Rightarrow> deferred_release list \<Rightarrow> operation_lease \<Rightarrow> bool" where
  "retains act ds l \<longleftrightarrow>
     (\<exists>k a. act k = Some a \<and> operation_gate a = lease_gate l \<and>
        generation a = bind_generation (lease_binding l) \<and>
        known_user_no (known a) = bind_user_no (lease_binding l)) \<or>
     (\<exists>d \<in> set ds. def_gate d = lease_gate l \<and>
        rel_generation (def_identity d) = bind_generation (lease_binding l) \<and>
        rel_user_no (def_identity d) = bind_user_no (lease_binding l))"

definition held :: "operation_lease list \<Rightarrow> nat \<Rightarrow> nat" where
  "held ls g = length (filter (\<lambda>l. lease_gate l = g) ls)"

definition lease_inv :: "identity_registry \<Rightarrow> operation_lease list \<Rightarrow> bool" where
  "lease_inv r ls \<longleftrightarrow>
     (\<forall>g < next_gate r. outstanding (gates r g) = held ls g) \<and>
     (\<forall>l \<in> set ls. lease_instance l = registry_instance r \<and> lease_gate l < next_gate r \<and>
        retains (map_of (active_by_name r)) (deferred_releases r) l)"

record identity_world =
  reg :: identity_registry
  leases :: "operation_lease list"

definition world_inv :: "host \<Rightarrow> identity_world \<Rightarrow> bool" where
  "world_inv h w \<longleftrightarrow> reg_inv h {} (reg w) \<and> lease_inv (reg w) (leases w)"

section \<open>Reading the invariant\<close>

lemma reg_invI:
  assumes "tables_wf r"
    "known_inv h (map_of (known_by_name r)) (map_of (name_by_user_no r)) (next_user_no r)"
    "0 < next_generation r" "0 < next_transfer_id r"
    "\<And>k a. map_of (active_by_name r) k = Some a \<Longrightarrow>
        entry_ok K (map_of (known_by_name r)) (map_of (session_bindings r)) (next_generation r)
          (next_transfer_id r) (states r) (next_gate r) k a"
    "separate (map_of (active_by_name r))"
    "\<And>s b. map_of (session_bindings r) s = Some b \<Longrightarrow>
        session_ok (map_of (active_by_name r)) (next_generation r) s b"
    "\<And>d. d \<in> set (deferred_releases r) \<Longrightarrow> release_ok (map_of (known_by_name r))
        (map_of (active_by_name r)) (next_generation r) (states r) (next_gate r) d"
    "separate_releases (deferred_releases r)"
  shows "reg_inv h K r"
  using assms unfolding reg_inv_def by blast

lemma reg_invD:
  assumes "reg_inv h K r"
  shows "tables_wf r"
    "known_inv h (map_of (known_by_name r)) (map_of (name_by_user_no r)) (next_user_no r)"
    "0 < next_generation r" "0 < next_transfer_id r"
    "map_of (active_by_name r) k = Some a \<Longrightarrow>
        entry_ok K (map_of (known_by_name r)) (map_of (session_bindings r)) (next_generation r)
          (next_transfer_id r) (states r) (next_gate r) k a"
    "separate (map_of (active_by_name r))"
    "map_of (session_bindings r) s = Some b \<Longrightarrow>
        session_ok (map_of (active_by_name r)) (next_generation r) s b"
    "d \<in> set (deferred_releases r) \<Longrightarrow> release_ok (map_of (known_by_name r))
        (map_of (active_by_name r)) (next_generation r) (states r) (next_gate r) d"
    "separate_releases (deferred_releases r)"
  using assms unfolding reg_inv_def by blast+

lemma known_invD:
  assumes "known_inv h kn nm nu"
  shows "0 < nu" "kn k = Some i \<Longrightarrow> canonical_nickname_key h (known_nickname i) = k"
    "kn k = Some i \<Longrightarrow> 0 < known_user_no i" "kn k = Some i \<Longrightarrow> known_user_no i < nu"
    "kn k = Some i \<Longrightarrow> nm (known_user_no i) = Some k"
    "nm n = Some k \<Longrightarrow> \<exists>i. kn k = Some i \<and> known_user_no i = n"
  using assms unfolding known_inv_def by blast+

lemma OPEN_less: "0 < (t :: u64) \<Longrightarrow> t \<noteq> OPEN"
  by (simp add: OPEN_def)

lemma less_not_RETIRED: "t < (n :: u64) \<Longrightarrow> t \<noteq> RETIRED"
  by (simp add: RETIRED_def) (metis word_order.extremum_strict)

lemma entry_not_retired:
  "entry_ok K kn ses ngen ntr gs ng k a \<Longrightarrow> gs (operation_gate a) \<noteq> RETIRED"
  by (auto simp: entry_ok_def frozen_state_def OPEN_def RETIRED_def dest: less_not_RETIRED[unfolded RETIRED_def]
      split: option.splits)

lemma reg_inv_default: "reg_inv h {} (default_registry i)"
  by (rule reg_invI) (simp_all add: default_registry_def tables_wf_def known_inv_def separate_def
      separate_releases_def)

lemma lease_inv_default: "lease_inv (default_registry i) []"
  by (simp add: lease_inv_def default_registry_def)

section \<open>Generic updates\<close>

lemma set_gate_simps [simp]:
  "known_by_name (set_gate g x r) = known_by_name r"
  "name_by_user_no (set_gate g x r) = name_by_user_no r"
  "active_by_name (set_gate g x r) = active_by_name r"
  "session_bindings (set_gate g x r) = session_bindings r"
  "deferred_releases (set_gate g x r) = deferred_releases r"
  "next_user_no (set_gate g x r) = next_user_no r"
  "next_generation (set_gate g x r) = next_generation r"
  "next_transfer_id (set_gate g x r) = next_transfer_id r"
  "next_gate (set_gate g x r) = next_gate r"
  "registry_instance (set_gate g x r) = registry_instance r"
  "gates (set_gate g x r) = (gates r)(g := x)"
  by (simp_all add: set_gate_def)

lemma states_update [simp]:
  "states (set_gate g x r) = (states r)(g := gate_state x)"
  "states (r\<lparr>active_by_name := u1\<rparr>) = states r"
  "states (r\<lparr>session_bindings := u2\<rparr>) = states r"
  "states (r\<lparr>deferred_releases := u3\<rparr>) = states r"
  "states (r\<lparr>next_gate := u4\<rparr>) = states r"
  "states (r\<lparr>next_generation := u5\<rparr>) = states r"
  "states (r\<lparr>next_transfer_id := u5\<rparr>) = states r"
  "states (r\<lparr>next_user_no := u6\<rparr>) = states r"
  "states (r\<lparr>known_by_name := u7\<rparr>) = states r"
  "states (r\<lparr>name_by_user_no := u8\<rparr>) = states r"
  by (auto simp: states_def fun_eq_iff)

lemma set_gate_id [simp]: "set_gate g (gates r g) r = r"
  by (simp add: set_gate_def)

lemma entry_ok_mono:
  assumes "entry_ok K kn ses ngen ntr gs ng k a"
    and "k \<in> K \<Longrightarrow> k \<in> K'" "ngen \<le> ngen'" "ntr \<le> ntr'" "ng \<le> ng'"
    and "gs' (operation_gate a) = gs (operation_gate a)" "kn' k = kn k"
    and "\<And>s. owner a = Some s \<Longrightarrow> ses' s = ses s"
  shows "entry_ok K' kn' ses' ngen' ntr' gs' ng' k a"
  using assms unfolding entry_ok_def by (auto intro: less_le_trans)

lemma release_ok_mono:
  assumes "release_ok kn act ngen gs ng d" "ngen \<le> ngen'" "ng \<le> ng'"
    and "gs' (def_gate d) = gs (def_gate d)" "kn' (def_canonical d) = kn (def_canonical d)"
    and "\<And>k a. act' k = Some a \<Longrightarrow> \<exists>b. act k = Some b \<and> operation_gate b = operation_gate a \<and>
        generation b = generation a"
  shows "release_ok kn' act' ngen' gs' ng' d"
proof -
  have "act' (def_canonical d) = None"
  proof (rule ccontr)
    assume "act' (def_canonical d) \<noteq> None"
    then obtain a where "act' (def_canonical d) = Some a" by blast
    from assms(6)[OF this] assms(1) show False by (auto simp: release_ok_def)
  qed
  then show ?thesis
    using assms unfolding release_ok_def by (metis less_le_trans)
qed

lemma session_ok_mono:
  assumes "session_ok act ngen s b" "ngen \<le> ngen'"
    and "\<And>k a. act' k = Some a \<Longrightarrow> generation a = bind_generation b \<Longrightarrow> owner a = Some s"
  shows "session_ok act' ngen' s b"
  using assms unfolding session_ok_def by (blast intro: less_le_trans)

lemma separate_put:
  assumes "separate act"
    and "\<And>k2 a2. act k2 = Some a2 \<Longrightarrow> k2 \<noteq> k \<Longrightarrow>
      generation a2 \<noteq> generation a \<and> operation_gate a2 \<noteq> operation_gate a"
  shows "separate (act(k \<mapsto> a))"
  unfolding separate_def
proof (intro allI impI)
  fix k1 a1 k2 a2
  assume "(act(k \<mapsto> a)) k1 = Some a1" "(act(k \<mapsto> a)) k2 = Some a2" "k1 \<noteq> k2"
  with assms show "generation a1 \<noteq> generation a2 \<and> operation_gate a1 \<noteq> operation_gate a2"
    by (cases "k1 = k"; cases "k2 = k") (simp_all add: separate_def eq_commute, metis+)
qed

lemma separateD:
  "separate act \<Longrightarrow> act k = Some a \<Longrightarrow> act k2 = Some a2 \<Longrightarrow> k2 \<noteq> k \<Longrightarrow>
   generation a2 \<noteq> generation a \<and> operation_gate a2 \<noteq> operation_gate a"
  unfolding separate_def by metis

lemma separate_del: "separate act \<Longrightarrow> separate (act(k := None))"
  unfolding separate_def by simp

text \<open>A counter of a gate moves, its state does not.\<close>

lemma reg_inv_count:
  "reg_inv h K r \<Longrightarrow> gate_state x = gate_state (gates r g) \<Longrightarrow> reg_inv h K (set_gate g x r)"
proof -
  assume "reg_inv h K r" "gate_state x = gate_state (gates r g)"
  moreover from this have "states (set_gate g x r) = states r" by (auto simp: states_def fun_eq_iff)
  ultimately show ?thesis by (simp add: reg_inv_def tables_wf_def del: states_update)
qed

text \<open>An identifier is allocated: the counters only grow.\<close>

lemma reg_inv_counters:
  assumes "reg_inv h K r" "next_generation r \<le> ngen" "next_transfer_id r \<le> ntr"
  shows "reg_inv h K (r\<lparr>next_generation := ngen, next_transfer_id := ntr\<rparr>)"
proof (rule reg_invI)
  fix k a
  assume "map_of (active_by_name (r\<lparr>next_generation := ngen, next_transfer_id := ntr\<rparr>)) k = Some a"
  then have "map_of (active_by_name r) k = Some a" by simp
  from reg_invD(5)[OF assms(1) this] assms(2,3)
  show "entry_ok K (map_of (known_by_name (r\<lparr>next_generation := ngen, next_transfer_id := ntr\<rparr>)))
        (map_of (session_bindings (r\<lparr>next_generation := ngen, next_transfer_id := ntr\<rparr>)))
        (next_generation (r\<lparr>next_generation := ngen, next_transfer_id := ntr\<rparr>))
        (next_transfer_id (r\<lparr>next_generation := ngen, next_transfer_id := ntr\<rparr>))
        (states (r\<lparr>next_generation := ngen, next_transfer_id := ntr\<rparr>))
        (next_gate (r\<lparr>next_generation := ngen, next_transfer_id := ntr\<rparr>)) k a"
    by simp (erule entry_ok_mono; simp)
next
  fix d
  assume "d \<in> set (deferred_releases (r\<lparr>next_generation := ngen, next_transfer_id := ntr\<rparr>))"
  then have "d \<in> set (deferred_releases r)" by simp
  from reg_invD(8)[OF assms(1) this] assms(2)
  show "release_ok (map_of (known_by_name (r\<lparr>next_generation := ngen, next_transfer_id := ntr\<rparr>)))
      (map_of (active_by_name (r\<lparr>next_generation := ngen, next_transfer_id := ntr\<rparr>)))
      (next_generation (r\<lparr>next_generation := ngen, next_transfer_id := ntr\<rparr>))
      (states (r\<lparr>next_generation := ngen, next_transfer_id := ntr\<rparr>))
      (next_gate (r\<lparr>next_generation := ngen, next_transfer_id := ntr\<rparr>)) d"
    by simp (erule release_ok_mono; simp)
next
  fix s b
  assume "map_of (session_bindings (r\<lparr>next_generation := ngen, next_transfer_id := ntr\<rparr>)) s = Some b"
  then have "session_ok (map_of (active_by_name r)) (next_generation r) s b"
    using reg_invD(7)[OF assms(1)] by simp
  then show "session_ok (map_of (active_by_name (r\<lparr>next_generation := ngen, next_transfer_id := ntr\<rparr>)))
      (next_generation (r\<lparr>next_generation := ngen, next_transfer_id := ntr\<rparr>)) s b"
    using assms(2) by (simp add: session_ok_def) (blast intro: less_le_trans)
qed (use reg_invD[OF assms(1)] assms(2,3) in \<open>auto simp: tables_wf_def intro: less_le_trans\<close>)

text \<open>
  An entry is replaced, keeping its identity, generation and gate; sessions may be dropped with it.
\<close>

lemma reg_inv_entry:
  assumes inv: "reg_inv h K r" and a: "map_of (active_by_name r) k = Some a"
    and same: "known a' = known a" "generation a' = generation a" "operation_gate a' = operation_gate a"
    and ok: "entry_ok K' (map_of (known_by_name r)) (map_of st) (next_generation r)
      (next_transfer_id r) ((states r)(operation_gate a := gate_state x)) (next_gate r) k a'"
    and K: "K \<subseteq> K'" and wf: "wf_table st"
    and sub: "\<And>s b. map_of st s = Some b \<Longrightarrow> map_of (session_bindings r) s = Some b"
    and kept: "\<And>k2 a2 s. map_of (active_by_name r) k2 = Some a2 \<Longrightarrow> k2 \<noteq> k \<Longrightarrow> owner a2 = Some s \<Longrightarrow>
      map_of st s = map_of (session_bindings r) s"
    and own: "\<And>s b. map_of st s = Some b \<Longrightarrow> bind_generation b = generation a \<Longrightarrow>
      owner a = Some s \<Longrightarrow> owner a' = Some s"
  shows "reg_inv h K' ((set_gate (operation_gate a) x r)
    \<lparr>active_by_name := tput k a' (active_by_name r), session_bindings := st\<rparr>)" (is "reg_inv h K' ?r")
proof (rule reg_invI)
  note D = reg_invD[OF inv]
  have sep: "k2 \<noteq> k \<Longrightarrow> map_of (active_by_name r) k2 = Some a2 \<Longrightarrow>
      generation a2 \<noteq> generation a \<and> operation_gate a2 \<noteq> operation_gate a" for k2 a2
    using separateD[OF D(6) a] by blast
  {
    fix k2 a2 assume k2: "map_of (active_by_name ?r) k2 = Some a2"
    show "entry_ok K' (map_of (known_by_name ?r)) (map_of (session_bindings ?r)) (next_generation ?r)
        (next_transfer_id ?r) (states ?r) (next_gate ?r) k2 a2"
    proof (cases "k2 = k")
      case True
      with k2 ok show ?thesis by simp
    next
      case False
      with k2 have *: "map_of (active_by_name r) k2 = Some a2" by simp
      have "entry_ok K' (map_of (known_by_name r)) (map_of st) (next_generation r) (next_transfer_id r)
          ((states r)(operation_gate a := gate_state x)) (next_gate r) k2 a2"
        by (rule entry_ok_mono[OF D(5)[OF *]]) (use K sep[OF False *] kept[OF * False] in auto)
      then show ?thesis by simp
    qed
  next
    show "separate (map_of (active_by_name ?r))"
      using separate_put[OF D(6), of k a'] sep same by simp
  next
    fix s b assume "map_of (session_bindings ?r) s = Some b"
    then have b: "map_of st s = Some b" by simp
    from D(7)[OF sub[OF b]] own[OF b] same a show "session_ok (map_of (active_by_name ?r)) (next_generation ?r) s b"
      unfolding session_ok_def by (auto split: if_splits)
  next
    fix d assume "d \<in> set (deferred_releases ?r)"
    then have d: "release_ok (map_of (known_by_name r)) (map_of (active_by_name r)) (next_generation r)
        (states r) (next_gate r) d" using D(8) by simp
    then have "def_gate d \<noteq> operation_gate a" using a unfolding release_ok_def by metis
    then have "release_ok (map_of (known_by_name r)) (map_of (tput k a' (active_by_name r)))
        (next_generation r) ((states r)(operation_gate a := gate_state x)) (next_gate r) d"
      by (intro release_ok_mono[OF d]) (use a same in \<open>auto split: if_splits\<close>)
    then show "release_ok (map_of (known_by_name ?r)) (map_of (active_by_name ?r)) (next_generation ?r)
        (states ?r) (next_gate ?r) d" by simp
  }
qed (use reg_invD[OF inv] wf in \<open>simp_all add: tables_wf_def\<close>)

text \<open>Sessions that own nothing are dropped.\<close>

lemma reg_inv_sessions:
  assumes inv: "reg_inv h K r" and wf: "wf_table st"
    and sub: "\<And>s b. map_of st s = Some b \<Longrightarrow> map_of (session_bindings r) s = Some b"
    and kept: "\<And>k a s. map_of (active_by_name r) k = Some a \<Longrightarrow> owner a = Some s \<Longrightarrow>
      map_of st s = map_of (session_bindings r) s"
  shows "reg_inv h K (r\<lparr>session_bindings := st\<rparr>)"
proof (rule reg_invI)
  fix k a assume "map_of (active_by_name (r\<lparr>session_bindings := st\<rparr>)) k = Some a"
  then have *: "map_of (active_by_name r) k = Some a" by simp
  have "entry_ok K (map_of (known_by_name r)) (map_of st) (next_generation r) (next_transfer_id r)
      (states r) (next_gate r) k a"
    by (rule entry_ok_mono[OF reg_invD(5)[OF inv *]]) (use kept[OF *] in auto)
  then show "entry_ok K (map_of (known_by_name (r\<lparr>session_bindings := st\<rparr>)))
      (map_of (session_bindings (r\<lparr>session_bindings := st\<rparr>))) (next_generation (r\<lparr>session_bindings := st\<rparr>))
      (next_transfer_id (r\<lparr>session_bindings := st\<rparr>)) (states (r\<lparr>session_bindings := st\<rparr>))
      (next_gate (r\<lparr>session_bindings := st\<rparr>)) k a" by simp
qed (use reg_invD[OF inv] wf sub in \<open>auto simp: tables_wf_def\<close>)

text \<open>
  An entry leaves the registry: its gate may be retired, or the entry becomes a deferred release.
\<close>

definition release_of :: "ustring \<Rightarrow> active_identity \<Rightarrow> deferred_release" where
  "release_of k a = \<lparr>def_canonical = k, def_identity = released_identity_of a, def_gate = operation_gate a\<rparr>"

lemma release_of_simps [simp]:
  "def_canonical (release_of k a) = k" "def_identity (release_of k a) = released_identity_of a"
  "def_gate (release_of k a) = operation_gate a"
  "rel_generation (released_identity_of a) = generation a"
  "rel_user_no (released_identity_of a) = known_user_no (known a)"
  by (simp_all add: release_of_def released_identity_of_def)

lemma reg_inv_remove:
  assumes inv: "reg_inv h K r" and a: "map_of (active_by_name r) k = Some a"
    and wf: "wf_table st"
    and sub: "\<And>s b. map_of st s = Some b \<Longrightarrow> map_of (session_bindings r) s = Some b"
    and kept: "\<And>k2 a2 s. map_of (active_by_name r) k2 = Some a2 \<Longrightarrow> k2 \<noteq> k \<Longrightarrow> owner a2 = Some s \<Longrightarrow>
      map_of st s = map_of (session_bindings r) s"
    and ds: "ds = deferred_releases r \<or>
      ds = deferred_releases r @ [release_of k a] \<and> gate_state x \<noteq> RETIRED"
  shows "reg_inv h (K - {k}) ((set_gate (operation_gate a) x r)
    \<lparr>active_by_name := tdel k (active_by_name r), session_bindings := st, deferred_releases := ds\<rparr>)"
    (is "reg_inv h _ ?r")
proof (rule reg_invI)
  note D = reg_invD[OF inv]
  note E = D(5)[OF a, unfolded entry_ok_def]
  {
    fix k2 a2 assume "map_of (active_by_name ?r) k2 = Some a2"
    then have *: "map_of (active_by_name r) k2 = Some a2" "k2 \<noteq> k" by (auto split: if_splits)
    have "entry_ok (K - {k}) (map_of (known_by_name r)) (map_of st) (next_generation r)
        (next_transfer_id r) ((states r)(operation_gate a := gate_state x)) (next_gate r) k2 a2"
      by (rule entry_ok_mono[OF D(5)[OF *(1)]])
         (use * separateD[OF D(6) a *] kept[OF *] in auto)
    then show "entry_ok (K - {k}) (map_of (known_by_name ?r)) (map_of (session_bindings ?r))
        (next_generation ?r) (next_transfer_id ?r) (states ?r) (next_gate ?r) k2 a2" by simp
  next
    fix s b assume "map_of (session_bindings ?r) s = Some b"
    then have "session_ok (map_of (active_by_name r)) (next_generation r) s b"
      using D(7) sub by simp
    then show "session_ok (map_of (active_by_name ?r)) (next_generation ?r) s b"
      by (simp add: session_ok_def)
  next
    fix d assume d: "d \<in> set (deferred_releases ?r)"
    show "release_ok (map_of (known_by_name ?r)) (map_of (active_by_name ?r)) (next_generation ?r)
        (states ?r) (next_gate ?r) d"
    proof (cases "d \<in> set (deferred_releases r)")
      case True
      note d' = D(8)[OF True]
      then have "def_gate d \<noteq> operation_gate a" using a unfolding release_ok_def by metis
      then have "release_ok (map_of (known_by_name r)) ((map_of (active_by_name r))(k := None))
          (next_generation r) ((states r)(operation_gate a := gate_state x)) (next_gate r) d"
        by (intro release_ok_mono[OF d']) (auto split: if_splits)
      then show ?thesis by simp
    next
      case False
      with d ds have "d = release_of k a" "gate_state x \<noteq> RETIRED" by auto
      with E separateD[OF D(6) a] show ?thesis
        by (auto simp: release_ok_def split: if_splits)
    qed
  }
  have new: "operation_gate a \<notin> def_gate ` set (deferred_releases r)"
    "k \<notin> def_canonical ` set (deferred_releases r)"
    "generation a \<notin> (rel_generation \<circ> def_identity) ` set (deferred_releases r)"
    using D(8) a unfolding release_ok_def by (force simp: image_iff)+
  show "separate_releases (deferred_releases ?r)"
    using D(9) ds new unfolding separate_releases_def by (elim disjE) simp_all
qed (use reg_invD[OF inv] wf separate_del in \<open>simp_all add: tables_wf_def\<close>)

text \<open>An entry with a fresh generation and a fresh gate is installed for a session that had none.\<close>

lemma reg_inv_install:
  assumes inv: "reg_inv h K r"
    and new: "map_of (session_bindings r) s = None" "map_of (active_by_name r) k = None"
    and kn: "map_of (known_by_name r) k = Some (known a)"
    and plain: "owner a = Some s" "permit a = None" "transfer_in_progress a = None"
      "operation_gate a = next_gate r" "gate_state x = OPEN"
    and gen: "0 < generation a" "generation a < next_generation r"
    and fresh: "\<And>k2 a2. map_of (active_by_name r) k2 = Some a2 \<Longrightarrow> generation a2 \<noteq> generation a"
      "\<And>s2 b2. map_of (session_bindings r) s2 = Some b2 \<Longrightarrow> bind_generation b2 \<noteq> generation a"
      "\<And>d. d \<in> set (deferred_releases r) \<Longrightarrow>
        rel_generation (def_identity d) \<noteq> generation a \<and> def_canonical d \<noteq> k"
    and at: "wf_table at" "map_of at = (map_of (active_by_name r))(k \<mapsto> a)"
  shows "reg_inv h K ((set_gate (next_gate r) x r)\<lparr>next_gate := next_gate r + 1, active_by_name := at,
    session_bindings := tput s (identity_binding_of a s) (session_bindings r)\<rparr>)" (is "reg_inv h K ?r")
proof (rule reg_invI)
  note D = reg_invD[OF inv]
  have gate: "operation_gate a2 \<noteq> next_gate r" if "map_of (active_by_name r) k2 = Some a2" for k2 a2
    using D(5)[OF that] unfolding entry_ok_def by simp
  {
    fix k2 a2 assume k2: "map_of (active_by_name ?r) k2 = Some a2"
    show "entry_ok K (map_of (known_by_name ?r)) (map_of (session_bindings ?r)) (next_generation ?r)
        (next_transfer_id ?r) (states ?r) (next_gate ?r) k2 a2"
    proof (cases "k2 = k")
      case True
      with k2 at plain kn gen show ?thesis
        by (simp add: entry_ok_def permit_ok_def frozen_state_def)
    next
      case False
      with k2 at have *: "map_of (active_by_name r) k2 = Some a2" by simp
      have "owner a2 \<noteq> Some s"
        using D(5)[OF *] new(1) unfolding entry_ok_def by auto
      then have "entry_ok K (map_of (known_by_name r))
          ((map_of (session_bindings r))(s \<mapsto> identity_binding_of a s)) (next_generation r)
          (next_transfer_id r) ((states r)(next_gate r := gate_state x)) (next_gate r + 1) k2 a2"
        by (intro entry_ok_mono[OF D(5)[OF *]]) (use gate[OF *] in auto)
      then show ?thesis by simp
    qed
  next
    show "separate (map_of (active_by_name ?r))"
      using separate_put[OF D(6), of k a] fresh(1) gate plain(4) at(2) by simp
  next
    fix s2 b2 assume b: "map_of (session_bindings ?r) s2 = Some b2"
    show "session_ok (map_of (active_by_name ?r)) (next_generation ?r) s2 b2"
    proof (cases "s2 = s")
      case True
      with b fresh(1) plain gen at show ?thesis
        by (auto simp: session_ok_def identity_binding_of_def split: if_splits)
    next
      case False
      with b have b': "map_of (session_bindings r) s2 = Some b2" by simp
      show ?thesis
        using D(7)[OF b'] fresh(2)[OF b'] at by (auto simp: session_ok_def split: if_splits)
    qed
  next
    fix d assume d: "d \<in> set (deferred_releases ?r)"
    then have d': "release_ok (map_of (known_by_name r)) (map_of (active_by_name r))
        (next_generation r) (states r) (next_gate r) d" using D(8) by simp
    then show "release_ok (map_of (known_by_name ?r)) (map_of (active_by_name ?r)) (next_generation ?r)
        (states ?r) (next_gate ?r) d"
      using d fresh(3)[of d] at plain unfolding release_ok_def by (auto split: if_splits)
  }
qed (use reg_invD[OF inv] at in \<open>simp_all add: tables_wf_def\<close>)

text \<open>A nickname becomes known under the next user number.\<close>

lemma reg_inv_known:
  assumes inv: "reg_inv h K r" and new: "map_of (known_by_name r) k = None"
    and key: "canonical_nickname_key h nick = k"
    and nxt: "checked_succ (next_user_no r) = Some nu"
  shows "reg_inv h K (r\<lparr>next_user_no := nu,
    known_by_name := tput k \<lparr>known_nickname = nick, known_user_no = next_user_no r\<rparr> (known_by_name r),
    name_by_user_no := tput (next_user_no r) k (name_by_user_no r)\<rparr>)" (is "reg_inv h K ?r")
proof (rule reg_invI)
  note D = reg_invD[OF inv]
  note N = known_invD[OF D(2)]
  have less: "next_user_no r < nu" by (rule checked_succ_less[OF nxt])
  have fresh: "known_user_no i \<noteq> next_user_no r" if "map_of (known_by_name r) k2 = Some i" for k2 i
    using N(4)[OF that] by auto
  show "known_inv h (map_of (known_by_name ?r)) (map_of (name_by_user_no ?r)) (next_user_no ?r)"
    unfolding known_inv_def
  proof (intro conjI allI impI)
    fix n k2 assume *: "map_of (name_by_user_no ?r) n = Some k2"
    show "\<exists>i. map_of (known_by_name ?r) k2 = Some i \<and> known_user_no i = n"
    proof (cases "n = next_user_no r")
      case False
      with * obtain i where "map_of (known_by_name r) k2 = Some i" "known_user_no i = n"
        using N(6)[of n k2] by auto
      with new show ?thesis by (cases "k2 = k") auto
    qed (use * in auto)
  next
    show "0 < next_user_no ?r" using less N(1) by simp
  qed (use N less_trans[OF N(4) less] key less fresh in \<open>auto split: if_splits\<close>)
  {
    fix k2 a assume "map_of (active_by_name ?r) k2 = Some a"
    then have *: "map_of (active_by_name r) k2 = Some a" by simp
    with D(5)[OF *] new have "k2 \<noteq> k" unfolding entry_ok_def by auto
    then have "entry_ok K ((map_of (known_by_name r))(k \<mapsto> \<lparr>known_nickname = nick, known_user_no = next_user_no r\<rparr>))
        (map_of (session_bindings r)) (next_generation r) (next_transfer_id r) (states r) (next_gate r) k2 a"
      by (intro entry_ok_mono[OF D(5)[OF *]]) auto
    then show "entry_ok K (map_of (known_by_name ?r)) (map_of (session_bindings ?r)) (next_generation ?r)
        (next_transfer_id ?r) (states ?r) (next_gate ?r) k2 a" by simp
  next
    fix d assume "d \<in> set (deferred_releases ?r)"
    then have d: "release_ok (map_of (known_by_name r)) (map_of (active_by_name r))
        (next_generation r) (states r) (next_gate r) d" using D(8) by simp
    then have "def_canonical d \<noteq> k" using new unfolding release_ok_def by auto
    then have "release_ok ((map_of (known_by_name r))(k \<mapsto> \<lparr>known_nickname = nick, known_user_no = next_user_no r\<rparr>))
        (map_of (active_by_name r)) (next_generation r) (states r) (next_gate r) d"
      by (intro release_ok_mono[OF d]) auto
    then show "release_ok (map_of (known_by_name ?r)) (map_of (active_by_name ?r)) (next_generation ?r)
        (states ?r) (next_gate ?r) d" by simp
  }
qed (use reg_invD[OF inv] in \<open>simp_all add: tables_wf_def\<close>)

end
