(* ===== verification/IdentityOps.thy ===== *)
theory IdentityOps
  imports IdentityInv
begin

text \<open>Every operation of the identity registry preserves the invariant of \<open>IdentityInv\<close>.\<close>

definition wi :: "host \<Rightarrow> ustring set \<Rightarrow> identity_registry \<Rightarrow> operation_lease list \<Rightarrow> bool" where
  "wi h K r ls \<longleftrightarrow> reg_inv h K r \<and> lease_inv r ls"

lemma world_inv_wi: "world_inv h w \<longleftrightarrow> wi h {} (reg w) (leases w)"
  by (simp add: world_inv_def wi_def)

section \<open>Leases\<close>

lemma lease_inv_keep:
  assumes "lease_inv r ls" "registry_instance r' = registry_instance r" "next_gate r \<le> next_gate r'"
    and "\<And>g. g < next_gate r \<Longrightarrow> outstanding (gates r' g) = outstanding (gates r g)"
    and "\<And>g. next_gate r \<le> g \<Longrightarrow> g < next_gate r' \<Longrightarrow> outstanding (gates r' g) = 0"
    and "\<And>l. l \<in> set ls \<Longrightarrow> retains (map_of (active_by_name r)) (deferred_releases r) l \<Longrightarrow>
      retains (map_of (active_by_name r')) (deferred_releases r') l"
  shows "lease_inv r' ls"
proof -
  have "held ls g = 0" if "next_gate r \<le> g" for g
    using assms(1) that unfolding lease_inv_def held_def by (auto simp: filter_empty_conv)
  then have "outstanding (gates r' g) = held ls g" if "g < next_gate r'" for g
    using assms(1,4,5) that unfolding lease_inv_def by (cases "g < next_gate r") auto
  with assms show ?thesis unfolding lease_inv_def by (auto intro: less_le_trans)
qed

lemma lease_inv_held: "lease_inv r ls \<Longrightarrow> g < next_gate r \<Longrightarrow> held ls g = outstanding (gates r g)"
  by (simp add: lease_inv_def)

lemma drained_no_lease:
  "lease_inv r ls \<Longrightarrow> g < next_gate r \<Longrightarrow> is_drained (gates r g) \<Longrightarrow> l \<in> set ls \<Longrightarrow> lease_gate l \<noteq> g"
  using lease_inv_held[of r ls g] by (auto simp: held_def filter_empty_conv simp flip: outstanding_0)

lemma lease_inv_add:
  assumes "lease_inv r ls" "outstanding x = Suc (outstanding (gates r g))" "lease_gate l = g"
    "g < next_gate r" "lease_instance l = registry_instance r"
    "retains (map_of (active_by_name r)) (deferred_releases r) l"
  shows "lease_inv (set_gate g x r) (l # ls)"
  using assms by (auto simp: lease_inv_def held_def)

lemma held_remove1: "l \<in> set ls \<Longrightarrow> held (remove1 l ls) g = (if g = lease_gate l then held ls g - 1 else held ls g)"
  unfolding held_def by (auto simp: filter_remove1 length_remove1)

lemma lease_inv_drop:
  assumes "lease_inv r ls" "l \<in> set ls"
  shows "lease_inv (drop_lease l r) (remove1 l ls)"
proof -
  have sub: "set (remove1 l ls) \<subseteq> set ls" by (rule set_remove1_subset)
  have len: "outstanding (gates r g) = held ls g" if "g < next_gate r" for g
    using assms(1) that unfolding lease_inv_def by blast
  have "outstanding (gates (drop_lease l r) g) = held (remove1 l ls) g" if "g < next_gate r" for g
    using len[OF that] unfolding held_remove1[OF assms(2)]
    by (cases "g = lease_gate l") (simp_all add: drop_lease_def outstanding_release)
  moreover have "lease_instance l2 = registry_instance r \<and> lease_gate l2 < next_gate r \<and>
      retains (map_of (active_by_name r)) (deferred_releases r) l2" if "l2 \<in> set (remove1 l ls)" for l2
    using assms(1) subsetD[OF sub that] unfolding lease_inv_def by blast
  ultimately show ?thesis
    unfolding lease_inv_def by (simp add: drop_lease_def del: in_set_remove1)
qed

lemma retains_activeI:
  "act k = Some a \<Longrightarrow> operation_gate a = lease_gate l \<Longrightarrow> generation a = bind_generation (lease_binding l) \<Longrightarrow>
   known_user_no (known a) = bind_user_no (lease_binding l) \<Longrightarrow> retains act ds l"
  unfolding retains_def by blast

lemma retains_releaseI:
  "d \<in> set ds \<Longrightarrow> def_gate d = lease_gate l \<Longrightarrow>
   rel_generation (def_identity d) = bind_generation (lease_binding l) \<Longrightarrow>
   rel_user_no (def_identity d) = bind_user_no (lease_binding l) \<Longrightarrow> retains act ds l"
  unfolding retains_def by blast

lemma retainsE:
  assumes "retains act ds l"
  obtains (active) k a where "act k = Some a" "operation_gate a = lease_gate l"
      "generation a = bind_generation (lease_binding l)"
      "known_user_no (known a) = bind_user_no (lease_binding l)"
  | (released) d where "d \<in> set ds" "def_gate d = lease_gate l"
      "rel_generation (def_identity d) = bind_generation (lease_binding l)"
      "rel_user_no (def_identity d) = bind_user_no (lease_binding l)"
  using assms unfolding retains_def by blast

lemma retains_entry:
  assumes "act k = Some a" "generation a' = generation a" "operation_gate a' = operation_gate a"
    "known a' = known a" "retains act ds l"
  shows "retains (act(k \<mapsto> a')) ds l"
  using assms(5)
proof (cases rule: retainsE)
  case (active k2 a2)
  show ?thesis
  proof (cases "k2 = k")
    case True
    with active assms show ?thesis by (intro retains_activeI[where k = k and a = a']) simp_all
  next
    case False
    with active show ?thesis by (intro retains_activeI[where k = k2 and a = a2]) simp_all
  qed
qed (rule retains_releaseI)

lemma retains_moved:
  assumes "act k = Some a" "retains act ds l"
  shows "retains (act(k := None)) (ds @ [release_of k a]) l"
  using assms(2)
proof (cases rule: retainsE)
  case (active k2 a2)
  show ?thesis
  proof (cases "k2 = k")
    case True
    with active assms show ?thesis by (intro retains_releaseI[where d = "release_of k a"]) simp_all
  next
    case False
    with active show ?thesis by (intro retains_activeI[where k = k2 and a = a2]) simp_all
  qed
next
  case (released d)
  then show ?thesis by (intro retains_releaseI[where d = d]) simp_all
qed

lemma retains_dropped:
  assumes "act k = Some a" "retains act ds l" "lease_gate l \<noteq> operation_gate a"
  shows "retains (act(k := None)) ds l"
  using assms(2)
proof (cases rule: retainsE)
  case (active k2 a2)
  with assms have "k2 \<noteq> k" by auto
  with active show ?thesis by (intro retains_activeI[where k = k2 and a = a2]) simp_all
qed (rule retains_releaseI)

section \<open>Known identities\<close>

lemma allocate_user_no_cases:
  assumes "allocate_user_no r = (res, r')" "0 < next_user_no r"
  obtains (full) "res = Inl UserNoExhausted" "r' = r"
  | (ok) nu where "res = Inr (next_user_no r)" "checked_succ (next_user_no r) = Some nu"
      "r' = r\<lparr>next_user_no := nu\<rparr>"
  using assms by (auto simp: allocate_user_no_def split: option.splits if_splits)

lemma ensure_known_cases:
  assumes "ensure_known_user_no h req r = (res, r')" "reg_inv h K r"
  obtains (error) e where "res = Inl e" "r' = r"
  | (old) nick i where "normalize_nickname h req = Inr nick" "res = Inr (known_user_no i)" "r' = r"
      "map_of (known_by_name r) (canonical_nickname_key h nick) = Some i"
  | (new) nick nu where "normalize_nickname h req = Inr nick" "res = Inr (next_user_no r)"
      "map_of (known_by_name r) (canonical_nickname_key h nick) = None"
      "checked_succ (next_user_no r) = Some nu"
      "r' = r\<lparr>next_user_no := nu,
         known_by_name := tput (canonical_nickname_key h nick)
           \<lparr>known_nickname = nick, known_user_no = next_user_no r\<rparr> (known_by_name r),
         name_by_user_no := tput (next_user_no r) (canonical_nickname_key h nick) (name_by_user_no r)\<rparr>"
proof (cases "normalize_nickname h req")
  case (Inl e)
  with assms show thesis
    by (intro error[of "InvalidNickname e"]) (simp_all add: ensure_known_user_no_def)
next
  case (Inr nick)
  have pos: "0 < next_user_no r" using assms(2) by (simp add: reg_inv_def known_inv_def)
  show thesis
  proof (cases "map_of (known_by_name r) (canonical_nickname_key h nick)")
    case None
    obtain x r1 where al: "allocate_user_no r = (x, r1)" by (cases "allocate_user_no r")
    from al pos show thesis
    proof (cases rule: allocate_user_no_cases)
      case full
      with assms Inr None al show thesis
        by (intro error[of UserNoExhausted]) (simp_all add: ensure_known_user_no_def Let_def)
    next
      case (ok nu)
      with assms Inr None al show thesis by (intro new[of nick nu]) (simp_all add: ensure_known_user_no_def Let_def)
    qed
  next
    case (Some i)
    with assms Inr show thesis
      by (intro old[of nick i]) (simp_all add: ensure_known_user_no_def Let_def)
  qed
qed

lemma lease_inv_known:
  "lease_inv r ls \<Longrightarrow> lease_inv (r\<lparr>next_user_no := nu, known_by_name := kn, name_by_user_no := nm\<rparr>) ls"
  by (simp add: lease_inv_def)

lemma ensure_known_wi:
  assumes "wi h K r ls" "ensure_known_user_no h req r = (res, r')"
  shows "wi h K r' ls"
proof -
  have inv: "reg_inv h K r" using assms(1) by (simp add: wi_def)
  from assms(2) inv show ?thesis
  proof (cases rule: ensure_known_cases)
    case (new nick nu)
    with assms(1) show ?thesis
      by (simp add: wi_def reg_inv_known lease_inv_known)
  qed (use assms in simp_all)
qed

lemma ensure_known_frame:
  assumes "ensure_known_user_no h req r = (res, r')" "reg_inv h K r"
  shows "active_by_name r' = active_by_name r \<and> session_bindings r' = session_bindings r \<and>
    deferred_releases r' = deferred_releases r \<and> next_generation r' = next_generation r \<and>
    gates r' = gates r \<and> next_gate r' = next_gate r \<and> registry_instance r' = registry_instance r \<and>
    map_of (known_by_name r) \<subseteq>\<^sub>m map_of (known_by_name r')"
  using assms
proof (cases rule: ensure_known_cases)
  case (new nick nu)
  then show ?thesis by (simp add: map_le_def dom_def)
qed simp_all

lemma ensure_known_installs:
  assumes "ensure_known_user_no h req r = (Inr n, r')" "reg_inv h K r" "normalize_nickname h req = Inr nick"
  shows "\<exists>i. map_of (known_by_name r') (canonical_nickname_key h nick) = Some i \<and> known_user_no i = n"
  using assms(1,2) by (cases rule: ensure_known_cases) (use assms(3) in auto)

lemma offline_wi:
  assumes "wi h K r ls" "offline_myroom_binding h req r = (res, r')"
  shows "wi h K r' ls"
  using assms ensure_known_wi[of h K r ls]
  by (auto simp: offline_myroom_binding_def Let_def split: sum.splits prod.splits option.splits)

section \<open>Claiming\<close>

lemma allocate_generation_cases:
  assumes "allocate_generation r = (res, r')" "0 < next_generation r"
  obtains (full) "res = Inl GenerationExhausted" "r' = r"
  | (ok) ng where "res = Inr (next_generation r)" "next_generation r < ng"
      "r' = r\<lparr>next_generation := ng\<rparr>"
proof (cases "checked_succ (next_generation r)")
  case None
  with assms full show thesis by (simp add: allocate_generation_def)
next
  case (Some ng)
  with assms ok[of ng] checked_succ_less[OF Some] show thesis
    by (simp add: allocate_generation_def word_gt_0)
qed

lemma reg_inv_generation:
  assumes "reg_inv h K r" "next_generation r < ng"
  shows "reg_inv h K (r\<lparr>next_generation := ng\<rparr>)"
  using reg_inv_counters[OF assms(1), of ng "next_transfer_id r"] assms(2) by simp

lemma generation_fresh:
  assumes "reg_inv h K r"
  shows "map_of (active_by_name r) k = Some a \<Longrightarrow> generation a \<noteq> next_generation r"
    "map_of (session_bindings r) s = Some b \<Longrightarrow> bind_generation b \<noteq> next_generation r"
    "d \<in> set (deferred_releases r) \<Longrightarrow> rel_generation (def_identity d) \<noteq> next_generation r"
proof -
  assume "map_of (active_by_name r) k = Some a"
  from reg_invD(5)[OF assms this] show "generation a \<noteq> next_generation r" by (auto simp: entry_ok_def)
next
  assume "map_of (session_bindings r) s = Some b"
  from reg_invD(7)[OF assms this] show "bind_generation b \<noteq> next_generation r"
    by (auto simp: session_ok_def)
next
  assume "d \<in> set (deferred_releases r)"
  from reg_invD(8)[OF assms this] show "rel_generation (def_identity d) \<noteq> next_generation r"
    by (auto simp: release_ok_def)
qed

lemma lease_inv_generation: "lease_inv r ls \<Longrightarrow> lease_inv (r\<lparr>next_generation := ng\<rparr>) ls"
  by (simp add: lease_inv_def)

lemma lease_inv_install:
  assumes "lease_inv r ls" "is_drained x" "map_of (active_by_name r) k = None"
    "map_of at = (map_of (active_by_name r))(k \<mapsto> a)"
  shows "lease_inv ((set_gate (next_gate r) x r)\<lparr>next_gate := next_gate r + 1, active_by_name := at,
    session_bindings := st\<rparr>) ls"
proof (rule lease_inv_keep[OF assms(1)])
  fix l assume "retains (map_of (active_by_name r)) (deferred_releases r) l"
  then have "retains ((map_of (active_by_name r))(k \<mapsto> a)) (deferred_releases r) l"
  proof (cases rule: retainsE)
    case (active k2 a2)
    with assms(3) show ?thesis by (intro retains_activeI[where k = k2 and a = a2]) auto
  qed (rule retains_releaseI)
  with assms(4) show "retains (map_of (active_by_name ((set_gate (next_gate r) x r)
      \<lparr>next_gate := next_gate r + 1, active_by_name := at, session_bindings := st\<rparr>)))
      (deferred_releases ((set_gate (next_gate r) x r)
      \<lparr>next_gate := next_gate r + 1, active_by_name := at, session_bindings := st\<rparr>)) l"
    by simp
qed (use assms(2) in \<open>auto simp: less_Suc_eq simp flip: outstanding_0\<close>)

lemma claim_at_cases:
  assumes "claim_at h s ip req e r = (res, r')" "reg_inv h K r"
  obtains (refused) err where "res = Some (Inl err)" "r' = r"
  | (unknown) nick r1 res1 where "ensure_known_user_no h nick r = (res1, r1)" "r' = r1"
      "normalize_nickname h req = Inr nick" "(\<exists>err. res = Some (Inl err)) \<or>
       (\<exists>n. res1 = Inr n \<and> map_of (known_by_name r1) (canonical_nickname_key h nick) = None)"
  | (claimed) nick key n r1 i ng a where
      "normalize_nickname h req = Inr nick" "key = canonical_nickname_key h nick"
      "map_of (session_bindings r) s = None" "map_of (active_by_name r) key = None"
      "key \<notin> def_canonical ` set (deferred_releases r)"
      "ensure_known_user_no h nick r = (Inr n, r1)"
      "map_of (known_by_name r1) key = Some i"
      "next_generation r1 < ng"
      "a = \<lparr>known = i, generation = next_generation r1, owner = Some s, owner_ip = ip,
        channel = None, permit = None, transfer_in_progress = None, operation_gate = next_gate r1\<rparr>"
      "res = Some (Inr (identity_binding_of a s))"
      "r' = (set_gate (next_gate r1) (gate_shared e) (r1\<lparr>next_generation := ng\<rparr>))
        \<lparr>next_gate := next_gate r1 + 1, active_by_name := tput key a (active_by_name r1),
         session_bindings := tput s (identity_binding_of a s) (session_bindings r1)\<rparr>"
proof (cases "trim req = [] \<or> (\<exists>e. normalize_nickname h req = Inl e)")
  case True
  with assms(1) refused show thesis by (auto simp: claim_at_def split: if_splits)
next
  case False
  then obtain nick where nick: "normalize_nickname h req = Inr nick" "trim req \<noteq> []"
    by (metis old.sum.exhaust)
  let ?key = "canonical_nickname_key h nick"
  show thesis
  proof (cases "map_of (session_bindings r) s = None \<and> map_of (active_by_name r) ?key = None \<and>
      find (\<lambda>d. def_canonical d = ?key) (deferred_releases r) = None")
    case False
    with assms(1) nick refused show thesis
      by (auto simp: claim_at_def Let_def split: option.splits)
  next
    case free: True
    obtain res1 r1 where en: "ensure_known_user_no h nick r = (res1, r1)"
      by (cases "ensure_known_user_no h nick r")
    have claim: "claim_at h s ip req e r = (case res1 of Inl e \<Rightarrow> (Some (Inl e), r1)
      | Inr user_no \<Rightarrow> (case map_of (known_by_name r1) ?key of None \<Rightarrow> (None, r1)
      | Some k \<Rightarrow> (case allocate_generation r1 of (Inl e, r) \<Rightarrow> (Some (Inl e), r)
      | (Inr gen, r) \<Rightarrow>
          let binding = \<lparr>bind_nickname = known_nickname k, bind_user_no = known_user_no k,
                bind_generation = gen, bind_owner = s, bind_source_ip = ip, bind_channel = None\<rparr>
          in (Some (Inr binding),
              (set_gate (next_gate r) (gate_shared e) r)
                \<lparr>next_gate := next_gate r + 1,
                 active_by_name := tput ?key
                   \<lparr>known = k, generation = gen, owner = Some s, owner_ip = ip,
                    channel = None, permit = None, transfer_in_progress = None,
                    operation_gate = next_gate r\<rparr> (active_by_name r),
                 session_bindings := tput s binding (session_bindings r)\<rparr>))))"
      using nick free en by (simp add: claim_at_def Let_def)
    show thesis
    proof (cases res1)
      case (Inl err)
      with claim assms(1) show thesis by (intro unknown[OF en _ nick(1)]) auto
    next
      case (Inr n)
      show thesis
      proof (cases "map_of (known_by_name r1) ?key")
        case None
        with Inr claim assms(1) show thesis by (intro unknown[OF en _ nick(1)]) auto
      next
        case (Some i)
        have pos: "0 < next_generation r1"
          using ensure_known_frame[OF en assms(2)] reg_invD(3)[OF assms(2)] by simp
        obtain g r2 where al: "allocate_generation r1 = (g, r2)" by (cases "allocate_generation r1")
        from al pos show thesis
        proof (cases rule: allocate_generation_cases)
          case full
          with claim assms(1) Inr Some al show thesis by (intro unknown[OF en _ nick(1)]) auto
        next
          case (ok ng)
          with claim assms(1) Inr Some al nick free en show thesis
            by (intro claimed[where nick = nick and key = ?key and n = n and ?r1.0 = r1 and i = i and ng = ng])
               (auto simp: identity_binding_of_def Let_def find_None_iff)
        qed
      qed
    qed
  qed
qed

lemma claim_at_wi:
  assumes "wi h K r ls" "claim_at h s ip req e r = (res, r')"
  shows "wi h K r' ls"
proof -
  have inv: "reg_inv h K r" using assms(1) by (simp add: wi_def)
  from assms(2) inv show ?thesis
  proof (cases rule: claim_at_cases)
    case (unknown nick r1 res1)
    then show ?thesis using ensure_known_wi[OF assms(1)] by blast
  next
    case (claimed nick key n r1 i ng a)
    note fr = ensure_known_frame[OF claimed(6) inv]
    let ?r2 = "r1\<lparr>next_generation := ng\<rparr>"
    have "wi h K r1 ls" by (rule ensure_known_wi[OF assms(1) claimed(6)])
    then have inv1: "reg_inv h K r1" and li: "lease_inv r1 ls" by (simp_all add: wi_def)
    note fresh = generation_fresh[OF inv1]
    have pos: "0 < next_generation r1" by (rule reg_invD(3)[OF inv1])
    have inv2: "reg_inv h K ?r2" by (rule reg_inv_generation[OF inv1 claimed(8)])
    have wf: "wf_table (active_by_name r1)"
      using reg_invD(1)[OF inv1] by (simp add: tables_wf_def)
    have gen: "generation a = next_generation r1" by (simp add: claimed(9))
    have "reg_inv h K ((set_gate (next_gate ?r2) (gate_shared e) ?r2)
        \<lparr>next_gate := next_gate ?r2 + 1, active_by_name := tput key a (active_by_name r1),
         session_bindings := tput s (identity_binding_of a s) (session_bindings ?r2)\<rparr>)"
    proof (rule reg_inv_install[OF inv2])
      fix d assume "d \<in> set (deferred_releases ?r2)"
      with fresh(3)[of d] claimed(5) fr gen
      show "rel_generation (def_identity d) \<noteq> generation a \<and> def_canonical d \<noteq> key" by auto
    qed (use claimed fr fresh pos wf gen in simp_all)
    moreover have "lease_inv ((set_gate (next_gate ?r2) (gate_shared e) ?r2)
        \<lparr>next_gate := next_gate ?r2 + 1, active_by_name := tput key a (active_by_name r1),
         session_bindings := tput s (identity_binding_of a s) (session_bindings ?r2)\<rparr>) ls"
      by (rule lease_inv_install[OF lease_inv_generation[OF li], where k = key and a = a])
         (use claimed fr in \<open>simp_all add: is_drained_def gate_shared_def\<close>)
    ultimately show ?thesis by (simp add: wi_def claimed(11))
  qed (use assms in simp_all)
qed

section \<open>Authorisation and admission\<close>

lemma authorize_Inr:
  assumes "authorize h s r = Inr b" "reg_inv h K r"
  obtains k a where "map_of (session_bindings r) s = Some b" "k = canonical_nickname_key h (bind_nickname b)"
    "map_of (active_by_name r) k = Some a" "owner a = Some s" "generation a = bind_generation b"
    "transfer_in_progress a = None" "b = identity_binding_of a s"
proof -
  from assms(1) obtain a where *: "map_of (session_bindings r) s = Some b"
    "map_of (active_by_name r) (canonical_nickname_key h (bind_nickname b)) = Some a"
    "owner a = Some s" "generation a = bind_generation b" "transfer_in_progress a = None"
    by (auto simp: authorize_def split: option.splits if_splits)
  from reg_invD(5)[OF assms(2) *(2)] *(1,3) have "b = identity_binding_of a s"
    by (auto simp: entry_ok_def)
  with * that show thesis by blast
qed

lemma owner_session:
  assumes "reg_inv h K r" "map_of (active_by_name r) k = Some a" "owner a = Some s"
  shows "map_of (session_bindings r) s = Some (identity_binding_of a s)"
    "canonical_nickname_key h (known_nickname (known a)) = k"
proof -
  note E = reg_invD(5)[OF assms(1,2)]
  with assms(3) show "map_of (session_bindings r) s = Some (identity_binding_of a s)"
    by (auto simp: entry_ok_def)
  from E show "canonical_nickname_key h (known_nickname (known a)) = k"
    using known_invD(2)[OF reg_invD(2)[OF assms(1)]] by (auto simp: entry_ok_def)
qed

text \<open>What a successful admission of a lease leaves behind.\<close>

lemma try_admit_wi:
  assumes "wi h K r ls" "try_admit g b r = (res, r')" "map_of (active_by_name r) k = Some a"
    "operation_gate a = g" "bind_generation b = generation a" "bind_user_no b = known_user_no (known a)"
  shows "case res of Inl e \<Rightarrow> wi h K r' ls | Inr l \<Rightarrow> wi h K r' (l # ls)"
proof -
  have inv: "reg_inv h K r" and li: "lease_inv r ls" using assms(1) by (simp_all add: wi_def)
  have g: "g < next_gate r" using reg_invD(5)[OF inv assms(3)] assms(4) by (auto simp: entry_ok_def)
  obtain y x where y: "gate_try_admit id id (gates r g) = (y, x)"
    by (cases "gate_try_admit id id (gates r g)")
  show ?thesis
  proof (cases y)
    case (Inl e)
    with y have "x = gates r g" using gate_try_admit_Inl by blast
    with assms(1,2) y Inl show ?thesis by (auto simp: try_admit_def)
  next
    case (Inr u)
    let ?l = "\<lparr>lease_instance = registry_instance r, lease_gate = g, lease_binding = b\<rparr>"
    from Inr y have x: "gate_state x = gate_state (gates r g)" "outstanding x = Suc (outstanding (gates r g))"
      using gate_try_admit_Inr by metis+
    have "reg_inv h K (set_gate g x r)" by (rule reg_inv_count[OF inv x(1)])
    moreover have "lease_inv (set_gate g x r) (?l # ls)"
      by (rule lease_inv_add[OF li x(2) _ g])
         (use assms in \<open>auto intro: retains_activeI[where act = "map_of (active_by_name r)", OF assms(3)]\<close>)
    ultimately show ?thesis using assms(2) y Inr by (auto simp: try_admit_def wi_def)
  qed
qed

lemma admit_operation_wi:
  assumes "wi h K r ls" "admit_operation h s r = (res, r')"
  shows "case res of Inl e \<Rightarrow> wi h K r' ls | Inr l \<Rightarrow> wi h K r' (l # ls)"
proof -
  have inv: "reg_inv h K r" using assms(1) by (simp add: wi_def)
  show ?thesis
  proof (cases "authorize h s r")
    case (Inl e)
    with assms show ?thesis by (auto simp: admit_operation_def)
  next
    case (Inr b)
    from Inr inv obtain k a where k: "k = canonical_nickname_key h (bind_nickname b)"
      "map_of (active_by_name r) k = Some a"
      "generation a = bind_generation b" "b = identity_binding_of a s"
      by (rule authorize_Inr)
    have a: "map_of (active_by_name r) (canonical_nickname_key h (bind_nickname b)) = Some a"
      using k(1,2) by blast
    have b: "bind_user_no b = known_user_no (known a)"
      by (subst k(4)) (simp add: identity_binding_of_def)
    from assms(2) Inr a have "try_admit (operation_gate a) b r = (res, r')"
      by (simp add: admit_operation_def)
    then show ?thesis by (rule try_admit_wi[OF assms(1) _ a refl k(3)[symmetric] b])
  qed
qed

lemma admit_udp_cases:
  assumes "admit_udp_operation n epoch r = (res, r')"
  obtains (refused) e where "res = Inl e" "r' = r"
  | (admitted) k a s where "map_of (name_by_user_no r) n = Some k" "map_of (active_by_name r) k = Some a"
      "owner a = Some s" "transfer_in_progress a = None"
      "activated_udp_epoch (gates r (operation_gate a)) < epoch"
      "try_admit (operation_gate a) (identity_binding_of a s) r = (res, r')"
  using assms
  by (auto simp: admit_udp_operation_def active_identity_binding_def not_le
      split: option.splits if_splits)

lemma admit_udp_wi:
  assumes "wi h K r ls" "admit_udp_operation n epoch r = (res, r')"
  shows "case res of Inl e \<Rightarrow> wi h K r' ls | Inr l \<Rightarrow> wi h K r' (l # ls)"
  using assms(2)
proof (cases rule: admit_udp_cases)
  case (admitted k a s)
  from try_admit_wi[OF assms(1) admitted(6,2)] show ?thesis by (simp add: identity_binding_of_def)
qed (use assms in simp)

lemma try_retain_wi:
  assumes "wi h K r ls" "try_retain l r = (res, r')" "l \<in> set ls"
  shows "case res of Inl e \<Rightarrow> wi h K r' ls | Inr l' \<Rightarrow> wi h K r' (l' # ls)"
proof -
  have inv: "reg_inv h K r" and li: "lease_inv r ls" using assms(1) by (simp_all add: wi_def)
  have l: "lease_gate l < next_gate r" "lease_instance l = registry_instance r"
    "retains (map_of (active_by_name r)) (deferred_releases r) l"
    using li assms(3) unfolding lease_inv_def by auto
  obtain y x where y: "gate_try_retain id id (gates r (lease_gate l)) = (y, x)"
    by (cases "gate_try_retain id id (gates r (lease_gate l))")
  show ?thesis
  proof (cases y)
    case (Inl e)
    with y have "x = gates r (lease_gate l)" using gate_try_retain_Inl by blast
    with assms(1,2) y Inl show ?thesis by (auto simp: try_retain_def)
  next
    case (Inr u)
    from Inr y have x: "gate_state x = gate_state (gates r (lease_gate l))"
      "outstanding x = Suc (outstanding (gates r (lease_gate l)))"
      using gate_try_retain_Inr by metis+
    have "reg_inv h K (set_gate (lease_gate l) x r)" by (rule reg_inv_count[OF inv x(1)])
    moreover have "lease_inv (set_gate (lease_gate l) x r) (l # ls)"
      by (rule lease_inv_add[OF li x(2) refl l])
    ultimately show ?thesis using assms(2) y Inr by (auto simp: try_retain_def wi_def)
  qed
qed

lemma drop_lease_wi:
  "wi h K r ls \<Longrightarrow> l \<in> set ls \<Longrightarrow> wi h K (drop_lease l r) (remove1 l ls)"
  by (simp add: wi_def lease_inv_drop) (simp add: drop_lease_def reg_inv_count)

section \<open>Changing an entry\<close>

lemma lease_inv_entry:
  assumes "lease_inv r ls" "map_of (active_by_name r) k = Some a"
    "known a' = known a" "generation a' = generation a" "operation_gate a' = operation_gate a"
    "outstanding x = outstanding (gates r (operation_gate a))"
  shows "lease_inv ((set_gate (operation_gate a) x r)
    \<lparr>active_by_name := tput k a' (active_by_name r), session_bindings := st\<rparr>) ls"
  by (rule lease_inv_keep[OF assms(1)])
     (use assms retains_entry[where act = "map_of (active_by_name r)", OF assms(2,4,5,3)] in auto)

lemma entry_change_wi:
  assumes "wi h K r ls" "map_of (active_by_name r) k = Some a"
    "known a' = known a" "generation a' = generation a" "operation_gate a' = operation_gate a"
    "owner a' = owner a" "owner_ip a' = owner_ip a" "channel a' = channel a" "permit_ok a'"
    "owner a = None \<Longrightarrow> permit a' \<noteq> None \<or> k \<in> K'"
    "transfer_in_progress a' \<noteq> None \<Longrightarrow> permit a' \<noteq> None"
    "\<And>t. transfer_in_progress a' = Some t \<Longrightarrow> 0 < t \<and> t < next_transfer_id r"
    "gate_state x = frozen_state (transfer_in_progress a')"
    "outstanding x = outstanding (gates r (operation_gate a))" "K \<subseteq> K'"
  shows "wi h K' ((set_gate (operation_gate a) x r)\<lparr>active_by_name := tput k a' (active_by_name r)\<rparr>) ls"
proof -
  have inv: "reg_inv h K r" and li: "lease_inv r ls" using assms(1) by (simp_all add: wi_def)
  note E = reg_invD(5)[OF inv assms(2), unfolded entry_ok_def]
  have b: "identity_binding_of a' s = identity_binding_of a s" for s
    using assms(3,4,7,8) by (simp add: identity_binding_of_def)
  have "entry_ok K' (map_of (known_by_name r)) (map_of (session_bindings r)) (next_generation r)
      (next_transfer_id r) ((states r)(operation_gate a := gate_state x)) (next_gate r) k a'"
    unfolding entry_ok_def using E assms(3-13) b by auto
  from reg_inv_entry[where st = "session_bindings r", OF inv assms(2-5) this assms(15)]
  have "reg_inv h K' ((set_gate (operation_gate a) x r)
      \<lparr>active_by_name := tput k a' (active_by_name r), session_bindings := session_bindings r\<rparr>)"
    using reg_invD(1)[OF inv] assms(6) by (simp add: tables_wf_def)
  moreover from lease_inv_entry[where st = "session_bindings r", OF li assms(2-5,14)]
  have "lease_inv ((set_gate (operation_gate a) x r)
      \<lparr>active_by_name := tput k a' (active_by_name r), session_bindings := session_bindings r\<rparr>) ls" .
  moreover have "(set_gate (operation_gate a) x r)
      \<lparr>active_by_name := tput k a' (active_by_name r), session_bindings := session_bindings r\<rparr> =
    (set_gate (operation_gate a) x r)\<lparr>active_by_name := tput k a' (active_by_name r)\<rparr>"
    by (simp add: set_gate_def)
  ultimately show ?thesis by (simp add: wi_def)
qed

end
