(* ===== verification/IdentityMigration.thy ===== *)
theory IdentityMigration
  imports IdentityOps
begin

text \<open>
  The migration half of the identity registry: permits, tickets, their exact abort, and the
  transfer of ownership to a fresh generation.
\<close>

section \<open>Permits and tickets\<close>

lemma permit_ok_transfer [simp]: "permit_ok (a\<lparr>transfer_in_progress := t\<rparr>) = permit_ok a"
  by (simp add: permit_ok_def split: option.splits)

lemma begin_migration_wi:
  assumes "wi h K r ls" "begin_migration h s chan tok now r = (res, r')"
  shows "wi h K r' ls"
proof -
  have inv: "reg_inv h K r" using assms(1) by (simp add: wi_def)
  show ?thesis
  proof (cases "authorize h s r")
    case (Inl e)
    with assms show ?thesis by (auto simp: begin_migration_def)
  next
    case (Inr b)
    from Inr inv obtain k a where a: "k = canonical_nickname_key h (bind_nickname b)"
      "map_of (active_by_name r) k = Some a" "owner a = Some s" "generation a = bind_generation b"
      "transfer_in_progress a = None" "b = identity_binding_of a s"
      by (rule authorize_Inr) blast
    have b: "bind_user_no b = known_user_no (known a)"
      by (subst a(6)) (simp add: identity_binding_of_def)
    show ?thesis
    proof (cases "instant_checked_add h now MIGRATION_TTL")
      case None
      with assms Inr show ?thesis by (auto simp: begin_migration_def)
    next
      case (Some deadline)
      let ?p = "\<lparr>permit_user_no = bind_user_no b, source_generation = bind_generation b,
        source_session = s, permit_source_ip = bind_source_ip b, permit_channel = chan,
        permit_token = tok, expires_at = deadline\<rparr>"
      have "r' = r\<lparr>active_by_name := tput k (a\<lparr>permit := Some ?p\<rparr>) (active_by_name r)\<rparr>"
        using assms(2) Inr Some a(2) unfolding a(1) by (simp add: begin_migration_def Let_def)
      also have "\<dots> = (set_gate (operation_gate a) (gates r (operation_gate a)) r)
          \<lparr>active_by_name := tput k (a\<lparr>permit := Some ?p\<rparr>) (active_by_name r)\<rparr>" by simp
      also have "wi h K \<dots> ls"
        by (rule entry_change_wi[OF assms(1) a(2)])
           (use a(3,4,5) b reg_invD(5)[OF inv a(2)] in
             \<open>auto simp: permit_ok_def entry_ok_def states_def frozen_state_def\<close>)
      finally show ?thesis .
    qed
  qed
qed

lemma validate_migration_Inr:
  "validate_migration dest ip n ch tok now r = Some (Inr (key, a, p)) \<longleftrightarrow>
     map_of (session_bindings r) dest = None \<and> map_of (name_by_user_no r) n = Some key \<and>
     map_of (active_by_name r) key = Some a \<and> permit a = Some p \<and> now < expires_at p \<and>
     permit_user_no p = n \<and> channel_id (permit_channel p) = ch \<and> permit_token p = tok \<and>
     permit_source_ip p = ip \<and> source_generation p = generation a \<and>
     (owner a = None \<or> owner a = Some (source_session p))"
proof (cases "map_of (session_bindings r) dest = None \<and> map_of (name_by_user_no r) n = Some key \<and>
    map_of (active_by_name r) key = Some a \<and> permit a = Some p")
  case True
  then show ?thesis
    by (cases "owner a") (auto simp: validate_migration_def not_le)
next
  case False
  have "validate_migration dest ip n ch tok now r = Some (Inr (key, a, p)) \<Longrightarrow> False"
    using False unfolding validate_migration_def
    by (simp split: option.splits if_split_asm)
  with False show ?thesis by blast
qed

lemma validate_migration_no_panic:
  assumes "reg_inv h K r"
  shows "validate_migration dest ip n ch tok now r \<noteq> None"
  using known_invD(6)[OF reg_invD(2)[OF assms]]
  by (fastforce simp: validate_migration_def split: option.splits)

lemma allocate_transfer_cases:
  assumes "allocate_transfer_id r = (res, r')" "0 < next_transfer_id r"
  obtains (full) "res = Inl MigrationTransferIdExhausted" "r' = r"
  | (ok) nt where "res = Inr (next_transfer_id r)" "next_transfer_id r < nt"
      "r' = r\<lparr>next_transfer_id := nt\<rparr>"
proof (cases "checked_succ (next_transfer_id r)")
  case None
  with assms full show thesis by (simp add: allocate_transfer_id_def)
next
  case (Some nt)
  with assms ok[of nt] checked_succ_less[OF Some] show thesis
    by (simp add: allocate_transfer_id_def word_gt_0)
qed

text \<open>The ticket of a successful preflight, and the registry it leaves: exactly one gate is frozen.\<close>

definition ticket_of ::
  "u64 \<Rightarrow> u64 \<Rightarrow> ip_addr \<Rightarrow> u32 \<Rightarrow> u16 \<Rightarrow> u16 \<Rightarrow> ustring \<Rightarrow> active_identity \<Rightarrow> migration_permit \<Rightarrow> migration_preflight" where
  "ticket_of t dest ip n ch tok key a p = \<lparr>pf_transfer_id = t, pf_destination_session = dest,
     pf_destination_ip = ip, pf_user_no = n, pf_channel_id = ch, pf_channel = permit_channel p,
     pf_token = tok, pf_source_generation = source_generation p,
     pf_source_state = from_owner (owner a), pf_source_session = source_session p,
     pf_expires_at = expires_at p, pf_nickname = known_nickname (known a),
     pf_canonical = key, pf_gate = operation_gate a\<rparr>"

lemma preflight_cases:
  assumes "preflight_migration dest ip n ch tok now r = (res, r')" "reg_inv h K r"
  obtains (refused) e where "res = Some (Inl e)" "r' = r"
  | (frozen) key a p nt where
      "validate_migration dest ip n ch tok now r = Some (Inr (key, a, p))"
      "transfer_in_progress a = None" "next_transfer_id r < nt"
      "res = Some (Inr (ticket_of (next_transfer_id r) dest ip n ch tok key a p))"
      "r' = (set_gate (operation_gate a)
          ((gates r (operation_gate a))\<lparr>gate_state := next_transfer_id r\<rparr>) (r\<lparr>next_transfer_id := nt\<rparr>))
        \<lparr>active_by_name := tput key (a\<lparr>transfer_in_progress := Some (next_transfer_id r)\<rparr>)
           (active_by_name r)\<rparr>"
proof -
  from validate_migration_no_panic[OF assms(2)] obtain v where
    v: "validate_migration dest ip n ch tok now r = Some v" by blast
  show thesis
  proof (cases v)
    case (Inl e)
    with assms(1) v show thesis by (intro refused[of e]) (simp_all add: preflight_migration_def)
  next
    case (Inr kap)
    then obtain key a p where kap: "v = Inr (key, a, p)" by (cases kap) auto
    note ok = v[unfolded kap validate_migration_Inr]
    show thesis
    proof (cases "transfer_in_progress a")
      case (Some t)
      with assms(1) v kap show thesis
        by (intro refused[of "TransferInProgress (known_nickname (known a))"])
           (simp_all add: preflight_migration_def)
    next
      case None
      obtain t r1 where al: "allocate_transfer_id r = (t, r1)" by (cases "allocate_transfer_id r")
      from al reg_invD(4)[OF assms(2)] show thesis
      proof (cases rule: allocate_transfer_cases)
        case full
        with assms(1) v kap None al show thesis
          by (intro refused[of MigrationTransferIdExhausted]) (simp_all add: preflight_migration_def)
      next
        case (ok nt)
        have open_gate: "gate_state (gates r (operation_gate a)) = OPEN"
          using reg_invD(5)[OF assms(2)] v kap None
          by (auto simp: validate_migration_Inr entry_ok_def states_def frozen_state_def)
        from assms(1) v kap None al ok open_gate show thesis
          by (intro frozen[of key a p nt])
             (simp_all add: preflight_migration_def Let_def gate_freeze_def ticket_of_def
               validate_migration_Inr set_gate_def)
      qed
    qed
  qed
qed

lemma lease_inv_transfer: "lease_inv r ls \<Longrightarrow> lease_inv (r\<lparr>next_transfer_id := nt\<rparr>) ls"
  by (simp add: lease_inv_def)

lemma reg_inv_transfer:
  "reg_inv h K r \<Longrightarrow> next_transfer_id r < nt \<Longrightarrow> reg_inv h K (r\<lparr>next_transfer_id := nt\<rparr>)"
  using reg_inv_counters[of h K r "next_generation r" nt] by simp

lemma preflight_wi:
  assumes "wi h K r ls" "preflight_migration dest ip n ch tok now r = (res, r')"
  shows "wi h K r' ls"
proof -
  have inv: "reg_inv h K r" using assms(1) by (simp add: wi_def)
  from assms(2) inv show ?thesis
  proof (cases rule: preflight_cases)
    case (frozen key a p nt)
    let ?r = "r\<lparr>next_transfer_id := nt\<rparr>"
    have "wi h K ?r ls"
      using assms(1) frozen(3) by (simp add: wi_def lease_inv_transfer reg_inv_transfer)
    moreover have "map_of (active_by_name ?r) key = Some a" "permit a = Some p"
      using frozen(1) by (simp_all add: validate_migration_Inr)
    moreover have "0 < next_transfer_id r" by (rule reg_invD(4)[OF inv])
    moreover have "permit_ok a"
      using reg_invD(5)[OF inv, of key a] frozen(1) by (simp add: validate_migration_Inr entry_ok_def)
    ultimately have "wi h K ((set_gate (operation_gate a)
        ((gates r (operation_gate a))\<lparr>gate_state := next_transfer_id r\<rparr>) ?r)
        \<lparr>active_by_name := tput key (a\<lparr>transfer_in_progress := Some (next_transfer_id r)\<rparr>)
           (active_by_name ?r)\<rparr>) ls"
      by (rule_tac entry_change_wi) (use frozen(3) in \<open>auto simp: frozen_state_def permit_ok_def\<close>)
    then show ?thesis by (simp add: frozen(5))
  qed (use assms in simp)
qed

section \<open>Aborting\<close>

text \<open>Whether a ticket still owns the transfer of its entry.\<close>

definition owns_transfer :: "migration_preflight \<Rightarrow> identity_registry \<Rightarrow> active_identity \<Rightarrow> bool" where
  "owns_transfer f r a \<longleftrightarrow> map_of (active_by_name r) (pf_canonical f) = Some a \<and>
     generation a = pf_source_generation f \<and> known_nickname (known a) = pf_nickname f \<and>
     transfer_in_progress a = Some (pf_transfer_id f) \<and> operation_gate a = pf_gate f \<and>
     (\<exists>p. permit a = Some p \<and> exact_permit f p)"

lemma abort_cases:
  assumes "abort_preflighted_migration f r = (res, r')" "reg_inv h K r"
  obtains (stale) "\<not> res" "r' = r" "\<And>a. \<not> owns_transfer f r a"
  | (reopened) a where "res" "owns_transfer f r a"
      "r' = (set_gate (operation_gate a) ((gates r (operation_gate a))\<lparr>gate_state := OPEN\<rparr>) r)
        \<lparr>active_by_name := tput (pf_canonical f) (a\<lparr>transfer_in_progress := None\<rparr>) (active_by_name r)\<rparr>"
proof (cases "\<exists>a. owns_transfer f r a")
  case True
  then obtain a where a: "owns_transfer f r a" by blast
  then have "gate_state (gates r (operation_gate a)) = pf_transfer_id f"
    using reg_invD(5)[OF assms(2), of "pf_canonical f" a]
    by (auto simp: owns_transfer_def entry_ok_def states_def frozen_state_def)
  with assms(1) a show thesis
    by (intro reopened[OF _ a])
       (auto simp: abort_preflighted_migration_def owns_transfer_def gate_reopen_exact_def)
next
  case False
  have "abort_preflighted_migration f r = (False, r)"
  proof (cases "map_of (active_by_name r) (pf_canonical f)")
    case (Some a)
    with False have "\<not> owns_transfer f r a" by blast
    with Some show ?thesis
      by (auto simp: abort_preflighted_migration_def owns_transfer_def split: option.splits)
  qed (simp add: abort_preflighted_migration_def)
  with assms(1) False stale show thesis by auto
qed

lemma reopen_wi:
  assumes "wi h K r ls" "map_of (active_by_name r) k = Some a"
  shows "wi h K ((set_gate (operation_gate a) ((gates r (operation_gate a))\<lparr>gate_state := OPEN\<rparr>) r)
    \<lparr>active_by_name := tput k (a\<lparr>transfer_in_progress := None\<rparr>) (active_by_name r)\<rparr>) ls"
proof -
  have "entry_ok K (map_of (known_by_name r)) (map_of (session_bindings r)) (next_generation r)
          (next_transfer_id r) (states r) (next_gate r) k a"
    using assms(1) unfolding wi_def by (blast intro: reg_invD(5)[OF _ assms(2)])
  then show ?thesis
    by (intro entry_change_wi[OF assms]) (auto simp: entry_ok_def frozen_state_def)
qed

lemma abort_wi:
  assumes "wi h K r ls" "abort_preflighted_migration f r = (res, r')"
  shows "wi h K r' ls"
proof -
  have inv: "reg_inv h K r" using assms(1) by (simp add: wi_def)
  from assms(2) inv show ?thesis
  proof (cases rule: abort_cases)
    case (reopened a)
    then have "map_of (active_by_name r) (pf_canonical f) = Some a" by (simp add: owns_transfer_def)
    from reopen_wi[OF assms(1) this] show ?thesis unfolding reopened(3) .
  qed (use assms in simp)
qed

lemma abort_snd_wi: "wi h K r ls \<Longrightarrow> wi h K (snd (abort_preflighted_migration f r)) ls"
  by (cases "abort_preflighted_migration f r") (simp add: abort_wi)

lemma drop_guard_wi:
  assumes "wi h K r ls"
  shows "wi h K (drop_commit_guard g r) ls"
proof (cases "map_of (active_by_name r) (cg_key g)")
  case (Some a)
  show ?thesis
  proof (cases "transfer_in_progress a = Some (cg_transfer_id g) \<and> operation_gate a = cg_gate g")
    case True
    with Some assms have "gate_state (gates r (operation_gate a)) = cg_transfer_id g"
      using reg_invD(5)[of h K r "cg_key g" a]
      by (auto simp: wi_def entry_ok_def states_def frozen_state_def)
    with True Some reopen_wi[OF assms Some] show ?thesis
      by (simp add: drop_commit_guard_def gate_reopen_exact_def)
  qed (use assms Some in \<open>auto simp: drop_commit_guard_def\<close>)
qed (use assms in \<open>simp add: drop_commit_guard_def\<close>)

section \<open>Transfer\<close>

text \<open>A ticket that passes its revalidation: everything it was minted with still holds.\<close>

lemma validate_preflighted_no_panic:
  assumes "reg_inv h K r"
  shows "validate_preflighted_migration f now r \<noteq> None"
proof -
  from validate_migration_no_panic[OF assms] obtain v where
    "validate_migration (pf_destination_session f) (pf_destination_ip f) (pf_user_no f)
      (pf_channel_id f) (pf_token f) now r = Some v" by blast
  then show ?thesis by (auto simp: validate_preflighted_migration_def split: sum.splits)
qed

lemma validate_preflighted_Inr:
  assumes "validate_preflighted_migration f now r = Some (Inr u)"
  obtains a p where
    "validate_migration (pf_destination_session f) (pf_destination_ip f) (pf_user_no f)
      (pf_channel_id f) (pf_token f) now r = Some (Inr (pf_canonical f, a, p))"
    "known_nickname (known a) = pf_nickname f" "permit_channel p = pf_channel f"
    "source_generation p = pf_source_generation f" "source_session p = pf_source_session f"
    "expires_at p = pf_expires_at f" "transfer_in_progress a = Some (pf_transfer_id f)"
    "operation_gate a = pf_gate f" "gate_state (gates r (pf_gate f)) = pf_transfer_id f"
    "is_drained (gates r (pf_gate f))" "0 < next_generation r"
    "\<exists>ng. checked_succ (next_generation r) = Some ng"
  using assms
  by (auto simp: validate_preflighted_migration_def is_frozen_by_def operations_drained_def word_gt_0
      split: option.splits sum.splits if_splits prod.splits)

text \<open>The completion of the transfer of entry \<open>a\<close> with permit \<open>p\<close> to a destination.\<close>

definition completion_of :: "migration_preflight \<Rightarrow> active_identity \<Rightarrow> migration_permit \<Rightarrow> u64 \<Rightarrow> migration_completion" where
  "completion_of f a p gen = \<lparr>
     comp_binding = \<lparr>bind_nickname = known_nickname (known a), bind_user_no = known_user_no (known a),
       bind_generation = gen, bind_owner = pf_destination_session f,
       bind_source_ip = pf_destination_ip f, bind_channel = Some (permit_channel p)\<rparr>,
     comp_previous_binding = identity_binding_of a (source_session p),
     comp_previous_identity = released_identity_of a,
     comp_previous_owner = owner a\<rparr>"

definition transferred :: "migration_preflight \<Rightarrow> active_identity \<Rightarrow> migration_permit \<Rightarrow> u64 \<Rightarrow> nat \<Rightarrow> active_identity" where
  "transferred f a p gen g = a\<lparr>generation := gen, owner := Some (pf_destination_session f),
     owner_ip := pf_destination_ip f, channel := Some (permit_channel p), permit := None,
     transfer_in_progress := None, operation_gate := g\<rparr>"

lemma transferred_binding:
  "identity_binding_of (transferred f a p gen g) (pf_destination_session f) = comp_binding (completion_of f a p gen)"
  by (simp add: transferred_def completion_of_def identity_binding_of_def)

lemma materialize_cases:
  assumes "materialize_candidate h f now r = (res, r')" "reg_inv h K r"
  obtains (refused) e where "res = Some (Inl e)"
      "r' = r \<or> (\<exists>ng. next_generation r < ng \<and> r' = r\<lparr>next_generation := ng\<rparr>)"
  | (ready) a p ng where
      "validate_preflighted_migration f now r = Some (Inr ())"
      "validate_migration (pf_destination_session f) (pf_destination_ip f) (pf_user_no f)
        (pf_channel_id f) (pf_token f) now r = Some (Inr (pf_canonical f, a, p))"
      "operation_gate a = pf_gate f" "permit_channel p = pf_channel f"
      "source_generation p = pf_source_generation f"
      "transfer_in_progress a = Some (pf_transfer_id f)"
      "gate_state (gates r (pf_gate f)) = pf_transfer_id f"
      "is_drained (gates r (pf_gate f))"
      "next_generation r < ng" "r' = r\<lparr>next_generation := ng\<rparr>"
      "res = Some (Inr \<lparr>cand_canonical = pf_canonical f, cand_gate = pf_gate f,
         cand_next_gate = gate_shared 0, cand_completion = completion_of f a p (next_generation r)\<rparr>)"
proof -
  from validate_preflighted_no_panic[OF assms(2)] obtain v where
    v: "validate_preflighted_migration f now r = Some v" by blast
  show thesis
  proof (cases v)
    case (Inl e)
    with assms(1) v show thesis by (intro refused[of e]) (simp_all add: materialize_candidate_def)
  next
    case (Inr u)
    with v have v': "validate_preflighted_migration f now r = Some (Inr ())" by simp
    from v' obtain a p where ap: "validate_migration (pf_destination_session f) (pf_destination_ip f)
        (pf_user_no f) (pf_channel_id f) (pf_token f) now r = Some (Inr (pf_canonical f, a, p))"
      "permit_channel p = pf_channel f" "source_generation p = pf_source_generation f"
      "transfer_in_progress a = Some (pf_transfer_id f)" "operation_gate a = pf_gate f"
      "gate_state (gates r (pf_gate f)) = pf_transfer_id f" "is_drained (gates r (pf_gate f))"
      by (rule validate_preflighted_Inr) blast
    obtain g r1 where al: "allocate_generation r = (g, r1)" by (cases "allocate_generation r")
    from al reg_invD(3)[OF assms(2)] show thesis
    proof (cases rule: allocate_generation_cases)
      case full
      with assms(1) v' ap al show thesis
        by (intro refused[of GenerationExhausted]) (simp_all add: materialize_candidate_def)
    next
      case (ok ng)
      show thesis
      proof (cases "can_reserve h (length (session_bindings r) + 1)")
        case True
        with assms(1) v' ap al ok show thesis
          by (intro ready[OF v' ap(1,5,2,3,4,6,7) ok(2)])
             (simp_all add: materialize_candidate_def completion_of_def)
      next
        case False
        with assms(1) v' ap al ok show thesis
          by (intro refused[of SessionIndexCapacityUnavailable])
             (auto simp: materialize_candidate_def)
      qed
    qed
  qed
qed

text \<open>
  A complete turn either refuses and aborts its ticket, at most burning a generation, or transfers:
  the source gate is retired, the entry has a new generation, gate and owner.
\<close>

lemma complete_cases:
  assumes "complete_preflighted_at_udp_epoch h f now e r = (res, r')" "reg_inv h K r"
  obtains (refused) err r1 where "res = Some (Inl err)" "r' = snd (abort_preflighted_migration f r1)"
      "r1 = r \<or> (\<exists>ng. next_generation r < ng \<and> r1 = r\<lparr>next_generation := ng\<rparr>)"
  | (success) a p ng where
      "validate_preflighted_migration f now r = Some (Inr ())"
      "validate_migration (pf_destination_session f) (pf_destination_ip f) (pf_user_no f)
        (pf_channel_id f) (pf_token f) now r = Some (Inr (pf_canonical f, a, p))"
      "operation_gate a = pf_gate f" "is_drained (gates r (pf_gate f))"
      "transfer_in_progress a = Some (pf_transfer_id f)"
      "next_generation r < ng"
      "res = Some (Inr (completion_of f a p (next_generation r)))"
      "r' = (set_gate (next_gate r) (gate_shared e)
            (set_gate (pf_gate f) ((gates r (pf_gate f))\<lparr>gate_state := RETIRED\<rparr>) (r\<lparr>next_generation := ng\<rparr>)))
          \<lparr>next_gate := next_gate r + 1,
           active_by_name := tput (pf_canonical f) (transferred f a p (next_generation r) (next_gate r))
             (active_by_name r),
           session_bindings := tput (pf_destination_session f)
             (comp_binding (completion_of f a p (next_generation r))) (session_bindings r)\<rparr>"
proof -
  obtain c r1 where m: "materialize_candidate h f now r = (c, r1)"
    by (cases "materialize_candidate h f now r")
  from m assms(2) show thesis
  proof (cases rule: materialize_cases)
    case (refused err)
    with m assms(1) show thesis
      by (intro that(1)[of err r1])
         (auto simp: complete_preflighted_at_udp_epoch_def prepare_preflighted_migration_def)
  next
    case (ready a p ng)
    let ?c = "\<lparr>cand_canonical = pf_canonical f, cand_gate = pf_gate f,
         cand_next_gate = gate_shared 0, cand_completion = completion_of f a p (next_generation r)\<rparr>"
    let ?g = "\<lparr>cg_key = pf_canonical f, cg_transfer_id = pf_transfer_id f,
         cg_destination_session = pf_destination_session f, cg_channel = pf_channel f,
         cg_gate = pf_gate f, cg_next_gate = gate_shared 0,
         cg_completion = completion_of f a p (next_generation r)\<rparr>"
    have prep: "prepare_preflighted_migration h f now r = (Some (Inr ?c), r1)"
      using m ready(11) by (simp add: prepare_preflighted_migration_def)
    note V = ready(2)[unfolded validate_migration_Inr]
    have "reg_inv h K r1" unfolding ready(10) by (rule reg_inv_generation[OF assms(2) ready(9)])
    from validate_preflighted_no_panic[OF this] obtain v where
      v: "validate_preflighted_migration f now r1 = Some v" by blast
    show thesis
    proof (cases v)
      case (Inl err)
      with prep v assms(1) ready(9,10) show thesis
        by (intro that(1)[of err r1])
           (auto simp: complete_preflighted_at_udp_epoch_def lock_prepared_migration_def)
    next
      case (Inr u)
      have n: "known_user_no (known a) = pf_user_no f"
        using reg_invD(5)[OF assms(2), of "pf_canonical f" a] V by (auto simp: entry_ok_def permit_ok_def)
      have lock: "lock_prepared_migration f ?c now r1 = (Some (Inr ?g), r1)"
        using v Inr n V ready(3-6,10)
        by (simp add: lock_prepared_migration_def completion_of_def identity_binding_of_def)
      have commit: "commit_migration ?g e r1 = (Some (completion_of f a p (next_generation r)),
          (set_gate (next_gate r) (gate_shared e)
            (set_gate (pf_gate f) ((gates r (pf_gate f))\<lparr>gate_state := RETIRED\<rparr>) r1))
          \<lparr>next_gate := next_gate r + 1,
           active_by_name := tput (pf_canonical f) (transferred f a p (next_generation r) (next_gate r))
             (active_by_name r),
           session_bindings := tput (pf_destination_session f)
             (comp_binding (completion_of f a p (next_generation r))) (session_bindings r)\<rparr>)"
        using V ready(4,7,8,10)
        by (simp add: commit_migration_def gate_retire_exact_def Let_def transferred_def
            completion_of_def gate_shared_def)
      from assms(1) prep lock commit
      have "res = Some (Inr (completion_of f a p (next_generation r)))"
        "r' = (set_gate (next_gate r) (gate_shared e)
            (set_gate (pf_gate f) ((gates r (pf_gate f))\<lparr>gate_state := RETIRED\<rparr>) r1))
          \<lparr>next_gate := next_gate r + 1,
           active_by_name := tput (pf_canonical f) (transferred f a p (next_generation r) (next_gate r))
             (active_by_name r),
           session_bindings := tput (pf_destination_session f)
             (comp_binding (completion_of f a p (next_generation r))) (session_bindings r)\<rparr>"
        by (simp_all add: complete_preflighted_at_udp_epoch_def)
      then show thesis
        using that(2)[OF ready(1,2,3,8,6,9)] by (simp add: ready(10))
    qed
  qed
qed

lemma retains_added:
  "retains (act(k := None)) ds l \<Longrightarrow> retains (act(k \<mapsto> a)) ds l"
  by (auto simp: retains_def split: if_splits)

lemma transfer_wi:
  assumes "wi h {} r ls"
    and v: "validate_migration (pf_destination_session f) ip n ch tok now r = Some (Inr (k, a, p))"
    and g: "operation_gate a = g" "is_drained (gates r g)" "next_generation r < ng"
  shows "wi h {} ((set_gate (next_gate r) (gate_shared e)
            (set_gate g ((gates r g)\<lparr>gate_state := RETIRED\<rparr>) (r\<lparr>next_generation := ng\<rparr>)))
          \<lparr>next_gate := next_gate r + 1,
           active_by_name := tput k (transferred f a p (next_generation r) (next_gate r)) (active_by_name r),
           session_bindings := tput (pf_destination_session f)
             (comp_binding (completion_of f a p (next_generation r))) (session_bindings r)\<rparr>) ls"
    (is "wi h {} ?r' ls")
proof -
  have inv: "reg_inv h {} r" and li: "lease_inv r ls" using assms(1) by (simp_all add: wi_def)
  let ?r2 = "r\<lparr>next_generation := ng\<rparr>" and ?x = "(gates r g)\<lparr>gate_state := RETIRED\<rparr>"
  let ?a' = "transferred f a p (next_generation r) (next_gate r)"
  note V = v[unfolded validate_migration_Inr]
  have a: "map_of (active_by_name r) k = Some a" using V by simp
  have kn: "map_of (known_by_name r) k = Some (known a)" "g < next_gate r"
    using reg_invD(5)[OF inv a] g(1) by (auto simp: entry_ok_def)
  have inv2: "reg_inv h {} ?r2" by (rule reg_inv_generation[OF inv g(3)])
  have T: "wf_table (session_bindings r)" "wf_table (active_by_name r)"
    using reg_invD(1)[OF inv] by (simp_all add: tables_wf_def)
  let ?rA = "(set_gate (operation_gate a) ?x ?r2)\<lparr>active_by_name := tdel k (active_by_name ?r2),
     session_bindings := session_bindings r, deferred_releases := deferred_releases ?r2\<rparr>"
  have invA: "reg_inv h {} ?rA"
    using reg_inv_remove[OF inv2, of k a "session_bindings r" "deferred_releases ?r2" ?x] a T by simp
  have canon: "def_canonical d \<noteq> k" if "d \<in> set (deferred_releases r)" for d
    using reg_invD(8)[OF inv that] a by (auto simp: release_ok_def)
  have "reg_inv h {} ((set_gate (next_gate ?rA) (gate_shared e) ?rA)\<lparr>next_gate := next_gate ?rA + 1,
      active_by_name := tput k ?a' (active_by_name r),
      session_bindings := tput (pf_destination_session f)
        (identity_binding_of ?a' (pf_destination_session f)) (session_bindings ?rA)\<rparr>)"
    by (rule reg_inv_install[OF invA, where k = k])
       (use V kn T g(3) canon generation_fresh[OF inv] reg_invD(3)[OF inv] in
         \<open>auto simp: transferred_def split: if_splits\<close>)
  also have "((set_gate (next_gate ?rA) (gate_shared e) ?rA)\<lparr>next_gate := next_gate ?rA + 1,
      active_by_name := tput k ?a' (active_by_name r),
      session_bindings := tput (pf_destination_session f)
        (identity_binding_of ?a' (pf_destination_session f)) (session_bindings ?rA)\<rparr>) = ?r'"
    by (simp add: transferred_binding set_gate_def g(1))
  finally have "reg_inv h {} ?r'" .
  moreover have "lease_inv ?r' ls"
  proof (rule lease_inv_keep[OF li])
    fix l assume l: "l \<in> set ls" "retains (map_of (active_by_name r)) (deferred_releases r) l"
    have "lease_gate l \<noteq> operation_gate a"
      using drained_no_lease[OF li kn(2) g(2) l(1)] g(1) by simp
    with l(2) a have "retains ((map_of (active_by_name r))(k := None)) (deferred_releases r) l"
      by (intro retains_dropped)
    then show "retains (map_of (active_by_name ?r')) (deferred_releases ?r') l"
      using retains_added by simp
  qed (auto simp: less_Suc_eq simp flip: outstanding_0)
  ultimately show ?thesis by (simp add: wi_def)
qed

lemma generation_wi:
  "wi h K r ls \<Longrightarrow> next_generation r < ng \<Longrightarrow> wi h K (r\<lparr>next_generation := ng\<rparr>) ls"
  by (simp add: wi_def reg_inv_generation lease_inv_generation)

lemma complete_wi:
  assumes "wi h {} r ls" "complete_preflighted_at_udp_epoch h f now e r = (res, r')"
  shows "wi h {} r' ls"
proof -
  have inv: "reg_inv h {} r" using assms(1) by (simp add: wi_def)
  from assms(2) inv show ?thesis
  proof (cases rule: complete_cases)
    case (refused err r1)
    then have "wi h {} r1 ls" using assms(1) generation_wi by auto
    then show ?thesis using abort_snd_wi refused(2) by simp
  next
    case (success a p ng)
    show ?thesis unfolding success(8)
      by (rule transfer_wi[OF assms(1) success(2,3,4,6)])
  qed
qed

lemma prepare_wi:
  assumes "wi h {} r ls" "prepare_preflighted_migration h f now r = (res, r')"
  shows "wi h {} r' ls"
proof -
  have inv: "reg_inv h {} r" using assms(1) by (simp add: wi_def)
  obtain c r1 where m: "materialize_candidate h f now r = (c, r1)"
    by (cases "materialize_candidate h f now r")
  from m inv show ?thesis
  proof (cases rule: materialize_cases)
    case (refused err)
    then have "wi h {} r1 ls" using assms(1) generation_wi by auto
    with assms(2) m refused show ?thesis
      using abort_snd_wi[of h "{}" r1 ls f] by (auto simp: prepare_preflighted_migration_def)
  next
    case (ready a p ng)
    with assms m show ?thesis
      using generation_wi by (auto simp: prepare_preflighted_migration_def)
  qed
qed

end
