(* ===== verification/IdentityRelease.thy ===== *)
theory IdentityRelease
  imports IdentityMigration
begin

text \<open>
  The end of a generation: disconnect, the expiry sweep, the collection of deferred releases and the
  shutdown drain. Then the registry as a machine over all its commands.
\<close>

section \<open>An entry leaves\<close>

text \<open>
  What both users of \<open>retire_drained\<close> do with a removed entry: release it when its gate is drained,
  otherwise keep it as a deferred release.
\<close>

definition let_go :: "ustring \<Rightarrow> active_identity \<Rightarrow> (u64, identity_binding) table \<Rightarrow> identity_registry \<Rightarrow> identity_registry" where
  "let_go k a st r =
     (let r' = r\<lparr>active_by_name := tdel k (active_by_name r), session_bindings := st\<rparr>;
          g = operation_gate a
      in if is_drained (gates r g)
         then set_gate g ((gates r g)\<lparr>gate_state := RETIRED\<rparr>) r'
         else r'\<lparr>deferred_releases := deferred_releases r @ [release_of k a]\<rparr>)"

lemma let_go_wi:
  assumes "wi h K r ls" and a: "map_of (active_by_name r) k = Some a" and wf: "wf_table st"
    and sub: "\<And>s b. map_of st s = Some b \<Longrightarrow> map_of (session_bindings r) s = Some b"
    and kept: "\<And>k2 a2 s. map_of (active_by_name r) k2 = Some a2 \<Longrightarrow> k2 \<noteq> k \<Longrightarrow> owner a2 = Some s \<Longrightarrow>
      map_of st s = map_of (session_bindings r) s"
  shows "wi h (K - {k}) (let_go k a st r) ls"
proof -
  have inv: "reg_inv h K r" and li: "lease_inv r ls" using assms(1) by (simp_all add: wi_def)
  note E = reg_invD(5)[OF inv a]
  let ?g = "operation_gate a"
  have g: "?g < next_gate r" using E by (auto simp: entry_ok_def)
  show ?thesis
  proof (cases "is_drained (gates r ?g)")
    case True
    let ?x = "(gates r ?g)\<lparr>gate_state := RETIRED\<rparr>"
    have "let_go k a st r = (set_gate ?g ?x r)\<lparr>active_by_name := tdel k (active_by_name r),
        session_bindings := st, deferred_releases := deferred_releases r\<rparr>" (is "_ = ?r'")
      using True by (simp add: let_go_def Let_def set_gate_def)
    moreover have "reg_inv h (K - {k}) ?r'"
      by (rule reg_inv_remove[OF inv a wf sub kept]) simp_all
    moreover have "lease_inv ?r' ls"
    proof (rule lease_inv_keep[OF li])
      fix l assume l: "l \<in> set ls" "retains (map_of (active_by_name r)) (deferred_releases r) l"
      have "retains ((map_of (active_by_name r))(k := None)) (deferred_releases r) l"
        by (rule retains_dropped[where act = "map_of (active_by_name r)", OF a l(2)
              drained_no_lease[OF li g True l(1)]])
      then show "retains (map_of (active_by_name ?r')) (deferred_releases ?r') l" by simp
    qed auto
    ultimately show ?thesis by (simp add: wi_def)
  next
    case False
    have "let_go k a st r = (set_gate ?g (gates r ?g) r)\<lparr>active_by_name := tdel k (active_by_name r),
        session_bindings := st, deferred_releases := deferred_releases r @ [release_of k a]\<rparr>" (is "_ = ?r'")
      using False by (simp add: let_go_def Let_def)
    moreover have "gate_state (gates r ?g) \<noteq> RETIRED"
      using entry_not_retired[OF E] by (simp add: states_def)
    then have "reg_inv h (K - {k}) ?r'"
      by (intro reg_inv_remove[OF inv a wf sub kept]) simp_all
    moreover have "lease_inv ?r' ls"
    proof (rule lease_inv_keep[OF li])
      fix l assume l: "retains (map_of (active_by_name r)) (deferred_releases r) l"
      from retains_moved[where act = "map_of (active_by_name r)", OF a l]
      show "retains (map_of (active_by_name ?r')) (deferred_releases ?r') l" by simp
    qed auto
    ultimately show ?thesis by (simp add: wi_def)
  qed
qed

section \<open>Disconnect\<close>

definition usable_permit :: "active_identity \<Rightarrow> nat \<Rightarrow> migration_permit option" where
  "usable_permit a now = (case permit a of None \<Rightarrow> None | Some p \<Rightarrow> if now < expires_at p then Some p else None)"

definition reopened :: "active_identity \<Rightarrow> identity_registry \<Rightarrow> identity_registry" where
  "reopened a r = (case transfer_in_progress a of None \<Rightarrow> r
     | Some t \<Rightarrow> set_gate (operation_gate a)
         (snd (gate_reopen_exact t (gates r (operation_gate a)))) r)"

lemma reopened_simps [simp]:
  "active_by_name (reopened a r) = active_by_name r" "session_bindings (reopened a r) = session_bindings r"
  "deferred_releases (reopened a r) = deferred_releases r"
  "outstanding (gates (reopened a r) g) = outstanding (gates r g)"
  "next_gate (reopened a r) = next_gate r" "registry_instance (reopened a r) = registry_instance r"
  "known_by_name (reopened a r) = known_by_name r" "next_generation (reopened a r) = next_generation r"
  by (auto simp: reopened_def gate_reopen_exact_def split: option.splits)

lemma is_drained_reopened [simp]: "is_drained (gates (reopened a r) g) = is_drained (gates r g)"
  by (simp flip: outstanding_0)

text \<open>The registry after the disconnect of the owner of an entry that nobody can take over.\<close>

lemma disconnect_cases:
  assumes "disconnect h s now r = (res, r')" "reg_inv h K r"
  obtains (unauthenticated) "res = Unauthenticated" "r' = r" "map_of (session_bindings r) s = None"
  | (stale) b where "res = Stale b" "map_of (session_bindings r) s = Some b"
      "r' = r\<lparr>session_bindings := tdel s (session_bindings r)\<rparr>"
      "\<And>k a. map_of (active_by_name r) k = Some a \<Longrightarrow> owner a \<noteq> Some s"
  | (deferred) b k a p where "res = Deferred b p" "map_of (session_bindings r) s = Some b"
      "map_of (active_by_name r) k = Some a" "owner a = Some s" "generation a = bind_generation b"
      "permit a = Some p" "now < expires_at p"
      "r' = r\<lparr>session_bindings := tdel s (session_bindings r),
         active_by_name := tput k (a\<lparr>owner := None\<rparr>) (active_by_name r)\<rparr>"
  | (gone) b k a where "map_of (session_bindings r) s = Some b" "usable_permit a now = None"
      "map_of (active_by_name r) k = Some a" "owner a = Some s" "generation a = bind_generation b"
      "r' = let_go k a (tdel s (session_bindings r)) (reopened a r)"
      "res = (if is_drained (gates r (operation_gate a)) then Released (released_identity_of a)
        else Draining (released_identity_of a))"
proof (cases "map_of (session_bindings r) s")
  case None
  with assms(1) unauthenticated show thesis by (simp add: disconnect_def)
next
  case (Some b)
  let ?key = "canonical_nickname_key h (bind_nickname b)"
  show thesis
  proof (cases "\<exists>a. map_of (active_by_name r) ?key = Some a \<and> owner a = Some s \<and> generation a = bind_generation b")
    case False
    have "owner a \<noteq> Some s" if a: "map_of (active_by_name r) k = Some a" for k a
    proof
      assume o: "owner a = Some s"
      from owner_session[OF assms(2) a o] Some
      have "b = identity_binding_of a s" "k = ?key" by (auto simp: identity_binding_of_def)
      with False a o show False by (auto simp: identity_binding_of_def)
    qed
    moreover have "disconnect h s now r = (Stale b, r\<lparr>session_bindings := tdel s (session_bindings r)\<rparr>)"
      using False Some by (auto simp: disconnect_def Let_def split: option.splits)
    ultimately show thesis using assms(1) Some stale by simp
  next
    case True
    then obtain a where a: "map_of (active_by_name r) ?key = Some a" "owner a = Some s"
      "generation a = bind_generation b" by blast
    show thesis
    proof (cases "usable_permit a now")
      case (Some p)
      then have p: "permit a = Some p" "now < expires_at p"
        by (auto simp: usable_permit_def split: option.splits if_splits)
      have "disconnect h s now r = (Deferred b p, r\<lparr>session_bindings := tdel s (session_bindings r),
          active_by_name := tput ?key (a\<lparr>owner := None\<rparr>) (active_by_name r)\<rparr>)"
        using \<open>map_of (session_bindings r) s = Some b\<close> a p by (simp add: disconnect_def Let_def)
      with assms(1) show thesis
        using deferred[OF _ \<open>map_of (session_bindings r) s = Some b\<close> a(1,2,3) p] by simp
    next
      case None
      let ?R = "if is_drained (gates r (operation_gate a)) then Released (released_identity_of a)
        else Draining (released_identity_of a)"
      have u: "(case permit a of None \<Rightarrow> None | Some p \<Rightarrow> if now < expires_at p then Some p else None) = None"
        using None by (simp add: usable_permit_def)
      have nr: "gate_state (gates r (operation_gate a)) \<noteq> RETIRED"
        using entry_not_retired[OF reg_invD(5)[OF assms(2) a(1)]] by (simp add: states_def)
      have "disconnect h s now r = (?R, let_go ?key a (tdel s (session_bindings r)) (reopened a r))"
        using \<open>map_of (session_bindings r) s = Some b\<close> a u nr
        by (cases "transfer_in_progress a")
           (simp_all add: disconnect_def Let_def let_go_def reopened_def gate_retire_drained_def
             is_drained_def release_of_def set_gate_def gate_reopen_exact_def)
      with assms(1) show thesis
        using gone[OF \<open>map_of (session_bindings r) s = Some b\<close> None a(1,2,3)] by simp
    qed
  qed
qed

lemma reopened_wi:
  assumes "wi h K r ls" "map_of (active_by_name r) k = Some a"
  shows "wi h K ((reopened a r)\<lparr>active_by_name := tput k (a\<lparr>transfer_in_progress := None\<rparr>) (active_by_name r)\<rparr>) ls"
proof -
  have E: "entry_ok K (map_of (known_by_name r)) (map_of (session_bindings r)) (next_generation r)
          (next_transfer_id r) (states r) (next_gate r) k a"
    using assms(1) unfolding wi_def by (blast intro: reg_invD(5)[OF _ assms(2)])
  then have "gates (reopened a r) = (gates r)(operation_gate a := (gates r (operation_gate a))\<lparr>gate_state := OPEN\<rparr>)"
    by (auto simp: reopened_def gate_reopen_exact_def entry_ok_def states_def frozen_state_def
        fun_eq_iff split: option.splits)
  then have "reopened a r = set_gate (operation_gate a) ((gates r (operation_gate a))\<lparr>gate_state := OPEN\<rparr>) r"
    by (auto simp: reopened_def set_gate_def split: option.splits)
  with reopen_wi[OF assms] show ?thesis by simp
qed

lemma disconnect_wi:
  assumes "wi h K r ls" "disconnect h s now r = (res, r')"
  shows "wi h K r' ls"
proof -
  have inv: "reg_inv h K r" and li: "lease_inv r ls" using assms(1) by (simp_all add: wi_def)
  have wf: "wf_table (tdel s (session_bindings r))"
    using reg_invD(1)[OF inv] by (simp add: tables_wf_def)
  from assms(2) inv show ?thesis
  proof (cases rule: disconnect_cases)
    case (stale b)
    have "reg_inv h K r'" unfolding stale(3)
      by (rule reg_inv_sessions[OF inv wf]) (use stale(4) in \<open>auto split: if_splits\<close>)
    moreover have "lease_inv r' ls" unfolding stale(3)
      by (rule lease_inv_keep[OF li]) auto
    ultimately show ?thesis by (simp add: wi_def)
  next
    case (deferred b k a p)
    note E = reg_invD(5)[OF inv deferred(3), unfolded entry_ok_def]
    let ?a = "a\<lparr>owner := None\<rparr>" and ?x = "gates r (operation_gate a)"
    let ?r = "(set_gate (operation_gate a) ?x r)\<lparr>active_by_name := tput k ?a (active_by_name r),
        session_bindings := tdel s (session_bindings r)\<rparr>"
    have "reg_inv h K ?r"
    proof (rule reg_inv_entry[OF inv deferred(3)])
      show "entry_ok K (map_of (known_by_name r)) (map_of (tdel s (session_bindings r)))
          (next_generation r) (next_transfer_id r)
          ((states r)(operation_gate a := gate_state ?x)) (next_gate r) k ?a"
        using E deferred(6) by (auto simp: entry_ok_def permit_ok_def states_def)
    next
      fix k2 a2 s2 assume k2: "map_of (active_by_name r) k2 = Some a2" "k2 \<noteq> k" "owner a2 = Some s2"
      have "s2 \<noteq> s"
        using owner_session[OF inv k2(1,3)] owner_session[OF inv deferred(3,4)] k2(2)
        by (auto simp: identity_binding_of_def)
      then show "map_of (tdel s (session_bindings r)) s2 = map_of (session_bindings r) s2" by simp
    qed (use wf deferred(4) in \<open>auto split: if_splits\<close>)
    moreover have "lease_inv ?r ls" by (rule lease_inv_entry[OF li deferred(3)]) simp_all
    moreover have "r' = ?r" by (simp add: deferred(8))
    ultimately show ?thesis by (simp add: wi_def)
  next
    case (gone b k a)
    let ?a = "a\<lparr>transfer_in_progress := None\<rparr>"
    let ?r = "(reopened a r)\<lparr>active_by_name := tput k ?a (active_by_name r)\<rparr>"
    have "wi h K ?r ls" by (rule reopened_wi[OF assms(1) gone(3)])
    then have "wi h (K - {k}) (let_go k ?a (tdel s (session_bindings r)) ?r) ls"
    proof (rule let_go_wi)
      fix k2 a2 s2
      assume k2: "map_of (active_by_name ?r) k2 = Some a2" "k2 \<noteq> k" "owner a2 = Some s2"
      then have "map_of (active_by_name r) k2 = Some a2" by simp
      then have "s2 \<noteq> s"
        using owner_session[OF inv _ k2(3)] owner_session[OF inv gone(3,4)] k2(2)
        by (fastforce simp: identity_binding_of_def)
      then show "map_of (tdel s (session_bindings r)) s2 = map_of (session_bindings ?r) s2" by simp
    qed (use wf in \<open>auto split: if_splits\<close>)
    moreover have "let_go k ?a (tdel s (session_bindings r)) ?r = r'"
      by (simp add: gone(6) let_go_def Let_def release_of_def released_identity_of_def)
    ultimately have "wi h (K - {k}) r' ls" by simp
    moreover have "wi h (K - {k}) x ls \<Longrightarrow> wi h K x ls" for x
      unfolding wi_def reg_inv_def by (auto intro: entry_ok_mono)
    ultimately show ?thesis by blast
  qed (use assms in simp)
qed

section \<open>The expiry sweep\<close>

lemma wi_weaken: "wi h K r ls \<Longrightarrow> K \<subseteq> K' \<Longrightarrow> wi h K' r ls"
  unfolding wi_def reg_inv_def by (auto intro: entry_ok_mono)

definition due :: "nat \<Rightarrow> active_identity \<Rightarrow> bool" where
  "due now a \<longleftrightarrow> (case permit a of None \<Rightarrow> False | Some p \<Rightarrow> expires_at p \<le> now)"

definition revoked :: "active_identity \<Rightarrow> active_identity" where
  "revoked a = a\<lparr>permit := None, transfer_in_progress := None\<rparr>"

lemma revoke_due_cases:
  assumes "wi h K r ls"
  obtains (keep) "revoke_due now key (r, ks) = (r, ks)"
      "\<And>a. map_of (active_by_name r) key = Some a \<Longrightarrow> \<not> due now a"
  | (revoke) a where "map_of (active_by_name r) key = Some a" "due now a"
      "revoke_due now key (r, ks) =
        ((set_gate (operation_gate a) ((gates r (operation_gate a))\<lparr>gate_state := OPEN\<rparr>) r)
           \<lparr>active_by_name := tput key (revoked a) (active_by_name r)\<rparr>,
         if owner a = None then ks @ [key] else ks)"
proof (cases "map_of (active_by_name r) key")
  case None
  with keep show thesis by (simp add: revoke_due_def)
next
  case (Some a)
  show thesis
  proof (cases "due now a")
    case False
    with Some keep show thesis by (simp add: revoke_due_def due_def)
  next
    case True
    have inv: "reg_inv h K r" using assms by (simp add: wi_def)
    have st: "gate_state (gates r (operation_gate a)) = frozen_state (transfer_in_progress a)"
      using reg_invD(5)[OF inv Some] by (simp add: entry_ok_def states_def)
    have "revoke_due now key (r, ks) =
        ((set_gate (operation_gate a) ((gates r (operation_gate a))\<lparr>gate_state := OPEN\<rparr>) r)
           \<lparr>active_by_name := tput key (revoked a) (active_by_name r)\<rparr>,
         if owner a = None then ks @ [key] else ks)"
    proof (cases "transfer_in_progress a")
      case None
      with st have "(gates r (operation_gate a))\<lparr>gate_state := OPEN\<rparr> = gates r (operation_gate a)"
        by (simp add: frozen_state_def)
      moreover have "revoked a = a\<lparr>permit := None\<rparr>" using None by (simp add: revoked_def)
      ultimately show ?thesis
        using Some True None by (simp add: revoke_due_def due_def Let_def)
    next
      case (Some t)
      with st True \<open>map_of (active_by_name r) key = Some a\<close> show ?thesis
        by (simp add: revoke_due_def due_def gate_reopen_exact_def frozen_state_def revoked_def set_gate_def)
    qed
    with Some True revoke show thesis by blast
  qed
qed

lemma revoke_due_wi:
  assumes "wi h (set ks) r ls" "revoke_due now key (r, ks) = (r', ks')"
  shows "wi h (set ks') r' ls"
  using assms(1)
proof (cases rule: revoke_due_cases[where now = now and key = key and ks = ks])
  case keep
  with assms show ?thesis by simp
next
  case (revoke a)
  have "wi h (set ks') ((set_gate (operation_gate a) ((gates r (operation_gate a))\<lparr>gate_state := OPEN\<rparr>) r)
           \<lparr>active_by_name := tput key (revoked a) (active_by_name r)\<rparr>) ls"
    by (rule entry_change_wi[OF assms(1) revoke(1)])
       (use assms(2) revoke(3) in \<open>auto simp: revoked_def permit_ok_def frozen_state_def split: if_splits\<close>)
  with assms(2) revoke(3) show ?thesis by simp
qed

lemma fold_revoke_wi:
  "wi h (set ks) r ls \<Longrightarrow> fold (revoke_due now) keys (r, ks) = (r', ks') \<Longrightarrow> wi h (set ks') r' ls"
proof (induction keys arbitrary: r ks)
  case (Cons key keys)
  obtain r1 ks1 where "revoke_due now key (r, ks) = (r1, ks1)" by (cases "revoke_due now key (r, ks)")
  with Cons revoke_due_wi[OF Cons.prems(1) this] show ?case by simp
qed simp

lemma release_key_wi:
  assumes "wi h (set (key # keys)) r ls" "release_key key (r, rel) = (r', rel')"
  shows "wi h (set keys) r' ls"
proof (cases "map_of (active_by_name r) key")
  case None
  then have "r' = r" using assms(2) by (simp add: release_key_def)
  moreover have "entry_ok (set (key # keys)) kn ses ngen ntr gs ng k a \<Longrightarrow> k \<noteq> key \<Longrightarrow>
      entry_ok (set keys) kn ses ngen ntr gs ng k a" for kn ses ngen ntr gs ng k a
    by (erule entry_ok_mono) auto
  ultimately show ?thesis
    using assms(1) None unfolding wi_def reg_inv_def by (metis option.distinct(1))
next
  case (Some a)
  have inv: "reg_inv h (set (key # keys)) r" using assms(1) by (simp add: wi_def)
  have nr: "gate_state (gates r (operation_gate a)) \<noteq> RETIRED"
    using entry_not_retired[OF reg_invD(5)[OF inv Some]] by (simp add: states_def)
  have "wf_table (session_bindings r)" using reg_invD(1)[OF inv] by (simp add: tables_wf_def)
  then have "wi h (set (key # keys) - {key}) (let_go key a (session_bindings r) r) ls"
    by (intro let_go_wi[OF assms(1) Some]) simp_all
  moreover have "let_go key a (session_bindings r) r = r'"
    using assms(2) Some nr
    by (auto simp: release_key_def Let_def let_go_def gate_retire_drained_def is_drained_def
        release_of_def set_gate_def split: if_splits)
  ultimately show ?thesis by (auto elim: wi_weaken)
qed

lemma fold_release_wi:
  "wi h (set keys) r ls \<Longrightarrow> fold release_key keys (r, rel) = (r', rel') \<Longrightarrow> wi h {} r' ls"
proof (induction keys arbitrary: r rel)
  case (Cons key keys)
  obtain r1 rel1 where "release_key key (r, rel) = (r1, rel1)" by (cases "release_key key (r, rel)")
  with Cons release_key_wi[OF Cons.prems(1) this] show ?case by simp
qed simp

lemma expire_wi:
  assumes "wi h {} r ls" "expire_migrations now r = (res, r')"
  shows "wi h {} r' ls"
  using assms(2)
  by (auto simp: expire_migrations_def Let_def split: prod.splits
      intro: fold_release_wi fold_revoke_wi[where ks = "[]", simplified, OF assms(1)])

section \<open>Deferred releases and shutdown\<close>

lemma lease_inv_deferred:
  assumes "lease_inv r ls" "is_drained (gates r (def_gate d))" "def_gate d < next_gate r"
    "deferred_releases r = ds1 @ d # ds2"
  shows "lease_inv ((set_gate (def_gate d) ((gates r (def_gate d))\<lparr>gate_state := RETIRED\<rparr>) r)
    \<lparr>deferred_releases := ds1 @ ds2\<rparr>) ls"
proof (rule lease_inv_keep[OF assms(1)])
  fix l assume l: "l \<in> set ls" "retains (map_of (active_by_name r)) (deferred_releases r) l"
  have ne: "lease_gate l \<noteq> def_gate d" by (rule drained_no_lease[OF assms(1,3,2) l(1)])
  from l(2) have "retains (map_of (active_by_name r)) (ds1 @ ds2) l"
  proof (cases rule: retainsE)
    case (released d2)
    with ne assms(4) show ?thesis by (intro retains_releaseI[where d = d2]) auto
  qed (rule retains_activeI)
  then show "retains (map_of (active_by_name ((set_gate (def_gate d)
      ((gates r (def_gate d))\<lparr>gate_state := RETIRED\<rparr>) r)\<lparr>deferred_releases := ds1 @ ds2\<rparr>)))
      (deferred_releases ((set_gate (def_gate d)
      ((gates r (def_gate d))\<lparr>gate_state := RETIRED\<rparr>) r)\<lparr>deferred_releases := ds1 @ ds2\<rparr>)) l"
    by simp
qed auto

lemma reg_inv_deferred:
  assumes inv: "reg_inv h K r" and ds: "deferred_releases r = ds1 @ d # ds2"
  shows "reg_inv h K ((set_gate (def_gate d) x r)\<lparr>deferred_releases := ds1 @ ds2\<rparr>)" (is "reg_inv h K ?r")
proof (rule reg_invI)
  note D = reg_invD[OF inv]
  have d: "release_ok (map_of (known_by_name r)) (map_of (active_by_name r)) (next_generation r)
      (states r) (next_gate r) d" using D(8) ds by simp
  {
    fix k a assume "map_of (active_by_name ?r) k = Some a"
    then have *: "map_of (active_by_name r) k = Some a" by simp
    then have "operation_gate a \<noteq> def_gate d" using d unfolding release_ok_def by metis
    then have "entry_ok K (map_of (known_by_name r)) (map_of (session_bindings r)) (next_generation r)
        (next_transfer_id r) ((states r)(def_gate d := gate_state x)) (next_gate r) k a"
      by (intro entry_ok_mono[OF D(5)[OF *]]) auto
    then show "entry_ok K (map_of (known_by_name ?r)) (map_of (session_bindings ?r)) (next_generation ?r)
        (next_transfer_id ?r) (states ?r) (next_gate ?r) k a" by simp
  next
    fix d2 assume "d2 \<in> set (deferred_releases ?r)"
    then have d2: "d2 \<in> set ds1 \<union> set ds2" by simp
    then have "def_gate d2 \<noteq> def_gate d"
      using D(9) ds unfolding separate_releases_def by (auto dest: sym intro: imageI)
    moreover from d2 ds have "d2 \<in> set (deferred_releases r)" by auto
    ultimately have "release_ok (map_of (known_by_name r)) (map_of (active_by_name r)) (next_generation r)
        ((states r)(def_gate d := gate_state x)) (next_gate r) d2"
      by (intro release_ok_mono[OF D(8)]) auto
    then show "release_ok (map_of (known_by_name ?r)) (map_of (active_by_name ?r)) (next_generation ?r)
        (states ?r) (next_gate ?r) d2" by simp
  }
qed (use reg_invD[OF inv] ds in \<open>auto simp: tables_wf_def separate_releases_def\<close>)

text \<open>The collection loop keeps the invariant of the registry with what is still pending put back.\<close>

definition with_pending :: "deferred_release list \<Rightarrow> identity_registry \<Rightarrow> identity_registry" where
  "with_pending ds r = r\<lparr>deferred_releases := deferred_releases r @ ds\<rparr>"

lemma collect_one_wi:
  assumes "wi h K (with_pending (d # ds) r) ls" "collect_one d (r, rel) = (r', rel')"
  shows "wi h K (with_pending ds r') ls"
proof -
  let ?r = "with_pending (d # ds) r" and ?g = "def_gate d"
  have inv: "reg_inv h K ?r" and li: "lease_inv ?r ls" using assms(1) by (simp_all add: wi_def)
  have ds: "deferred_releases ?r = deferred_releases r @ d # ds" by (simp add: with_pending_def)
  then have d: "?g < next_gate r" "gate_state (gates r ?g) \<noteq> RETIRED"
    using reg_invD(8)[OF inv, of d] by (auto simp: release_ok_def with_pending_def states_def)
  show ?thesis
  proof (cases "is_drained (gates r ?g)")
    case True
    let ?x = "(gates r ?g)\<lparr>gate_state := RETIRED\<rparr>"
    have "r' = set_gate ?g ?x r"
      using assms(2) True by (simp add: collect_one_def gate_retire_drained_def d(2) is_drained_def)
    then have "with_pending ds r' = (set_gate ?g ?x ?r)\<lparr>deferred_releases := deferred_releases r @ ds\<rparr>"
      by (simp add: with_pending_def set_gate_def)
    moreover have "reg_inv h K ((set_gate ?g ?x ?r)\<lparr>deferred_releases := deferred_releases r @ ds\<rparr>)"
      by (rule reg_inv_deferred[OF inv ds])
    moreover have "lease_inv ((set_gate ?g ((gates ?r ?g)\<lparr>gate_state := RETIRED\<rparr>) ?r)
        \<lparr>deferred_releases := deferred_releases r @ ds\<rparr>) ls"
      by (rule lease_inv_deferred[OF li _ _ ds]) (use True d in \<open>simp_all add: with_pending_def\<close>)
    ultimately show ?thesis by (simp add: wi_def with_pending_def)
  next
    case False
    then have "r' = r\<lparr>deferred_releases := deferred_releases r @ [d]\<rparr>"
      using assms(2) by (auto simp: collect_one_def gate_retire_drained_def)
    then have "with_pending ds r' = ?r" by (simp add: with_pending_def)
    with assms(1) show ?thesis by simp
  qed
qed

lemma fold_collect_wi:
  "wi h K (with_pending ds r) ls \<Longrightarrow> fold collect_one ds (r, rel) = (r', rel') \<Longrightarrow> wi h K r' ls"
proof (induction ds arbitrary: r rel)
  case (Cons d ds)
  obtain r1 rel1 where "collect_one d (r, rel) = (r1, rel1)" by (cases "collect_one d (r, rel)")
  with Cons collect_one_wi[OF Cons.prems(1) this] show ?case by simp
qed (simp add: with_pending_def)

lemma collect_wi:
  assumes "wi h K r ls" "collect_drained_releases r = (res, r')"
  shows "wi h K r' ls"
  using assms(2)
  by (auto simp: collect_drained_releases_def Let_def split: prod.splits
      intro: fold_collect_wi[rotated] simp: with_pending_def assms(1))

lemma drained_registry_wi:
  assumes "wi h {} r ls"
  shows "wi h K (r\<lparr>session_bindings := [], active_by_name := [],
    deferred_releases := deferred_releases r @ map (\<lambda>(k, a). release_of k a) (active_by_name r)\<rparr>) ls"
    (is "wi h K ?r ls")
proof -
  have inv: "reg_inv h {} r" and li: "lease_inv r ls" using assms by (simp_all add: wi_def)
  note D = reg_invD[OF inv]
  have wf: "wf_table (active_by_name r)" using D(1) by (simp add: tables_wf_def)
  have act: "map_of (active_by_name r) k = Some a" if "(k, a) \<in> set (active_by_name r)" for k a
    using that wf by (simp add: map_of_in_set)
  have rel: "release_ok (map_of (known_by_name r)) (map_of []) (next_generation r) (states r) (next_gate r) d"
    if "d \<in> set (deferred_releases ?r)" for d
  proof (cases "d \<in> set (deferred_releases r)")
    case True
    from D(8)[OF this] show ?thesis by (simp add: release_ok_def)
  next
    case False
    with that obtain k a where ka: "(k, a) \<in> set (active_by_name r)" "d = release_of k a" by auto
    note E = D(5)[OF act[OF ka(1)]]
    from E entry_not_retired[OF E] show ?thesis by (simp add: ka(2) release_ok_def entry_ok_def)
  qed
  have inj: "inj_on (\<lambda>p. f (snd p)) (set (active_by_name r))"
    if f: "\<And>k a k' a'. map_of (active_by_name r) k = Some a \<Longrightarrow>
      map_of (active_by_name r) k' = Some a' \<Longrightarrow> k' \<noteq> k \<Longrightarrow> f a' \<noteq> f a" for f :: "active_identity \<Rightarrow> 'x"
  proof (rule inj_onI)
    fix p q assume "p \<in> set (active_by_name r)" "q \<in> set (active_by_name r)" "f (snd p) = f (snd q)"
    with f[of "fst p" "snd p" "fst q" "snd q"] act[of "fst p" "snd p"] act[of "fst q" "snd q"]
    show "p = q" by (cases p; cases q) fastforce
  qed
  have dist: "distinct (active_by_name r)"
    using wf by (auto simp: wf_table_def distinct_map)
  have "distinct (map (\<lambda>p. operation_gate (snd p)) (active_by_name r))"
    "distinct (map (\<lambda>p. generation (snd p)) (active_by_name r))"
    unfolding distinct_map using separateD[OF D(6)] dist by (blast intro: inj)+
  moreover have "distinct (map fst (active_by_name r))" using wf by (simp add: wf_table_def)
  moreover have "operation_gate a \<noteq> def_gate d \<and> generation a \<noteq> rel_generation (def_identity d) \<and>
      k \<noteq> def_canonical d" if "(k, a) \<in> set (active_by_name r)" "d \<in> set (deferred_releases r)" for k a d
    using D(8)[OF that(2)] act[OF that(1)] by (auto simp: release_ok_def)
  then have "def_gate ` set (deferred_releases r) \<inter> (\<lambda>p. operation_gate (snd p)) ` set (active_by_name r) = {}"
    "def_canonical ` set (deferred_releases r) \<inter> fst ` set (active_by_name r) = {}"
    "(\<lambda>d. rel_generation (def_identity d)) ` set (deferred_releases r) \<inter>
      (\<lambda>p. generation (snd p)) ` set (active_by_name r) = {}"
    by force+
  ultimately have "separate_releases (deferred_releases ?r)"
    using D(9) unfolding separate_releases_def
    by (simp add: case_prod_beta' comp_def image_image)
  then have "reg_inv h K ?r"
    using D rel by (intro reg_invI) (auto simp: tables_wf_def separate_def)
  moreover have "lease_inv ?r ls"
  proof (rule lease_inv_keep[OF li])
    fix l assume "retains (map_of (active_by_name r)) (deferred_releases r) l"
    then have "retains (map_of []) (deferred_releases ?r) l"
    proof (cases rule: retainsE)
      case (active k a)
      then have "(k, a) \<in> set (active_by_name r)" by (meson map_of_SomeD)
      with active show ?thesis by (intro retains_releaseI[where d = "release_of k a"]) auto
    next
      case (released d)
      then show ?thesis by (intro retains_releaseI[where d = d]) auto
    qed
    then show "retains (map_of (active_by_name ?r)) (deferred_releases ?r) l" by simp
  qed auto
  ultimately show ?thesis by (simp add: wi_def)
qed

lemma drain_active_wi:
  assumes "wi h {} r ls" "drain_active r = (res, r')"
  shows "wi h {} r' ls"
  using collect_wi[OF drained_registry_wi[OF assms(1)]] assms(2)
  by (simp add: drain_active_def release_of_def)

end
