(* ===== verification/IdentityMachine.thy ===== *)
theory IdentityMachine
  imports IdentityRelease
begin

text \<open>
  The identity registry as a machine: every call the server makes, on any arguments, with the leases
  the callers hold. Its properties are about the states this machine reaches.
\<close>

section \<open>Commands\<close>

datatype identity_command =
  IdClaim u64 ip_addr ustring u64
| IdAdmit u64
| IdAdmitUdp u32 u64
| IdRetain nat
| IdDropLease nat
| IdBeginMigration u64 channel_binding u16 nat
| IdPreflight u64 ip_addr u32 u16 u16 nat
| IdComplete migration_preflight nat u64
| IdCompleteMigration u64 ip_addr u32 u16 u16 nat
| IdPrepareThenAbort migration_preflight nat
| IdLockThenDrop migration_preflight nat
| IdAbort migration_preflight
| IdDisconnect u64 nat
| IdExpire nat
| IdCollect
| IdEnsureKnown ustring
| IdOfflineMyroom ustring
| IdDrainActive

text \<open>Prepare and lock a ticket, then drop the guard instead of committing it.\<close>

definition lock_then_drop :: "host \<Rightarrow> migration_preflight \<Rightarrow> nat \<Rightarrow> identity_registry \<Rightarrow> identity_registry" where
  "lock_then_drop h f now r =
     (case prepare_preflighted_migration h f now r of
        (Some (Inr c), r) \<Rightarrow>
          (case lock_prepared_migration f c now r of
             (Some (Inr g), r) \<Rightarrow> drop_commit_guard g r
           | (_, r) \<Rightarrow> r)
      | (_, r) \<Rightarrow> r)"

definition hold :: "(identity_error + operation_lease) \<times> identity_registry \<Rightarrow> operation_lease list \<Rightarrow> identity_world" where
  "hold res ls = (case res of (Inl _, r) \<Rightarrow> \<lparr>reg = r, leases = ls\<rparr>
     | (Inr l, r) \<Rightarrow> \<lparr>reg = r, leases = l # ls\<rparr>)"

fun identity_step :: "host \<Rightarrow> identity_world \<Rightarrow> identity_command \<Rightarrow> identity_world" where
  "identity_step h w (IdClaim s ip nick e) = w\<lparr>reg := snd (claim_at h s ip nick e (reg w))\<rparr>"
| "identity_step h w (IdAdmit s) = hold (admit_operation h s (reg w)) (leases w)"
| "identity_step h w (IdAdmitUdp n e) = hold (admit_udp_operation n e (reg w)) (leases w)"
| "identity_step h w (IdRetain i) =
     (if i < length (leases w) then hold (try_retain (leases w ! i) (reg w)) (leases w) else w)"
| "identity_step h w (IdDropLease i) =
     (if i < length (leases w)
      then \<lparr>reg = drop_lease (leases w ! i) (reg w), leases = remove1 (leases w ! i) (leases w)\<rparr>
      else w)"
| "identity_step h w (IdBeginMigration s ch tok now) =
     w\<lparr>reg := snd (begin_migration h s ch tok now (reg w))\<rparr>"
| "identity_step h w (IdPreflight s ip n ch tok now) =
     w\<lparr>reg := snd (preflight_migration s ip n ch tok now (reg w))\<rparr>"
| "identity_step h w (IdComplete f now e) =
     w\<lparr>reg := snd (complete_preflighted_at_udp_epoch h f now e (reg w))\<rparr>"
| "identity_step h w (IdCompleteMigration s ip n ch tok now) =
     w\<lparr>reg := snd (complete_migration h s ip n ch tok now (reg w))\<rparr>"
| "identity_step h w (IdPrepareThenAbort f now) =
     w\<lparr>reg := snd (abort_preflighted_migration f (snd (prepare_preflighted_migration h f now (reg w))))\<rparr>"
| "identity_step h w (IdLockThenDrop f now) = w\<lparr>reg := lock_then_drop h f now (reg w)\<rparr>"
| "identity_step h w (IdAbort f) = w\<lparr>reg := snd (abort_preflighted_migration f (reg w))\<rparr>"
| "identity_step h w (IdDisconnect s now) = w\<lparr>reg := snd (disconnect h s now (reg w))\<rparr>"
| "identity_step h w (IdExpire now) = w\<lparr>reg := snd (expire_migrations now (reg w))\<rparr>"
| "identity_step h w IdCollect = w\<lparr>reg := snd (collect_drained_releases (reg w))\<rparr>"
| "identity_step h w (IdEnsureKnown nick) = w\<lparr>reg := snd (ensure_known_user_no h nick (reg w))\<rparr>"
| "identity_step h w (IdOfflineMyroom nick) = w\<lparr>reg := snd (offline_myroom_binding h nick (reg w))\<rparr>"
| "identity_step h w IdDrainActive = w\<lparr>reg := snd (drain_active (reg w))\<rparr>"

lemma hold_world_inv:
  "(case res of Inl e \<Rightarrow> wi h {} r' ls | Inr l \<Rightarrow> wi h {} r' (l # ls)) \<Longrightarrow> world_inv h (hold (res, r') ls)"
  by (cases res) (simp_all add: hold_def world_inv_wi)

lemma lock_wi:
  "wi h {} r ls \<Longrightarrow> lock_prepared_migration f c now r = (res, r') \<Longrightarrow> wi h {} r' ls"
  using abort_snd_wi[of h "{}" r ls f]
  by (auto simp: lock_prepared_migration_def split: option.splits sum.splits if_splits)

lemma lock_then_drop_wi:
  assumes "wi h {} r ls"
  shows "wi h {} (lock_then_drop h f now r) ls"
proof -
  obtain c r1 where p: "prepare_preflighted_migration h f now r = (c, r1)"
    by (cases "prepare_preflighted_migration h f now r")
  have r1: "wi h {} r1 ls" by (rule prepare_wi[OF assms p])
  have "wi h {} r2 ls" if "lock_prepared_migration f x now r1 = (res, r2)" for x res r2
    by (rule lock_wi[OF r1 that])
  then show ?thesis
    using p r1 drop_guard_wi
    by (auto simp: lock_then_drop_def split: option.splits sum.splits prod.splits)
qed

lemma complete_migration_wi:
  assumes "wi h {} r ls" "complete_migration h s ip n ch tok now r = (res, r')"
  shows "wi h {} r' ls"
proof -
  obtain f r1 where p: "preflight_migration s ip n ch tok now r = (f, r1)"
    by (cases "preflight_migration s ip n ch tok now r")
  have "wi h {} r1 ls" by (rule preflight_wi[OF assms(1) p])
  with p assms(2) complete_wi show ?thesis
    by (auto simp: complete_migration_def complete_preflighted_migration_def
        split: option.splits sum.splits)
qed

lemma identity_step_inv:
  assumes "world_inv h w"
  shows "world_inv h (identity_step h w c)"
proof -
  have w: "wi h {} (reg w) (leases w)" using assms by (simp add: world_inv_wi)
  have snd_wi: "wi h {} (snd p) (leases w)"
    if "\<And>res r'. p = (res, r') \<Longrightarrow> wi h {} r' (leases w)" for p :: "'x \<times> identity_registry"
    using that by (cases p) simp
  note ops = claim_at_wi[OF w] begin_migration_wi[OF w] preflight_wi[OF w] complete_wi[OF w]
    complete_migration_wi[OF w] disconnect_wi[OF w] expire_wi[OF w] collect_wi[OF w]
    ensure_known_wi[OF w] offline_wi[OF w] drain_active_wi[OF w]
  show ?thesis
  proof (cases c)
    case (IdAdmit s)
    then show ?thesis
      using admit_operation_wi[OF w] hold_world_inv by (cases "admit_operation h s (reg w)") simp
  next
    case (IdAdmitUdp n e)
    then show ?thesis
      using admit_udp_wi[OF w] hold_world_inv by (cases "admit_udp_operation n e (reg w)") simp
  next
    case (IdRetain i)
    then show ?thesis
      using try_retain_wi[OF w _ nth_mem] hold_world_inv assms
      by (cases "try_retain (leases w ! i) (reg w)") simp
  next
    case (IdDropLease i)
    then show ?thesis
      using drop_lease_wi[OF w nth_mem] assms by (simp add: world_inv_wi)
  next
    case (IdPrepareThenAbort f now)
    have "wi h {} (snd (prepare_preflighted_migration h f now (reg w))) (leases w)"
      by (rule snd_wi) (rule prepare_wi[OF w])
    with IdPrepareThenAbort show ?thesis by (simp add: world_inv_wi abort_snd_wi)
  qed (simp_all add: world_inv_wi abort_snd_wi[OF w] lock_then_drop_wi[OF w],
       (rule snd_wi, erule ops)+)
qed

definition identity_start :: "identity_world \<Rightarrow> bool" where
  "identity_start w \<longleftrightarrow> (\<exists>i. w = \<lparr>reg = default_registry i, leases = []\<rparr>)"

section \<open>What never goes back\<close>

text \<open>Generations are only burned, and a nickname never loses its number.\<close>

definition grows :: "identity_registry \<Rightarrow> identity_registry \<Rightarrow> bool" where
  "grows r r' \<longleftrightarrow> next_generation r \<le> next_generation r' \<and>
     map_of (known_by_name r) \<subseteq>\<^sub>m map_of (known_by_name r')"

lemma grows_refl [simp]: "grows r r"
  by (simp add: grows_def)

lemma grows_trans: "grows r1 r2 \<Longrightarrow> grows r2 r3 \<Longrightarrow> grows r1 r3"
  unfolding grows_def by (blast intro: order_trans map_le_trans)

lemma grows_same:
  "known_by_name r' = known_by_name r \<Longrightarrow> next_generation r' = next_generation r \<Longrightarrow> grows r r'"
  by (simp add: grows_def)

lemma grows_ensure: "reg_inv h K r \<Longrightarrow> ensure_known_user_no h nick r = (res, r') \<Longrightarrow> grows r r'"
  using ensure_known_frame[of h nick r res r' K] by (simp add: grows_def)

lemma grows_claim:
  assumes "reg_inv h K r" "claim_at h s ip nick e r = (res, r')"
  shows "grows r r'"
  using assms(2,1)
proof (cases rule: claim_at_cases)
  case (unknown nick r1 res1)
  then show ?thesis using grows_ensure[OF assms(1)] by blast
next
  case (claimed nick key n r1 i ng a)
  then have "grows r r1" using grows_ensure[OF assms(1)] by blast
  moreover have "grows r1 r'" using claimed(8) unfolding claimed(11) by (simp add: grows_def)
  ultimately show ?thesis by (rule grows_trans)
qed simp

lemma grows_offline:
  assumes "reg_inv h K r" "offline_myroom_binding h nick r = (res, r')"
  shows "grows r r'"
  using assms grows_ensure[OF assms(1)]
  by (auto simp: offline_myroom_binding_def Let_def split: sum.splits prod.splits option.splits)

lemma grows_abort: "grows r (snd (abort_preflighted_migration f r))"
  by (rule grows_same)
     (auto simp: abort_preflighted_migration_def gate_reopen_exact_def split: option.splits if_splits)

lemma grows_generation: "next_generation r < ng \<Longrightarrow> grows r (r\<lparr>next_generation := ng\<rparr>)"
  by (simp add: grows_def)

lemma grows_complete:
  assumes "reg_inv h K r" "complete_preflighted_at_udp_epoch h f now e r = (res, r')"
  shows "grows r r'"
  using assms(2,1)
proof (cases rule: complete_cases)
  case (refused err r1)
  then have "grows r r1" using grows_generation by auto
  with refused grows_abort grows_trans show ?thesis by blast
next
  case (success a p ng)
  then show ?thesis by (simp add: grows_def)
qed

lemma grows_prepare:
  assumes "reg_inv h K r" "prepare_preflighted_migration h f now r = (res, r')"
  shows "grows r r'"
proof -
  obtain c r1 where m: "materialize_candidate h f now r = (c, r1)"
    by (cases "materialize_candidate h f now r")
  from m assms(1) have r1: "grows r r1"
    by (cases rule: materialize_cases) (auto intro: grows_generation)
  have "r' = r1 \<or> r' = snd (abort_preflighted_migration f r1)"
    using assms(2) m by (auto simp: prepare_preflighted_migration_def split: option.splits sum.splits)
  with r1 grows_abort grows_trans show ?thesis by blast
qed

text \<open>The operations that touch neither.\<close>

definition same_known :: "identity_registry \<Rightarrow> identity_registry \<Rightarrow> bool" where
  "same_known r r' \<longleftrightarrow> known_by_name r' = known_by_name r \<and> next_generation r' = next_generation r"

lemma same_known_refl [simp]: "same_known r r"
  by (simp add: same_known_def)

lemma is_drained_state [simp]: "is_drained (g\<lparr>gate_state := t\<rparr>) = is_drained g"
  by (simp add: is_drained_def)

lemma same_known_grows: "same_known r r' \<Longrightarrow> grows r r'"
  by (simp add: same_known_def grows_same)

lemma same_known_fold:
  assumes "\<And>x r y. same_known r (fst (f x (r, y)))"
  shows "same_known r (fst (fold f xs (r, y)))"
proof (induction xs arbitrary: r y)
  case (Cons x xs)
  have "same_known r (fst (f x (r, y)))" by (rule assms)
  moreover have "same_known (fst (f x (r, y))) (fst (fold f xs (f x (r, y))))"
    using Cons[of "fst (f x (r, y))" "snd (f x (r, y))"] by simp
  ultimately show ?case by (simp add: same_known_def)
qed (simp add: same_known_def)

lemma same_known_admit: "same_known r (snd (try_admit g b r))"
  by (auto simp: try_admit_def same_known_def split: prod.splits sum.splits)

lemma same_known_ops:
  "same_known r (snd (admit_operation h s r))" "same_known r (snd (admit_udp_operation n e r))"
  "same_known r (snd (try_retain l r))" "same_known r (drop_lease l r)"
  "same_known r (snd (begin_migration h s ch tok now r))" "same_known r (drop_commit_guard g r)"
  "same_known r (snd (disconnect h s now r))"
proof -
  show "same_known r (snd (admit_operation h s r))"
    by (auto simp: admit_operation_def same_known_admit split: option.splits sum.splits)
  show "same_known r (snd (admit_udp_operation n e r))"
    by (auto simp: admit_udp_operation_def same_known_admit split: option.splits)
  show "same_known r (snd (try_retain l r))"
    by (auto simp: try_retain_def same_known_def split: prod.splits sum.splits)
  show "same_known r (drop_lease l r)" by (simp add: drop_lease_def same_known_def)
  show "same_known r (snd (begin_migration h s ch tok now r))"
    by (auto simp: begin_migration_def Let_def same_known_def split: option.splits sum.splits)
  show "same_known r (drop_commit_guard g r)"
    by (simp add: drop_commit_guard_def same_known_def split: option.splits)
  show "same_known r (snd (disconnect h s now r))"
    by (simp add: disconnect_def Let_def same_known_def gate_retire_drained_def split: option.splits)
qed

lemma same_known_sweeps:
  "same_known r (snd (expire_migrations now r))" "same_known r (snd (collect_drained_releases r))"
  "same_known r (snd (drain_active r))"
proof -
  have "same_known r (fst (revoke_due now key (r, ks)))" for key r ks
    by (auto simp: revoke_due_def Let_def same_known_def gate_reopen_exact_def split: option.splits)
  moreover have "same_known r (fst (release_key key (r, ks)))" for key r ks
    by (simp add: release_key_def Let_def same_known_def gate_retire_drained_def split: option.splits)
  ultimately have "same_known r (fst (fold (revoke_due now) xs (r, ks)))"
    "same_known r (fst (fold release_key xs (r, rel)))" for r xs ks rel
    by (blast intro: same_known_fold)+
  note * = this
  show "same_known r (snd (expire_migrations now r))"
    using *(1)[of r "map fst (active_by_name r)" "[]"]
      *(2)[of "fst (fold (revoke_due now) (map fst (active_by_name r)) (r, []))"
        "snd (fold (revoke_due now) (map fst (active_by_name r)) (r, []))" "[]"]
    by (simp add: expire_migrations_def Let_def case_prod_beta' same_known_def)
  have "same_known r (fst (collect_one d (r, ks)))" for d r ks
    by (simp add: collect_one_def same_known_def gate_retire_drained_def)
  then have c: "same_known r (fst (fold collect_one xs (r, rel)))" for r xs rel
    by (rule same_known_fold)
  then show collect: "same_known r (snd (collect_drained_releases r))" for r
    using c[of "r\<lparr>deferred_releases := []\<rparr>" "deferred_releases r" "[]"]
    by (simp add: collect_drained_releases_def Let_def case_prod_beta' same_known_def)
  show "same_known r (snd (drain_active r))"
    using collect[of "r\<lparr>session_bindings := [], active_by_name := [],
          deferred_releases := deferred_releases r @
            map (\<lambda>(key, a). \<lparr>def_canonical = key, def_identity = released_identity_of a,
              def_gate = operation_gate a\<rparr>) (active_by_name r)\<rparr>"]
    by (simp add: drain_active_def same_known_def)
qed

lemma grows_preflight:
  assumes "reg_inv h K r" "preflight_migration s ip n ch tok now r = (res, r')"
  shows "grows r r'"
  using assms(2,1) by (cases rule: preflight_cases) (auto simp: grows_def)

lemma grows_lock: "grows r (snd (lock_prepared_migration f c now r))"
  by (auto simp: lock_prepared_migration_def grows_abort split: option.splits sum.splits)

lemma grows_lock_then_drop:
  assumes "reg_inv h K r"
  shows "grows r (lock_then_drop h f now r)"
proof -
  obtain c r1 where p: "prepare_preflighted_migration h f now r = (c, r1)"
    by (cases "prepare_preflighted_migration h f now r")
  have r1: "grows r r1" by (rule grows_prepare[OF assms p])
  have r2: "grows r1 r2" if "lock_prepared_migration f x now r1 = (res, r2)" for x res r2
    using grows_lock[of r1 f x now] that by simp
  have "grows r2 (drop_commit_guard g r2)" for g r2 by (rule same_known_grows[OF same_known_ops(6)])
  then show ?thesis
    using p r1 r2 unfolding lock_then_drop_def
    by (auto split: option.splits sum.splits prod.splits) (blast intro: grows_trans)+
qed

lemma grows_complete_migration:
  assumes "wi h {} r ls" "complete_migration h s ip n ch tok now r = (res, r')"
  shows "grows r r'"
proof -
  obtain f r1 where p: "preflight_migration s ip n ch tok now r = (f, r1)"
    by (cases "preflight_migration s ip n ch tok now r")
  have "wi h {} r1 ls" by (rule preflight_wi[OF assms(1) p])
  then have inv1: "reg_inv h {} r1" by (simp add: wi_def)
  have g: "grows r r1" using grows_preflight[OF _ p] assms(1) by (auto simp: wi_def)
  show ?thesis
    using p assms(2) g grows_complete[OF inv1] grows_trans[OF g]
    by (auto simp: complete_migration_def complete_preflighted_migration_def
        split: option.splits sum.splits)
qed

lemma reg_hold [simp]: "reg (hold res ls) = snd res"
  by (cases res) (simp add: hold_def split: sum.splits)

lemma identity_step_grows:
  assumes "world_inv h w"
  shows "grows (reg w) (reg (identity_step h w c))"
proof -
  have w: "wi h {} (reg w) (leases w)" using assms by (simp add: world_inv_wi)
  then have inv: "reg_inv h {} (reg w)" by (simp add: wi_def)
  have snd_grows: "grows (reg w) (snd p)"
    if "\<And>res r'. p = (res, r') \<Longrightarrow> grows (reg w) r'" for p :: "'x \<times> identity_registry"
    using that by (cases p) simp
  note ops = grows_claim[OF inv] grows_preflight[OF inv] grows_complete[OF inv]
    grows_complete_migration[OF w] grows_ensure[OF inv] grows_offline[OF inv]
  note same = same_known_ops[THEN same_known_grows] same_known_sweeps[THEN same_known_grows]
  show ?thesis
  proof (cases c)
    case (IdPrepareThenAbort f now)
    have "grows (reg w) (snd (prepare_preflighted_migration h f now (reg w)))"
      by (rule snd_grows) (rule grows_prepare[OF inv])
    with IdPrepareThenAbort grows_abort grows_trans show ?thesis by fastforce
  qed (simp_all add: same grows_abort grows_lock_then_drop[OF inv],
       (rule snd_grows, erule ops)+)
qed

interpretation identity: fenced_machine identity_start "identity_step h" "world_inv h"
  "\<lambda>w. next_generation (reg w)" for h
proof
  fix w assume "identity_start w"
  then show "world_inv h w"
    by (auto simp: identity_start_def world_inv_def reg_inv_default lease_inv_default)
next
  fix w c assume "world_inv h w"
  then show "world_inv h (identity_step h w c)" "next_generation (reg w) \<le> next_generation (reg (identity_step h w c))"
    using identity_step_inv identity_step_grows by (simp_all add: grows_def)
qed

definition identity_world_after :: "host \<Rightarrow> nat \<Rightarrow> identity_command list \<Rightarrow> identity_world" where
  "identity_world_after h i cs = foldl (identity_step h) \<lparr>reg = default_registry i, leases = []\<rparr> cs"

lemma after_inv: "world_inv h (identity_world_after h i cs)"
  unfolding identity_world_after_def by (rule identity.inv_reachable) (auto simp: identity_start_def)

lemma after_reg_inv: "reg_inv h {} (reg (identity_world_after h i cs))"
  and after_lease_inv: "lease_inv (reg (identity_world_after h i cs)) (leases (identity_world_after h i cs))"
  using after_inv[of h i cs] by (simp_all add: world_inv_def)

end
