(* ===== verification/IdentityProps.thy ===== *)
theory IdentityProps
  imports IdentityMachine
begin

text \<open>
  What the identity registry promises, over every state its machine reaches: one owner per identity,
  exact authorisation, exact operation counts, no operation outliving its generation, and the
  transfer of ownership by a migration.
\<close>

section \<open>Retained generations and their leases\<close>

definition retained_generations :: "identity_registry \<Rightarrow> u64 list" where
  "retained_generations r = map (\<lambda>(_, a). generation a) (active_by_name r) @
     map (\<lambda>d. rel_generation (def_identity d)) (deferred_releases r)"

definition retained_gates :: "identity_registry \<Rightarrow> nat list" where
  "retained_gates r = map (\<lambda>(_, a). operation_gate a) (active_by_name r) @ map def_gate (deferred_releases r)"

lemma active_in_table:
  "reg_inv h K r \<Longrightarrow> (k, a) \<in> set (active_by_name r) \<longleftrightarrow> map_of (active_by_name r) k = Some a"
  using reg_invD(1)[of h K r] by (auto simp: tables_wf_def map_of_in_set)

lemma distinct_active:
  assumes "reg_inv h K r"
    and "\<And>k a k' a'. map_of (active_by_name r) k = Some a \<Longrightarrow>
      map_of (active_by_name r) k' = Some a' \<Longrightarrow> k' \<noteq> k \<Longrightarrow> f a' \<noteq> f a"
  shows "distinct (map (\<lambda>(_, a). f a) (active_by_name r))"
proof -
  have "distinct (active_by_name r)"
    using reg_invD(1)[OF assms(1)] by (auto simp: tables_wf_def wf_table_def distinct_map)
  moreover have "inj_on (\<lambda>(_, a). f a) (set (active_by_name r))"
  proof (rule inj_onI, clarify)
    fix k a k' a' assume "(k, a) \<in> set (active_by_name r)" "(k', a') \<in> set (active_by_name r)" "f a = f a'"
    with assms(2)[of k a k' a'] show "k = k' \<and> a = a'"
      by (cases "k' = k") (auto simp: active_in_table[OF assms(1)])
  qed
  ultimately show ?thesis by (simp add: distinct_map)
qed

lemma distinct_retained:
  assumes "reg_inv h K r"
  shows "distinct (retained_gates r)" "distinct (retained_generations r)"
proof -
  have sep: "generation a' \<noteq> generation a" "operation_gate a' \<noteq> operation_gate a"
    if "map_of (active_by_name r) k = Some a" "map_of (active_by_name r) k' = Some a'" "k' \<noteq> k" for k a k' a'
    using separateD[OF reg_invD(6)[OF assms] that] by simp_all
  have "operation_gate a \<noteq> def_gate d \<and> generation a \<noteq> rel_generation (def_identity d)"
    if "(k, a) \<in> set (active_by_name r)" "d \<in> set (deferred_releases r)" for k a d
    using reg_invD(8)[OF assms that(2)] that(1) by (auto simp: active_in_table[OF assms] release_ok_def)
  then have "(\<lambda>(_, a). operation_gate a) ` set (active_by_name r) \<inter> def_gate ` set (deferred_releases r) = {}"
    "(\<lambda>(_, a). generation a) ` set (active_by_name r) \<inter>
      (\<lambda>d. rel_generation (def_identity d)) ` set (deferred_releases r) = {}"
    by force+
  with distinct_active[OF assms, of operation_gate] distinct_active[OF assms, of generation] sep
    reg_invD(9)[OF assms]
  show "distinct (retained_gates r)" "distinct (retained_generations r)"
    by (simp_all add: retained_gates_def retained_generations_def separate_releases_def comp_def)
qed

lemma sum_indicator:
  "distinct gs \<Longrightarrow> x \<in> set gs \<Longrightarrow> sum_list (map (\<lambda>g. if g = x then 1 else 0) gs) = (1 :: nat)"
proof (induction gs)
  case (Cons g gs)
  have "x \<notin> set hs \<Longrightarrow> sum_list (map (\<lambda>g. if g = x then 1 else 0) hs) = (0 :: nat)" for hs
    by (induction hs) auto
  with Cons show ?case by (cases "g = x") auto
qed simp

lemma sum_held:
  assumes "distinct gs" "\<And>l. l \<in> set ls \<Longrightarrow> lease_gate l \<in> set gs"
  shows "sum_list (map (held ls) gs) = length ls"
  using assms(2)
proof (induction ls)
  case (Cons l ls)
  have "map (held (l # ls)) gs = map (\<lambda>g. held ls g + (if g = lease_gate l then 1 else 0)) gs"
    by (simp add: held_def eq_commute)
  moreover have "sum_list (map (\<lambda>g. if g = lease_gate l then 1 else 0) gs) = (1 :: nat)"
    using assms(1) Cons.prems[of l] by (intro sum_indicator) simp_all
  ultimately have "sum_list (map (held (l # ls)) gs) = sum_list (map (held ls) gs) + 1"
    by (simp only: sum_list_addf)
  with Cons show ?case by simp
qed (simp add: held_def)

lemma saturating_sum:
  fixes M :: nat
  shows "acc \<le> M \<Longrightarrow> fold (\<lambda>n a. min M (a + n)) xs acc = min M (acc + sum_list xs)"
proof (induction xs arbitrary: acc)
  case (Cons x xs)
  from Cons.IH[of "min M (acc + x)"] show ?case by simp
qed simp

text \<open>C9. The operation count is exact. In every reachable state the registry reports as outstanding
  precisely the leases its callers hold (capped at the largest machine integer): none is lost or
  counted twice over admissions, retentions, drops, migrations, disconnects, expiry and shutdown.\<close>

theorem outstanding_operations_exact:
  "outstanding_operation_count (reg (identity_world_after h i cs)) =
     min (2 ^ 64 - 1) (length (leases (identity_world_after h i cs)))"
proof -
  let ?r = "reg (identity_world_after h i cs)" and ?ls = "leases (identity_world_after h i cs)"
  note inv = after_reg_inv[of h i cs] and li = after_lease_inv[of h i cs]
  have "g < next_gate ?r" if "g \<in> set (retained_gates ?r)" for g
    using that reg_invD(5,8)[OF inv]
    by (auto simp: retained_gates_def active_in_table[OF inv] entry_ok_def release_ok_def)
  then have "map (\<lambda>g. outstanding (gates ?r g)) (retained_gates ?r) = map (held ?ls) (retained_gates ?r)"
    using lease_inv_held[OF li] by simp
  moreover have "lease_gate l \<in> set (retained_gates ?r)" if "l \<in> set ?ls" for l
  proof -
    have "retains (map_of (active_by_name ?r)) (deferred_releases ?r) l"
      using li that by (simp add: lease_inv_def)
    then show ?thesis
    proof (cases rule: retainsE)
      case (active k a)
      then have "(k, a) \<in> set (active_by_name ?r)" by (simp add: active_in_table[OF inv])
      with active(2) show ?thesis by (force simp: retained_gates_def)
    next
      case (released d)
      then show ?thesis by (force simp: retained_gates_def)
    qed
  qed
  then have "sum_list (map (held ?ls) (retained_gates ?r)) = length ?ls"
    by (intro sum_held distinct_retained(1)[OF inv])
  moreover have "outstanding_operation_count ?r =
      min (2 ^ 64 - 1) (sum_list (map (\<lambda>g. outstanding (gates ?r g)) (retained_gates ?r)))"
    unfolding outstanding_operation_count_def retained_gates_def
    by (subst saturating_sum) (simp_all add: case_prod_beta' comp_def)
  ultimately show ?thesis by metis
qed

text \<open>C8. One owner per identity. In every reachable state the bindings the registry publishes as
  active have pairwise different user numbers, owning sessions and generations.\<close>

theorem single_owner:
  "distinct (map bind_user_no (active_identities (reg (identity_world_after h i cs)))) \<and>
   distinct (map bind_owner (active_identities (reg (identity_world_after h i cs)))) \<and>
   distinct (map bind_generation (active_identities (reg (identity_world_after h i cs))))"
proof -
  let ?r = "reg (identity_world_after h i cs)"
  note inv = after_reg_inv[of h i cs]
  have distinct_mf: "distinct (map g (List.map_filter (\<lambda>(_, a). active_identity_binding a) t))"
    if "wf_table t" "\<And>k a k' a' s s'. (k, a) \<in> set t \<Longrightarrow> (k', a') \<in> set t \<Longrightarrow> k' \<noteq> k \<Longrightarrow>
      owner a = Some s \<Longrightarrow> owner a' = Some s' \<Longrightarrow>
      g (identity_binding_of a' s') \<noteq> g (identity_binding_of a s)" for g :: "identity_binding \<Rightarrow> 'x" and t
    using that
  proof (induction t)
    case (Cons p t)
    have "g (identity_binding_of (snd p) s) \<noteq> g b"
      if "owner (snd p) = Some s" "b \<in> set (List.map_filter (\<lambda>(_, a). active_identity_binding a) t)" for b s
    proof -
      from that(2) obtain k a s' where *: "(k, a) \<in> set t" "owner a = Some s'" "b = identity_binding_of a s'"
        by (auto simp: in_map_filter active_identity_binding_def)
      then have "k \<noteq> fst p" using Cons.prems(1) by (cases p) (auto simp: wf_table_def image_iff)
      with * that(1) Cons.prems(2)[of k a "fst p" "snd p" s' s] show ?thesis by auto
    qed
    moreover have "distinct (map g (List.map_filter (\<lambda>(_, a). active_identity_binding a) t))"
    proof (rule Cons.IH)
      show "wf_table t" using Cons.prems(1) by (simp add: wf_table_def)
      fix k a k' a' s s'
      assume "(k, a) \<in> set t" "(k', a') \<in> set t" "k' \<noteq> k" "owner a = Some s" "owner a' = Some s'"
      then show "g (identity_binding_of a' s') \<noteq> g (identity_binding_of a s)"
        by (intro Cons.prems(2)[of k a k' a']) simp_all
    qed
    ultimately show ?case
      by (cases p; cases "owner (snd p)") (auto simp: map_filter_simps active_identity_binding_def)
  qed (simp add: map_filter_simps)
  have wf: "wf_table (active_by_name ?r)" using reg_invD(1)[OF inv] by (simp add: tables_wf_def)
  have user: "known_user_no (known a') \<noteq> known_user_no (known a)"
    if "(k, a) \<in> set (active_by_name ?r)" "(k', a') \<in> set (active_by_name ?r)" "k' \<noteq> k" for k a k' a'
  proof
    assume eq: "known_user_no (known a') = known_user_no (known a)"
    have "map_of (known_by_name ?r) k = Some (known a)" "map_of (known_by_name ?r) k' = Some (known a')"
      using that reg_invD(5)[OF inv] by (auto simp: active_in_table[OF inv] entry_ok_def)
    from this[THEN known_invD(5)[OF reg_invD(2)[OF inv]]] eq that(3) show False by simp
  qed
  have own: "s' \<noteq> s" if "(k, a) \<in> set (active_by_name ?r)" "(k', a') \<in> set (active_by_name ?r)" "k' \<noteq> k"
    "owner a = Some s" "owner a' = Some s'" for k a k' a' s s'
  proof
    assume "s' = s"
    note a = that(1)[unfolded active_in_table[OF inv]] and a' = that(2)[unfolded active_in_table[OF inv]]
    from owner_session(1)[OF inv a that(4)] owner_session(1)[OF inv a' that(5)] \<open>s' = s\<close>
    have "known_nickname (known a') = known_nickname (known a)" by (simp add: identity_binding_of_def)
    with owner_session(2)[OF inv a that(4)] owner_session(2)[OF inv a' that(5)] that(3) show False by simp
  qed
  have gen: "generation a' \<noteq> generation a"
    if "(k, a) \<in> set (active_by_name ?r)" "(k', a') \<in> set (active_by_name ?r)" "k' \<noteq> k" for k a k' a'
    using separateD[OF reg_invD(6)[OF inv], of k a k' a'] that by (simp add: active_in_table[OF inv])
  show ?thesis
    unfolding active_identities_def
  proof (intro conjI distinct_mf[OF wf])
    fix k a k' a' s s'
    assume "(k, a) \<in> set (active_by_name ?r)" "(k', a') \<in> set (active_by_name ?r)" "k' \<noteq> k"
      and "owner a = Some s" "owner a' = Some s'"
    from user[OF this(1-3)] own[OF this] gen[OF this(1-3)]
    show "bind_user_no (identity_binding_of a' s') \<noteq> bind_user_no (identity_binding_of a s)"
      "bind_owner (identity_binding_of a' s') \<noteq> bind_owner (identity_binding_of a s)"
      "bind_generation (identity_binding_of a' s') \<noteq> bind_generation (identity_binding_of a s)"
      by (simp_all only: identity_binding_of_def identity_binding.select_convs not_False_eq_True)
  qed
qed

text \<open>C10. Authorisation is exact. A session is authorised, with a binding, exactly when it is the current
  owner of an entry that no migration has frozen and the binding is that entry's; a stale session,
  an older generation or a frozen identity never is.\<close>

theorem authorize_exact:
  "authorize h s (reg (identity_world_after h i cs)) = Inr b \<longleftrightarrow>
   (\<exists>k a. map_of (active_by_name (reg (identity_world_after h i cs))) k = Some a \<and> owner a = Some s \<and>
      transfer_in_progress a = None \<and> b = identity_binding_of a s)"
proof -
  let ?r = "reg (identity_world_after h i cs)"
  note inv = after_reg_inv[of h i cs]
  have "authorize h s ?r = Inr b"
    if "map_of (active_by_name ?r) k = Some a" "owner a = Some s" "transfer_in_progress a = None"
      "b = identity_binding_of a s" for k a
    using owner_session[OF inv that(1,2)] that by (simp add: authorize_def identity_binding_of_def)
  moreover have "\<exists>k a. map_of (active_by_name ?r) k = Some a \<and> owner a = Some s \<and>
      transfer_in_progress a = None \<and> b = identity_binding_of a s" if "authorize h s ?r = Inr b"
    using that inv by (rule authorize_Inr) blast
  ultimately show ?thesis by blast
qed

text \<open>C13. Names and numbers are permanent. Whatever commands follow, a nickname that has a user number
  keeps it, no two nicknames share one, and the next generation only grows.\<close>

theorem user_numbers_permanent:
  "map_of (known_by_name (reg (identity_world_after h i cs))) \<subseteq>\<^sub>m
     map_of (known_by_name (reg (identity_world_after h i (cs @ later)))) \<and>
   next_generation (reg (identity_world_after h i cs)) \<le>
     next_generation (reg (identity_world_after h i (cs @ later))) \<and>
   inj_on (\<lambda>k. known_user_no (the (map_of (known_by_name (reg (identity_world_after h i cs))) k)))
     (dom (map_of (known_by_name (reg (identity_world_after h i cs)))))"
proof -
  let ?w = "identity_world_after h i cs"
  have "grows (reg ?w) (reg (foldl (identity_step h) ?w later))"
    by (rule identity.run_induct[OF after_inv, where P = "\<lambda>w. grows (reg ?w) (reg w)"])
       (auto intro: grows_trans identity_step_grows)
  moreover have "inj_on (\<lambda>k. known_user_no (the (map_of (known_by_name (reg ?w)) k)))
      (dom (map_of (known_by_name (reg ?w))))"
  proof (rule inj_onI, clarify)
    fix k k' x y
    assume "map_of (known_by_name (reg ?w)) k = Some x" "map_of (known_by_name (reg ?w)) k' = Some y"
      "known_user_no (the (map_of (known_by_name (reg ?w)) k)) =
       known_user_no (the (map_of (known_by_name (reg ?w)) k'))"
    then show "k = k'"
      using known_invD(5)[OF reg_invD(2)[OF after_reg_inv], of h i cs k x]
        known_invD(5)[OF reg_invD(2)[OF after_reg_inv], of h i cs k' y] by simp
  qed
  ultimately show ?thesis by (simp add: grows_def identity_world_after_def)
qed

end
