(* ===== verification/IdentityTransfer.thy ===== *)
theory IdentityTransfer
  imports IdentityProps "HOL-Library.Multiset"
begin

text \<open>
  What a migration promises over every state the identity machine reaches: a frozen identity admits
  nothing and its ticket waits for exactly the admitted operations; an abort undoes the freeze;
  a completion moves ownership to a fresh generation that no earlier operation belongs to; a release
  is reported only when its generation is over.
\<close>

section \<open>Reading reachable states\<close>

lemma authorize_owner:
  assumes "reg_inv h K r" "map_of (active_by_name r) k = Some a" "owner a = Some s" "transfer_in_progress a = None"
  shows "authorize h s r = Inr (identity_binding_of a s)"
  using owner_session[OF assms(1-3)] assms by (simp add: authorize_def identity_binding_of_def)

lemma same_user_same_entry:
  assumes "reg_inv h K r" "map_of (active_by_name r) k = Some a" "map_of (active_by_name r) k' = Some a'"
    "known_user_no (known a) = known_user_no (known a')"
  shows "k = k'"
proof -
  have kn: "map_of (known_by_name r) k = Some (known a)" "map_of (known_by_name r) k' = Some (known a')"
    using reg_invD(5)[OF assms(1) assms(2)] reg_invD(5)[OF assms(1) assms(3)] by (simp_all add: entry_ok_def)
  from kn[THEN known_invD(5)[OF reg_invD(2)[OF assms(1)]]] assms(4) show ?thesis by simp
qed

text \<open>A drained generation has no lease: leases are counted by the gate of the generation they belong to.\<close>

lemma drained_generation_no_lease:
  assumes "reg_inv h K r" "lease_inv r ls" "map_of (active_by_name r) k = Some a"
    "is_drained (gates r (operation_gate a))" "l \<in> set ls"
  shows "bind_generation (lease_binding l) \<noteq> generation a"
proof
  assume gen: "bind_generation (lease_binding l) = generation a"
  have "operation_gate a < next_gate r" using reg_invD(5)[OF assms(1,3)] by (simp add: entry_ok_def)
  from drained_no_lease[OF assms(2) this assms(4,5)] have g: "lease_gate l \<noteq> operation_gate a" .
  have "retains (map_of (active_by_name r)) (deferred_releases r) l"
    using assms(2,5) by (simp add: lease_inv_def)
  then show False
  proof (cases rule: retainsE)
    case (active k' a')
    then have "generation a' = generation a" using gen by simp
    with separateD[OF reg_invD(6)[OF assms(1)] assms(3) active(1)] have "k' = k" by blast
    with active assms(3) g show False by simp
  next
    case (released d)
    then have "rel_generation (def_identity d) = generation a" using gen by simp
    with reg_invD(8)[OF assms(1) released(1)] assms(3) show False by (auto simp: release_ok_def)
  qed
qed

lemma drained_release_no_lease:
  assumes "reg_inv h K r" "lease_inv r ls" "d \<in> set (deferred_releases r)"
    "is_drained (gates r (def_gate d))" "l \<in> set ls"
  shows "bind_generation (lease_binding l) \<noteq> rel_generation (def_identity d)"
proof
  assume gen: "bind_generation (lease_binding l) = rel_generation (def_identity d)"
  note D = reg_invD(8)[OF assms(1,3)]
  then have "def_gate d < next_gate r" by (simp add: release_ok_def)
  from drained_no_lease[OF assms(2) this assms(4,5)] have g: "lease_gate l \<noteq> def_gate d" .
  have "retains (map_of (active_by_name r)) (deferred_releases r) l"
    using assms(2,5) by (simp add: lease_inv_def)
  then show False
  proof (cases rule: retainsE)
    case (active k' a')
    then show False using gen D by (auto simp: release_ok_def)
  next
    case (released d')
    then have "rel_generation (def_identity d') = rel_generation (def_identity d)" using gen by simp
    with reg_invD(9)[OF assms(1)] released(1) assms(3) have "d' = d"
      by (auto simp: separate_releases_def distinct_map inj_on_def)
    with released g show False by simp
  qed
qed

section \<open>Freezing\<close>

text \<open>C11. A freeze stops admission and fixes the wait. When a preflight succeeds, no operation of that
  user is admitted any more, over TCP or UDP, no session is authorised for it, and the ticket can be
  completed exactly when the operations admitted before it have drained (and a generation is left).\<close>

theorem freeze_stops_admission:
  "case preflight_migration dest ip n ch tok now (reg (identity_world_after h i cs)) of
     (Some (Inr f), r') \<Rightarrow>
        isl (fst (admit_udp_operation n e r')) \<and>
        (\<nexists>s b. authorize h s r' = Inr b \<and> bind_user_no b = n) \<and>
        validate_preflighted_migration f now r' = Some (
          if \<not> is_drained (gates r' (pf_gate f)) then Inl MigrationOperationsActive
          else if checked_succ (next_generation r') = None then Inl GenerationExhausted else Inr ())
   | (None, _) \<Rightarrow> False
   | (Some (Inl _), r') \<Rightarrow> r' = reg (identity_world_after h i cs)"
proof -
  let ?r = "reg (identity_world_after h i cs)"
  obtain res r' where p: "preflight_migration dest ip n ch tok now ?r = (res, r')"
    by (cases "preflight_migration dest ip n ch tok now ?r")
  have w: "wi h {} r' (leases (identity_world_after h i cs))"
    by (rule preflight_wi[OF _ p]) (simp add: wi_def after_reg_inv after_lease_inv)
  then have inv': "reg_inv h {} r'" by (simp add: wi_def)
  from p after_reg_inv[of h i cs] show ?thesis
  proof (cases rule: preflight_cases)
    case (frozen key a pm nt)
    let ?f = "ticket_of (next_transfer_id ?r) dest ip n ch tok key a pm"
    note V = frozen(1)[unfolded validate_migration_Inr]
    let ?a = "a\<lparr>transfer_in_progress := Some (next_transfer_id ?r)\<rparr>"
    have key: "map_of (active_by_name r') key = Some ?a" by (simp add: frozen(5))
    have user: "known_user_no (known ?a) = n"
      using reg_invD(5)[OF inv' key] V by (simp add: entry_ok_def permit_ok_def)
    have "isl (fst (admit_udp_operation n e r'))"
      using V key by (simp add: admit_udp_operation_def frozen(5) split: option.split)
    moreover have "\<not> (authorize h s r' = Inr b \<and> bind_user_no b = n)" for s b
    proof
      assume "authorize h s r' = Inr b \<and> bind_user_no b = n"
      then have b: "authorize h s r' = Inr b" "bind_user_no b = n" by simp_all
      from b(1) inv' obtain k a' where *: "map_of (active_by_name r') k = Some a'"
        "transfer_in_progress a' = None" "b = identity_binding_of a' s"
        by (rule authorize_Inr) blast
      from b(2) have "known_user_no (known a') = n" by (subst (asm) *(3)) (simp add: identity_binding_of_def)
      with same_user_same_entry[OF inv' key *(1)] user have "k = key" by simp
      with key *(1,2) show False by auto
    qed
    moreover have "validate_migration dest ip n ch tok now r' = Some (Inr (key, ?a, pm))"
      using V unfolding validate_migration_Inr by (simp add: frozen(5))
    then have "validate_preflighted_migration ?f now r' = Some (
          if \<not> is_drained (gates r' (pf_gate ?f)) then Inl MigrationOperationsActive
          else if checked_succ (next_generation r') = None then Inl GenerationExhausted else Inr ())"
      using V key reg_invD(3)[OF inv']
      by (cases "owner a")
         (auto simp: validate_preflighted_migration_def ticket_of_def is_frozen_by_def
           operations_drained_def frozen(5) set_gate_def)
    ultimately show ?thesis by (simp add: p frozen(4))
  qed (simp add: p)
qed

text \<open>C12. An abort undoes its preflight exactly. Aborting the ticket of a preflight restores the whole
  registry, gates and entries, except that the transfer id stays used.\<close>

theorem abort_undoes_preflight:
  "case preflight_migration dest ip n ch tok now (reg (identity_world_after h i cs)) of
     (Some (Inr f), r') \<Rightarrow> abort_preflighted_migration f r' =
        (True, (reg (identity_world_after h i cs))\<lparr>next_transfer_id := next_transfer_id r'\<rparr>)
   | _ \<Rightarrow> True"
proof -
  let ?r = "reg (identity_world_after h i cs)"
  obtain res r' where p: "preflight_migration dest ip n ch tok now ?r = (res, r')"
    by (cases "preflight_migration dest ip n ch tok now ?r")
  from p after_reg_inv[of h i cs] show ?thesis
  proof (cases rule: preflight_cases)
    case (frozen key a pm nt)
    note V = frozen(1)[unfolded validate_migration_Inr]
    have a: "map_of (active_by_name ?r) key = Some a" using V by simp
    have "gate_state (gates ?r (operation_gate a)) = OPEN"
      using reg_invD(5)[OF after_reg_inv a] frozen(2) by (simp add: entry_ok_def states_def frozen_state_def)
    then have gate: "(gates ?r (operation_gate a))\<lparr>gate_state := OPEN\<rparr> = gates ?r (operation_gate a)"
      by (cases "gates ?r (operation_gate a)") simp
    have entry: "a\<lparr>transfer_in_progress := None\<rparr> = a"
      using frozen(2) by (cases a) simp
    let ?f = "ticket_of (next_transfer_id ?r) dest ip n ch tok key a pm"
      and ?a = "a\<lparr>transfer_in_progress := Some (next_transfer_id ?r)\<rparr>"
    obtain ok r'' where ab: "abort_preflighted_migration ?f r' = (ok, r'')"
      by (cases "abort_preflighted_migration ?f r'")
    have "reg_inv h {} r'"
      using preflight_wi[OF _ p, of h "{}" "leases (identity_world_after h i cs)"]
      by (simp add: wi_def after_reg_inv after_lease_inv)
    with ab have "ok \<and> r'' = ?r\<lparr>next_transfer_id := next_transfer_id r'\<rparr>"
    proof (cases rule: abort_cases)
      case stale
      have "owns_transfer ?f r' ?a"
        using V by (simp add: owns_transfer_def ticket_of_def frozen(5) exact_permit_def)
      with stale(3) show ?thesis by blast
    next
      case (reopened a')
      have a': "a' = ?a"
        using reopened(2) by (simp add: owns_transfer_def ticket_of_def frozen(5))
      have "r'' = ?r\<lparr>next_transfer_id := next_transfer_id r'\<rparr>"
        unfolding reopened(3) unfolding a' frozen(5)
        by (simp add: ticket_of_def set_gate_def gate entry a)
      with reopened(1) show ?thesis by simp
    qed
    with ab have "abort_preflighted_migration ?f r' = (True, ?r\<lparr>next_transfer_id := next_transfer_id r'\<rparr>)"
      by simp
    then show ?thesis by (simp add: p frozen(4))
  qed (simp add: p)
qed

section \<open>Completion\<close>

text \<open>Who owns an identity, at which generation.\<close>

definition ownership :: "identity_registry \<Rightarrow> ustring \<Rightarrow> (u64 option \<times> u64 \<times> known_identity) option" where
  "ownership r k = map_option (\<lambda>a. (owner a, generation a, known a)) (map_of (active_by_name r) k)"

lemma abort_ownership:
  "ownership (snd (abort_preflighted_migration f r)) = ownership r \<and>
   session_bindings (snd (abort_preflighted_migration f r)) = session_bindings r"
  by (auto simp: ownership_def abort_preflighted_migration_def gate_reopen_exact_def
      split: option.splits if_splits)

text \<open>C1. A migration transfers ownership, or nothing. A failed completion changes no owner, generation
  or session. A successful one authorises the destination under a fresh, larger generation of the
  same user, nobody else is authorised for that user (so the source is fenced off), and no operation
  admitted under the previous generation is still outstanding.\<close>

theorem migration_transfers_ownership:
  "case complete_preflighted_at_udp_epoch h f now e (reg (identity_world_after h i cs)) of
     (None, _) \<Rightarrow> False
   | (Some (Inl _), r') \<Rightarrow> ownership r' = ownership (reg (identity_world_after h i cs)) \<and>
        session_bindings r' = session_bindings (reg (identity_world_after h i cs))
   | (Some (Inr c), r') \<Rightarrow>
        authorize h (pf_destination_session f) r' = Inr (comp_binding c) \<and>
        bind_user_no (comp_binding c) = bind_user_no (comp_previous_binding c) \<and>
        bind_generation (comp_previous_binding c) < bind_generation (comp_binding c) \<and>
        (\<nexists>s b. s \<noteq> pf_destination_session f \<and> authorize h s r' = Inr b \<and>
           bind_user_no b = bind_user_no (comp_binding c)) \<and>
        list_all (\<lambda>l. bind_generation (lease_binding l) \<noteq> bind_generation (comp_previous_binding c))
          (leases (identity_world_after h i cs))"
proof -
  let ?w = "identity_world_after h i cs"
  let ?r = "reg ?w"
  obtain res r' where p: "complete_preflighted_at_udp_epoch h f now e ?r = (res, r')"
    by (cases "complete_preflighted_at_udp_epoch h f now e ?r")
  have "wi h {} r' (leases ?w)"
    by (rule complete_wi[OF _ p]) (simp add: wi_def after_reg_inv after_lease_inv)
  then have inv': "reg_inv h {} r'" by (simp add: wi_def)
  from p after_reg_inv[of h i cs] show ?thesis
  proof (cases rule: complete_cases)
    case (refused err r1)
    from refused(3) have "ownership r1 = ownership ?r" "session_bindings r1 = session_bindings ?r"
      by (auto simp: ownership_def)
    with abort_ownership[of f r1] show ?thesis by (simp add: p refused(1,2))
  next
    case (success a pm ng)
    note V = success(2)[unfolded validate_migration_Inr]
    have a: "map_of (active_by_name ?r) (pf_canonical f) = Some a" using V by simp
    let ?a = "transferred f a pm (next_generation ?r) (next_gate ?r)"
      and ?c = "completion_of f a pm (next_generation ?r)"
    have key: "map_of (active_by_name r') (pf_canonical f) = Some ?a" unfolding success(8) by simp
    have own: "owner ?a = Some (pf_destination_session f)" by (simp add: transferred_def)
    have "transfer_in_progress ?a = None" by (simp add: transferred_def)
    from authorize_owner[OF inv' key own this]
    have "authorize h (pf_destination_session f) r' = Inr (comp_binding ?c)"
      by (simp add: transferred_binding)
    moreover have "\<not> (s \<noteq> pf_destination_session f \<and> authorize h s r' = Inr b \<and>
        bind_user_no b = bind_user_no (comp_binding ?c))" for s b
    proof
      assume b: "s \<noteq> pf_destination_session f \<and> authorize h s r' = Inr b \<and>
        bind_user_no b = bind_user_no (comp_binding ?c)"
      then have "authorize h s r' = Inr b" by simp
      then obtain k a' where *: "map_of (active_by_name r') k = Some a'" "owner a' = Some s"
        "b = identity_binding_of a' s"
        using inv' by (rule authorize_Inr) blast
      have "known_user_no (known a') = known_user_no (known ?a)"
        using b unfolding *(3) by (simp add: identity_binding_of_def completion_of_def transferred_def)
      with same_user_same_entry[OF inv' key *(1)] have "k = pf_canonical f" by simp
      with key *(1,2) own b show False by auto
    qed
    moreover have "generation a < next_generation ?r"
      using reg_invD(5)[OF after_reg_inv a] by (simp add: entry_ok_def)
    moreover have "bind_generation (lease_binding l) \<noteq> generation a" if "l \<in> set (leases ?w)" for l
      using drained_generation_no_lease[OF after_reg_inv after_lease_inv a _ that] success(3,4) by simp
    ultimately show ?thesis
      by (auto simp: p success(7) completion_of_def identity_binding_of_def list_all_iff)
  qed
qed

section \<open>Releases\<close>

lemma fold_collect_exact:
  "fold collect_one ds (r, rel) = (r', rel') \<Longrightarrow>
   (\<forall>d \<in> set ds. gate_state (gates r (def_gate d)) \<noteq> RETIRED) \<Longrightarrow> distinct (map def_gate ds) \<Longrightarrow>
   deferred_releases r' = deferred_releases r @ filter (\<lambda>d. \<not> is_drained (gates r (def_gate d))) ds \<and>
   rel' = rel @ map def_identity (filter (\<lambda>d. is_drained (gates r (def_gate d))) ds)"
proof (induction ds arbitrary: r rel)
  case (Cons d ds)
  let ?s = "collect_one d (r, rel)"
  have state: "gate_state (gates (fst ?s) (def_gate d')) \<noteq> RETIRED" if "d' \<in> set ds" for d'
    using Cons.prems(2,3) that by (auto simp: collect_one_def gate_retire_drained_def image_iff)
  have dr: "is_drained (gates (fst ?s) g) = is_drained (gates r g)" for g
    by (auto simp: collect_one_def gate_retire_drained_def is_drained_def)
  have "fold collect_one ds (fst ?s, snd ?s) = (r', rel')" using Cons.prems(1) by simp
  from Cons.IH[OF this] state Cons.prems(3) have
    "deferred_releases r' = deferred_releases (fst ?s) @ filter (\<lambda>d. \<not> is_drained (gates r (def_gate d))) ds \<and>
     rel' = snd ?s @ map def_identity (filter (\<lambda>d. is_drained (gates r (def_gate d))) ds)"
    by (simp add: dr)
  moreover have "gate_state (gates r (def_gate d)) \<noteq> RETIRED" using Cons.prems(2) by simp
  ultimately show ?case
    by (auto simp: collect_one_def gate_retire_drained_def)
qed simp

text \<open>Releases are reported once and only when over. Collecting reports exactly the deferred
  releases without an outstanding lease, in the order of their user numbers, keeps the others, and
  no lease belongs to a reported generation.\<close>

theorem releases_reported_when_over:
  "case collect_drained_releases (reg (identity_world_after h i cs)) of (released, r') \<Rightarrow>
     mset released = mset (map def_identity (filter (\<lambda>d. held (leases (identity_world_after h i cs)) (def_gate d) = 0)
        (deferred_releases (reg (identity_world_after h i cs))))) \<and>
     sorted (map (\<lambda>x. unat (rel_user_no x)) released) \<and>
     deferred_releases r' = filter (\<lambda>d. held (leases (identity_world_after h i cs)) (def_gate d) \<noteq> 0)
        (deferred_releases (reg (identity_world_after h i cs))) \<and>
     list_all (\<lambda>l. bind_generation (lease_binding l) \<notin> rel_generation ` set released)
       (leases (identity_world_after h i cs))"
proof -
  let ?w = "identity_world_after h i cs"
  let ?r = "reg ?w"
  note inv = after_reg_inv[of h i cs] and li = after_lease_inv[of h i cs]
  let ?start = "?r\<lparr>deferred_releases := []\<rparr>"
  obtain r' rel where c: "fold collect_one (deferred_releases ?r) (?start, []) = (r', rel)"
    by (cases "fold collect_one (deferred_releases ?r) (?start, [])")
  have "gate_state (gates ?start (def_gate d)) \<noteq> RETIRED" if "d \<in> set (deferred_releases ?r)" for d
    using reg_invD(8)[OF inv that] by (simp add: release_ok_def states_def)
  with fold_collect_exact[OF c] reg_invD(9)[OF inv] have exact:
    "deferred_releases r' = filter (\<lambda>d. \<not> is_drained (gates ?r (def_gate d))) (deferred_releases ?r)"
    "rel = map def_identity (filter (\<lambda>d. is_drained (gates ?r (def_gate d))) (deferred_releases ?r))"
    by (simp_all add: separate_releases_def)
  have drained: "is_drained (gates ?r (def_gate d)) \<longleftrightarrow> held (leases ?w) (def_gate d) = 0"
    if "d \<in> set (deferred_releases ?r)" for d
    using lease_inv_held[OF li, of "def_gate d"] reg_invD(8)[OF inv that]
    by (simp add: release_ok_def outstanding_0)
  have f: "filter (\<lambda>d. is_drained (gates ?r (def_gate d))) (deferred_releases ?r) =
      filter (\<lambda>d. held (leases ?w) (def_gate d) = 0) (deferred_releases ?r)"
    "filter (\<lambda>d. \<not> is_drained (gates ?r (def_gate d))) (deferred_releases ?r) =
      filter (\<lambda>d. held (leases ?w) (def_gate d) \<noteq> 0) (deferred_releases ?r)"
    by (rule filter_cong; simp add: drained)+
  have "bind_generation (lease_binding l) \<notin> rel_generation ` set rel" if "l \<in> set (leases ?w)" for l
    using drained_release_no_lease[OF inv li _ _ that] unfolding exact(2) by auto
  then have "list_all (\<lambda>l. bind_generation (lease_binding l) \<notin> rel_generation ` set rel) (leases ?w)"
    by (simp add: list_all_iff)
  moreover have "collect_drained_releases ?r = (sort_key (\<lambda>x. unat (rel_user_no x)) rel, r')"
    using c by (simp add: collect_drained_releases_def)
  ultimately show ?thesis
    using exact f by (simp add: sorted_sort_key)
qed

end
