(* ===== verification/OperationGate.thy ===== *)
theory OperationGate
  imports IdentityGate
begin

text \<open>
  The admission gate of login wire work (\<open>crates/p4475-server/src/operation_gate.rs\<close>): request
  admission and outbound publication close in separate phases, every admitted operation holds a
  guard, and a waiter returns when its phase has drained or the operator forces the shutdown. The
  state behind the mutex is the record; a guard is its kind; a suspended waiter is modelled as its
  polls. A guard retired twice is the \<open>debug_assert\<close> of the destructor, the value \<open>None\<close>.
\<close>

section \<open>The gate\<close>

record wire_gate =
  accepting_requests :: bool
  accepting_outbound :: bool
  active_requests :: u64
  active_outbound :: u64
  force_bypassed :: bool

record wire_counts =
  count_requests :: u64
  count_outbound :: u64

datatype wire_kind = Request | Outbound

definition new_wire_gate :: wire_gate where
  "new_wire_gate = \<lparr>accepting_requests = True, accepting_outbound = True, active_requests = 0,
     active_outbound = 0, force_bypassed = False\<rparr>"

fun try_begin :: "wire_kind \<Rightarrow> wire_gate \<Rightarrow> wire_kind option \<times> wire_gate" where
  "try_begin Request g =
     (if \<not> accepting_requests g then (None, g)
      else case checked_succ (active_requests g) of
        None \<Rightarrow> (None, g\<lparr>accepting_requests := False\<rparr>)
      | Some n \<Rightarrow> (Some Request, g\<lparr>active_requests := n\<rparr>))"
| "try_begin Outbound g =
     (if \<not> accepting_outbound g then (None, g)
      else case checked_succ (active_outbound g) of
        None \<Rightarrow> (None, g\<lparr>accepting_outbound := False\<rparr>)
      | Some n \<Rightarrow> (Some Outbound, g\<lparr>active_outbound := n\<rparr>))"

definition try_begin_request :: "wire_gate \<Rightarrow> wire_kind option \<times> wire_gate" where
  "try_begin_request = try_begin Request"

definition try_begin_outbound :: "wire_gate \<Rightarrow> wire_kind option \<times> wire_gate" where
  "try_begin_outbound = try_begin Outbound"

definition close_request_admission :: "wire_gate \<Rightarrow> u64 \<times> wire_gate" where
  "close_request_admission g = (active_requests g, g\<lparr>accepting_requests := False\<rparr>)"

definition close_outbound_admission :: "wire_gate \<Rightarrow> u64 \<times> wire_gate" where
  "close_outbound_admission g = (active_outbound g, g\<lparr>accepting_outbound := False\<rparr>)"

definition force_bypass :: "wire_gate \<Rightarrow> wire_counts \<times> wire_gate" where
  "force_bypass g =
     (\<lparr>count_requests = active_requests g, count_outbound = active_outbound g\<rparr>,
      g\<lparr>accepting_requests := False, accepting_outbound := False, force_bypassed := True\<rparr>)"

text \<open>One turn of each waiting loop: \<open>None\<close> suspends until the next change.\<close>

definition poll_request_drain :: "wire_gate \<Rightarrow> bool option" where
  "poll_request_drain g =
     (if force_bypassed g then Some False else if active_requests g = 0 then Some True else None)"

definition poll_outbound_drain :: "wire_gate \<Rightarrow> bool option" where
  "poll_outbound_drain g =
     (if force_bypassed g then Some False else if active_outbound g = 0 then Some True else None)"

definition poll_request_close :: "wire_gate \<Rightarrow> unit option" where
  "poll_request_close g = (if \<not> accepting_requests g then Some () else None)"

text \<open>Dropping a guard, with whether the waiters are notified.\<close>

fun drop_wire_guard :: "wire_kind \<Rightarrow> wire_gate \<Rightarrow> (bool \<times> wire_gate) option" where
  "drop_wire_guard Request g =
     (case checked_pred (active_requests g) of
        None \<Rightarrow> None
      | Some n \<Rightarrow> Some (n = 0, g\<lparr>active_requests := n\<rparr>))"
| "drop_wire_guard Outbound g =
     (case checked_pred (active_outbound g) of
        None \<Rightarrow> None
      | Some n \<Rightarrow> Some (n = 0, g\<lparr>active_outbound := n\<rparr>))"

fun_cases try_begin_SomeE: "try_begin k g = (Some k', g')"

section \<open>The two phases are admission gates\<close>

fun wire_active :: "wire_kind \<Rightarrow> wire_gate \<Rightarrow> nat" where
  "wire_active Request g = unat (active_requests g)"
| "wire_active Outbound g = unat (active_outbound g)"

fun wire_accepting :: "wire_kind \<Rightarrow> wire_gate \<Rightarrow> bool" where
  "wire_accepting Request g = accepting_requests g"
| "wire_accepting Outbound g = accepting_outbound g"

definition wire_admit :: "wire_kind \<Rightarrow> wire_gate \<Rightarrow> bool \<times> wire_gate" where
  "wire_admit k g = (case try_begin k g of (r, g') \<Rightarrow> (r \<noteq> None, g'))"

definition wire_release :: "wire_kind \<Rightarrow> wire_gate \<Rightarrow> wire_gate" where
  "wire_release k g = (case drop_wire_guard k g of None \<Rightarrow> g | Some (_, g') \<Rightarrow> g')"

lemma try_begin_effect:
  assumes "try_begin k g = (r, g')"
  shows "r = None \<or> r = Some k" "r \<noteq> None \<Longrightarrow> wire_accepting k g"
    "wire_active k' g' = (if r \<noteq> None \<and> k' = k then Suc (wire_active k g) else wire_active k' g)"
    "wire_accepting k' g' = (if k' = k then r \<noteq> None else wire_accepting k' g)"
    "force_bypassed g' = force_bypassed g"
  using assms
  by (cases k; cases k'; auto simp: checked_succ_unat split: if_split_asm option.splits)+

lemma drop_wire_guard_effect:
  assumes "drop_wire_guard k g = Some (d, g')"
  shows "wire_active k' g = (if k' = k then Suc (wire_active k g') else wire_active k' g')"
    "wire_accepting k' g' = wire_accepting k' g" "force_bypassed g' = force_bypassed g" "d = (wire_active k g' = 0)"
  using assms
  by (cases k; cases k'; auto simp: unat_eq_0 dest: checked_pred_unat split: option.splits)+

lemma drop_wire_guard_None: "drop_wire_guard k g = None \<longleftrightarrow> wire_active k g = 0"
  by (cases k) (auto simp: checked_pred_def unat_eq_0 split: option.splits if_splits)

interpretation wire_gate: admission_gate "wire_accepting k" "wire_active k" "wire_admit k" "wire_release k" "\<lambda>_. True" for k
proof
  fix g g' assume "wire_admit k g = (True, g')"
  then obtain r where r: "try_begin k g = (r, g')" "r \<noteq> None"
    by (cases "try_begin k g") (auto simp: wire_admit_def)
  then show "wire_accepting k g \<and> wire_accepting k g' \<and> wire_active k g' = Suc (wire_active k g)"
    using try_begin_effect[OF r(1)] by simp
next
  fix g assume "\<not> wire_accepting k g"
  moreover obtain r g' where "try_begin k g = (r, g')" by (cases "try_begin k g")
  ultimately show "\<not> fst (wire_admit k g) \<and> wire_active k (snd (wire_admit k g)) = wire_active k g \<and>
      \<not> wire_accepting k (snd (wire_admit k g))"
    using try_begin_effect[of k g r g'] by (auto simp: wire_admit_def)
next
  fix g show "wire_active k (wire_release k g) = wire_active k g - 1 \<and> wire_accepting k (wire_release k g) = wire_accepting k g"
    using drop_wire_guard_effect[of k g] drop_wire_guard_None[of k g]
    by (auto simp: wire_release_def split: option.splits)
qed simp_all

section \<open>The gate with the guards its clients hold\<close>

record wire_world =
  wgate :: wire_gate
  held_guards :: "wire_kind list"

datatype wire_command = Begin wire_kind | Retire nat | CloseRequests | CloseOutbound | Force

fun wire_step :: "wire_world \<Rightarrow> wire_command \<Rightarrow> wire_world" where
  "wire_step w (Begin k) =
     (case try_begin k (wgate w) of
        (None, g) \<Rightarrow> w\<lparr>wgate := g\<rparr>
      | (Some k', g) \<Rightarrow> \<lparr>wgate = g, held_guards = k' # held_guards w\<rparr>)"
| "wire_step w (Retire i) =
     (if i < length (held_guards w)
      then \<lparr>wgate = wire_release (held_guards w ! i) (wgate w), held_guards = remove1 (held_guards w ! i) (held_guards w)\<rparr>
      else w)"
| "wire_step w CloseRequests = w\<lparr>wgate := snd (close_request_admission (wgate w))\<rparr>"
| "wire_step w CloseOutbound = w\<lparr>wgate := snd (close_outbound_admission (wgate w))\<rparr>"
| "wire_step w Force = w\<lparr>wgate := snd (force_bypass (wgate w))\<rparr>"

definition wire_inv :: "wire_world \<Rightarrow> bool" where
  "wire_inv w \<longleftrightarrow> (\<forall>k. wire_active k (wgate w) = count_list (held_guards w) k) \<and>
     (force_bypassed (wgate w) \<longrightarrow> (\<forall>k. \<not> wire_accepting k (wgate w)))"

lemma closed_gates [simp]:
  "wire_active k (snd (close_request_admission g)) = wire_active k g"
  "wire_active k (snd (close_outbound_admission g)) = wire_active k g" "wire_active k (snd (force_bypass g)) = wire_active k g"
  "wire_accepting k (snd (close_request_admission g)) = (k \<noteq> Request \<and> wire_accepting k g)"
  "wire_accepting k (snd (close_outbound_admission g)) = (k \<noteq> Outbound \<and> wire_accepting k g)"
  "\<not> wire_accepting k (snd (force_bypass g))" "force_bypassed (snd (force_bypass g))"
  "force_bypassed (snd (close_request_admission g)) = force_bypassed g"
  "force_bypassed (snd (close_outbound_admission g)) = force_bypassed g"
  by (cases k; simp add: close_request_admission_def close_outbound_admission_def force_bypass_def)+

lemma wire_step_inv:
  assumes "wire_inv w"
  shows "wire_inv (wire_step w c)"
proof (cases c)
  case (Begin k)
  obtain r g where r: "try_begin k (wgate w) = (r, g)" by (cases "try_begin k (wgate w)")
  from try_begin_effect[OF r] assms show ?thesis
    by (cases r) (auto simp: Begin r wire_inv_def)
next
  case (Retire i)
  show ?thesis
  proof (cases "i < length (held_guards w)")
    case True
    let ?k = "held_guards w ! i"
    have k: "?k \<in> set (held_guards w)" using True by simp
    then have "wire_active ?k (wgate w) \<noteq> 0" using assms by (simp add: wire_inv_def count_list_0_iff)
    then obtain d g where "drop_wire_guard ?k (wgate w) = Some (d, g)"
      using drop_wire_guard_None by (cases "drop_wire_guard ?k (wgate w)") auto
    note d = this drop_wire_guard_effect[OF this]
    have "count_list (remove1 x xs) y = count_list xs y - (if x = y then 1 else 0)" for x y :: wire_kind and xs
      by (induction xs) (auto simp: count_list_0_iff)
    moreover have "wire_active k' (wgate w) = count_list (held_guards w) k'" for k' using assms by (simp add: wire_inv_def)
    ultimately have "wire_active k' g = count_list (remove1 ?k (held_guards w)) k'" for k'
      using d(2)[of k'] by (cases "k' = ?k") auto
    then show ?thesis
      using assms d(3,4) by (simp add: Retire True wire_inv_def wire_release_def d(1))
  qed (use assms Retire in simp)
qed (use assms in \<open>auto simp: wire_inv_def\<close>)

text \<open>A phase that has stopped accepting never accepts again: the fence of the machine.\<close>

definition sealed :: "wire_world \<Rightarrow> wire_kind \<Rightarrow> bool" where
  "sealed w k \<longleftrightarrow> \<not> wire_accepting k (wgate w)"

lemma wire_step_sealed: "sealed w k \<Longrightarrow> sealed (wire_step w c) k"
proof (cases c)
  case (Begin k')
  assume *: "sealed w k"
  obtain r g where r: "try_begin k' (wgate w) = (r, g)" by (cases "try_begin k' (wgate w)")
  show ?thesis
    using try_begin_effect(2,4)[OF r] * by (cases r) (auto simp: Begin r sealed_def)
qed (auto simp: sealed_def wire_release_def drop_wire_guard_effect split: option.splits)

interpretation wire: fenced_machine "\<lambda>w. w = \<lparr>wgate = new_wire_gate, held_guards = []\<rparr>" wire_step wire_inv sealed
proof
  fix w assume w: "w = \<lparr>wgate = new_wire_gate, held_guards = []\<rparr>"
  have "wire_active k new_wire_gate = 0" for k by (cases k) (simp_all add: new_wire_gate_def)
  then show "wire_inv w" by (simp add: w wire_inv_def new_wire_gate_def)
qed (auto simp: wire_step_inv wire_step_sealed)

definition wire_world_after :: "wire_command list \<Rightarrow> wire_world" where
  "wire_world_after cs = foldl wire_step \<lparr>wgate = new_wire_gate, held_guards = []\<rparr> cs"

lemma wire_after_inv: "wire_inv (wire_world_after cs)"
  unfolding wire_world_after_def by (rule wire.inv_reachable) simp

text \<open>A closed phase needs exactly as many retirements as guards are held, however many attempts come.\<close>

lemma closed_phase_drains:
  "sealed (wire_world_after cs) k \<Longrightarrow>
   wire_active k (wire_gate.attempts k (wgate (wire_world_after cs)) as) =
     count_list (held_guards (wire_world_after cs)) k - length (filter Not as)"
  using wire_gate.closed_drains[of k "wgate (wire_world_after cs)" as] wire_after_inv[of cs]
  by (simp add: sealed_def wire_inv_def)

section \<open>Properties\<close>

text \<open>C14. The drain of the wire gate is exact. In every reachable state a drain waiter is released with
  success exactly when no guard of its phase is left and the shutdown is not forced, with failure
  exactly when it is forced; no held guard can be retired twice; and a phase that was closed or
  sealed by exhaustion never accepts again.\<close>

theorem wire_drain_exact:
  "poll_request_drain (wgate (wire_world_after cs)) =
     (if force_bypassed (wgate (wire_world_after cs)) then Some False
      else if Request \<in> set (held_guards (wire_world_after cs)) then None else Some True) \<and>
   poll_outbound_drain (wgate (wire_world_after cs)) =
     (if force_bypassed (wgate (wire_world_after cs)) then Some False
      else if Outbound \<in> set (held_guards (wire_world_after cs)) then None else Some True) \<and>
   list_all (\<lambda>k. drop_wire_guard k (wgate (wire_world_after cs)) \<noteq> None) (held_guards (wire_world_after cs)) \<and>
   sealed (wire_world_after cs) \<le> sealed (wire_world_after (cs @ later))"
proof -
  let ?w = "wire_world_after cs"
  have count: "wire_active k (wgate ?w) = 0 \<longleftrightarrow> k \<notin> set (held_guards ?w)" for k
    using wire_after_inv[of cs] by (simp add: wire_inv_def count_list_0_iff)
  have "list_all (\<lambda>k. drop_wire_guard k (wgate ?w) \<noteq> None) (held_guards ?w)"
    by (simp add: list_all_iff drop_wire_guard_None count)
  moreover have "sealed ?w \<le> sealed (wire_world_after (cs @ later))"
    using wire.fence_run[OF wire_after_inv[of cs]] by (simp add: wire_world_after_def)
  ultimately show ?thesis
    using count[of Request] count[of Outbound]
    by (simp add: poll_request_drain_def poll_outbound_drain_def unat_eq_0)
qed

end
