(* ===== verification/UdpState.thy ===== *)
theory UdpState
  imports Identity
begin

text \<open>
  The UDP endpoint bindings of the active identities (\<open>crates/p4475-server/src/udp_state.rs\<close>): a
  bounded mirror of the identity generations, and one endpoint table per transport in which the
  first endpoint of a generation wins. Every operation is a function on the state.
\<close>

section \<open>Data\<close>

definition DEFAULT_MAXIMUM_ACTIVE_UDP_IDENTITIES :: nat where
  "DEFAULT_MAXIMUM_ACTIVE_UDP_IDENTITIES = 4096"

datatype udp_transport = GameUdp | P2pUdp

record socket_addr =
  sock_ip :: ip_addr
  sock_port :: u16

record udp_endpoint_binding =
  ep_endpoint :: socket_addr
  ep_route_hash :: u32
  ep_generation :: u64
  ep_direct_p2p :: bool

datatype udp_bind_status = Bound | Refreshed | AdvancedGeneration

record udp_ingress_binding =
  ing_identity :: identity_binding
  ing_endpoint :: udp_endpoint_binding
  ing_status :: udp_bind_status

record current_udp_endpoint =
  cur_identity :: identity_binding
  cur_endpoint :: udp_endpoint_binding

datatype udp_error =
  ZeroAccountId
| InactiveAccount u32
| ActiveIdentityCapacity nat
| InvalidSourceEndpoint socket_addr
| UdpSourceIpMismatch u32 ip_addr ip_addr
| EndpointMismatch udp_transport u32 u64 socket_addr socket_addr
| StaleGeneration udp_transport u32 u64 u64
| IngressPredatesReconnect udp_transport u32 u64 u64

record udp_active =
  ua_generation :: u64
  ua_source_ip :: ip_addr
  ua_boundary :: "u64 option"

datatype table_error =
  TableEndpointMismatch udp_endpoint_binding
| TableStaleGeneration u64 u64

type_synonym endpoint_table = "(u32, udp_endpoint_binding) table"

record udp_state =
  udp_active :: "(u32, udp_active) table"
  maximum_active :: nat
  game_table :: endpoint_table
  p2p_table :: endpoint_table

definition with_max_active_identities :: "nat \<Rightarrow> udp_state" where
  "with_max_active_identities n =
     \<lparr>udp_active = [], maximum_active = n, game_table = [], p2p_table = []\<rparr>"

definition default_udp_state :: udp_state where
  "default_udp_state = with_max_active_identities DEFAULT_MAXIMUM_ACTIVE_UDP_IDENTITIES"

definition udp_active_from :: "identity_binding \<Rightarrow> udp_active" where
  "udp_active_from b = \<lparr>ua_generation = bind_generation b, ua_source_ip = bind_source_ip b,
     ua_boundary = None\<rparr>"

definition active_identity_count :: "udp_state \<Rightarrow> nat" where
  "active_identity_count u = length (udp_active u)"

section \<open>The endpoint table of one transport\<close>

definition table_bind ::
  "u32 \<Rightarrow> udp_endpoint_binding \<Rightarrow> endpoint_table \<Rightarrow>
   (table_error + udp_bind_status \<times> udp_endpoint_binding) \<times> endpoint_table" where
  "table_bind n c t =
     (case map_of t n of
        None \<Rightarrow> (Inr (Bound, c), tput n c t)
      | Some cur \<Rightarrow>
          if ep_generation c < ep_generation cur
          then (Inl (TableStaleGeneration (ep_generation cur) (ep_generation c)), t)
          else if ep_generation cur = ep_generation c \<and> ep_endpoint cur \<noteq> ep_endpoint c
          then (Inl (TableEndpointMismatch cur), t)
          else if ep_generation cur = ep_generation c then (Inr (Refreshed, c), tput n c t)
          else (Inr (AdvancedGeneration, c), tput n c t))"

definition get_authorized :: "u32 \<Rightarrow> u64 \<Rightarrow> endpoint_table \<Rightarrow> udp_endpoint_binding option" where
  "get_authorized n gen t =
     (case map_of t n of None \<Rightarrow> None | Some b \<Rightarrow> if ep_generation b = gen then Some b else None)"

definition table_release :: "u32 \<Rightarrow> u64 \<Rightarrow> endpoint_table \<Rightarrow> endpoint_table" where
  "table_release n gen t =
     (case map_of t n of None \<Rightarrow> t | Some b \<Rightarrow> if ep_generation b = gen then tdel n t else t)"

fun map_table_error :: "udp_transport \<Rightarrow> u32 \<Rightarrow> socket_addr \<Rightarrow> table_error \<Rightarrow> udp_error" where
  "map_table_error tr n attempted (TableEndpointMismatch cur) =
     EndpointMismatch tr n (ep_generation cur) (ep_endpoint cur) attempted"
| "map_table_error tr n attempted (TableStaleGeneration cur att) = StaleGeneration tr n att cur"

fun udp_table :: "udp_transport \<Rightarrow> udp_state \<Rightarrow> endpoint_table" where
  "udp_table GameUdp u = game_table u"
| "udp_table P2pUdp u = p2p_table u"

fun udp_table_update :: "udp_transport \<Rightarrow> endpoint_table \<Rightarrow> udp_state \<Rightarrow> udp_state" where
  "udp_table_update GameUdp t u = u\<lparr>game_table := t\<rparr>"
| "udp_table_update P2pUdp t u = u\<lparr>p2p_table := t\<rparr>"

section \<open>Operations\<close>

definition advance_identity :: "identity_binding \<Rightarrow> udp_state \<Rightarrow> (udp_error + unit) \<times> udp_state" where
  "advance_identity b u =
     (case map_of (udp_active u) (bind_user_no b) of
        Some cur \<Rightarrow>
          if bind_generation b < ua_generation cur then (Inr (), u)
          else if ua_generation cur = bind_generation b then
            if ua_source_ip cur \<noteq> bind_source_ip b
            then (Inl (UdpSourceIpMismatch (bind_user_no b) (ua_source_ip cur) (bind_source_ip b)), u)
            else (Inr (), u)
          else (Inr (), u\<lparr>udp_active := tput (bind_user_no b) (udp_active_from b) (udp_active u)\<rparr>)
      | None \<Rightarrow>
          if maximum_active u \<le> length (udp_active u)
          then (Inl (ActiveIdentityCapacity (maximum_active u)), u)
          else (Inr (), u\<lparr>udp_active := tput (bind_user_no b) (udp_active_from b) (udp_active u)\<rparr>))"

definition bind_authorized_ingress_at ::
  "udp_transport \<Rightarrow> identity_binding \<Rightarrow> socket_addr \<Rightarrow> u32 \<Rightarrow> u64 \<Rightarrow> udp_state \<Rightarrow>
   (udp_error + udp_ingress_binding) \<times> udp_state" where
  "bind_authorized_ingress_at tr b source route_hash arrival u =
     (if sock_port source = 0 then (Inl (InvalidSourceEndpoint source), u)
      else case map_of (udp_active u) (bind_user_no b) of
        None \<Rightarrow> (Inl (InactiveAccount (bind_user_no b)), u)
      | Some a \<Rightarrow>
          if ua_generation a \<noteq> bind_generation b
          then (Inl (StaleGeneration tr (bind_user_no b) (bind_generation b) (ua_generation a)), u)
          else if bind_source_ip b \<noteq> ua_source_ip a
          then (Inl (UdpSourceIpMismatch (bind_user_no b) (ua_source_ip a) (bind_source_ip b)), u)
          else if (case ua_boundary a of None \<Rightarrow> False | Some e \<Rightarrow> arrival \<le> e)
          then (Inl (IngressPredatesReconnect tr (bind_user_no b) arrival (the (ua_boundary a))), u)
          else if sock_ip source \<noteq> ua_source_ip a
          then (Inl (UdpSourceIpMismatch (bind_user_no b) (ua_source_ip a) (sock_ip source)), u)
          else
            let c = \<lparr>ep_endpoint = source, ep_route_hash = route_hash,
                  ep_generation = bind_generation b, ep_direct_p2p = False\<rparr>
            in case table_bind (bind_user_no b) c (udp_table tr u) of
                 (Inl e, t) \<Rightarrow> (Inl (map_table_error tr (bind_user_no b) source e), udp_table_update tr t u)
               | (Inr (st, ep), t) \<Rightarrow>
                   (Inr \<lparr>ing_identity = b, ing_endpoint = ep, ing_status = st\<rparr>, udp_table_update tr t u))"

definition bind_authorized_ingress ::
  "udp_transport \<Rightarrow> identity_binding \<Rightarrow> socket_addr \<Rightarrow> u32 \<Rightarrow> udp_state \<Rightarrow>
   (udp_error + udp_ingress_binding) \<times> udp_state" where
  "bind_authorized_ingress tr b source route_hash = bind_authorized_ingress_at tr b source route_hash (- 1)"

definition bind_ingress ::
  "identity_registry \<Rightarrow> udp_transport \<Rightarrow> u32 \<Rightarrow> socket_addr \<Rightarrow> u32 \<Rightarrow> udp_state \<Rightarrow>
   (udp_error + udp_ingress_binding) \<times> udp_state" where
  "bind_ingress r tr account source route_hash u =
     (case new_user_no account of
        None \<Rightarrow> (Inl ZeroAccountId, u)
      | Some n \<Rightarrow>
      (case active_identity_by_user_no n r of
        None \<Rightarrow> (Inl (InactiveAccount account), u)
      | Some b \<Rightarrow>
          (case advance_identity b u of
             (Inl e, u) \<Rightarrow> (Inl e, u)
           | (Inr _, u) \<Rightarrow> bind_authorized_ingress tr b source route_hash u)))"

definition authorize_rebind :: "identity_binding \<Rightarrow> u64 \<Rightarrow> udp_state \<Rightarrow> (udp_error + unit) \<times> udp_state" where
  "authorize_rebind b boundary u =
     (case map_of (udp_active u) (bind_user_no b) of
        None \<Rightarrow> (Inl (InactiveAccount (bind_user_no b)), u)
      | Some a \<Rightarrow>
          if ua_generation a \<noteq> bind_generation b
          then (Inl (StaleGeneration GameUdp (bind_user_no b) (bind_generation b) (ua_generation a)), u)
          else if ua_source_ip a \<noteq> bind_source_ip b
          then (Inl (UdpSourceIpMismatch (bind_user_no b) (ua_source_ip a) (bind_source_ip b)), u)
          else if (case ua_boundary a of None \<Rightarrow> False | Some cur \<Rightarrow> boundary \<le> cur) then (Inr (), u)
          else (Inr (), u
            \<lparr>udp_active := tput (bind_user_no b) (a\<lparr>ua_boundary := Some boundary\<rparr>) (udp_active u),
             game_table := table_release (bind_user_no b) (bind_generation b) (game_table u),
             p2p_table := table_release (bind_user_no b) (bind_generation b) (p2p_table u)\<rparr>))"

definition current_authorized_target ::
  "udp_transport \<Rightarrow> identity_binding \<Rightarrow> udp_state \<Rightarrow> current_udp_endpoint option" where
  "current_authorized_target tr b u =
     (case map_of (udp_active u) (bind_user_no b) of
        None \<Rightarrow> None
      | Some a \<Rightarrow>
          if ua_generation a \<noteq> bind_generation b \<or> ua_source_ip a \<noteq> bind_source_ip b then None
          else case get_authorized (bind_user_no b) (bind_generation b) (udp_table tr u) of
            None \<Rightarrow> None
          | Some ep \<Rightarrow>
              if ep_generation ep \<noteq> bind_generation b \<or> sock_ip (ep_endpoint ep) \<noteq> bind_source_ip b then None
              else Some \<lparr>cur_identity = b, cur_endpoint = ep\<rparr>)"

definition current_target ::
  "identity_registry \<Rightarrow> udp_transport \<Rightarrow> u32 \<Rightarrow> udp_state \<Rightarrow> current_udp_endpoint option" where
  "current_target r tr n u =
     (case active_identity_by_user_no n r of None \<Rightarrow> None
      | Some b \<Rightarrow> current_authorized_target tr b u)"

definition remove_released_identity :: "released_identity \<Rightarrow> udp_state \<Rightarrow> udp_state" where
  "remove_released_identity i u =
     (case map_of (udp_active u) (rel_user_no i) of
        None \<Rightarrow> u
      | Some a \<Rightarrow>
          if ua_generation a \<noteq> rel_generation i then u
          else u\<lparr>udp_active := tdel (rel_user_no i) (udp_active u),
             game_table := table_release (rel_user_no i) (rel_generation i) (game_table u),
             p2p_table := table_release (rel_user_no i) (rel_generation i) (p2p_table u)\<rparr>)"

definition clear_udp :: "udp_state \<Rightarrow> udp_state" where
  "clear_udp u = u\<lparr>udp_active := [], game_table := [], p2p_table := []\<rparr>"

section \<open>The machine\<close>

datatype udp_command =
  UdpAdvance identity_binding
| UdpBind udp_transport identity_binding socket_addr u32 u64
| UdpRebind identity_binding u64
| UdpRemove released_identity
| UdpClear

fun udp_step :: "udp_state \<Rightarrow> udp_command \<Rightarrow> udp_state" where
  "udp_step u (UdpAdvance b) = snd (advance_identity b u)"
| "udp_step u (UdpBind tr b src rh e) = snd (bind_authorized_ingress_at tr b src rh e u)"
| "udp_step u (UdpRebind b e) = snd (authorize_rebind b e u)"
| "udp_step u (UdpRemove i) = remove_released_identity i u"
| "udp_step u UdpClear = clear_udp u"

definition endpoint_ok :: "udp_endpoint_binding \<Rightarrow> bool" where
  "endpoint_ok ep \<longleftrightarrow> sock_port (ep_endpoint ep) \<noteq> 0 \<and> \<not> ep_direct_p2p ep"

definition udp_inv :: "udp_state \<Rightarrow> bool" where
  "udp_inv u \<longleftrightarrow> wf_table (udp_active u) \<and> wf_table (game_table u) \<and> wf_table (p2p_table u) \<and>
     length (udp_active u) \<le> maximum_active u \<and>
     (\<forall>tr n ep. map_of (udp_table tr u) n = Some ep \<longrightarrow> endpoint_ok ep)"

lemma udp_table_other [simp]:
  "udp_active (udp_table_update tr t u) = udp_active u"
  "maximum_active (udp_table_update tr t u) = maximum_active u"
  "udp_table tr' (udp_table_update tr t u) = (if tr' = tr then t else udp_table tr' u)"
  "udp_table_update tr (udp_table tr u) u = u"
  by (cases tr; cases tr'; simp)+

lemma udp_table_active [simp]: "udp_table tr (u\<lparr>udp_active := x\<rparr>) = udp_table tr u"
  by (cases tr) simp_all

lemma udp_table_release [simp]:
  "udp_table tr (u\<lparr>udp_active := x, game_table := table_release n g (game_table u),
     p2p_table := table_release n g (p2p_table u)\<rparr>) = table_release n g (udp_table tr u)"
  by (cases tr) simp_all

lemma table_release_lookup:
  "map_of (table_release n g t) k = (case map_of t k of None \<Rightarrow> None
     | Some ep \<Rightarrow> if k = n \<and> ep_generation ep = g then None else Some ep)"
  by (auto simp: table_release_def split: option.splits)

lemma table_release_wf [simp]: "wf_table t \<Longrightarrow> wf_table (table_release n g t)"
  by (auto simp: table_release_def split: option.splits)

lemma udp_invI:
  "wf_table (udp_active u) \<Longrightarrow> (\<And>tr. wf_table (udp_table tr u)) \<Longrightarrow>
   length (udp_active u) \<le> maximum_active u \<Longrightarrow>
   (\<And>tr n ep. map_of (udp_table tr u) n = Some ep \<Longrightarrow> endpoint_ok ep) \<Longrightarrow> udp_inv u"
  unfolding udp_inv_def by (metis udp_table.simps)

lemma udp_invD:
  assumes "udp_inv u"
  shows "wf_table (udp_active u)" "wf_table (udp_table tr u)" "length (udp_active u) \<le> maximum_active u"
    "map_of (udp_table tr u) n = Some ep \<Longrightarrow> endpoint_ok ep"
proof -
  show "wf_table (udp_active u)" "length (udp_active u) \<le> maximum_active u"
    using assms by (simp_all add: udp_inv_def)
  show "wf_table (udp_table tr u)" using assms by (cases tr) (simp_all add: udp_inv_def)
  show "map_of (udp_table tr u) n = Some ep \<Longrightarrow> endpoint_ok ep"
    using assms unfolding udp_inv_def by blast
qed

text \<open>A bind either fails and changes nothing, or installs its candidate.\<close>

lemma bind_cases:
  assumes "bind_authorized_ingress_at tr b src rh e u = (res, u')"
  obtains (refused) err where "res = Inl err" "u' = u"
  | (installed) a c st where "sock_port src \<noteq> 0" "map_of (udp_active u) (bind_user_no b) = Some a"
      "ua_generation a = bind_generation b" "ua_source_ip a = bind_source_ip b"
      "sock_ip src = bind_source_ip b" "\<And>e'. ua_boundary a = Some e' \<Longrightarrow> e' < e"
      "c = \<lparr>ep_endpoint = src, ep_route_hash = rh, ep_generation = bind_generation b, ep_direct_p2p = False\<rparr>"
      "res = Inr \<lparr>ing_identity = b, ing_endpoint = c, ing_status = st\<rparr>"
      "u' = udp_table_update tr (tput (bind_user_no b) c (udp_table tr u)) u"
      "\<And>cur. map_of (udp_table tr u) (bind_user_no b) = Some cur \<Longrightarrow> ep_generation cur \<le> bind_generation b"
      "\<And>cur. map_of (udp_table tr u) (bind_user_no b) = Some cur \<Longrightarrow>
          ep_generation cur = bind_generation b \<Longrightarrow> ep_endpoint cur = src"
proof (cases "map_of (udp_active u) (bind_user_no b)")
  case None
  with assms refused[of "if sock_port src = 0 then InvalidSourceEndpoint src else InactiveAccount (bind_user_no b)"]
  show thesis
    by (cases "sock_port src = 0") (auto simp: bind_authorized_ingress_at_def)
next
  case (Some a)
  let ?c = "\<lparr>ep_endpoint = src, ep_route_hash = rh, ep_generation = bind_generation b, ep_direct_p2p = False\<rparr>"
  show thesis
  proof (cases "sock_port src \<noteq> 0 \<and> ua_generation a = bind_generation b \<and> bind_source_ip b = ua_source_ip a \<and>
      \<not> (case ua_boundary a of None \<Rightarrow> False | Some e' \<Rightarrow> e \<le> e') \<and> sock_ip src = ua_source_ip a")
    case False
    have "\<exists>err. bind_authorized_ingress_at tr b src rh e u = (Inl err, u)"
      using Some False unfolding bind_authorized_ingress_at_def
      by (simp del: not_None_eq) (metis (no_types, lifting))
    with assms refused show thesis by auto
  next
    case True
    obtain x t where x: "table_bind (bind_user_no b) ?c (udp_table tr u) = (x, t)"
      by (cases "table_bind (bind_user_no b) ?c (udp_table tr u)")
    show thesis
    proof (cases x)
      case (Inl err)
      then have "t = udp_table tr u" using x by (auto simp: table_bind_def split: option.splits if_splits)
      with assms Some True x Inl refused[of "map_table_error tr (bind_user_no b) src err"] show thesis
        by (simp add: bind_authorized_ingress_at_def)
    next
      case (Inr y)
      then obtain st where y: "x = Inr (st, ?c)" "t = tput (bind_user_no b) ?c (udp_table tr u)"
        "\<And>cur. map_of (udp_table tr u) (bind_user_no b) = Some cur \<Longrightarrow> ep_generation cur \<le> bind_generation b \<and>
          (ep_generation cur = bind_generation b \<longrightarrow> ep_endpoint cur = src)"
        using x by (auto simp: table_bind_def not_less split: option.splits if_splits)
      from assms Some True x y(1,2) show thesis
        by (intro installed[of a ?c st])
           (simp_all add: bind_authorized_ingress_at_def y(3) not_le split: option.splits)
    qed
  qed
qed

lemma udp_inv_active:
  assumes "udp_inv u" "wf_table x" "length x \<le> maximum_active u"
  shows "udp_inv (u\<lparr>udp_active := x\<rparr>)"
  using assms(2,3) udp_invD(2,4)[OF assms(1)] by (intro udp_invI) simp_all

lemma udp_inv_released:
  assumes "udp_inv u" "wf_table x" "length x \<le> maximum_active u"
  shows "udp_inv (u\<lparr>udp_active := x, game_table := table_release n g (game_table u),
     p2p_table := table_release n g (p2p_table u)\<rparr>)"
  using assms(2,3) udp_invD(2,4)[OF assms(1)]
  by (intro udp_invI) (simp_all add: table_release_lookup split: option.splits if_split_asm)

lemma advance_cases:
  obtains (same) res where "advance_identity b u = (res, u)"
  | (activated) "map_of (udp_active u) (bind_user_no b) = None \<Longrightarrow> length (udp_active u) < maximum_active u"
      "\<And>a. map_of (udp_active u) (bind_user_no b) = Some a \<Longrightarrow> ua_generation a < bind_generation b"
      "advance_identity b u =
        (Inr (), u\<lparr>udp_active := tput (bind_user_no b) (udp_active_from b) (udp_active u)\<rparr>)"
proof (cases "map_of (udp_active u) (bind_user_no b)")
  case None
  then show thesis
    by (cases "length (udp_active u) < maximum_active u")
       (auto simp: advance_identity_def intro: same activated)
next
  case (Some a)
  consider "bind_generation b < ua_generation a" | "ua_generation a = bind_generation b"
    | "ua_generation a < bind_generation b" by (rule linorder_less_linear[THEN disjE]) auto
  then show thesis
  proof cases
    case 3
    with Some show thesis by (intro activated) (auto simp: advance_identity_def)
  next
    case 2
    with Some show thesis
      by (cases "ua_source_ip a = bind_source_ip b") (auto simp: advance_identity_def intro: same)
  qed (use Some same in \<open>simp add: advance_identity_def\<close>)
qed

lemma udp_step_inv:
  assumes "udp_inv u"
  shows "udp_inv (udp_step u c)"
proof (cases c)
  case (UdpAdvance b)
  show ?thesis
  proof (cases rule: advance_cases[of b u])
    case activated
    then have "length (tput (bind_user_no b) (udp_active_from b) (udp_active u)) \<le> maximum_active u"
      by (intro tbl.put_within_capacity udp_invD(3)[OF assms]) auto
    then show ?thesis using udp_invD(1)[OF assms]
      by (simp add: UdpAdvance activated(3) udp_inv_active[OF assms])
  qed (simp add: UdpAdvance assms)
next
  case (UdpBind tr b src rh e)
  obtain res u' where r: "bind_authorized_ingress_at tr b src rh e u = (res, u')"
    by (cases "bind_authorized_ingress_at tr b src rh e u")
  then show ?thesis
  proof (cases rule: bind_cases)
    case (installed a c st)
    then show ?thesis
      using udp_invD[OF assms] r
      by (auto simp: UdpBind endpoint_ok_def intro!: udp_invI split: if_splits)
  qed (simp add: UdpBind r assms)
next
  case (UdpRebind b e)
  have "length (tput (bind_user_no b) x (udp_active u)) \<le> maximum_active u"
    if "map_of (udp_active u) (bind_user_no b) = Some a" for a x
    using udp_invD(3)[OF assms] that by (simp add: length_tput)
  then show ?thesis
    using assms udp_invD(1)[OF assms]
    by (auto simp: UdpRebind authorize_rebind_def intro!: udp_inv_released split: option.splits)
next
  case (UdpRemove i)
  show ?thesis
    using assms udp_invD(1)[OF assms] tbl.del_within_capacity[OF udp_invD(1,3)[OF assms]]
    by (auto simp: UdpRemove remove_released_identity_def intro!: udp_inv_released split: option.splits)
next
  case UdpClear
  have "map_of (udp_table tr (clear_udp u)) n = None" for tr n by (cases tr) (simp_all add: clear_udp_def)
  moreover have "wf_table (udp_table tr (clear_udp u))" for tr by (cases tr) (simp_all add: clear_udp_def)
  ultimately show ?thesis by (intro udp_invI) (simp_all add: UdpClear, simp_all add: clear_udp_def)
qed

text \<open>
  A user's generation in the mirror, with the reconnect boundary: what the operations other than a
  release of that user only move forward.
\<close>

definition fenced :: "u32 \<Rightarrow> u64 \<Rightarrow> u64 \<Rightarrow> udp_state \<Rightarrow> bool" where
  "fenced n gen e u \<longleftrightarrow> (case map_of (udp_active u) n of None \<Rightarrow> False
     | Some a \<Rightarrow> gen < ua_generation a \<or>
         ua_generation a = gen \<and> (case ua_boundary a of None \<Rightarrow> False | Some e' \<Rightarrow> e \<le> e'))"

definition keeps_user :: "u32 \<Rightarrow> udp_command \<Rightarrow> bool" where
  "keeps_user n c \<longleftrightarrow> (case c of UdpRemove i \<Rightarrow> rel_user_no i \<noteq> n | UdpClear \<Rightarrow> False | _ \<Rightarrow> True)"

lemma fenced_bind: "fenced n gen e u \<Longrightarrow> fenced n gen e (snd (bind_authorized_ingress_at tr b src rh e' u))"
  by (rule bind_cases[of tr b src rh e' u "fst (bind_authorized_ingress_at tr b src rh e' u)"
        "snd (bind_authorized_ingress_at tr b src rh e' u)"])
     (auto simp: fenced_def)

lemma fenced_advance:
  assumes "fenced n gen e u"
  shows "fenced n gen e (snd (advance_identity b u))"
proof (cases rule: advance_cases[of b u])
  case activated
  then show ?thesis
    using assms by (fastforce simp: fenced_def udp_active_from_def split: option.splits)
qed (use assms in simp)

lemma fenced_rebind:
  "fenced n gen e u \<Longrightarrow> fenced n gen e (snd (authorize_rebind b e' u))"
  by (auto simp: fenced_def authorize_rebind_def not_le split: option.splits if_splits)

lemma fenced_step: "fenced n gen e u \<Longrightarrow> keeps_user n c \<Longrightarrow> fenced n gen e (udp_step u c)"
  by (cases c)
     (auto simp: keeps_user_def fenced_bind fenced_advance fenced_rebind,
      auto simp: fenced_def remove_released_identity_def split: option.splits)

lemma fenced_run:
  "fenced n gen e u \<Longrightarrow> list_all (keeps_user n) cs \<Longrightarrow> fenced n gen e (foldl udp_step u cs)"
  by (induction cs arbitrary: u) (simp_all add: fenced_step)

lemma fenced_refuses:
  assumes "fenced (bind_user_no b) (bind_generation b) e u" "e' \<le> e"
  shows "isl (fst (bind_authorized_ingress_at tr b src rh e' u))"
proof -
  obtain res u' where r: "bind_authorized_ingress_at tr b src rh e' u = (res, u')"
    by (cases "bind_authorized_ingress_at tr b src rh e' u")
  then show ?thesis
  proof (cases rule: bind_cases)
    case (installed a c st)
    then obtain eb where "ua_boundary a = Some eb" "e \<le> eb"
      using assms(1) by (auto simp: fenced_def split: option.splits)
    with installed(6)[of eb] assms(2) show ?thesis by (meson leD order_trans)
  qed (simp add: r)
qed

interpretation udp: machine "\<lambda>u. \<exists>n. u = with_max_active_identities n" udp_step udp_inv
proof
  fix u assume "\<exists>n. u = with_max_active_identities n"
  moreover have "udp_table tr (with_max_active_identities n) = []" for tr n
    by (cases tr) (simp_all add: with_max_active_identities_def)
  ultimately show "udp_inv u"
    by (auto intro!: udp_invI) (simp_all add: with_max_active_identities_def)
qed (rule udp_step_inv)

definition udp_after :: "nat \<Rightarrow> udp_command list \<Rightarrow> udp_state" where
  "udp_after n cs = foldl udp_step (with_max_active_identities n) cs"

lemma udp_after_inv: "udp_inv (udp_after n cs)"
  unfolding udp_after_def by (rule udp.inv_reachable) blast

lemma maximum_active_step [simp]: "maximum_active (udp_step u c) = maximum_active u"
  by (cases c) (auto simp: advance_identity_def bind_authorized_ingress_at_def authorize_rebind_def Let_def
      remove_released_identity_def clear_udp_def split: option.splits prod.splits sum.splits)

lemma maximum_active_after [simp]: "maximum_active (udp_after n cs) = n"
proof -
  have "maximum_active (foldl udp_step u cs) = maximum_active u" for u
    by (induction cs arbitrary: u) simp_all
  then show ?thesis by (simp add: udp_after_def with_max_active_identities_def)
qed

section \<open>Properties\<close>


text \<open>The first endpoint of a generation wins. A bind that succeeds becomes the target of its binding
  on that transport and agrees with the endpoint an earlier bind of the generation installed, and it
  changes no other user's and no other transport's target; a bind that fails changes nothing.\<close>

theorem first_endpoint_wins:
  "case bind_authorized_ingress_at tr b src rh e u of
     (Inl _, u') \<Rightarrow> u' = u
   | (Inr i, u') \<Rightarrow>
       current_authorized_target tr b u' = Some \<lparr>cur_identity = b, cur_endpoint = ing_endpoint i\<rparr> \<and>
       ep_endpoint (ing_endpoint i) = src \<and>
       (case current_authorized_target tr b u of None \<Rightarrow> True | Some c \<Rightarrow> ep_endpoint (cur_endpoint c) = src) \<and>
       (if tr' = tr \<and> bind_user_no b' = bind_user_no b then True
        else current_authorized_target tr' b' u' = current_authorized_target tr' b' u)"
proof -
  obtain res u' where r: "bind_authorized_ingress_at tr b src rh e u = (res, u')"
    by (cases "bind_authorized_ingress_at tr b src rh e u")
  then show ?thesis
  proof (cases rule: bind_cases)
    case (installed a c st)
    have "current_authorized_target tr b u' = Some \<lparr>cur_identity = b, cur_endpoint = c\<rparr>"
    proof -
      have "udp_active u' = udp_active u" "map_of (udp_table tr u') (bind_user_no b) = Some c"
        unfolding installed(9) by simp_all
      moreover have "ep_generation c = bind_generation b" "sock_ip (ep_endpoint c) = bind_source_ip b"
        unfolding installed(7) by (simp_all add: installed(5))
      ultimately show ?thesis
        by (simp add: current_authorized_target_def get_authorized_def installed(2-4))
    qed
    moreover have "case current_authorized_target tr b u of None \<Rightarrow> True | Some c \<Rightarrow> ep_endpoint (cur_endpoint c) = src"
    proof (cases "map_of (udp_table tr u) (bind_user_no b)")
      case (Some cur)
      with installed(11)[OF Some] show ?thesis
        by (simp add: current_authorized_target_def get_authorized_def installed(2-4))
    qed (simp add: current_authorized_target_def get_authorized_def installed(2-4))
    moreover have "current_authorized_target tr' b' u' = current_authorized_target tr' b' u"
      if "\<not> (tr' = tr \<and> bind_user_no b' = bind_user_no b)"
    proof -
      have "map_of (udp_table tr' u') (bind_user_no b') = map_of (udp_table tr' u) (bind_user_no b')"
        "udp_active u' = udp_active u"
        unfolding installed(9) using that by auto
      then show ?thesis by (simp only: current_authorized_target_def get_authorized_def)
    qed
    moreover have "ep_endpoint c = src" by (simp add: installed(7))
    ultimately show ?thesis by (simp add: r installed(8))
  qed (simp add: r)
qed

text \<open>C16. A reconnect fences late datagrams. After the control plane authorises a rebind at an arrival
  epoch, no datagram of that generation that arrived at or before it can bind an endpoint again,
  whatever follows, as long as the user is not released.\<close>

theorem rebind_fences_late_datagrams:
  "case authorize_rebind b boundary u of
     (Inl _, u') \<Rightarrow> u' = u
   | (Inr _, u') \<Rightarrow> isl (fst (bind_authorized_ingress_at tr b src rh (min arrival boundary)
        (foldl udp_step u' (filter (keeps_user (bind_user_no b)) cs))))"
proof (cases "authorize_rebind b boundary u")
  case (Pair res u')
  show ?thesis
  proof (cases res)
    case (Inl err)
    with Pair show ?thesis
      by (auto simp: authorize_rebind_def split: option.splits if_splits)
  next
    case (Inr x)
    have "fenced (bind_user_no b) (bind_generation b) boundary u'"
      using Pair Inr by (auto simp: authorize_rebind_def fenced_def split: option.splits if_splits)
    then have "fenced (bind_user_no b) (bind_generation b) boundary
        (foldl udp_step u' (filter (keeps_user (bind_user_no b)) cs))"
      by (rule fenced_run) (simp add: list_all_iff)
    then show ?thesis by (simp add: Pair Inr fenced_refuses)
  qed
qed

text \<open>
  What a release leaves behind: the endpoint tables are released by generation, so an endpoint bound
  in an earlier generation stays when the user is released in a later one without a new bind.
\<close>

definition sample_binding :: "u64 \<Rightarrow> identity_binding" where
  "sample_binding gen = \<lparr>bind_nickname = [], bind_user_no = 1, bind_generation = gen, bind_owner = 1,
     bind_source_ip = V4 1, bind_channel = None\<rparr>"

lemma release_keeps_older_endpoint:
  "let u = udp_after 1 [UdpAdvance (sample_binding 1),
       UdpBind GameUdp (sample_binding 1) \<lparr>sock_ip = V4 1, sock_port = 1\<rparr> 0 1,
       UdpAdvance (sample_binding 2),
       UdpRemove \<lparr>rel_nickname = [], rel_user_no = 1, rel_generation = 2,
         rel_source_ip = V4 1, rel_channel = None\<rparr>]
   in udp_active u = [] \<and> game_table u \<noteq> []"
  by (simp add: udp_after_def with_max_active_identities_def advance_identity_def sample_binding_def
      bind_authorized_ingress_at_def table_bind_def udp_active_from_def remove_released_identity_def
      table_release_def tdel_code Let_def)

end
