(* ===== verification/RaceObjects.thy ===== *)
theory RaceObjects
  imports Prelude
begin

text \<open>
  The race-object registry (\<open>crates/p4475-server/src/race_object_registry.rs\<close>): the authority over
  the lifecycle of the item objects of a race. A decoded operation is first planned against the
  registry, which admits, suppresses or refuses it, and the planned mutation is committed later
  under the revision it was planned at.
\<close>

section \<open>Data\<close>

definition MAX_RACE_OBJECTS :: nat where "MAX_RACE_OBJECTS = 1024"

datatype item_evidence = Unresolved | StaticConsumer | ProducerAndConsumer | RetainedTraceCorrelated

datatype item_meaning =
  UnknownMeaning | Initialize | Place | Launch | Activate | Impact | Resolve | Retarget | Remove
| RebindSource | Respawn | UpdateRuntimeFlag | NoClientAction

record race_object_actor =
  actor_user_no :: u32
  actor_generation :: u64
  actor_player_id :: u8

record race_object_class =
  operation_hash :: u32
  base_hash :: u32

datatype race_object_phase = Initialized | Active | Hit | Removed

datatype race_object_event =
  Installed | Activated | WasHit | WasRemoved | StateUpdated u32 | RuntimeFlagUpdated u8

datatype duplicate_kind =
  DupInstall | DupActivation | DupHit | DupRemoval | DupTerminalState | DupRuntimeFlagUpdate

record race_object_operation =
  op_race_epoch :: u64
  op_class :: race_object_class
  op_class_name :: string
  op_object_id :: u32
  op_state :: u32
  op_meaning :: item_meaning
  op_evidence :: item_evidence
  op_transition_token :: "u32 option"
  op_source :: "u32 option"
  op_target :: "u32 option"
  op_variant :: "u8 option"
  op_reporter :: race_object_actor
  op_owner_claim :: "race_object_actor option"

record race_object_key =
  key_race_epoch :: u64
  key_object_id :: u32

record race_object_record =
  rec_class :: race_object_class
  rec_class_name :: string
  rec_owner :: race_object_actor
  last_reporter :: race_object_actor
  rec_phase :: race_object_phase
  last_state :: u32
  last_meaning :: item_meaning
  last_transition_token :: "u32 option"
  last_source :: "u32 option"
  last_target :: "u32 option"
  runtime_flag :: "u8 option"

record race_object_mutation =
  expected_revision :: u64
  mut_key :: race_object_key
  mut_next :: race_object_record
  mut_events :: "race_object_event list"

datatype race_object_admission =
  PublishTracked race_object_mutation
| PublishUntracked
| SuppressDuplicate u32 string race_object_phase u32 duplicate_kind

datatype race_object_error =
  Capacity u64 u32 nat
| ClassMismatch u64 u32 u32 u32 u32 u32
| OwnerMismatch u64 u32 u8 u64 u8 u64
| StalePlan u64 u64

record race_object_registry =
  revision :: u64
  objects :: "(race_object_key, race_object_record) table"

definition default_race_objects :: race_object_registry where
  "default_race_objects = \<lparr>revision = 0, objects = []\<rparr>"

type_synonym 'a planned = "race_object_error + 'a"

section \<open>Planning\<close>

definition object_key :: "race_object_operation \<Rightarrow> race_object_key" where
  "object_key oper = \<lparr>key_race_epoch = op_race_epoch oper, key_object_id = op_object_id oper\<rparr>"

definition suppress :: "race_object_operation \<Rightarrow> race_object_record \<Rightarrow> duplicate_kind \<Rightarrow> race_object_admission" where
  "suppress oper cur kind =
     SuppressDuplicate (op_object_id oper) (rec_class_name cur) (rec_phase cur) (op_state oper) kind"

definition ensure_capacity :: "race_object_registry \<Rightarrow> race_object_key \<Rightarrow> unit planned" where
  "ensure_capacity r k =
     (if MAX_RACE_OBJECTS \<le> length (objects r)
      then Inl (Capacity (key_race_epoch k) (key_object_id k) MAX_RACE_OBJECTS) else Inr ())"

definition validate_existing :: "race_object_key \<Rightarrow> race_object_record \<Rightarrow> race_object_operation \<Rightarrow> unit planned" where
  "validate_existing k cur oper =
     (if rec_class cur \<noteq> op_class oper
      then Inl (ClassMismatch (key_race_epoch k) (key_object_id k)
             (operation_hash (rec_class cur)) (base_hash (rec_class cur))
             (operation_hash (op_class oper)) (base_hash (op_class oper)))
      else case op_owner_claim oper of
        None \<Rightarrow> Inr ()
      | Some owner \<Rightarrow>
          if owner \<noteq> rec_owner cur
          then Inl (OwnerMismatch (key_race_epoch k) (key_object_id k)
                 (actor_player_id (rec_owner cur)) (actor_generation (rec_owner cur))
                 (actor_player_id owner) (actor_generation owner))
          else Inr ())"

definition claimed_owner :: "race_object_operation \<Rightarrow> race_object_actor" where
  "claimed_owner oper = (case op_owner_claim oper of None \<Rightarrow> op_reporter oper | Some owner \<Rightarrow> owner)"

definition new_record :: "race_object_operation \<Rightarrow> race_object_phase \<Rightarrow> race_object_record" where
  "new_record oper ph = \<lparr>rec_class = op_class oper, rec_class_name = op_class_name oper,
     rec_owner = claimed_owner oper, last_reporter = op_reporter oper, rec_phase = ph,
     last_state = op_state oper, last_meaning = op_meaning oper,
     last_transition_token = op_transition_token oper, last_source = op_source oper,
     last_target = op_target oper, runtime_flag = None\<rparr>"

definition updated_record :: "race_object_record \<Rightarrow> race_object_operation \<Rightarrow> race_object_record" where
  "updated_record cur oper = cur\<lparr>last_reporter := op_reporter oper, last_state := op_state oper,
     last_meaning := op_meaning oper, last_transition_token := op_transition_token oper,
     last_source := op_source oper, last_target := op_target oper\<rparr>"

definition next_record ::
  "race_object_registry \<Rightarrow> race_object_key \<Rightarrow> race_object_record option \<Rightarrow> race_object_operation \<Rightarrow>
   race_object_phase \<Rightarrow> race_object_record planned" where
  "next_record r k cur oper ph =
     (case cur of
        Some c \<Rightarrow> Inr ((updated_record c oper)\<lparr>rec_phase := ph\<rparr>)
      | None \<Rightarrow> (case ensure_capacity r k of Inl e \<Rightarrow> Inl e | Inr _ \<Rightarrow> Inr (new_record oper ph)))"

definition tracked ::
  "race_object_registry \<Rightarrow> race_object_key \<Rightarrow> race_object_event list \<Rightarrow> race_object_record planned \<Rightarrow>
   race_object_admission planned" where
  "tracked r k evs nxt =
     (case nxt of
        Inl e \<Rightarrow> Inl e
      | Inr n \<Rightarrow> Inr (PublishTracked \<lparr>expected_revision = revision r, mut_key = k, mut_next = n,
                        mut_events = evs\<rparr>))"

definition plan_install ::
  "race_object_registry \<Rightarrow> race_object_key \<Rightarrow> race_object_record option \<Rightarrow> race_object_operation \<Rightarrow>
   race_object_admission planned" where
  "plan_install r k cur oper =
     (case cur of
        Some c \<Rightarrow>
          if rec_phase c = Initialized \<and> last_meaning c = Initialize
             \<and> op_meaning oper \<in> {Place, Launch, Activate}
          then tracked r k [Activated] (next_record r k (Some c) oper Active)
          else Inr (suppress oper c DupInstall)
      | None \<Rightarrow>
          (case ensure_capacity r k of
             Inl e \<Rightarrow> Inl e
           | Inr _ \<Rightarrow>
               if op_meaning oper = Initialize
               then tracked r k [Installed] (Inr (new_record oper Initialized))
               else tracked r k [Installed, Activated] (Inr (new_record oper Active))))"

definition plan_respawn ::
  "race_object_registry \<Rightarrow> race_object_key \<Rightarrow> race_object_record option \<Rightarrow> race_object_operation \<Rightarrow>
   race_object_admission planned" where
  "plan_respawn r k cur oper =
     (case cur of
        None \<Rightarrow> Inr PublishUntracked
      | Some c \<Rightarrow>
          if rec_phase c = Active \<and> last_meaning c = Respawn \<and> last_state c = op_state oper
            \<and> last_transition_token c = op_transition_token oper \<and> last_source c = op_source oper
            \<and> last_target c = op_target oper
          then Inr (suppress oper c DupActivation)
          else tracked r k [Activated] (next_record r k (Some c) oper Active))"

definition plan_hit ::
  "race_object_registry \<Rightarrow> race_object_key \<Rightarrow> race_object_record option \<Rightarrow> race_object_operation \<Rightarrow>
   race_object_admission planned" where
  "plan_hit r k cur oper =
     (case cur of
        Some c \<Rightarrow>
          if rec_phase c = Removed \<or> rec_phase c = Hit \<and> last_state c = op_state oper
               \<and> last_transition_token c = op_transition_token oper \<and> last_target c = op_target oper
          then Inr (suppress oper c DupHit)
          else tracked r k [WasHit] (next_record r k (Some c) oper Hit)
      | None \<Rightarrow> tracked r k [WasHit] (next_record r k None oper Hit))"

definition plan_removal ::
  "race_object_registry \<Rightarrow> race_object_key \<Rightarrow> race_object_record option \<Rightarrow> race_object_operation \<Rightarrow>
   race_object_admission planned" where
  "plan_removal r k cur oper =
     (case cur of
        Some c \<Rightarrow>
          if rec_phase c = Removed then Inr (suppress oper c DupRemoval)
          else tracked r k [WasRemoved] (next_record r k (Some c) oper Removed)
      | None \<Rightarrow>
          if op_evidence oper = StaticConsumer then Inr PublishUntracked
          else tracked r k [WasRemoved] (next_record r k None oper Removed))"

definition plan_state_update ::
  "race_object_registry \<Rightarrow> race_object_key \<Rightarrow> race_object_record option \<Rightarrow> race_object_operation \<Rightarrow>
   race_object_admission planned" where
  "plan_state_update r k cur oper =
     (case cur of
        None \<Rightarrow> Inr PublishUntracked
      | Some c \<Rightarrow> tracked r k [StateUpdated (op_state oper)] (Inr (updated_record c oper)))"

definition plan_runtime_flag_update ::
  "race_object_registry \<Rightarrow> race_object_key \<Rightarrow> race_object_record option \<Rightarrow> race_object_operation \<Rightarrow>
   race_object_admission planned" where
  "plan_runtime_flag_update r k cur oper =
     (case cur of
        None \<Rightarrow> Inr PublishUntracked
      | Some c \<Rightarrow>
          (case op_variant oper of
             None \<Rightarrow> Inr PublishUntracked
           | Some flag \<Rightarrow>
               if runtime_flag c = Some flag then Inr (suppress oper c DupRuntimeFlagUpdate)
               else tracked r k [RuntimeFlagUpdated flag]
                      (Inr (c\<lparr>last_reporter := op_reporter oper, runtime_flag := Some flag\<rparr>))))"

definition plan_lifecycle ::
  "race_object_registry \<Rightarrow> race_object_key \<Rightarrow> race_object_record option \<Rightarrow> race_object_operation \<Rightarrow>
   race_object_admission planned" where
  "plan_lifecycle r k cur oper =
     (case op_meaning oper of
        Initialize \<Rightarrow> plan_install r k cur oper
      | Place \<Rightarrow> plan_install r k cur oper
      | Launch \<Rightarrow> plan_install r k cur oper
      | Activate \<Rightarrow> plan_install r k cur oper
      | Impact \<Rightarrow> plan_hit r k cur oper
      | Remove \<Rightarrow> plan_removal r k cur oper
      | Respawn \<Rightarrow> plan_respawn r k cur oper
      | UpdateRuntimeFlag \<Rightarrow> plan_runtime_flag_update r k cur oper
      | UnknownMeaning \<Rightarrow> Inr PublishUntracked
      | _ \<Rightarrow> plan_state_update r k cur oper)"

definition plan :: "race_object_registry \<Rightarrow> race_object_operation \<Rightarrow> race_object_admission planned" where
  "plan r oper =
     (let k = object_key oper; cur = map_of (objects r) k in
      if op_meaning oper = UnknownMeaning \<or> op_meaning oper = NoClientAction
      then (case cur of
              Some c \<Rightarrow>
                if rec_class c = op_class oper \<and> rec_phase c = Removed
                then Inr (suppress oper c DupTerminalState) else Inr PublishUntracked
            | None \<Rightarrow> Inr PublishUntracked)
      else case cur of
        None \<Rightarrow> plan_lifecycle r k None oper
      | Some c \<Rightarrow>
          (case validate_existing k c oper of
             Inl e \<Rightarrow> Inl e
           | Inr _ \<Rightarrow>
               if rec_phase c = Removed \<and> op_meaning oper \<noteq> Remove \<and> op_meaning oper \<noteq> Respawn
               then Inr (suppress oper c DupTerminalState)
               else plan_lifecycle r k (Some c) oper))"

definition commit ::
  "race_object_mutation \<Rightarrow> race_object_registry \<Rightarrow> (race_object_error + unit) \<times> race_object_registry" where
  "commit m r =
     (if expected_revision m \<noteq> revision r
      then (Inl (StalePlan (expected_revision m) (revision r)), r)
      else (Inr (), \<lparr>revision = revision r + 1, objects = tput (mut_key m) (mut_next m) (objects r)\<rparr>))"

section \<open>The lifecycle specification\<close>

text \<open>
  What an operation may do to the phase of an object, whatever else it carries: installed once, hit
  any number of times, and back from a removal only by a respawn.
\<close>

inductive phase_edge :: "race_object_phase option \<Rightarrow> item_meaning \<Rightarrow> race_object_phase \<Rightarrow> bool" where
  install: "phase_edge None Initialize Initialized"
| place: "m \<in> {Place, Launch, Activate} \<Longrightarrow> phase_edge None m Active"
| arm: "m \<in> {Place, Launch, Activate} \<Longrightarrow> phase_edge (Some Initialized) m Active"
| hit: "ph \<noteq> Some Removed \<Longrightarrow> phase_edge ph Impact Hit"
| remove: "ph \<noteq> Some Removed \<Longrightarrow> phase_edge ph Remove Removed"
| respawn: "phase_edge (Some ph) Respawn Active"
| update: "ph \<noteq> Removed \<Longrightarrow> m \<in> {Resolve, Retarget, RebindSource, UpdateRuntimeFlag} \<Longrightarrow>
    phase_edge (Some ph) m ph"

inductive_simps phase_edge_Removed: "phase_edge (Some Removed) m ph"
inductive_simps phase_edge_install: "phase_edge None m ph"

lemma removed_only_respawns: "phase_edge (Some Removed) m ph \<longleftrightarrow> m = Respawn \<and> ph = Active"
  by (auto simp: phase_edge_Removed)

lemma installs: "phase_edge None m ph \<longleftrightarrow>
    m = Initialize \<and> ph = Initialized \<or> m \<in> {Place, Launch, Activate} \<and> ph = Active \<or>
    m = Impact \<and> ph = Hit \<or> m = Remove \<and> ph = Removed"
  by (auto simp: phase_edge_install)

lemmas plan_parts = plan_install_def plan_hit_def plan_removal_def plan_respawn_def
  plan_runtime_flag_update_def plan_state_update_def

lemma tracked_Inr [simp]:
  "tracked r k evs x = Inr adm \<longleftrightarrow> (\<exists>n. x = Inr n \<and> adm = PublishTracked
     \<lparr>expected_revision = revision r, mut_key = k, mut_next = n, mut_events = evs\<rparr>)"
  by (auto simp: tracked_def split: sum.splits)

lemma next_record_Inr [simp]:
  "next_record r k cur oper ph = Inr n \<longleftrightarrow>
     (case cur of Some c \<Rightarrow> n = (updated_record c oper)\<lparr>rec_phase := ph\<rparr>
      | None \<Rightarrow> length (objects r) < MAX_RACE_OBJECTS \<and> n = new_record oper ph)"
  by (auto simp: next_record_def ensure_capacity_def split: option.splits)

lemma suppress_untracked [simp]: "suppress oper c kind \<noteq> PublishTracked m"
  by (simp add: suppress_def)

lemma record_simps [simp]:
  "rec_class (updated_record c oper) = rec_class c" "rec_owner (updated_record c oper) = rec_owner c"
  "rec_phase (updated_record c oper) = rec_phase c" "rec_phase (new_record oper ph) = ph"
  "rec_class (new_record oper ph) = op_class oper" "rec_owner (new_record oper ph) = claimed_owner oper"
  "last_meaning (updated_record c oper) = op_meaning oper" "last_meaning (new_record oper ph) = op_meaning oper"
  "runtime_flag (updated_record c oper) = runtime_flag c" "runtime_flag (new_record oper ph) = None"
  by (simp_all add: updated_record_def new_record_def)

lemma record_fingerprint [simp]:
  "last_state (updated_record c oper) = op_state oper" "last_state (new_record oper ph) = op_state oper"
  "last_transition_token (updated_record c oper) = op_transition_token oper"
  "last_transition_token (new_record oper ph) = op_transition_token oper"
  "last_source (updated_record c oper) = op_source oper" "last_source (new_record oper ph) = op_source oper"
  "last_target (updated_record c oper) = op_target oper" "last_target (new_record oper ph) = op_target oper"
  by (simp_all add: updated_record_def new_record_def)

text \<open>A planned mutation: its lookup, its edge, and what it keeps.\<close>

definition mutation_ok ::
  "race_object_registry \<Rightarrow> race_object_operation \<Rightarrow> race_object_mutation \<Rightarrow> bool" where
  "mutation_ok r oper m \<longleftrightarrow> expected_revision m = revision r \<and> mut_key m = object_key oper \<and>
     phase_edge (map_option rec_phase (map_of (objects r) (object_key oper))) (op_meaning oper)
       (rec_phase (mut_next m)) \<and>
     (WasRemoved \<in> set (mut_events m) \<longleftrightarrow> op_meaning oper = Remove) \<and>
     (Installed \<in> set (mut_events m) \<longleftrightarrow> map_of (objects r) (object_key oper) = None \<and>
        op_meaning oper \<in> {Initialize, Place, Launch, Activate}) \<and>
     (case map_of (objects r) (object_key oper) of
        None \<Rightarrow> rec_class (mut_next m) = op_class oper \<and> rec_owner (mut_next m) = claimed_owner oper \<and>
          length (objects r) < MAX_RACE_OBJECTS
      | Some c \<Rightarrow> rec_class (mut_next m) = rec_class c \<and> rec_owner (mut_next m) = rec_owner c \<and>
          rec_class c = op_class oper \<and> op_owner_claim oper \<in> {None, Some (rec_owner c)})"

lemma validate_existing_Inr [simp]:
  "validate_existing k c oper = Inr u \<longleftrightarrow>
     rec_class c = op_class oper \<and> op_owner_claim oper \<in> {None, Some (rec_owner c)}"
  by (auto simp: validate_existing_def split: option.splits)

lemma ensure_capacity_Inr [simp]: "ensure_capacity r k = Inr u \<longleftrightarrow> length (objects r) < MAX_RACE_OBJECTS"
  by (auto simp: ensure_capacity_def)

lemma plan_new_ok:
  assumes "plan r oper = Inr (PublishTracked m)" "map_of (objects r) (object_key oper) = None"
  shows "mutation_ok r oper m"
proof -
  have l: "plan_lifecycle r (object_key oper) None oper = Inr (PublishTracked m)"
    using assms by (simp add: plan_def Let_def split: if_splits)
  show ?thesis
  proof (cases "op_meaning oper \<in> {Initialize, Place, Launch, Activate}")
    case True
    then have "plan_install r (object_key oper) None oper = Inr (PublishTracked m)"
      using l unfolding plan_lifecycle_def by (cases "op_meaning oper") (simp_all only: item_meaning.case, simp_all)
    with True assms(2) show ?thesis
      by (auto simp: plan_install_def mutation_ok_def intro: phase_edge.intros split: sum.splits if_splits)
  next
    case False
    with l assms(2) show ?thesis
      by (cases "op_meaning oper"; simp add: plan_lifecycle_def plan_parts mutation_ok_def)
         (auto intro: phase_edge.intros split: if_splits)
  qed
qed

lemma plan_is_lifecycle:
  assumes "plan r oper = Inr (PublishTracked m)"
  shows "plan_lifecycle r (object_key oper) (map_of (objects r) (object_key oper)) oper = Inr (PublishTracked m)"
    "op_meaning oper \<noteq> UnknownMeaning" "op_meaning oper \<noteq> NoClientAction"
  using assms
  by (auto simp: plan_def Let_def suppress_def split: if_split_asm option.splits sum.splits)

lemma plan_known_ok:
  assumes "plan r oper = Inr (PublishTracked m)" "map_of (objects r) (object_key oper) = Some c"
  shows "mutation_ok r oper m"
proof -
  have m: "op_meaning oper \<noteq> UnknownMeaning" "op_meaning oper \<noteq> NoClientAction"
    using assms by (auto simp: plan_def Let_def suppress_def split: if_split_asm)
  obtain u where v: "validate_existing (object_key oper) c oper = Inr u"
    using assms m by (cases "validate_existing (object_key oper) c oper") (simp_all add: plan_def)
  have removed: "rec_phase c = Removed \<Longrightarrow> op_meaning oper \<in> {Remove, Respawn}"
    using assms m v by (auto simp: plan_def suppress_def split: if_split_asm)
  have l: "plan_lifecycle r (object_key oper) (Some c) oper = Inr (PublishTracked m)"
    using assms m v by (simp add: plan_def suppress_def split: if_split_asm)
  note v = v[unfolded validate_existing_Inr]
  show ?thesis
  proof (cases "op_meaning oper \<in> {Initialize, Place, Launch, Activate}")
    case True
    then have "plan_install r (object_key oper) (Some c) oper = Inr (PublishTracked m)"
      using l by (auto simp: plan_lifecycle_def)
    with True assms(2) v show ?thesis
      by (auto simp: plan_install_def mutation_ok_def suppress_def intro: phase_edge.intros split: if_split_asm)
  next
    case False
    with l assms(2) v removed m show ?thesis
      by (cases "op_meaning oper"; simp add: plan_lifecycle_def plan_parts mutation_ok_def suppress_def)
         (auto intro: phase_edge.intros split: if_split_asm option.splits)
  qed
qed

lemma plan_ok: "plan r oper = Inr (PublishTracked m) \<Longrightarrow> mutation_ok r oper m"
  by (cases "map_of (objects r) (object_key oper)") (auto intro: plan_new_ok plan_known_ok)

section \<open>The registry as a machine\<close>

text \<open>The World actor plans an operation, reserves its queue slots and commits the plan.\<close>

definition race_step :: "race_object_registry \<Rightarrow> race_object_operation \<Rightarrow> race_object_registry" where
  "race_step r oper = (case plan r oper of Inr (PublishTracked m) \<Rightarrow> snd (commit m r) | _ \<Rightarrow> r)"

definition race_inv :: "race_object_registry \<Rightarrow> bool" where
  "race_inv r \<longleftrightarrow> wf_table (objects r) \<and> length (objects r) \<le> MAX_RACE_OBJECTS"

text \<open>Who owns which object, of which class.\<close>

definition title :: "race_object_registry \<Rightarrow> race_object_key \<Rightarrow> (race_object_class \<times> race_object_actor) option" where
  "title r k = map_option (\<lambda>c. (rec_class c, rec_owner c)) (map_of (objects r) k)"

lemma race_step_cases:
  obtains (unchanged) "race_step r oper = r"
  | (committed) m where "plan r oper = Inr (PublishTracked m)" "commit m r = (Inr (), race_step r oper)"
      "objects (race_step r oper) = tput (object_key oper) (mut_next m) (objects r)"
proof (cases "\<exists>m. plan r oper = Inr (PublishTracked m)")
  case True
  then obtain m where m: "plan r oper = Inr (PublishTracked m)" by blast
  with plan_ok[OF m] show thesis
    by (intro committed[OF m]) (simp_all add: race_step_def commit_def mutation_ok_def)
next
  case False
  then show thesis
    by (intro unchanged) (auto simp: race_step_def split: sum.splits race_object_admission.splits)
qed

lemma race_step_inv: "race_inv r \<Longrightarrow> race_inv (race_step r oper)"
proof (cases rule: race_step_cases[of r oper])
  case (committed m)
  assume "race_inv r"
  moreover have "map_of (objects r) (object_key oper) \<noteq> None \<or> length (objects r) < MAX_RACE_OBJECTS"
    using plan_ok[OF committed(1)] by (auto simp: mutation_ok_def split: option.splits)
  ultimately show ?thesis
    using tbl.put_within_capacity[of "objects r" MAX_RACE_OBJECTS "object_key oper"]
    by (simp add: race_inv_def committed(3))
qed simp

lemma race_step_title: "title r \<subseteq>\<^sub>m title (race_step r oper)"
proof (cases rule: race_step_cases[of r oper])
  case (committed m)
  then show ?thesis
    using plan_ok[OF committed(1)]
    by (auto simp: map_le_def title_def committed(3) mutation_ok_def split: option.splits)
qed simp

interpretation race_objects: machine "\<lambda>r. r = default_race_objects" race_step race_inv
  by unfold_locales (simp_all add: race_step_inv, simp add: race_inv_def default_race_objects_def)

definition race_objects_after :: "race_object_operation list \<Rightarrow> race_object_registry" where
  "race_objects_after ops = foldl race_step default_race_objects ops"

lemma race_objects_after_inv: "race_inv (race_objects_after ops)"
  unfolding race_objects_after_def by (rule race_objects.inv_reachable) simp

section \<open>Properties\<close>

text \<open>C19. Objects are bounded and keep their title. Whatever is reported, the registry holds at most
  \<open>MAX_RACE_OBJECTS\<close> objects, and an object keeps the class and the owner it was installed with.\<close>

theorem race_objects_permanent:
  "length (objects (race_objects_after ops)) \<le> MAX_RACE_OBJECTS \<and>
   title (race_objects_after ops) \<subseteq>\<^sub>m title (race_objects_after (ops @ later))"
proof -
  have "title (race_objects_after ops) \<subseteq>\<^sub>m title (foldl race_step (race_objects_after ops) later)"
    by (rule race_objects.run_induct[OF race_objects_after_inv,
          where P = "\<lambda>r. title (race_objects_after ops) \<subseteq>\<^sub>m title r"])
       (auto intro: map_le_trans race_step_title)
  then show ?thesis
    using race_objects_after_inv[of ops] by (simp add: race_inv_def race_objects_after_def)
qed

text \<open>C17. The registry refines the object lifecycle. A tracked operation moves its object along an edge
  of the lifecycle, only by a claim that names the installed owner and class, and says so in its
  events; its commit succeeds at the revision it was planned at, and spends every other plan.\<close>

theorem registry_refines_lifecycle:
  "case plan r oper of
     Inr (PublishTracked m) \<Rightarrow>
       phase_edge (map_option rec_phase (map_of (objects r) (object_key oper))) (op_meaning oper)
         (rec_phase (mut_next m)) \<and>
       (case title r (object_key oper) of
          None \<Rightarrow> rec_owner (mut_next m) = claimed_owner oper
        | Some (cl, owner) \<Rightarrow> op_class oper = cl \<and> op_owner_claim oper \<in> {None, Some owner} \<and>
            rec_owner (mut_next m) = owner) \<and>
       (WasRemoved \<in> set (mut_events m) \<longleftrightarrow> op_meaning oper = Remove) \<and>
       (Installed \<in> set (mut_events m) \<longleftrightarrow> title r (object_key oper) = None \<and>
          op_meaning oper \<in> {Initialize, Place, Launch, Activate}) \<and>
       (case commit m r of (res, r') \<Rightarrow> res = Inr () \<and>
          map_of (objects r') = (map_of (objects r))(object_key oper \<mapsto> mut_next m) \<and>
          (case plan r other of Inr (PublishTracked m') \<Rightarrow>
             commit m' r' = (Inl (StalePlan (revision r) (revision r + 1)), r') | _ \<Rightarrow> True))
   | _ \<Rightarrow> True"
proof (cases "\<exists>m. plan r oper = Inr (PublishTracked m)")
  case True
  then obtain m where m: "plan r oper = Inr (PublishTracked m)" by blast
  note ok = plan_ok[OF m, unfolded mutation_ok_def]
  obtain res r' where r': "commit m r = (res, r')" by (cases "commit m r")
  have c: "res = Inr ()" "revision r' = revision r + 1"
    "map_of (objects r') = (map_of (objects r))(object_key oper \<mapsto> mut_next m)"
    using ok r' by (auto simp: commit_def)
  have "commit m' r' = (Inl (StalePlan (revision r) (revision r + 1)), r')"
    if "plan r other = Inr (PublishTracked m')" for m'
    using plan_ok[OF that] c(2) by (simp add: mutation_ok_def commit_def)
  then have "case plan r other of Inr (PublishTracked m') \<Rightarrow>
      commit m' r' = (Inl (StalePlan (revision r) (revision r + 1)), r') | _ \<Rightarrow> True"
    by (simp split: sum.split race_object_admission.split)
  with ok c r' show ?thesis
    by (cases "map_of (objects r) (object_key oper)") (simp_all add: m title_def)
next
  case False
  then show ?thesis by (auto split: sum.splits race_object_admission.splits)
qed

text \<open>Planning an operation against the record it has just produced.\<close>

definition replayed :: "race_object_operation \<Rightarrow> race_object_mutation \<Rightarrow> race_object_admission planned \<Rightarrow> bool" where
  "replayed oper m res \<longleftrightarrow> (case res of
     Inr (SuppressDuplicate i n ph st kind) \<Rightarrow> i = op_object_id oper \<and> ph = rec_phase (mut_next m)
   | Inr (PublishTracked _) \<Rightarrow> op_meaning oper \<in> {Resolve, Retarget, RebindSource}
   | _ \<Rightarrow> False)"

lemma replayed_suppress [simp]:
  "replayed oper m (Inr (suppress oper c kind)) \<longleftrightarrow> rec_phase c = rec_phase (mut_next m)"
  by (simp add: replayed_def suppress_def)

lemma replayed_lifecycle:
  assumes "plan_lifecycle r k cur oper = Inr (PublishTracked m)"
    "op_meaning oper \<noteq> UnknownMeaning" "op_meaning oper \<noteq> NoClientAction"
  shows "replayed oper m (plan_lifecycle r' k (Some (mut_next m)) oper)"
proof (cases "op_meaning oper \<in> {Initialize, Place, Launch, Activate}")
  case True
  then have "plan_install r k cur oper = Inr (PublishTracked m)"
    using assms(1) by (auto simp: plan_lifecycle_def)
  then have "replayed oper m (plan_install r' k (Some (mut_next m)) oper)"
    using True
    by (auto simp: plan_install_def suppress_def split: option.splits if_split_asm sum.splits)
       (simp_all add: replayed_def suppress_def)
  with True show ?thesis by (auto simp: plan_lifecycle_def)
next
  case False
  with assms show ?thesis
    by (cases "op_meaning oper"; cases cur;
        simp add: plan_lifecycle_def plan_parts suppress_def split: if_split_asm option.splits)
       (auto simp: replayed_def suppress_def tracked_def)
qed


end
