(* ===== verification/MessengerHub.thy ===== *)
theory MessengerHub
  imports Nickname IdentityGate
begin

text \<open>
  The messenger hub (\<open>crates/p4475-server/src/messenger_hub.rs\<close>): the sessions entered into the
  messenger service, its two-member chat rooms and the inverse index from an identity to its rooms.
  Hash maps are tables and hash sets are lists without duplicates, whose order stands for the
  iteration order; the identity a call acts for is an argument, as in the code.
\<close>

section \<open>Data\<close>

datatype messenger_session_id = MessengerSessionId (session_value: u64)

text \<open>The derived order of the session identifiers, by their value.\<close>

instantiation messenger_session_id :: linorder
begin

definition less_eq_messenger_session_id :: "messenger_session_id \<Rightarrow> messenger_session_id \<Rightarrow> bool" where
  "less_eq_messenger_session_id s t \<longleftrightarrow> session_value s \<le> session_value t"

definition less_messenger_session_id :: "messenger_session_id \<Rightarrow> messenger_session_id \<Rightarrow> bool" where
  "less_messenger_session_id s t \<longleftrightarrow> session_value s < session_value t"

instance
  by standard
     (auto simp: less_eq_messenger_session_id_def less_messenger_session_id_def
       intro: messenger_session_id.expand)

end

definition new_session_id :: "u64 \<Rightarrow> messenger_session_id option" where
  "new_session_id v = (if v = 0 then None else Some (MessengerSessionId v))"

definition new_messenger_generation :: "u64 \<Rightarrow> u64 option" where
  "new_messenger_generation v = (if v = 0 then None else Some v)"

definition new_room_id :: "u32 \<Rightarrow> u32 option" where
  "new_room_id v = (if v = 0 then None else Some v)"

record messenger_identity =
  mi_user_no :: u32
  mi_nickname :: ustring
  mi_generation :: u64
  mi_source_ip :: ip_addr
  mi_key :: ustring

record hub_limits =
  max_sessions :: nat
  max_rooms :: nat
  max_rooms_per_identity :: nat
  max_message_utf16_units :: nat

definition default_hub_limits :: hub_limits where
  "default_hub_limits = \<lparr>max_sessions = 256, max_rooms = 4096, max_rooms_per_identity = 64,
     max_message_utf16_units = 4096\<rparr>"

record enter_claim =
  enter_user_no :: u32
  enter_chat_type :: u32
  enter_nickname :: ustring

record invite_claim =
  inviter_user_no :: u32
  invitee_user_no :: u32
  inviter_nickname :: ustring
  invitee_nickname :: ustring

record chat_claim =
  chat_room_id :: u32
  chat_nickname :: ustring
  chat_message :: ustring

record leave_claim =
  leave_user_no :: u32
  leave_room_id :: u32

record guild_chat_claim =
  guild_nickname :: ustring
  guild_message :: ustring

datatype messenger_event =
  InviteChat u32 u32 ustring ustring u32 int
| ChatEvent u32 u32 ustring ustring int
| LeaveChat u32 u32
| GuildChat ustring ustring

record messenger_delivery =
  delivery_session :: messenger_session_id
  delivery_event :: messenger_event

record generation_advance =
  endpoint_updated :: bool
  room_members_updated :: nat

record identity_release =
  disconnected_session :: "messenger_session_id option"
  room_memberships_removed :: nat
  empty_rooms_removed :: nat

datatype hub_error =
  InvalidUserNo
| InvalidGeneration
| HubEmptyNickname
| ZeroLimit string
| SessionAlreadyEntered messenger_session_id
| SessionLimitReached nat
| HubUnauthenticatedSession messenger_session_id
| HubStaleSession messenger_session_id
| HubSourceIpMismatch ip_addr ip_addr
| SenderUserNoMismatch
| SenderNicknameMismatch
| TargetIdentityMismatch
| SelfInvite
| RoomLimitReached nat
| IdentityRoomLimitReached ustring nat
| RoomIdExhausted
| InvalidRoomId u32
| RoomNotFound u32
| NotRoomMember u32 ustring
| MessageTooLong nat nat
| MigrationIdentityMismatch

record messenger_endpoint =
  me_identity :: messenger_identity
  me_chat_type :: u32

record messenger_room =
  room_members_of :: "messenger_identity list"

record messenger_hub =
  hub_limits_of :: hub_limits
  endpoints_by_session :: "(messenger_session_id, messenger_endpoint) table"
  session_by_identity :: "(ustring, messenger_session_id) table"
  hub_rooms :: "(u32, messenger_room) table"
  rooms_by_identity :: "(ustring, u32 list) table"
  next_room_id :: "u32 option"

definition identity_stamp_matches :: "messenger_identity \<Rightarrow> messenger_identity \<Rightarrow> bool" where
  "identity_stamp_matches l r \<longleftrightarrow> mi_key l = mi_key r \<and> mi_user_no l = mi_user_no r \<and>
     mi_generation l = mi_generation r \<and> mi_source_ip l = mi_source_ip r"

definition new_messenger_identity ::
  "host \<Rightarrow> u32 \<Rightarrow> ustring \<Rightarrow> u64 \<Rightarrow> ip_addr \<Rightarrow> hub_error + messenger_identity" where
  "new_messenger_identity h n nick gen ip =
     (if n = 0 then Inl InvalidUserNo
      else case new_messenger_generation gen of
        None \<Rightarrow> Inl InvalidGeneration
      | Some g \<Rightarrow>
          if trim nick = [] then Inl HubEmptyNickname
          else Inr \<lparr>mi_user_no = n, mi_nickname = nick, mi_generation = g, mi_source_ip = ip,
                 mi_key = canonical_nickname_key h nick\<rparr>)"

definition new_hub :: "hub_limits \<Rightarrow> hub_error + messenger_hub" where
  "new_hub l =
     (if max_sessions l = 0 then Inl (ZeroLimit ''max_sessions'')
      else if max_rooms l = 0 then Inl (ZeroLimit ''max_rooms'')
      else if max_rooms_per_identity l = 0 then Inl (ZeroLimit ''max_rooms_per_identity'')
      else if max_message_utf16_units l = 0 then Inl (ZeroLimit ''max_message_utf16_units'')
      else Inr \<lparr>hub_limits_of = l, endpoints_by_session = [], session_by_identity = [],
             hub_rooms = [], rooms_by_identity = [], next_room_id = Some 1\<rparr>)"

section \<open>Queries\<close>

definition session_count :: "messenger_hub \<Rightarrow> nat" where
  "session_count u = length (endpoints_by_session u)"

definition room_count :: "messenger_hub \<Rightarrow> nat" where
  "room_count u = length (hub_rooms u)"

definition rooms_of_key :: "ustring \<Rightarrow> messenger_hub \<Rightarrow> u32 list" where
  "rooms_of_key k u = (case map_of (rooms_by_identity u) k of None \<Rightarrow> [] | Some ids \<Rightarrow> ids)"

definition rooms_for_identity :: "host \<Rightarrow> ustring \<Rightarrow> messenger_hub \<Rightarrow> nat" where
  "rooms_for_identity h nick u = length (rooms_of_key (canonical_nickname_key h nick) u)"

definition session_for_identity :: "host \<Rightarrow> ustring \<Rightarrow> messenger_hub \<Rightarrow> messenger_session_id option" where
  "session_for_identity h nick u = map_of (session_by_identity u) (canonical_nickname_key h nick)"

definition room_members :: "u32 \<Rightarrow> messenger_hub \<Rightarrow> messenger_identity list option" where
  "room_members i u = map_option room_members_of (map_of (hub_rooms u) i)"

definition chat_type :: "messenger_session_id \<Rightarrow> messenger_hub \<Rightarrow> u32 option" where
  "chat_type s u = map_option me_chat_type (map_of (endpoints_by_session u) s)"

section \<open>Checks\<close>

definition authorize_session ::
  "messenger_session_id \<Rightarrow> messenger_identity \<Rightarrow> messenger_hub \<Rightarrow> hub_error + messenger_identity" where
  "authorize_session s active u =
     (case map_of (endpoints_by_session u) s of
        None \<Rightarrow> Inl (HubUnauthenticatedSession s)
      | Some e \<Rightarrow>
          if \<not> identity_stamp_matches (me_identity e) active
            \<or> map_of (session_by_identity u) (mi_key active) \<noteq> Some s
          then Inl (HubStaleSession s) else Inr (me_identity e))"

definition validate_sender_nickname :: "host \<Rightarrow> messenger_identity \<Rightarrow> ustring \<Rightarrow> hub_error + unit" where
  "validate_sender_nickname h sender nick =
     (if canonical_nickname_key h nick = mi_key sender then Inr () else Inl SenderNicknameMismatch)"

definition validate_sender :: "host \<Rightarrow> messenger_identity \<Rightarrow> u32 \<Rightarrow> ustring \<Rightarrow> hub_error + unit" where
  "validate_sender h sender n nick =
     (if n \<noteq> mi_user_no sender then Inl SenderUserNoMismatch else validate_sender_nickname h sender nick)"

definition validate_message :: "ustring \<Rightarrow> messenger_hub \<Rightarrow> hub_error + unit" where
  "validate_message m u =
     (if max_message_utf16_units (hub_limits_of u) < length (encode_utf16 m)
      then Inl (MessageTooLong (length (encode_utf16 m)) (max_message_utf16_units (hub_limits_of u)))
      else Inr ())"

definition ensure_identity_room_capacity :: "messenger_identity \<Rightarrow> messenger_hub \<Rightarrow> hub_error + unit" where
  "ensure_identity_room_capacity i u =
     (if max_rooms_per_identity (hub_limits_of u) \<le> length (rooms_of_key (mi_key i) u)
      then Inl (IdentityRoomLimitReached (mi_nickname i) (max_rooms_per_identity (hub_limits_of u)))
      else Inr ())"

definition allocate_room_id :: "messenger_hub \<Rightarrow> (hub_error + u32) \<times> messenger_hub" where
  "allocate_room_id u =
     (case next_room_id u of
        None \<Rightarrow> (Inl RoomIdExhausted, u)
      | Some v \<Rightarrow> (Inr v, u\<lparr>next_room_id := checked_succ v\<rparr>))"

definition deliver_to_members ::
  "messenger_identity list \<Rightarrow> messenger_event \<Rightarrow> messenger_hub \<Rightarrow> messenger_delivery list" where
  "deliver_to_members members ev u =
     List.map_filter (\<lambda>m. case map_of (session_by_identity u) (mi_key m) of
        None \<Rightarrow> None
      | Some s \<Rightarrow> (case map_of (endpoints_by_session u) s of
          None \<Rightarrow> None
        | Some e \<Rightarrow>
            if identity_stamp_matches (me_identity e) m
            then Some \<lparr>delivery_session = s, delivery_event = ev\<rparr> else None)) members"

definition remove_inverse_room :: "ustring \<Rightarrow> u32 \<Rightarrow> messenger_hub \<Rightarrow> messenger_hub" where
  "remove_inverse_room k i u =
     (case map_of (rooms_by_identity u) k of
        None \<Rightarrow> u
      | Some ids \<Rightarrow>
          if removeAll i ids = [] then u\<lparr>rooms_by_identity := tdel k (rooms_by_identity u)\<rparr>
          else u\<lparr>rooms_by_identity := tput k (removeAll i ids) (rooms_by_identity u)\<rparr>)"

section \<open>Operations\<close>

definition enter ::
  "host \<Rightarrow> messenger_session_id \<Rightarrow> ip_addr \<Rightarrow> messenger_identity \<Rightarrow> enter_claim \<Rightarrow> messenger_hub \<Rightarrow>
   (hub_error + messenger_session_id option) \<times> messenger_hub" where
  "enter h s peer_ip active claim u =
     (if map_of (endpoints_by_session u) s \<noteq> None then (Inl (SessionAlreadyEntered s), u)
      else if enter_user_no claim \<noteq> mi_user_no active then (Inl SenderUserNoMismatch, u)
      else if canonical_nickname_key h (enter_nickname claim) \<noteq> mi_key active
      then (Inl SenderNicknameMismatch, u)
      else if peer_ip \<noteq> mi_source_ip active
      then (Inl (HubSourceIpMismatch (mi_source_ip active) peer_ip), u)
      else
        let replaced = map_of (session_by_identity u) (mi_key active) in
        if replaced = None \<and> max_sessions (hub_limits_of u) \<le> length (endpoints_by_session u)
        then (Inl (SessionLimitReached (max_sessions (hub_limits_of u))), u)
        else
          let ends = (case replaced of None \<Rightarrow> endpoints_by_session u
                      | Some previous \<Rightarrow> tdel previous (endpoints_by_session u))
          in (Inr replaced,
              u\<lparr>endpoints_by_session :=
                  tput s \<lparr>me_identity = active, me_chat_type = enter_chat_type claim\<rparr> ends,
                session_by_identity := tput (mi_key active) s (session_by_identity u)\<rparr>))"

text \<open>The inverse index entry of a new room, as the loop of \<open>invite\<close> adds it for one member.\<close>

definition add_inverse_room :: "u32 \<Rightarrow> messenger_identity \<Rightarrow> messenger_hub \<Rightarrow> messenger_hub" where
  "add_inverse_room i m u =
     u\<lparr>rooms_by_identity := tput (mi_key m) (List.insert i (rooms_of_key (mi_key m) u)) (rooms_by_identity u)\<rparr>"

definition invite ::
  "host \<Rightarrow> messenger_session_id \<Rightarrow> messenger_identity \<Rightarrow> messenger_identity \<Rightarrow> invite_claim \<Rightarrow>
   messenger_hub \<Rightarrow> (hub_error + messenger_delivery list) \<times> messenger_hub" where
  "invite h s active_sender active_target claim u =
     (case authorize_session s active_sender u of Inl e \<Rightarrow> (Inl e, u) | Inr sender \<Rightarrow>
     (case validate_sender h sender (inviter_user_no claim) (inviter_nickname claim) of
        Inl e \<Rightarrow> (Inl e, u) | Inr _ \<Rightarrow>
      if invitee_user_no claim \<noteq> mi_user_no active_target
        \<or> canonical_nickname_key h (invitee_nickname claim) \<noteq> mi_key active_target
      then (Inl TargetIdentityMismatch, u)
      else if mi_key sender = mi_key active_target then (Inl SelfInvite, u)
      else if max_rooms (hub_limits_of u) \<le> length (hub_rooms u)
      then (Inl (RoomLimitReached (max_rooms (hub_limits_of u))), u)
      else
     (case ensure_identity_room_capacity sender u of Inl e \<Rightarrow> (Inl e, u) | Inr _ \<Rightarrow>
     (case ensure_identity_room_capacity active_target u of Inl e \<Rightarrow> (Inl e, u) | Inr _ \<Rightarrow>
     (case allocate_room_id u of (Inl e, u) \<Rightarrow> (Inl e, u) | (Inr i, u) \<Rightarrow>
        let members = [sender, active_target];
            u = u\<lparr>hub_rooms := tput i \<lparr>room_members_of = members\<rparr> (hub_rooms u)\<rparr>;
            u = fold (add_inverse_room i) members u;
            ev = InviteChat (mi_user_no sender) (mi_user_no active_target) (mi_nickname sender)
                   (mi_nickname active_target) i 0
        in (Inr (deliver_to_members members ev u), u))))))"

definition chat ::
  "host \<Rightarrow> messenger_session_id \<Rightarrow> messenger_identity \<Rightarrow> chat_claim \<Rightarrow> messenger_hub \<Rightarrow>
   hub_error + messenger_delivery list" where
  "chat h s active_sender claim u =
     (case authorize_session s active_sender u of Inl e \<Rightarrow> Inl e | Inr sender \<Rightarrow>
     (case validate_sender_nickname h sender (chat_nickname claim) of Inl e \<Rightarrow> Inl e | Inr _ \<Rightarrow>
     (case validate_message (chat_message claim) u of Inl e \<Rightarrow> Inl e | Inr _ \<Rightarrow>
     (case new_room_id (chat_room_id claim) of
        None \<Rightarrow> Inl (InvalidRoomId (chat_room_id claim))
      | Some i \<Rightarrow>
     (case map_of (hub_rooms u) i of
        None \<Rightarrow> Inl (RoomNotFound i)
      | Some room \<Rightarrow>
          if \<not> list_ex (\<lambda>m. identity_stamp_matches m sender) (room_members_of room)
          then Inl (NotRoomMember i (mi_nickname sender))
          else Inr (deliver_to_members (room_members_of room)
                 (ChatEvent i (mi_user_no sender) (mi_nickname sender) (chat_message claim) 0) u))))))"

text \<open>The first position of a matching member, and the list without it.\<close>

fun remove_member :: "messenger_identity \<Rightarrow> messenger_identity list \<Rightarrow> messenger_identity list option" where
  "remove_member i [] = None"
| "remove_member i (m # ms) =
     (if identity_stamp_matches m i then Some ms else map_option ((#) m) (remove_member i ms))"

definition leave ::
  "messenger_session_id \<Rightarrow> messenger_identity \<Rightarrow> leave_claim \<Rightarrow> messenger_hub \<Rightarrow>
   (hub_error + messenger_delivery list) \<times> messenger_hub" where
  "leave s active_sender claim u =
     (case authorize_session s active_sender u of Inl e \<Rightarrow> (Inl e, u) | Inr sender \<Rightarrow>
      if leave_user_no claim \<noteq> mi_user_no sender then (Inl SenderUserNoMismatch, u)
      else case new_room_id (leave_room_id claim) of
        None \<Rightarrow> (Inl (InvalidRoomId (leave_room_id claim)), u)
      | Some i \<Rightarrow>
     (case map_of (hub_rooms u) i of
        None \<Rightarrow> (Inl (RoomNotFound i), u)
      | Some room \<Rightarrow>
     (case remove_member sender (room_members_of room) of
        None \<Rightarrow> (Inl (NotRoomMember i (mi_nickname sender)), u)
      | Some rest \<Rightarrow>
          let u = u\<lparr>hub_rooms := tput i \<lparr>room_members_of = rest\<rparr> (hub_rooms u)\<rparr>;
              u = remove_inverse_room (mi_key sender) i u;
              u = (if rest = [] then u\<lparr>hub_rooms := tdel i (hub_rooms u)\<rparr> else u)
          in (Inr (deliver_to_members rest (LeaveChat (mi_user_no sender) i) u), u))))"

definition guild_chat ::
  "host \<Rightarrow> messenger_session_id \<Rightarrow> messenger_identity \<Rightarrow> guild_chat_claim \<Rightarrow> messenger_hub \<Rightarrow>
   hub_error + messenger_delivery list" where
  "guild_chat h s active_sender claim u =
     (case authorize_session s active_sender u of Inl e \<Rightarrow> Inl e | Inr sender \<Rightarrow>
     (case validate_sender_nickname h sender (guild_nickname claim) of Inl e \<Rightarrow> Inl e | Inr _ \<Rightarrow>
     (case validate_message (guild_message claim) u of Inl e \<Rightarrow> Inl e | Inr _ \<Rightarrow>
        Inr (map (\<lambda>t. \<lparr>delivery_session = t,
               delivery_event = GuildChat (mi_nickname sender) (guild_message claim)\<rparr>)
             (sort (map fst (endpoints_by_session u)))))))"

text \<open>The member update of \<open>advance_generation\<close> in one room: its first matching member.\<close>

fun replace_member ::
  "messenger_identity \<Rightarrow> messenger_identity \<Rightarrow> messenger_identity list \<Rightarrow> messenger_identity list option" where
  "replace_member p n [] = None"
| "replace_member p n (m # ms) =
     (if identity_stamp_matches m p then Some (n # ms) else map_option ((#) m) (replace_member p n ms))"

definition advance_room ::
  "messenger_identity \<Rightarrow> messenger_identity \<Rightarrow> u32 \<Rightarrow> messenger_hub \<times> nat \<Rightarrow> messenger_hub \<times> nat" where
  "advance_room p n i st = (case st of (u, updated) \<Rightarrow>
     (case map_of (hub_rooms u) i of
        None \<Rightarrow> st
      | Some room \<Rightarrow>
          (case replace_member p n (room_members_of room) of
             None \<Rightarrow> st
           | Some ms \<Rightarrow> (u\<lparr>hub_rooms := tput i \<lparr>room_members_of = ms\<rparr> (hub_rooms u)\<rparr>, updated + 1))))"

definition advance_generation ::
  "messenger_identity \<Rightarrow> messenger_identity \<Rightarrow> messenger_hub \<Rightarrow>
   (hub_error + generation_advance) \<times> messenger_hub" where
  "advance_generation p n u =
     (if mi_key p \<noteq> mi_key n \<or> mi_user_no p \<noteq> mi_user_no n \<or> mi_source_ip p \<noteq> mi_source_ip n
        \<or> mi_generation n \<le> mi_generation p
      then (Inl MigrationIdentityMismatch, u)
      else
        let (updated, u) = (case map_of (session_by_identity u) (mi_key p) of
              None \<Rightarrow> (False, u)
            | Some s \<Rightarrow> (case map_of (endpoints_by_session u) s of
                None \<Rightarrow> (False, u)
              | Some e \<Rightarrow>
                  if identity_stamp_matches (me_identity e) p
                  then (True, u\<lparr>endpoints_by_session := tput s (e\<lparr>me_identity := n\<rparr>) (endpoints_by_session u)\<rparr>)
                  else (False, u)));
            (u, rooms) = fold (advance_room p n) (rooms_of_key (mi_key p) u) (u, 0)
        in (Inr \<lparr>endpoint_updated = updated, room_members_updated = rooms\<rparr>, u))"

definition remove_from_room ::
  "messenger_identity \<Rightarrow> u32 \<Rightarrow> messenger_hub \<times> nat \<times> nat \<Rightarrow> messenger_hub \<times> nat \<times> nat" where
  "remove_from_room i rid st = (case st of (u, memberships, empties) \<Rightarrow>
     (case map_of (hub_rooms u) rid of
        None \<Rightarrow> st
      | Some room \<Rightarrow>
          let ms = filter (\<lambda>m. \<not> identity_stamp_matches m i) (room_members_of room);
              removed = length (room_members_of room) - length ms;
              u = u\<lparr>hub_rooms := tput rid \<lparr>room_members_of = ms\<rparr> (hub_rooms u)\<rparr>
          in if removed = 0 then (u, memberships, empties)
             else let u = remove_inverse_room (mi_key i) rid u in
               if ms = [] then (u\<lparr>hub_rooms := tdel rid (hub_rooms u)\<rparr>, memberships + removed, empties + 1)
               else (u, memberships + removed, empties)))"

definition remove_identity_from_rooms :: "messenger_identity \<Rightarrow> messenger_hub \<Rightarrow> messenger_hub \<times> nat \<times> nat" where
  "remove_identity_from_rooms i u = fold (remove_from_room i) (rooms_of_key (mi_key i) u) (u, 0, 0)"

definition release_identity :: "messenger_identity \<Rightarrow> messenger_hub \<Rightarrow> identity_release \<times> messenger_hub" where
  "release_identity i u =
     (let disconnected = (case map_of (session_by_identity u) (mi_key i) of
            None \<Rightarrow> None
          | Some s \<Rightarrow> (case map_of (endpoints_by_session u) s of
              None \<Rightarrow> None
            | Some e \<Rightarrow> if identity_stamp_matches (me_identity e) i then Some s else None));
          u = (case disconnected of None \<Rightarrow> u
            | Some s \<Rightarrow>
                let u = u\<lparr>endpoints_by_session := tdel s (endpoints_by_session u)\<rparr> in
                if map_of (session_by_identity u) (mi_key i) = Some s
                then u\<lparr>session_by_identity := tdel (mi_key i) (session_by_identity u)\<rparr> else u);
          (u, memberships, empties) = remove_identity_from_rooms i u
      in (\<lparr>disconnected_session = disconnected, room_memberships_removed = memberships,
            empty_rooms_removed = empties\<rparr>, u))"

definition disconnect_session ::
  "messenger_session_id \<Rightarrow> messenger_hub \<Rightarrow> identity_release option \<times> messenger_hub" where
  "disconnect_session s u =
     (case map_of (endpoints_by_session u) s of
        None \<Rightarrow> (None, u)
      | Some e \<Rightarrow>
          let i = me_identity e;
              u = u\<lparr>endpoints_by_session := tdel s (endpoints_by_session u)\<rparr>;
              u = (if map_of (session_by_identity u) (mi_key i) = Some s
                   then u\<lparr>session_by_identity := tdel (mi_key i) (session_by_identity u)\<rparr> else u);
              (u, memberships, empties) = remove_identity_from_rooms i u
          in (Some \<lparr>disconnected_session = Some s, room_memberships_removed = memberships,
                empty_rooms_removed = empties\<rparr>, u))"

text \<open>The assertions of \<open>debug_assert_invariants\<close>, as a predicate.\<close>

definition debug_invariants :: "messenger_hub \<Rightarrow> bool" where
  "debug_invariants u \<longleftrightarrow>
     length (endpoints_by_session u) \<le> max_sessions (hub_limits_of u) \<and>
     length (hub_rooms u) \<le> max_rooms (hub_limits_of u) \<and>
     length (endpoints_by_session u) = length (session_by_identity u) \<and>
     list_all (\<lambda>(s, e). map_of (session_by_identity u) (mi_key (me_identity e)) = Some s)
       (endpoints_by_session u) \<and>
     list_all (\<lambda>(k, ids). length ids \<le> max_rooms_per_identity (hub_limits_of u) \<and>
         list_all (\<lambda>i. case map_of (hub_rooms u) i of None \<Rightarrow> False
           | Some room \<Rightarrow> list_ex (\<lambda>m. mi_key m = k) (room_members_of room)) ids)
       (rooms_by_identity u) \<and>
     list_all (\<lambda>(i, room). room_members_of room \<noteq> [] \<and> length (room_members_of room) \<le> 2 \<and>
         list_all (\<lambda>m. case map_of (rooms_by_identity u) (mi_key m) of None \<Rightarrow> False
           | Some ids \<Rightarrow> i \<in> set ids) (room_members_of room))
       (hub_rooms u)"

end
