(* ===== verification/MessengerInv.thy ===== *)
theory MessengerInv
  imports MessengerHub
begin

text \<open>
  The invariant of the messenger hub, in two halves that no operation mixes: the sessions and their
  identity index are inverse to each other, and the rooms and the identities' room lists are inverse
  to each other. Each operation is one of five updates of a half.
\<close>

section \<open>The invariant\<close>

definition session_inv ::
  "nat \<Rightarrow> (messenger_session_id, messenger_endpoint) table \<Rightarrow> (ustring, messenger_session_id) table \<Rightarrow> bool" where
  "session_inv cap ends byid \<longleftrightarrow> wf_table ends \<and> wf_table byid \<and> length ends \<le> cap \<and>
     (\<forall>s e. map_of ends s = Some e \<longrightarrow> map_of byid (mi_key (me_identity e)) = Some s) \<and>
     (\<forall>k s. map_of byid k = Some s \<longrightarrow> (\<exists>e. map_of ends s = Some e \<and> mi_key (me_identity e) = k))"

definition members_at :: "(u32, messenger_room) table \<Rightarrow> u32 \<Rightarrow> messenger_identity list" where
  "members_at rooms i = (case map_of rooms i of None \<Rightarrow> [] | Some r \<Rightarrow> room_members_of r)"

definition ids_of :: "(ustring, u32 list) table \<Rightarrow> ustring \<Rightarrow> u32 list" where
  "ids_of t k = (case map_of t k of None \<Rightarrow> [] | Some ids \<Rightarrow> ids)"

definition room_inv ::
  "hub_limits \<Rightarrow> (u32, messenger_room) table \<Rightarrow> (ustring, u32 list) table \<Rightarrow> u32 option \<Rightarrow> bool" where
  "room_inv l rooms t nxt \<longleftrightarrow> wf_table rooms \<and> wf_table t \<and> length rooms \<le> max_rooms l \<and>
     (\<forall>i k. i \<in> set (ids_of t k) \<longleftrightarrow> k \<in> mi_key ` set (members_at rooms i)) \<and>
     (\<forall>i r. map_of rooms i = Some r \<longrightarrow> room_members_of r \<noteq> [] \<and> length (room_members_of r) \<le> 2 \<and>
        distinct (map mi_key (room_members_of r))) \<and>
     (\<forall>k. distinct (ids_of t k) \<and> length (ids_of t k) \<le> max_rooms_per_identity l) \<and>
     (\<forall>n i. nxt = Some n \<longrightarrow> map_of rooms i \<noteq> None \<longrightarrow> i < n)"

definition hub_inv :: "messenger_hub \<Rightarrow> bool" where
  "hub_inv u \<longleftrightarrow>
     session_inv (max_sessions (hub_limits_of u)) (endpoints_by_session u) (session_by_identity u) \<and>
     room_inv (hub_limits_of u) (hub_rooms u) (rooms_by_identity u) (next_room_id u)"

lemma session_invD:
  assumes "session_inv cap ends byid"
  shows "wf_table ends" "wf_table byid" "length ends \<le> cap"
    "map_of ends s = Some e \<Longrightarrow> map_of byid (mi_key (me_identity e)) = Some s"
    "map_of byid k = Some s \<Longrightarrow> \<exists>e. map_of ends s = Some e \<and> mi_key (me_identity e) = k"
  using assms unfolding session_inv_def by blast+

lemma room_invD:
  assumes "room_inv l rooms t nxt"
  shows "wf_table rooms" "wf_table t" "length rooms \<le> max_rooms l"
    "i \<in> set (ids_of t k) \<longleftrightarrow> k \<in> mi_key ` set (members_at rooms i)"
    "map_of rooms i = Some r \<Longrightarrow> room_members_of r \<noteq> []"
    "map_of rooms i = Some r \<Longrightarrow> length (room_members_of r) \<le> 2"
    "map_of rooms i = Some r \<Longrightarrow> distinct (map mi_key (room_members_of r))"
    "distinct (ids_of t k)" "length (ids_of t k) \<le> max_rooms_per_identity l"
    "nxt = Some n \<Longrightarrow> map_of rooms i \<noteq> None \<Longrightarrow> i < n"
  using assms unfolding room_inv_def by blast+

lemma room_invI:
  assumes "wf_table rooms" "wf_table t" "length rooms \<le> max_rooms l"
    "\<And>i k. i \<in> set (ids_of t k) \<longleftrightarrow> k \<in> mi_key ` set (members_at rooms i)"
    "\<And>i r. map_of rooms i = Some r \<Longrightarrow> room_members_of r \<noteq> [] \<and> length (room_members_of r) \<le> 2 \<and>
        distinct (map mi_key (room_members_of r))"
    "\<And>k. distinct (ids_of t k) \<and> length (ids_of t k) \<le> max_rooms_per_identity l"
    "\<And>n i. nxt = Some n \<Longrightarrow> map_of rooms i \<noteq> None \<Longrightarrow> i < n"
  shows "room_inv l rooms t nxt"
  using assms unfolding room_inv_def by blast

lemma rooms_of_key_ids [simp]: "rooms_of_key k u = ids_of (rooms_by_identity u) k"
  by (simp add: rooms_of_key_def ids_of_def)

lemma ids_of_tput [simp]: "ids_of (tput k ids t) k' = (if k' = k then ids else ids_of t k')"
  by (simp add: ids_of_def)

lemma ids_of_tdel [simp]: "ids_of (tdel k t) k' = (if k' = k then [] else ids_of t k')"
  by (simp add: ids_of_def)

lemma members_at_tput [simp]:
  "members_at (tput i r rooms) j = (if j = i then room_members_of r else members_at rooms j)"
  by (simp add: members_at_def)

lemma members_at_tdel [simp]: "members_at (tdel i rooms) j = (if j = i then [] else members_at rooms j)"
  by (simp add: members_at_def)

text \<open>The invariant gives the assertions of the code.\<close>

lemma session_lengths:
  assumes "session_inv cap ends byid"
  shows "length ends = length byid"
proof -
  note D = session_invD[OF assms]
  have "bij_betw (\<lambda>k. the (map_of byid k)) (dom (map_of byid)) (dom (map_of ends))"
    unfolding bij_betw_def
  proof
    show "inj_on (\<lambda>k. the (map_of byid k)) (dom (map_of byid))"
    proof (rule inj_onI, clarify)
      fix k k' s s' assume "map_of byid k = Some s" "map_of byid k' = Some s'"
        "the (map_of byid k) = the (map_of byid k')"
      then show "k = k'" using D(5)[of k s] D(5)[of k' s'] by auto
    qed
    show "(\<lambda>k. the (map_of byid k)) ` dom (map_of byid) = dom (map_of ends)"
    proof (intro equalityI subsetI)
      fix s assume "s \<in> dom (map_of ends)"
      then obtain e where "map_of ends s = Some e" by blast
      from D(4)[OF this] show "s \<in> (\<lambda>k. the (map_of byid k)) ` dom (map_of byid)"
        by (intro image_eqI[of _ _ "mi_key (me_identity e)"]) auto
    next
      fix s assume "s \<in> (\<lambda>k. the (map_of byid k)) ` dom (map_of byid)"
      then obtain k where "map_of byid k = Some s" by auto
      from D(5)[OF this] show "s \<in> dom (map_of ends)" by auto
    qed
  qed
  then show ?thesis
    using bij_betw_same_card card_dom_table[OF D(1)] card_dom_table[OF D(2)] by metis
qed

lemma hub_inv_debug:
  assumes "hub_inv u"
  shows "debug_invariants u"
proof -
  have S: "session_inv (max_sessions (hub_limits_of u)) (endpoints_by_session u) (session_by_identity u)"
    and R: "room_inv (hub_limits_of u) (hub_rooms u) (rooms_by_identity u) (next_room_id u)"
    using assms by (simp_all add: hub_inv_def)
  have "length ids \<le> max_rooms_per_identity (hub_limits_of u) \<and>
      list_all (\<lambda>i. case map_of (hub_rooms u) i of None \<Rightarrow> False
           | Some room \<Rightarrow> list_ex (\<lambda>m. mi_key m = k) (room_members_of room)) ids"
    if "(k, ids) \<in> set (rooms_by_identity u)" for k ids
  proof -
    have ids: "ids_of (rooms_by_identity u) k = ids"
      using that map_of_in_set[OF room_invD(2)[OF R], of k ids] by (simp add: ids_of_def)
    then have "k \<in> mi_key ` set (members_at (hub_rooms u) i)" if "i \<in> set ids" for i
      using room_invD(4)[OF R, of i k] that by simp
    then have "case map_of (hub_rooms u) i of None \<Rightarrow> False
        | Some room \<Rightarrow> list_ex (\<lambda>m. mi_key m = k) (room_members_of room)" if "i \<in> set ids" for i
      using that by (cases "map_of (hub_rooms u) i") (fastforce simp: members_at_def list_ex_iff)+
    then show ?thesis
      using room_invD(9)[OF R, of k] by (simp add: ids list_all_iff)
  qed
  moreover have "room_members_of room \<noteq> [] \<and> length (room_members_of room) \<le> 2 \<and>
      list_all (\<lambda>m. case map_of (rooms_by_identity u) (mi_key m) of None \<Rightarrow> False
           | Some ids \<Rightarrow> i \<in> set ids) (room_members_of room)"
    if "(i, room) \<in> set (hub_rooms u)" for i room
  proof -
    have room: "map_of (hub_rooms u) i = Some room"
      using that map_of_in_set[OF room_invD(1)[OF R]] by simp
    have "i \<in> set (ids_of (rooms_by_identity u) (mi_key m))" if "m \<in> set (room_members_of room)" for m
      using room_invD(4)[OF R, of i "mi_key m"] that room by (simp add: members_at_def)
    then have "case map_of (rooms_by_identity u) (mi_key m) of None \<Rightarrow> False | Some ids \<Rightarrow> i \<in> set ids"
      if "m \<in> set (room_members_of room)" for m
      using that by (cases "map_of (rooms_by_identity u) (mi_key m)") (fastforce simp: ids_of_def)+
    then show ?thesis
      using room_invD(5,6)[OF R room] by (simp add: list_all_iff)
  qed
  moreover have "list_all (\<lambda>(s, e). map_of (session_by_identity u) (mi_key (me_identity e)) = Some s)
      (endpoints_by_session u)"
    using session_invD(4)[OF S] map_of_in_set[OF session_invD(1)[OF S]] by (auto simp: list_all_iff)
  ultimately show ?thesis
    using session_invD(3)[OF S] session_lengths[OF S] room_invD(3)[OF R]
    by (auto simp: debug_invariants_def list_all_iff)
qed

section \<open>Updates of the sessions\<close>

lemma session_inv_drop:
  assumes "session_inv cap ends byid" "map_of ends s = Some e"
  shows "session_inv cap (tdel s ends) (tdel (mi_key (me_identity e)) byid)"
proof -
  note D = session_invD[OF assms(1)]
  have "length (tdel s ends) \<le> cap" using length_tdel_le D(3) by (rule order_trans)
  moreover have "\<exists>e'. map_of ends s' = Some e' \<and> mi_key (me_identity e') = k \<and> s' \<noteq> s"
    if "map_of byid k = Some s'" "k \<noteq> mi_key (me_identity e)" for k s'
    using D(5)[OF that(1)] that(2) assms(2) by auto
  moreover have "mi_key (me_identity e') \<noteq> mi_key (me_identity e)" if "map_of ends s' = Some e'" "s' \<noteq> s" for s' e'
    using D(4)[OF that(1)] D(4)[OF assms(2)] that(2) by auto
  ultimately show ?thesis
    using D(1,2,4) by (auto simp: session_inv_def)
qed

lemma session_inv_rekey:
  assumes "session_inv cap ends byid" "map_of ends s = Some e" "mi_key n = mi_key (me_identity e)"
  shows "session_inv cap (tput s (e\<lparr>me_identity := n\<rparr>) ends) byid"
  using session_invD[OF assms(1)] assms(2,3)
  by (auto simp: session_inv_def length_tput) (metis option.inject)

lemma session_inv_add:
  assumes "session_inv cap ends byid" "map_of ends s = None" "map_of byid (mi_key (me_identity e)) = None"
    "length ends < cap"
  shows "session_inv cap (tput s e ends) (tput (mi_key (me_identity e)) s byid)"
proof -
  note D = session_invD[OF assms(1)]
  have "mi_key (me_identity e') \<noteq> mi_key (me_identity e)" if "map_of ends s' = Some e'" for s' e'
    using D(4)[OF that] assms(3) by auto
  moreover have "\<exists>e'. map_of ends s' = Some e' \<and> mi_key (me_identity e') = k \<and> s' \<noteq> s"
    if "map_of byid k = Some s'" for k s'
    using D(5)[OF that] assms(2) by auto
  ultimately show ?thesis
    using D(1,2,4) assms(2,4) by (simp add: session_inv_def length_tput) blast
qed

lemma session_inv_cong: "map_of byid = map_of byid' \<Longrightarrow> wf_table byid' \<Longrightarrow>
    session_inv cap ends byid \<Longrightarrow> session_inv cap ends byid'"
  by (simp add: session_inv_def)

lemma session_inv_enter:
  assumes "session_inv cap ends byid" "map_of ends s = None"
    and "map_of byid (mi_key n) = None \<Longrightarrow> length ends < cap"
  shows "session_inv cap (tput s \<lparr>me_identity = n, me_chat_type = c\<rparr>
      (case map_of byid (mi_key n) of None \<Rightarrow> ends | Some p \<Rightarrow> tdel p ends)) (tput (mi_key n) s byid)"
proof (cases "map_of byid (mi_key n)")
  case None
  with assms session_inv_add[of cap ends byid s "\<lparr>me_identity = n, me_chat_type = c\<rparr>"]
  show ?thesis by simp
next
  case (Some p)
  note D = session_invD[OF assms(1)]
  from D(5)[OF Some] obtain e where e: "map_of ends p = Some e" "mi_key (me_identity e) = mi_key n" by blast
  have drop: "session_inv cap (tdel p ends) (tdel (mi_key n) byid)"
    using session_inv_drop[OF assms(1) e(1)] e(2) by simp
  have "0 < length ends" using e(1) by (cases ends) auto
  then have "length (tdel p ends) < cap"
    using e(1) D(3) by (simp add: length_tdel[OF D(1)] del: length_greater_0_conv)
  then have "session_inv cap (tput s \<lparr>me_identity = n, me_chat_type = c\<rparr> (tdel p ends))
      (tput (mi_key n) s (tdel (mi_key n) byid))"
    using session_inv_add[OF drop, of s "\<lparr>me_identity = n, me_chat_type = c\<rparr>"] assms(2) by simp
  then show ?thesis
    unfolding Some option.case
    by (rule session_inv_cong[rotated 2]) (simp_all add: D(2))
qed

section \<open>Updates of the rooms\<close>

text \<open>A new room of two members with different keys.\<close>

lemma room_inv_new:
  assumes "room_inv l rooms t (Some n)" "length rooms < max_rooms l" "mi_key a \<noteq> mi_key b"
    "length (ids_of t (mi_key a)) < max_rooms_per_identity l"
    "length (ids_of t (mi_key b)) < max_rooms_per_identity l"
    "\<And>n'. nxt = Some n' \<Longrightarrow> n < n'"
  shows "room_inv l (tput n \<lparr>room_members_of = [a, b]\<rparr> rooms)
    (tput (mi_key b) (List.insert n (ids_of t (mi_key b)))
      (tput (mi_key a) (List.insert n (ids_of t (mi_key a))) t)) nxt"
proof -
  note D = room_invD[OF assms(1)]
  have fresh: "map_of rooms n = None" using D(10)[of n n] by (cases "map_of rooms n") auto
  then have "n \<notin> set (ids_of t k)" for k using D(4)[of n k] by (simp add: members_at_def)
  moreover have "i < n'" if "nxt = Some n'" "i = n \<or> map_of rooms i \<noteq> None" for i n'
    using assms(6)[OF that(1)] that(2) D(10)[of n i] by (auto intro: less_trans)
  ultimately show ?thesis
    using D(1,2,4-9) assms(2-5) fresh
    by (intro room_invI) (auto simp: length_tput members_at_def split: if_split_asm)
qed

text \<open>A room whose members change without their keys.\<close>

lemma room_inv_rekey:
  assumes "room_inv l rooms t nxt" "map_of rooms i = Some r" "map mi_key ms = map mi_key (room_members_of r)"
  shows "room_inv l (tput i \<lparr>room_members_of = ms\<rparr> rooms) t nxt"
proof -
  note D = room_invD[OF assms(1)]
  have "mi_key ` set ms = mi_key ` set (members_at rooms i)"
    using arg_cong[OF assms(3), of set] assms(2) by (simp add: members_at_def)
  moreover have "ms \<noteq> [] \<and> length ms \<le> 2 \<and> distinct (map mi_key ms)"
    using D(5-7)[OF assms(2)] assms(3) by (metis length_map list.map_disc_iff)
  ultimately show ?thesis
    using D(1-10) assms(2) by (intro room_invI) (auto simp: length_tput split: if_split_asm)
qed

text \<open>A room that loses the member of one key, and disappears when it was the last one.\<close>

definition drop_index :: "ustring \<Rightarrow> u32 \<Rightarrow> (ustring, u32 list) table \<Rightarrow> (ustring, u32 list) table" where
  "drop_index k i t = (case map_of t k of None \<Rightarrow> t
     | Some ids \<Rightarrow> if removeAll i ids = [] then tdel k t else tput k (removeAll i ids) t)"

lemma remove_inverse_room_index:
  "remove_inverse_room k i u = u\<lparr>rooms_by_identity := drop_index k i (rooms_by_identity u)\<rparr>"
  by (simp add: remove_inverse_room_def drop_index_def split: option.split)

lemma ids_of_drop_index:
  "ids_of (drop_index k i t) k' = (if k' = k then removeAll i (ids_of t k) else ids_of t k')"
  by (auto simp: drop_index_def ids_of_def split: option.splits)

lemma wf_drop_index [simp]: "wf_table t \<Longrightarrow> wf_table (drop_index k i t)"
  by (auto simp: drop_index_def split: option.splits)

lemma length_removeAll_le: "length (removeAll x xs) \<le> length xs"
  by (simp add: removeAll_filter_not_eq)

lemma room_inv_remove:
  assumes "room_inv l rooms t nxt" "map_of rooms i = Some r"
    and ms: "mi_key ` set ms = mi_key ` set (room_members_of r) - {k}" "length ms \<le> length (room_members_of r)"
      "distinct (map mi_key ms)"
  shows "room_inv l (if ms = [] then tdel i rooms else tput i \<lparr>room_members_of = ms\<rparr> rooms) (drop_index k i t) nxt"
proof -
  note D = room_invD[OF assms(1)]
  let ?rooms = "if ms = [] then tdel i rooms else tput i \<lparr>room_members_of = ms\<rparr> rooms"
  have at: "members_at ?rooms j = (if j = i then ms else members_at rooms j)" for j by simp
  have "set (members_at rooms i) = set (room_members_of r)" using assms(2) by (simp add: members_at_def)
  then have "j \<in> set (ids_of (drop_index k i t) k') \<longleftrightarrow> k' \<in> mi_key ` set (members_at ?rooms j)" for j k'
    unfolding at using D(4)[of j k'] ms(1) by (auto simp: ids_of_drop_index)
  moreover have "length (removeAll i (ids_of t k)) \<le> max_rooms_per_identity l"
    using D(9)[of k] length_removeAll_le by (rule order_trans[rotated])
  moreover have "length ms \<le> 2" using D(6)[OF assms(2)] ms(2) by simp
  moreover have "length ?rooms \<le> max_rooms l"
    using D(3) assms(2) length_tdel_le[of i rooms] by (auto simp: length_tput)
  ultimately show ?thesis
    using D(1,2,5-10) ms(3) assms(2)
    by (intro room_invI) (auto simp: ids_of_drop_index distinct_removeAll split: if_split_asm)
qed

section \<open>Preservation\<close>

lemma hub_invI:
  "session_inv (max_sessions (hub_limits_of u)) (endpoints_by_session u) (session_by_identity u) \<Longrightarrow>
   room_inv (hub_limits_of u) (hub_rooms u) (rooms_by_identity u) (next_room_id u) \<Longrightarrow> hub_inv u"
  by (simp add: hub_inv_def)

lemma hub_invD:
  assumes "hub_inv u"
  shows "session_inv (max_sessions (hub_limits_of u)) (endpoints_by_session u) (session_by_identity u)"
    "room_inv (hub_limits_of u) (hub_rooms u) (rooms_by_identity u) (next_room_id u)"
  using assms by (simp_all add: hub_inv_def)

lemma enter_inv:
  assumes "hub_inv u"
  shows "hub_inv (snd (enter h s ip a c u))"
proof -
  note S = hub_invD(1)[OF assms] and R = hub_invD(2)[OF assms]
  have "session_inv (max_sessions (hub_limits_of u))
      (tput s \<lparr>me_identity = a, me_chat_type = enter_chat_type c\<rparr>
        (case map_of (session_by_identity u) (mi_key a) of None \<Rightarrow> endpoints_by_session u
         | Some p \<Rightarrow> tdel p (endpoints_by_session u))) (tput (mi_key a) s (session_by_identity u))"
    if "map_of (endpoints_by_session u) s = None"
      "\<not> (map_of (session_by_identity u) (mi_key a) = None \<and>
          max_sessions (hub_limits_of u) \<le> length (endpoints_by_session u))"
    by (rule session_inv_enter[OF S that(1)]) (use that(2) in auto)
  with assms R show ?thesis
    by (auto simp: enter_def Let_def hub_inv_def simp del: not_None_eq)
qed

lemma ids_of_add [simp]:
  "add_inverse_room i m u =
     u\<lparr>rooms_by_identity := tput (mi_key m) (List.insert i (ids_of (rooms_by_identity u) (mi_key m))) (rooms_by_identity u)\<rparr>"
  by (simp add: add_inverse_room_def)

text \<open>A successful invitation, in full.\<close>

lemma invite_Inr:
  assumes "invite h s a b claim u = (Inr ds, u')"
  obtains sender n where "authorize_session s a u = Inr sender" "mi_key sender \<noteq> mi_key b"
    "length (hub_rooms u) < max_rooms (hub_limits_of u)"
    "length (ids_of (rooms_by_identity u) (mi_key sender)) < max_rooms_per_identity (hub_limits_of u)"
    "length (ids_of (rooms_by_identity u) (mi_key b)) < max_rooms_per_identity (hub_limits_of u)"
    "next_room_id u = Some n"
    "u' = u\<lparr>next_room_id := checked_succ n, hub_rooms := tput n \<lparr>room_members_of = [sender, b]\<rparr> (hub_rooms u),
       rooms_by_identity := tput (mi_key b) (List.insert n (ids_of (rooms_by_identity u) (mi_key b)))
         (tput (mi_key sender) (List.insert n (ids_of (rooms_by_identity u) (mi_key sender))) (rooms_by_identity u))\<rparr>"
    "ds = deliver_to_members [sender, b] (InviteChat (mi_user_no sender) (mi_user_no b) (mi_nickname sender)
       (mi_nickname b) n 0) u'"
proof -
  obtain sender where a: "authorize_session s a u = Inr sender"
    using assms by (cases "authorize_session s a u") (auto simp: invite_def)
  show thesis
    using assms a
    by (intro that[of sender "the (next_room_id u)"])
       (auto simp: invite_def Let_def ensure_identity_room_capacity_def allocate_room_id_def
         split: sum.splits if_split_asm option.splits)
qed

lemma invite_Inl: "invite h s a b claim u = (Inl e, u') \<Longrightarrow> u' = u"
  by (auto simp: invite_def Let_def allocate_room_id_def split: sum.splits if_split_asm option.splits)

lemma invite_inv:
  assumes "hub_inv u"
  shows "hub_inv (snd (invite h s a b claim u))"
proof (cases "invite h s a b claim u")
  case (Pair res u')
  show ?thesis
  proof (cases res)
    case (Inl e)
    with Pair invite_Inl assms show ?thesis by fastforce
  next
    case (Inr ds)
    note inv = Pair[unfolded Inr]
    then show ?thesis
    proof (rule invite_Inr)
      fix sender n
      assume * : "mi_key sender \<noteq> mi_key b" "length (hub_rooms u) < max_rooms (hub_limits_of u)"
        "length (ids_of (rooms_by_identity u) (mi_key sender)) < max_rooms_per_identity (hub_limits_of u)"
        "length (ids_of (rooms_by_identity u) (mi_key b)) < max_rooms_per_identity (hub_limits_of u)"
        "next_room_id u = Some n"
        and u': "u' = u\<lparr>next_room_id := checked_succ n, hub_rooms := tput n \<lparr>room_members_of = [sender, b]\<rparr> (hub_rooms u),
       rooms_by_identity := tput (mi_key b) (List.insert n (ids_of (rooms_by_identity u) (mi_key b)))
         (tput (mi_key sender) (List.insert n (ids_of (rooms_by_identity u) (mi_key sender))) (rooms_by_identity u))\<rparr>"
      have "room_inv (hub_limits_of u') (hub_rooms u') (rooms_by_identity u') (next_room_id u')"
        using room_inv_new[OF hub_invD(2)[OF assms, unfolded *(5)] *(2,1,3,4), of "checked_succ n"]
          checked_succ_less by (auto simp: u')
      with hub_invD(1)[OF assms] show ?thesis by (simp add: Pair hub_inv_def u')
    qed
  qed
qed

lemma stamp_key: "identity_stamp_matches l r \<Longrightarrow> mi_key l = mi_key r"
  by (simp add: identity_stamp_matches_def)

lemma remove_member_Some:
  "remove_member i ms = Some ms' \<Longrightarrow> \<exists>xs m ys. ms = xs @ m # ys \<and> ms' = xs @ ys \<and> identity_stamp_matches m i"
proof (induction ms arbitrary: ms')
  case (Cons m ms)
  show ?case
  proof (cases "identity_stamp_matches m i")
    case True
    with Cons.prems show ?thesis by (intro exI[of _ "[]"] exI[of _ m] exI[of _ ms]) simp
  next
    case False
    with Cons.prems obtain r where "remove_member i ms = Some r" "ms' = m # r" by auto
    with Cons.IH[of r] obtain xs m' ys where "ms = xs @ m' # ys" "r = xs @ ys" "identity_stamp_matches m' i"
      by blast
    with \<open>ms' = m # r\<close> show ?thesis by (intro exI[of _ "m # xs"] exI[of _ m'] exI[of _ ys]) simp
  qed
qed simp

lemma replace_member_keys:
  "replace_member p n ms = Some ms' \<Longrightarrow> mi_key n = mi_key p \<Longrightarrow> map mi_key ms' = map mi_key ms"
  by (induction ms arbitrary: ms') (auto split: if_split_asm dest: stamp_key)

lemma leave_inv:
  assumes "hub_inv u"
  shows "hub_inv (snd (leave s a claim u))"
proof -
  note S = hub_invD(1)[OF assms] and R = hub_invD(2)[OF assms]
  have "hub_inv (let u = u\<lparr>hub_rooms := tput i \<lparr>room_members_of = rest\<rparr> (hub_rooms u)\<rparr>;
              u = remove_inverse_room (mi_key sender) i u
          in (if rest = [] then u\<lparr>hub_rooms := tdel i (hub_rooms u)\<rparr> else u))"
    if r: "map_of (hub_rooms u) i = Some room" and m: "remove_member sender (room_members_of room) = Some rest"
    for i room sender rest
  proof -
    from remove_member_Some[OF m] obtain xs m ys where x: "room_members_of room = xs @ m # ys"
      "rest = xs @ ys" "identity_stamp_matches m sender" by blast
    have "distinct (map mi_key (xs @ m # ys))" using room_invD(7)[OF R r] x(1) by simp
    then have "mi_key sender \<notin> mi_key ` set rest" "distinct (map mi_key rest)"
      using x(2) stamp_key[OF x(3)] by auto
    then have "mi_key ` set rest = mi_key ` set (room_members_of room) - {mi_key sender}"
      "distinct (map mi_key rest)" "length rest \<le> length (room_members_of room)"
      unfolding x(1,2) using stamp_key[OF x(3)] by (simp_all add: image_Un insert_Diff_if)
    from room_inv_remove[OF R r this(1,3,2)] S show ?thesis
      by (cases "rest = []") (simp_all add: Let_def hub_inv_def remove_inverse_room_index)
  qed
  with assms show ?thesis
    by (auto simp: leave_def Let_def split: sum.split option.split)
qed

lemma advance_room_inv:
  assumes "hub_inv (fst st)" "mi_key p = mi_key n"
  shows "hub_inv (fst (advance_room p n i st))"
proof -
  obtain u c where st: "st = (u, c)" by (cases st)
  have "room_inv (hub_limits_of u) (tput i \<lparr>room_members_of = ms\<rparr> (hub_rooms u)) (rooms_by_identity u) (next_room_id u)"
    if "map_of (hub_rooms u) i = Some room" "replace_member p n (room_members_of room) = Some ms" for room ms
    using hub_invD(2)[OF assms(1)] that(1) replace_member_keys[OF that(2)] assms(2)
    by (intro room_inv_rekey) (simp_all add: st)
  with hub_invD[OF assms(1)] show ?thesis
    by (simp add: st advance_room_def hub_inv_def split: option.split)
qed

lemma advance_generation_inv:
  assumes "hub_inv u"
  shows "hub_inv (snd (advance_generation p n u))"
proof (cases "mi_key p = mi_key n")
  case True
  let ?e = "case map_of (session_by_identity u) (mi_key p) of
              None \<Rightarrow> (False, u)
            | Some s \<Rightarrow> (case map_of (endpoints_by_session u) s of
                None \<Rightarrow> (False, u)
              | Some e \<Rightarrow>
                  if identity_stamp_matches (me_identity e) p
                  then (True, u\<lparr>endpoints_by_session := tput s (e\<lparr>me_identity := n\<rparr>) (endpoints_by_session u)\<rparr>)
                  else (False, u))"
  have "hub_inv (snd ?e)"
    using assms hub_invD[OF assms] True
    by (auto simp: hub_inv_def stamp_key intro!: session_inv_rekey split: option.split)
  then have "hub_inv (fst (fold (advance_room p n) ids (snd ?e, 0)))" for ids
    by (intro fold_invariant[where P = "\<lambda>st. hub_inv (fst st)" and Q = "\<lambda>_. True"])
       (simp_all add: advance_room_inv True)
  then show ?thesis
    using assms unfolding advance_generation_def Let_def case_prod_beta' by (simp add: True)
qed (use assms in \<open>simp add: advance_generation_def\<close>)

lemma remove_from_room_inv:
  assumes "hub_inv (fst st)"
  shows "hub_inv (fst (remove_from_room i rid st))"
proof -
  obtain u c d where st: "st = (u, c, d)" by (cases st)
  have u: "hub_inv u" using assms by (simp add: st)
  note S = hub_invD(1)[OF u] and R = hub_invD(2)[OF u]
  show ?thesis
  proof (cases "map_of (hub_rooms u) rid")
    case None
    with u show ?thesis by (simp add: st remove_from_room_def)
  next
    case (Some room)
    let ?ms = "filter (\<lambda>m. \<not> identity_stamp_matches m i) (room_members_of room)"
    show ?thesis
    proof (cases "length (room_members_of room) - length ?ms = 0")
      case True
      then have "?ms = room_members_of room"
        using length_filter_le[of "\<lambda>m. \<not> identity_stamp_matches m i" "room_members_of room"]
        by (metis diff_is_0_eq filter_True le_antisym length_filter_less not_less)
      then have "tput rid \<lparr>room_members_of = ?ms\<rparr> (hub_rooms u) = hub_rooms u"
        using Some by simp
      with True u show ?thesis by (simp add: st remove_from_room_def Some Let_def)
    next
      case False
      then obtain m where m: "m \<in> set (room_members_of room)" "identity_stamp_matches m i"
        by (metis diff_self_eq_0 filter_True)
      have d: "distinct (map mi_key (room_members_of room))" by (rule room_invD(7)[OF R Some])
      have only: "identity_stamp_matches m' i" if "m' \<in> set (room_members_of room)" "mi_key m' = mi_key i" for m'
      proof -
        have "inj_on mi_key (set (room_members_of room))" using d by (simp add: distinct_map)
        from inj_onD[OF this _ that(1) m(1)] have "m' = m" using that(2) stamp_key[OF m(2)] by simp
        with m(2) show ?thesis by simp
      qed
      have "mi_key ` set ?ms = mi_key ` set (room_members_of room) - {mi_key i}"
      proof (intro equalityI subsetI)
        fix k assume "k \<in> mi_key ` set ?ms"
        then show "k \<in> mi_key ` set (room_members_of room) - {mi_key i}" using only by auto
      next
        fix k assume "k \<in> mi_key ` set (room_members_of room) - {mi_key i}"
        then show "k \<in> mi_key ` set ?ms" using stamp_key by fastforce
      qed
      note room_inv_remove[OF R Some this length_filter_le distinct_map_filter[OF d]]
      moreover have "fst (remove_from_room i rid st) = u\<lparr>hub_rooms := if ?ms = [] then tdel rid (hub_rooms u)
            else tput rid \<lparr>room_members_of = ?ms\<rparr> (hub_rooms u),
          rooms_by_identity := drop_index (mi_key i) rid (rooms_by_identity u)\<rparr>"
        using False by (cases "?ms = []")
          (simp_all add: st remove_from_room_def Some Let_def remove_inverse_room_index del: filter_empty_conv)
      ultimately show ?thesis using S by (simp add: hub_inv_def del: filter_empty_conv)
    qed
  qed
qed

lemma remove_identity_inv: "hub_inv u \<Longrightarrow> hub_inv (fst (remove_identity_from_rooms i u))"
  unfolding remove_identity_from_rooms_def
  by (rule fold_invariant[where P = "\<lambda>st. hub_inv (fst st)" and Q = "\<lambda>_. True"])
     (simp_all add: remove_from_room_inv)

text \<open>Dropping an endpoint and its index entry.\<close>

definition drop_endpoint :: "messenger_session_id \<Rightarrow> ustring \<Rightarrow> messenger_hub \<Rightarrow> messenger_hub" where
  "drop_endpoint s k u = u\<lparr>endpoints_by_session := tdel s (endpoints_by_session u),
     session_by_identity := tdel k (session_by_identity u)\<rparr>"

lemma drop_endpoint_inv:
  "hub_inv u \<Longrightarrow> map_of (endpoints_by_session u) s = Some e \<Longrightarrow> hub_inv (drop_endpoint s (mi_key (me_identity e)) u)"
  by (simp add: hub_inv_def drop_endpoint_def session_inv_drop)

text \<open>The endpoint an identity is entered with under its exact stamp.\<close>

definition entered_as :: "messenger_identity \<Rightarrow> messenger_hub \<Rightarrow> messenger_session_id option" where
  "entered_as i u = (case map_of (session_by_identity u) (mi_key i) of
      None \<Rightarrow> None
    | Some s \<Rightarrow> (case map_of (endpoints_by_session u) s of
        None \<Rightarrow> None
      | Some e \<Rightarrow> if identity_stamp_matches (me_identity e) i then Some s else None))"

lemma release_identity_eq:
  assumes "hub_inv u"
  shows "release_identity i u =
    (case remove_identity_from_rooms i (case entered_as i u of None \<Rightarrow> u | Some s \<Rightarrow> drop_endpoint s (mi_key i) u) of
       (u', m, e) \<Rightarrow> (\<lparr>disconnected_session = entered_as i u, room_memberships_removed = m,
         empty_rooms_removed = e\<rparr>, u'))"
proof -
  have "map_of (session_by_identity u) (mi_key i) = Some s" if "entered_as i u = Some s" for s
    using that by (auto simp: entered_as_def split: option.splits if_split_asm)
  then show ?thesis
    by (auto simp: release_identity_def Let_def drop_endpoint_def entered_as_def[symmetric] split: option.split)
qed

lemma entered_drop_inv:
  assumes "hub_inv u" "entered_as i u = Some s"
  shows "hub_inv (drop_endpoint s (mi_key i) u)"
  using assms drop_endpoint_inv[of u s]
  by (auto simp: entered_as_def dest!: stamp_key split: option.splits if_split_asm)

lemma release_identity_inv:
  assumes "hub_inv u"
  shows "hub_inv (snd (release_identity i u))"
proof -
  have "hub_inv (case entered_as i u of None \<Rightarrow> u | Some s \<Rightarrow> drop_endpoint s (mi_key i) u)"
    using assms entered_drop_inv by (simp split: option.split)
  from remove_identity_inv[OF this] show ?thesis
    by (simp add: release_identity_eq[OF assms] case_prod_beta')
qed

lemma disconnect_session_eq:
  assumes "hub_inv u"
  shows "disconnect_session s u =
    (case map_of (endpoints_by_session u) s of
       None \<Rightarrow> (None, u)
     | Some e \<Rightarrow> (case remove_identity_from_rooms (me_identity e) (drop_endpoint s (mi_key (me_identity e)) u) of
         (u', m, emp) \<Rightarrow> (Some \<lparr>disconnected_session = Some s, room_memberships_removed = m,
            empty_rooms_removed = emp\<rparr>, u')))"
  using session_invD(4)[OF hub_invD(1)[OF assms], of s]
  by (simp add: disconnect_session_def Let_def drop_endpoint_def split: option.split)

lemma disconnect_session_inv:
  assumes "hub_inv u"
  shows "hub_inv (snd (disconnect_session s u))"
  using assms drop_endpoint_inv[OF assms] remove_identity_inv
  by (simp add: disconnect_session_eq[OF assms] case_prod_beta' split: option.split)

section \<open>The hub as a machine\<close>

datatype hub_command =
  HubEnter messenger_session_id ip_addr messenger_identity enter_claim
| HubInvite messenger_session_id messenger_identity messenger_identity invite_claim
| HubLeave messenger_session_id messenger_identity leave_claim
| HubAdvance messenger_identity messenger_identity
| HubRelease messenger_identity
| HubDisconnect messenger_session_id

fun hub_step :: "host \<Rightarrow> messenger_hub \<Rightarrow> hub_command \<Rightarrow> messenger_hub" where
  "hub_step h u (HubEnter s ip a c) = snd (enter h s ip a c u)"
| "hub_step h u (HubInvite s a b c) = snd (invite h s a b c u)"
| "hub_step h u (HubLeave s a c) = snd (leave s a c u)"
| "hub_step h u (HubAdvance p n) = snd (advance_generation p n u)"
| "hub_step h u (HubRelease i) = snd (release_identity i u)"
| "hub_step h u (HubDisconnect s) = snd (disconnect_session s u)"

interpretation hub: machine "\<lambda>u. \<exists>l. new_hub l = Inr u" "hub_step h" hub_inv for h
proof
  fix u assume "\<exists>l. new_hub l = Inr u"
  then show "hub_inv u"
    by (auto simp: new_hub_def hub_inv_def session_inv_def room_inv_def ids_of_def members_at_def
        split: if_split_asm)
next
  fix u c assume "hub_inv u"
  then show "hub_inv (hub_step h u c)"
    by (cases c) (simp_all add: enter_inv invite_inv leave_inv advance_generation_inv
        release_identity_inv disconnect_session_inv)
qed

definition hub_after :: "host \<Rightarrow> hub_limits \<Rightarrow> hub_command list \<Rightarrow> hub_error + messenger_hub" where
  "hub_after h l cs = map_sum id (\<lambda>u. foldl (hub_step h) u cs) (new_hub l)"

lemma hub_after_inv: "hub_after h l cs = Inr u \<Longrightarrow> hub_inv u"
  by (cases "new_hub l") (auto simp: hub_after_def intro!: hub.inv_reachable)

section \<open>Properties\<close>

text \<open>C20. The assertions of the hub hold. A hub is refused exactly for a zero limit, and whatever
  commands follow, every assertion of \<open>debug_assert_invariants\<close> holds: bounded sessions, rooms and
  rooms per identity, and both indexes inverse to what they index.\<close>

theorem messenger_assertions_hold:
  "case hub_after h l cs of
     Inl (ZeroLimit _) \<Rightarrow> 0 \<in> {max_sessions l, max_rooms l, max_rooms_per_identity l, max_message_utf16_units l}
   | Inl _ \<Rightarrow> False
   | Inr u \<Rightarrow> debug_invariants u"
proof (cases "new_hub l")
  case (Inl e)
  then show ?thesis by (auto simp: hub_after_def new_hub_def split: if_split_asm)
next
  case (Inr u)
  then have "hub_after h l cs = Inr (foldl (hub_step h) u cs)" by (simp add: hub_after_def)
  with hub_inv_debug[OF hub_after_inv[OF this]] show ?thesis by simp
qed

lemma length_map_filter: "length (List.map_filter f xs) \<le> length xs"
  by (induction xs) (auto simp: map_filter_simps split: option.split)

lemma deliver_entered:
  "deliver_to_members ms ev u =
     List.map_filter (\<lambda>m. map_option (\<lambda>s. \<lparr>delivery_session = s, delivery_event = ev\<rparr>) (entered_as m u)) ms"
  unfolding deliver_to_members_def entered_as_def
  by (rule arg_cong[where f = "\<lambda>f. List.map_filter f ms"]) (auto split: option.split)

lemma deliveries_exact:
  "set (deliver_to_members ms ev u) =
     {\<lparr>delivery_session = s, delivery_event = ev\<rparr> | s m. m \<in> set ms \<and> entered_as m u = Some s}"
  by (auto simp: deliver_entered in_map_filter; blast)

lemma deliveries_length: "length (deliver_to_members ms ev u) \<le> length ms"
  by (simp add: deliver_entered length_map_filter)

lemma authorize_session_Inr:
  assumes "authorize_session s a u = Inr sender"
  shows "entered_as a u = Some s" "identity_stamp_matches sender a"
  using assms by (auto simp: authorize_session_def entered_as_def split: option.splits if_split_asm)

text \<open>C21. Chat stays in the room. A chat is accepted only from the session its sender is currently
  entered with under its exact identity stamp, for a room that stamp is a member of, and it is
  delivered to exactly the sessions the members are currently entered with, the sender's among
  them, at most two.\<close>

theorem chat_stays_in_room:
  "case chat h s a claim u of
     Inl _ \<Rightarrow> True
   | Inr ds \<Rightarrow> entered_as a u = Some s \<and>
       (case room_members (chat_room_id claim) u of
          None \<Rightarrow> False
        | Some ms \<Rightarrow> list_ex (\<lambda>m. identity_stamp_matches m a) ms \<and>
            delivery_session ` set ds = {t. \<exists>m\<in>set ms. entered_as m u = Some t} \<and>
            s \<in> delivery_session ` set ds \<and> length ds \<le> length ms)"
proof (cases "chat h s a claim u")
  case (Inr ds)
  then obtain sender room where c: "authorize_session s a u = Inr sender"
    "map_of (hub_rooms u) (chat_room_id claim) = Some room"
    "list_ex (\<lambda>m. identity_stamp_matches m sender) (room_members_of room)"
    "ds = deliver_to_members (room_members_of room)
       (ChatEvent (chat_room_id claim) (mi_user_no sender) (mi_nickname sender) (chat_message claim) 0) u"
    by (auto simp: chat_def new_room_id_def split: sum.splits option.splits if_split_asm)
  note a = authorize_session_Inr[OF c(1)]
  from c(3) obtain m where m: "m \<in> set (room_members_of room)" "identity_stamp_matches m a"
    using a(2) by (auto simp: list_ex_iff identity_stamp_matches_def)
  then have "entered_as m u = Some s"
    using a(1) by (auto simp: entered_as_def identity_stamp_matches_def split: option.splits if_split_asm)
  moreover have "delivery_session ` set ds = {t. \<exists>m\<in>set (room_members_of room). entered_as m u = Some t}"
    unfolding c(4) deliveries_exact by force
  ultimately show ?thesis
    using Inr a(1) c(2) m deliveries_length by (auto simp: room_members_def list_ex_iff c(4))
qed simp

lemma remove_from_room_effect:
  "members_at (hub_rooms (fst (remove_from_room i rid st))) j =
     (if j = rid then filter (\<lambda>m. \<not> identity_stamp_matches m i) (members_at (hub_rooms (fst st)) j)
      else members_at (hub_rooms (fst st)) j)"
  "endpoints_by_session (fst (remove_from_room i rid st)) = endpoints_by_session (fst st)"
  "session_by_identity (fst (remove_from_room i rid st)) = session_by_identity (fst st)"
proof -
  obtain u c d where st: "st = (u, c, d)" by (cases st)
  show "members_at (hub_rooms (fst (remove_from_room i rid st))) j =
     (if j = rid then filter (\<lambda>m. \<not> identity_stamp_matches m i) (members_at (hub_rooms (fst st)) j)
      else members_at (hub_rooms (fst st)) j)"
  proof (cases "map_of (hub_rooms u) rid")
    case None
    then show ?thesis by (simp add: st remove_from_room_def members_at_def)
  next
    case (Some room)
    then have "members_at (hub_rooms u) rid = room_members_of room" by (simp add: members_at_def)
    with Some show ?thesis
      by (simp add: st remove_from_room_def Let_def remove_inverse_room_index)
  qed
  show "endpoints_by_session (fst (remove_from_room i rid st)) = endpoints_by_session (fst st)"
    "session_by_identity (fst (remove_from_room i rid st)) = session_by_identity (fst st)"
    by (simp_all add: st remove_from_room_def Let_def remove_inverse_room_index split: option.split)
qed

lemma fold_remove_effect:
  "members_at (hub_rooms (fst (fold (remove_from_room i) ids st))) j =
     (if j \<in> set ids then filter (\<lambda>m. \<not> identity_stamp_matches m i) (members_at (hub_rooms (fst st)) j)
      else members_at (hub_rooms (fst st)) j) \<and>
   endpoints_by_session (fst (fold (remove_from_room i) ids st)) = endpoints_by_session (fst st) \<and>
   session_by_identity (fst (fold (remove_from_room i) ids st)) = session_by_identity (fst st)"
  by (induction ids arbitrary: st) (simp_all add: remove_from_room_effect)

lemma entered_as_drop:
  assumes "entered_as i u = Some s"
  shows "entered_as j (drop_endpoint s (mi_key i) u) =
    (if identity_stamp_matches j i then None else entered_as j u)"
proof -
  from assms obtain e where e: "map_of (session_by_identity u) (mi_key i) = Some s"
    "map_of (endpoints_by_session u) s = Some e" "identity_stamp_matches (me_identity e) i"
    by (auto simp: entered_as_def split: option.splits if_split_asm)
  show ?thesis
  proof (cases "mi_key j = mi_key i")
    case True
    then have "identity_stamp_matches (me_identity e) j \<longleftrightarrow> identity_stamp_matches j i"
      using e(3) by (auto simp: identity_stamp_matches_def)
    with True e show ?thesis by (simp add: entered_as_def drop_endpoint_def)
  next
    case False
    have "identity_stamp_matches (me_identity e) j \<Longrightarrow> False"
      using e(3) False by (simp add: identity_stamp_matches_def)
    with False e show ?thesis
      by (auto simp: entered_as_def drop_endpoint_def identity_stamp_matches_def split: option.split)
  qed
qed

text \<open>A release is complete and touches nobody else. After an identity stamp is released, no session
  is entered under it and no room has it as a member, while every other stamp keeps its session and
  its memberships.\<close>

theorem release_is_complete:
  "case hub_after h l cs of
     Inl _ \<Rightarrow> True
   | Inr u \<Rightarrow> (case release_identity i u of (_, u') \<Rightarrow>
       entered_as j u' = (if identity_stamp_matches j i then None else entered_as j u) \<and>
       members_at (hub_rooms u') rid =
         filter (\<lambda>m. \<not> identity_stamp_matches m i) (members_at (hub_rooms u) rid))"
proof (cases "hub_after h l cs")
  case (Inr u)
  note inv = hub_after_inv[OF Inr]
  note R = hub_invD(2)[OF inv]
  let ?u = "case entered_as i u of None \<Rightarrow> u | Some s \<Rightarrow> drop_endpoint s (mi_key i) u"
  let ?v = "fst (remove_identity_from_rooms i ?u)"
  have rooms: "hub_rooms ?u = hub_rooms u" "rooms_by_identity ?u = rooms_by_identity u"
    by (simp_all add: drop_endpoint_def split: option.split)
  have v: "members_at (hub_rooms ?v) rid =
      (if rid \<in> set (ids_of (rooms_by_identity u) (mi_key i))
       then filter (\<lambda>m. \<not> identity_stamp_matches m i) (members_at (hub_rooms u) rid)
       else members_at (hub_rooms u) rid)"
    "endpoints_by_session ?v = endpoints_by_session ?u" "session_by_identity ?v = session_by_identity ?u"
    using fold_remove_effect[of i "ids_of (rooms_by_identity u) (mi_key i)" "(?u, 0, 0)" rid]
    unfolding remove_identity_from_rooms_def rooms_of_key_ids rooms by (simp_all only: fst_conv rooms simp_thms)
  have "filter (\<lambda>m. \<not> identity_stamp_matches m i) (members_at (hub_rooms u) rid) = members_at (hub_rooms u) rid"
    if "rid \<notin> set (ids_of (rooms_by_identity u) (mi_key i))"
    using that room_invD(4)[OF R, of rid "mi_key i"] by (simp add: filter_id_conv) (metis image_eqI stamp_key)
  then have "members_at (hub_rooms ?v) rid =
      filter (\<lambda>m. \<not> identity_stamp_matches m i) (members_at (hub_rooms u) rid)"
    using v(1) by simp
  moreover have "entered_as j ?v = entered_as j ?u"
    unfolding entered_as_def[of j] v(2,3) by (rule refl)
  moreover have "entered_as j ?u = (if identity_stamp_matches j i then None else entered_as j u)"
  proof (cases "entered_as i u")
    case None
    then have "entered_as j u = None" if "identity_stamp_matches j i"
      using that by (auto simp: entered_as_def identity_stamp_matches_def split: option.splits if_split_asm)
    with None show ?thesis by simp
  next
    case (Some s)
    then show ?thesis by (simp add: entered_as_drop)
  qed
  ultimately show ?thesis
    by (simp add: Inr release_identity_eq[OF inv] case_prod_beta')
qed simp

end
