(* ===== verification/Parsing.thy ===== *)
theory Parsing
  imports Packet
begin

text \<open>
  The shape shared by the request parsers of the packet codecs (\<open>room_protocol.rs\<close>,
  \<open>lobby_protocol.rs\<close>): the name hash is checked, fields are read one after another, and the packet
  must then be exhausted. \<open>parses m R\<close> says that the parser \<open>m\<close> accepts exactly the prefixes \<open>R\<close>
  relates to a value; it is compositional, so that the exact language of a request parser follows
  from those of its fields.
\<close>

section \<open>Combinators\<close>

text \<open>An \<open>i32\<close> is an integer; on the wire it is its two's-complement word.\<close>

type_synonym i32 = int

definition in_i32 :: "int \<Rightarrow> bool" where
  "in_i32 i \<longleftrightarrow> - (2 ^ 31) \<le> i \<and> i < 2 ^ 31"

definition le_i32 :: "i32 \<Rightarrow> bytes" where
  "le_i32 i = le32 (word_of_int i)"

definition put_i32 :: "writer \<Rightarrow> i32 \<Rightarrow> writer" where
  "put_i32 w i = write_i32 w (word_of_int i)"

definition get_i32 :: "i32 read" where
  "get_i32 = rmap sint read_i32"

text \<open>The error of a read inside a codec is wrapped by the codec's own error type.\<close>

definition lift_read :: "('e \<Rightarrow> 'f) \<Rightarrow> ('e, 'a) parser \<Rightarrow> ('f, 'a) parser" where
  "lift_read c m r = (case m r of (Inl e, r') \<Rightarrow> (Inl (c e), r') | (Inr x, r') \<Rightarrow> (Inr x, r'))"

definition accepted :: "'a \<Rightarrow> ('e, 'a) parser" where
  "accepted x r = (Inr x, r)"

definition rejected :: "'e \<Rightarrow> ('e, 'a) parser" where
  "rejected e r = (Inl e, r)"

definition check_hash :: "(packet_error \<Rightarrow> 'e) \<Rightarrow> (string \<Rightarrow> u32 \<Rightarrow> u32 \<Rightarrow> 'e) \<Rightarrow> string \<Rightarrow> ('e, unit) parser" where
  "check_hash c unexpected name =
     rbind (lift_read c read_u32) (\<lambda>actual.
       if actual = packet_hash name then accepted ()
       else rejected (unexpected name (packet_hash name) actual))"

definition check_exhausted :: "(string \<Rightarrow> nat \<Rightarrow> 'e) \<Rightarrow> string \<Rightarrow> ('e, unit) parser" where
  "check_exhausted trailing name r =
     (if remaining r = [] then (Inr (), r) else (Inl (trailing name (length (remaining r))), r))"

definition run_parser :: "('e, 'a) parser \<Rightarrow> bytes \<Rightarrow> 'e + 'a" where
  "run_parser m packet = fst (m (new_reader packet))"

section \<open>The language of a parser\<close>

definition parses :: "('e, 'a) parser \<Rightarrow> ('a \<Rightarrow> bytes \<Rightarrow> bool) \<Rightarrow> bool" where
  "parses m R \<longleftrightarrow> (\<forall>done input x r'. host_fits (done @ input) \<longrightarrow>
     m (reader_at done input) = (Inr x, r') \<longleftrightarrow>
       (\<exists>b todo. input = b @ todo \<and> R x b \<and> r' = reader_at (done @ b) todo))"

named_theorems parses_intros

lemma parsesI:
  assumes "\<And>done input x r'. host_fits (done @ input) \<Longrightarrow> m (reader_at done input) = (Inr x, r') \<longleftrightarrow>
     (\<exists>b todo. input = b @ todo \<and> R x b \<and> r' = reader_at (done @ b) todo)"
  shows "parses m R"
  using assms by (simp add: parses_def)

lemma parsesD:
  assumes "parses m R" "host_fits (done @ input)"
  shows "m (reader_at done input) = (Inr x, r') \<longleftrightarrow>
     (\<exists>b todo. input = b @ todo \<and> R x b \<and> r' = reader_at (done @ b) todo)"
  using assms by (simp add: parses_def)

lemma parses_cong: "parses m R \<Longrightarrow> (\<And>x b. R x b \<longleftrightarrow> S x b) \<Longrightarrow> parses m S"
  by (simp add: parses_def)

lemma parses_accepted [parses_intros]: "parses (accepted x) (\<lambda>y b. y = x \<and> b = [])"
  by (rule parsesI) (auto simp: accepted_def)

lemma parses_rejected [parses_intros]: "parses (rejected e) (\<lambda>y b. False)"
  by (rule parsesI) (simp add: rejected_def)

lemma parses_lift [parses_intros]:
  assumes "parses m R"
  shows "parses (lift_read c m) R"
proof (rule parsesI)
  fix "done" input x r' assume "host_fits (done @ input)"
  moreover have "lift_read c m (reader_at done input) = (Inr x, r') \<longleftrightarrow>
      m (reader_at done input) = (Inr x, r')"
    by (auto simp: lift_read_def split: prod.splits sum.splits)
  ultimately show "lift_read c m (reader_at done input) = (Inr x, r') \<longleftrightarrow>
      (\<exists>b todo. input = b @ todo \<and> R x b \<and> r' = reader_at (done @ b) todo)"
    by (simp add: parsesD[OF assms])
qed

lemma parses_bind [parses_intros]:
  assumes m: "parses m R" and f: "\<And>x. parses (f x) (S x)"
  shows "parses (rbind m f) (\<lambda>y b. \<exists>x b1 b2. b = b1 @ b2 \<and> R x b1 \<and> S x y b2)"
proof (rule parsesI)
  fix "done" input y r' assume fits: "host_fits (done @ input)"
  have "rbind m f (reader_at done input) = (Inr y, r') \<longleftrightarrow>
      (\<exists>x r1. m (reader_at done input) = (Inr x, r1) \<and> f x r1 = (Inr y, r'))"
    by (auto simp: rbind_def split: prod.splits sum.splits)
  also have "\<dots> \<longleftrightarrow> (\<exists>x b1 t1. input = b1 @ t1 \<and> R x b1 \<and> f x (reader_at (done @ b1) t1) = (Inr y, r'))"
    by (auto simp: parsesD[OF m fits])
  also have "\<dots> \<longleftrightarrow> (\<exists>x b1 t1 b2 t2. input = b1 @ t1 \<and> R x b1 \<and> t1 = b2 @ t2 \<and> S x y b2 \<and>
      r' = reader_at ((done @ b1) @ b2) t2)"
    using fits by (force simp: parsesD[OF f])
  also have "\<dots> \<longleftrightarrow> (\<exists>b todo. input = b @ todo \<and> (\<exists>x b1 b2. b = b1 @ b2 \<and> R x b1 \<and> S x y b2) \<and>
        r' = reader_at (done @ b) todo)"
    by (auto; metis append.assoc)
  finally show "rbind m f (reader_at done input) = (Inr y, r') \<longleftrightarrow>
      (\<exists>b todo. input = b @ todo \<and> (\<exists>x b1 b2. b = b1 @ b2 \<and> R x b1 \<and> S x y b2) \<and>
        r' = reader_at (done @ b) todo)" .
qed

lemma seqI: "b = b1 @ b2 \<Longrightarrow> R x b1 \<Longrightarrow> S x b2 \<Longrightarrow> \<exists>x b1 b2. b = b1 @ b2 \<and> R x b1 \<and> S x b2"
  by blast

lemma parses_if [parses_intros]:
  "(P \<Longrightarrow> parses m R) \<Longrightarrow> (\<not> P \<Longrightarrow> parses n S) \<Longrightarrow> parses (if P then m else n) (if P then R else S)"
  by simp

lemma parses_rmap [parses_intros]:
  assumes "parses m R"
  shows "parses (rmap f m) (\<lambda>y b. \<exists>x. y = f x \<and> R x b)"
proof -
  have "rmap f m = rbind m (\<lambda>x. accepted (f x))"
    by (simp add: rmap_def accepted_def[abs_def])
  moreover have "parses (rbind m (\<lambda>x. accepted (f x)))
      (\<lambda>y b. \<exists>x b1 b2. b = b1 @ b2 \<and> R x b1 \<and> y = f x \<and> b2 = [])"
    by (intro parses_intros assms)
  ultimately show ?thesis by (auto intro: parses_cong)
qed

lemma reader_at_eq_iff: "reader_at d t = reader_at d' t' \<longleftrightarrow> d = d' \<and> t = t'"
  by (auto simp: reader_at_def)

lemma parses_take [parses_intros]: "parses (take_bytes n) (\<lambda>bs b. b = bs \<and> length bs = n)"
proof (rule parsesI)
  fix "done" input x r' assume fits: "host_fits (done @ input)"
  show "take_bytes n (reader_at done input) = (Inr x, r') \<longleftrightarrow>
      (\<exists>b todo. input = b @ todo \<and> (b = x \<and> length x = n) \<and> r' = reader_at (done @ b) todo)"
  proof (cases "n \<le> length input")
    case True
    define b t where "b = take n input" and "t = drop n input"
    have i: "input = b @ t" "length b = n" using True by (simp_all add: b_def t_def)
    have "take_bytes n (reader_at done (b @ t)) = (Inr b, reader_at (done @ b) t)"
      using fits i by (intro take_reader_at) simp_all
    then show ?thesis using i by (auto simp: append_eq_append_conv)
  next
    case False
    then show ?thesis
      by (auto simp: take_bytes_def reader_at_def usize_checked_add_def split: if_splits)
  qed
qed

lemma length_1E: "length xs = 1 \<Longrightarrow> (\<And>a. xs = [a] \<Longrightarrow> P) \<Longrightarrow> P"
  by (cases xs) auto

lemma length_2E: "length xs = 2 \<Longrightarrow> (\<And>a b. xs = [a, b] \<Longrightarrow> P) \<Longrightarrow> P"
  by (cases xs; cases "tl xs") auto

lemma le_of_le: "length bs = 2 \<Longrightarrow> le16 (of_le16 bs) = bs" "length bs = 4 \<Longrightarrow> le32 (of_le32 bs) = bs"
  by (elim length_2E; simp add: le16_of_le16[simplified])
     (elim length_4E; simp add: le32_of_le32[simplified])

lemma parses_u8 [parses_intros]: "parses read_u8 (\<lambda>x b. b = [x])"
  unfolding read_u8_def
  by (rule parses_cong, (rule parses_intros)+) (auto simp: length_Suc_conv)

lemma parses_u16 [parses_intros]: "parses read_u16 (\<lambda>x b. b = le16 x)"
  unfolding read_u16_def by (rule parses_cong, (rule parses_intros)+) (auto simp: le_of_le)

lemma parses_u32 [parses_intros]: "parses read_u32 (\<lambda>x b. b = le32 x)"
  unfolding read_u32_def by (rule parses_cong, (rule parses_intros)+) (auto simp: le_of_le)

lemma sint_range: "in_i32 (sint (w :: u32))"
  using sint_greater_eq[of w] sint_less[of w] by (simp add: in_i32_def)

lemma sint_of_int: "in_i32 i \<Longrightarrow> sint (word_of_int i :: u32) = i"
  by (simp add: in_i32_def signed_of_int signed_take_bit_int_eq_self)

lemma parses_i32 [parses_intros]: "parses get_i32 (\<lambda>x b. b = le_i32 x \<and> in_i32 x)"
proof -
  have "get_i32 = rmap sint read_u32" by (simp add: get_i32_def read_i32_def read_u32_def)
  moreover have "parses (rmap sint read_u32) (\<lambda>x b. b = le_i32 x \<and> in_i32 x)"
    by (rule parses_cong, (rule parses_intros)+)
       (auto simp: sint_range le_i32_def sint_of_int intro!: exI[of _ "word_of_int _"])
  ultimately show ?thesis by simp
qed

lemma parses_encoded_u8 [parses_intros]: "parses read_encoded_u8 (\<lambda>x b. \<exists>v. b = [v] \<and> decode_u8 v = x)"
  unfolding read_encoded_u8_def by (rule parses_cong, (rule parses_intros)+) auto

lemma parses_check_hash [parses_intros]:
  "parses (check_hash c unexpected name) (\<lambda>_ b. b = named name)"
  unfolding check_hash_def
  by (rule parses_cong, (rule parses_intros)+)
     (auto simp: named_def new_writer_def write_u32_def split: if_splits)

section \<open>Strings\<close>

lemma unat_eq_of_nat: "unat (u :: u16) = n \<Longrightarrow> of_nat n = u"
  by auto

lemma encode_from_utf16:
  "from_utf16 us = Some s \<Longrightarrow> encode_utf16 s = us \<and> list_all scalar_value s"
proof (induction us arbitrary: s rule: from_utf16.induct)
  case (2 u us)
  let ?n = "unat u"
  have n: "?n < 65536" using unsigned_less[of u, where ?'a = nat] by simp
  consider (bmp) "?n < 0xD800 \<or> 0xE000 \<le> ?n" | (low) "0xDC00 \<le> ?n" "?n < 0xE000"
    | (high) "0xD800 \<le> ?n" "?n < 0xDC00" by linarith
  then show ?case
  proof cases
    case bmp
    then obtain t where t: "from_utf16 us = Some t" "s = ?n # t"
      using "2.prems" by (auto simp: Let_def)
    then have "encode_utf16 t = us \<and> list_all scalar_value t" using "2.IH"(1) bmp by simp
    moreover have "scalar_value ?n" using bmp n by (auto simp: scalar_value_def)
    ultimately show ?thesis using t n by (simp add: encode_utf16_def encode_char_def)
  next
    case low
    then show ?thesis using "2.prems" by (simp add: Let_def)
  next
    case high
    then obtain v vs t where v: "us = v # vs" "0xDC00 \<le> unat v" "unat v < 0xE000"
      "from_utf16 vs = Some t" "s = (0x10000 + (?n - 0xD800) * 0x400 + (unat v - 0xDC00)) # t"
      using "2.prems" by (auto simp: Let_def split: list.splits if_splits)
    then have IH: "encode_utf16 t = vs \<and> list_all scalar_value t"
      using "2.IH"(2)[OF refl _ _ v(1) refl] high by simp
    define c where "c = (0x10000 + (?n - 0xD800) * 0x400 + (unat v - 0xDC00))"
    have c: "0x10000 \<le> c" "c < 0x110000" using v high unfolding c_def by linarith+
    have "c - 0x10000 = (?n - 0xD800) * 0x400 + (unat v - 0xDC00)" by (simp add: c_def)
    moreover have "unat v - 0xDC00 < 0x400" using v by linarith
    ultimately have "(c - 0x10000) div 0x400 = ?n - 0xD800" "(c - 0x10000) mod 0x400 = unat v - 0xDC00"
      by simp_all
    moreover have "of_nat (0xD800 + (?n - 0xD800)) = u" "of_nat (0xDC00 + (unat v - 0xDC00)) = v"
      using v high by (simp_all add: unat_eq_of_nat)
    ultimately have "encode_char c = [u, v]" using c by (simp add: encode_char_def)
    moreover have "scalar_value c" using c by (simp add: scalar_value_def)
    moreover have "s = c # t" using v by (simp add: c_def)
    ultimately show ?thesis using IH v(1) by (simp add: encode_utf16_def)
  qed
qed (simp add: encode_utf16_def)

lemma le16_chunks:
  "length bs = 2 * n \<Longrightarrow> concat (map le16 (chunks_exact_2 bs)) = bs \<and> length (chunks_exact_2 bs) = n"
proof (induction n arbitrary: bs)
  case (Suc n)
  then obtain a b cs where bs: "bs = a # b # cs" "length cs = 2 * n"
    by (auto simp: length_Suc_conv)
  then show ?case using Suc.IH[of cs] le16_of_le16[of a b] by simp
qed simp

lemma parses_utf16 [parses_intros]:
  "parses (read_utf16_bounded maximum) (\<lambda>s b. b = utf16_field s \<and> utf16_valid maximum s)"
proof -
  let ?body = "\<lambda>w :: u32. if sint w < 0 then rejected (NegativeStringLength (sint w))
       else if maximum < nat (sint w) then rejected (StringLimitExceeded (nat (sint w)) maximum)
       else if 2 ^ 64 \<le> int (nat (sint w)) * 2 then rejected StringLengthOverflow
       else rbind (take_bytes (nat (sint w) * 2)) (\<lambda>bs.
          case from_utf16 (chunks_exact_2 bs) of None \<Rightarrow> rejected InvalidUtf16 | Some s \<Rightarrow> accepted s)"
  have eq: "read_utf16_bounded maximum = rbind read_u32 ?body"
    by (auto simp: read_utf16_bounded_def read_i32_def read_u32_def rejected_def[abs_def] accepted_def[abs_def]
        Let_def fun_eq_iff rbind_def split: prod.splits sum.splits option.splits)
  have opt: "parses (case z of None \<Rightarrow> rejected InvalidUtf16 | Some s \<Rightarrow> accepted s)
      (\<lambda>s b. z = Some s \<and> b = [])" for z :: "ustring option"
    by (cases z) (simp_all, rule parses_cong, (rule parses_intros)+, auto intro: parses_cong parses_intros)
  have "parses (?body w) (\<lambda>s b. 0 \<le> sint w \<and> nat (sint w) \<le> maximum \<and>
      length b = 2 * nat (sint w) \<and> from_utf16 (chunks_exact_2 b) = Some s)" for w
    using sint_range[of w]
    by (cases "sint w < 0"; cases "maximum < nat (sint w)")
       (simp_all, (rule parses_cong, (rule parses_intros opt)+, auto simp: in_i32_def)+)
  from parses_bind[OF parses_u32 this] show ?thesis unfolding eq
  proof (rule parses_cong)
    fix s :: ustring and b
    show "(\<exists>w b1 b2. b = b1 @ b2 \<and> b1 = le32 w \<and> 0 \<le> sint w \<and> nat (sint w) \<le> maximum \<and>
        length b2 = 2 * nat (sint w) \<and> from_utf16 (chunks_exact_2 b2) = Some s) \<longleftrightarrow>
      b = utf16_field s \<and> utf16_valid maximum s" (is "?L \<longleftrightarrow> ?R")
    proof
      assume ?L
      then obtain w b2 where w: "b = le32 w @ b2" "0 \<le> sint w" "nat (sint w) \<le> maximum"
        "length b2 = 2 * nat (sint w)" "from_utf16 (chunks_exact_2 b2) = Some s" by blast
      have s: "encode_utf16 s = chunks_exact_2 b2" "list_all scalar_value s"
        using encode_from_utf16[OF w(5)] by simp_all
      have n: "utf16_units s = nat (sint w)" and b2: "concat (map le16 (encode_utf16 s)) = b2"
        using le16_chunks[OF w(4)] by (simp_all add: s utf16_units_def)
      have "of_nat (nat (sint w)) = w" using w(2) by (simp add: of_nat_nat)
      with n b2 w(1) have "b = utf16_field s" by (simp add: utf16_field_def)
      moreover have "int (utf16_units s) < 2 ^ 31"
        using n w(2) sint_range[of w] by (simp add: in_i32_def)
      ultimately show ?R using s n w(3) by (simp add: utf16_valid_def)
    next
      assume R: ?R
      let ?w = "of_nat (utf16_units s) :: u32"
      have v: "list_all scalar_value s" "utf16_units s \<le> maximum" "int (utf16_units s) < 2 ^ 31"
        using R by (simp_all add: utf16_valid_def)
      have "sint ?w = int (utf16_units s)" using v(3) by (rule sint_small)
      moreover have "from_utf16 (chunks_exact_2 (concat (map le16 (encode_utf16 s)))) = Some s"
        using v(1) by (simp add: chunks_le16 from_utf16_encode)
      ultimately show ?L using R v(2)
        by (intro exI[of _ ?w] exI[of _ "le32 ?w"] exI[of _ "concat (map le16 (encode_utf16 s))"])
           (simp add: utf16_field_def utf16_units_def)
    qed
  qed
qed

section \<open>Whole packets\<close>

text \<open>
  A request parser: the hash of its name, its fields, and nothing after them. Its language is the
  packets that are that hash followed by the encoding of one request.
\<close>

definition parse_packet :: "(packet_error \<Rightarrow> 'e) \<Rightarrow> (string \<Rightarrow> u32 \<Rightarrow> u32 \<Rightarrow> 'e) \<Rightarrow> (string \<Rightarrow> nat \<Rightarrow> 'e) \<Rightarrow>
    string \<Rightarrow> ('e, 'a) parser \<Rightarrow> bytes \<Rightarrow> 'e + 'a" where
  "parse_packet c unexpected trailing name body =
     run_parser (rbind (check_hash c unexpected name) (\<lambda>_. rbind body (\<lambda>x.
       rbind (check_exhausted trailing name) (\<lambda>_. accepted x))))"

lemma rbind_assoc: "rbind (rbind m f) k = rbind m (\<lambda>x. rbind (f x) k)"
  by (auto simp: rbind_def fun_eq_iff split: prod.splits sum.splits)

lemma remaining_reader_at: "remaining (reader_at d t) = t"
  by (simp add: remaining_def reader_at_def)

lemma parse_packet_language:
  assumes body: "parses body R" and fits: "host_fits packet"
  shows "parse_packet c unexpected trailing name body packet = Inr x \<longleftrightarrow>
    (\<exists>b. packet = named name @ b \<and> R x b)"
proof -
  have m: "parses (rbind (check_hash c unexpected name) (\<lambda>_. body))
      (\<lambda>x b. \<exists>b2. b = named name @ b2 \<and> R x b2)" (is "parses ?m ?S")
    by (rule parses_cong, (rule parses_intros body)+) auto
  have "fst (rbind ?m (\<lambda>x. rbind (check_exhausted trailing name) (\<lambda>_. accepted x)) r) = Inr x \<longleftrightarrow>
      (\<exists>r'. ?m r = (Inr x, r') \<and> remaining r' = [])" for r
    by (auto simp: rbind_def check_exhausted_def accepted_def split: prod.splits sum.splits)
  moreover have "new_reader packet = reader_at [] packet"
    by (simp add: new_reader_def reader_at_def)
  ultimately have "parse_packet c unexpected trailing name body packet = Inr x \<longleftrightarrow>
      (\<exists>r'. ?m (reader_at [] packet) = (Inr x, r') \<and> remaining r' = [])"
    by (simp add: parse_packet_def run_parser_def rbind_assoc)
  also have "\<dots> \<longleftrightarrow> ?S x packet"
    using fits by (auto simp: parsesD[OF m, of "[]"] remaining_reader_at
        intro!: exI[of _ "reader_at packet []"])
  finally show ?thesis by auto
qed

text \<open>The two directions separately, for a language stated as the bytes a client writes.\<close>

lemma parse_packet_languageI:
  assumes "parses body R" "host_fits packet"
    and "\<And>b. packet = named name @ b \<Longrightarrow> R r b \<Longrightarrow> P"
    and "P \<Longrightarrow> \<exists>b. packet = named name @ b \<and> R r b"
  shows "parse_packet c unexpected trailing name body packet = Inr r \<longleftrightarrow> P"
  unfolding parse_packet_language[OF assms(1,2)] using assms(3,4) by blast

text \<open>A check between two reads.\<close>

definition checked :: "'e + unit \<Rightarrow> ('e, 'a) parser \<Rightarrow> ('e, 'a) parser" where
  "checked c m = (case c of Inl e \<Rightarrow> rejected e | Inr _ \<Rightarrow> m)"

lemma parses_checked [parses_intros]:
  "parses m R \<Longrightarrow> parses (checked c m) (\<lambda>x b. c = Inr () \<and> R x b)"
  by (cases c) (auto simp: checked_def parses_def rejected_def)

text \<open>A conversion of a value that was read, \<open>from_wire\<close>.\<close>

definition converted :: "'e + 'a \<Rightarrow> ('e, 'a) parser" where
  "converted c r = (c, r)"

lemma parses_converted [parses_intros]: "parses (converted c) (\<lambda>x b. c = Inr x \<and> b = [])"
  by (rule parsesI) (auto simp: converted_def)

section \<open>Writing\<close>

text \<open>Loops over checks and writes that can fail; an error leaves the function with \<open>?\<close>.\<close>

fun write_each :: "('a \<Rightarrow> writer \<Rightarrow> 'e + writer) \<Rightarrow> 'a list \<Rightarrow> writer \<Rightarrow> 'e + writer" where
  "write_each f [] w = Inr w"
| "write_each f (x # xs) w = attempt (f x w) (write_each f xs)"

fun check_each :: "('a \<Rightarrow> 'e + unit) \<Rightarrow> 'a list \<Rightarrow> 'e + unit" where
  "check_each f [] = Inr ()"
| "check_each f (x # xs) = attempt (f x) (\<lambda>_. check_each f xs)"

definition write_bool :: "writer \<Rightarrow> bool \<Rightarrow> writer" where
  "write_bool w b = write_u8 w (of_bool b)"

lemma put_i32_bytes: "put_i32 w i = w @ le_i32 i"
  by (simp add: put_i32_def write_i32_def le_i32_def)

lemmas write_simps = write_u8_def write_u16_def write_u32_def write_i16_def write_bytes_def put_i32_bytes
  write_bool_def write_encoded_u8_def

lemma foldl_put_i32: "foldl put_i32 w is = w @ concat (map le_i32 is)"
  by (induction "is" arbitrary: w) (simp_all add: put_i32_bytes)

lemma write_each_ok:
  "(\<And>x w. x \<in> set xs \<Longrightarrow> f x w = Inr (w @ g x)) \<Longrightarrow> write_each f xs w = Inr (w @ concat (map g xs))"
  by (induction xs arbitrary: w) simp_all

lemma check_each_ok: "check_each f xs = Inr u \<longleftrightarrow> (\<forall>x\<in>set xs. f x = Inr ())"
  by (induction xs) (auto simp: attempt_Inr)

text \<open>A string within a limit of a codec is written whole.\<close>

definition put_utf16 :: "(packet_error \<Rightarrow> 'e) \<Rightarrow> ustring \<Rightarrow> writer \<Rightarrow> 'e + writer" where
  "put_utf16 c s w = map_sum c (\<lambda>w. w) (write_utf16 w s)"

lemma put_utf16_ok: "utf16_units s \<le> 1000 \<Longrightarrow> put_utf16 c s w = Inr (w @ utf16_field s)"
  by (simp add: put_utf16_def write_utf16_eq)

lemma utf16_units_Nil: "utf16_units [] = 0"
  by (simp add: utf16_units_def encode_utf16_def)

end
