(* ===== verification/RoomProtocol.thy ===== *)
theory RoomProtocol
  imports Parsing
begin

text \<open>
  The room-list and room-entry packets (\<open>crates/p4475-core/src/room_protocol.rs\<close>): the requests a
  client sends before a race, with their parsers, and the replies and room snapshots the server
  writes. An \<open>Ipv4Addr\<close> is its numeric value, an \<open>i16\<close> its word, a fixed array the list of its
  elements.
\<close>

section \<open>Data\<close>

definition MAX_ROOM_LIST_PAGE :: i32 where "MAX_ROOM_LIST_PAGE = 100000"
definition MAX_ROOM_LIST_ENTRIES :: nat where "MAX_ROOM_LIST_ENTRIES = 10"
definition MAX_ROOM_NAME_UTF16_UNITS :: nat where "MAX_ROOM_NAME_UTF16_UNITS = 128"
definition MAX_ROOM_PASSWORD_UTF16_UNITS :: nat where "MAX_ROOM_PASSWORD_UTF16_UNITS = 64"
definition MAX_RIDER_NICKNAME_UTF16_UNITS :: nat where "MAX_RIDER_NICKNAME_UTF16_UNITS = 32"
definition MAX_RIDER_CARD_UTF16_UNITS :: nat where "MAX_RIDER_CARD_UTF16_UNITS = 128"
definition MAX_CLUB_NAME_UTF16_UNITS :: nat where "MAX_CLUB_NAME_UTF16_UNITS = 64"
definition MAX_ROOM_AI_COUNT :: i32 where "MAX_ROOM_AI_COUNT = 8"
definition ROOM_DATA_LENGTH :: nat where "ROOM_DATA_LENGTH = 32"
definition ROOM_CONNECTION_CONTEXT_LENGTH :: nat where "ROOM_CONNECTION_CONTEXT_LENGTH = 28"
definition ROOM_SLOT_COUNT :: nat where "ROOM_SLOT_COUNT = 8"
definition ROOM_OBSERVER_COUNT :: nat where "ROOM_OBSERVER_COUNT = 8"

lemmas room_limits = MAX_ROOM_LIST_PAGE_def MAX_ROOM_LIST_ENTRIES_def MAX_ROOM_NAME_UTF16_UNITS_def
  MAX_ROOM_PASSWORD_UTF16_UNITS_def MAX_RIDER_NICKNAME_UTF16_UNITS_def
  MAX_RIDER_CARD_UTF16_UNITS_def MAX_CLUB_NAME_UTF16_UNITS_def MAX_ROOM_AI_COUNT_def
  ROOM_DATA_LENGTH_def ROOM_CONNECTION_CONTEXT_LENGTH_def ROOM_SLOT_COUNT_def ROOM_OBSERVER_COUNT_def

datatype room_protocol_request = RoomList | CreateRoom | JoinRoom | LeaveRoom | FirstRoomState

definition ROOM_PROTOCOL_REQUESTS :: "room_protocol_request list" where
  "ROOM_PROTOCOL_REQUESTS = [RoomList, CreateRoom, JoinRoom, LeaveRoom, FirstRoomState]"

fun request_name :: "room_protocol_request \<Rightarrow> string" where
  "request_name RoomList = ''ChGetRoomListRequestPacket''"
| "request_name CreateRoom = ''ChCreateRoomRequestPacket''"
| "request_name JoinRoom = ''ChJoinRoomRequestPacket''"
| "request_name LeaveRoom = ''ChLeaveRoomRequestPacket''"
| "request_name FirstRoomState = ''GrFirstRequestPacket''"

fun reply_names :: "room_protocol_request \<Rightarrow> string list" where
  "reply_names RoomList = [''ChGetRoomListReplyPacket'']"
| "reply_names CreateRoom = [''ChCreateRoomReplyPacket'']"
| "reply_names JoinRoom = [''ChJoinRoomReplyPacket'']"
| "reply_names LeaveRoom = [''ChLeaveRoomReplyPacket'']"
| "reply_names FirstRoomState = [''GrSessionDataPacket'', ''GrSlotDataPacket'']"

record ch_get_room_list_request =
  list_page :: i32
  room_list_type :: u8
  room_list_mode :: u8

record room_list_entry =
  entry_room_id :: u16
  entry_room_name :: ustring
  entry_track :: u32
  entry_locked :: bool
  entry_game_type :: u8
  entry_speed_type :: u8
  entry_started :: bool
  entry_available_slots :: u8
  entry_player_count :: u8

record ch_create_room_request =
  create_room_name :: ustring
  create_password :: ustring
  create_game_type :: u8
  reserved_after_game_type :: i32
  create_ai_count :: i32
  create_room_data_header :: u32
  create_room_data :: bytes
  create_connection_context :: bytes
  reserved_before_ai_switch :: u8
  ai_switch :: i32
  reserved_after_ai_switch_1 :: u8
  reserved_after_ai_switch_2 :: u8
  reserved_tail :: i32
  reserved_last :: u8

datatype create_room_outcome = CreateRejected | CreateAccepted

record ch_join_room_request =
  join_room_id :: u16
  join_password :: ustring
  join_reserved :: u8
  join_connection_context :: bytes

datatype join_room_status = JoinSuccess | JoinUnavailable | JoinFull | JoinWrongPassword

fun join_status_code :: "join_room_status \<Rightarrow> u8" where
  "join_status_code JoinSuccess = 0"
| "join_status_code JoinUnavailable = 1"
| "join_status_code JoinFull = 2"
| "join_status_code JoinWrongPassword = 3"

record ch_leave_room_request =
  leave_reserved :: u8

record room_session_data =
  sd_room_name :: ustring
  sd_password :: ustring
  sd_game_type :: u8
  sd_speed_type :: u8

record room_player =
  player_type :: i32
  player_user_no :: u32
  p2p_address :: u32
  p2p_port :: u16
  player_nickname :: ustring
  emblem_1 :: u16
  emblem_2 :: u16
  emblem_3 :: u16
  rider_item_snapshot :: bytes
  player_card :: ustring
  player_rp :: u32
  player_team :: u8
  player_ranking :: i32
  rider_school_level :: u8
  club_name :: ustring
  club_mark_logo :: i32

record room_ai =
  ai_character :: u16
  ai_rider :: u16
  ai_kart :: u16
  ai_balloon :: u16
  ai_head_band :: u16
  ai_goggle :: u16
  ai_team :: u8

datatype room_member = MemberPlayer room_player | MemberAi room_ai | MemberClosed i32 | MemberEmpty

record room_observer =
  obs_player_type :: i32
  obs_user_no :: u32
  obs_p2p_address :: u32
  obs_p2p_port :: u16
  obs_nickname :: ustring

datatype room_observer_slot = ObserverPlayer room_observer | ObserverEmpty

record room_slot_data =
  sl_track :: u32
  sl_room_data_header :: u32
  sl_room_data :: bytes
  sl_room_master :: i32
  sl_closed_slot_ids :: "u8 list"
  sl_members_by_id :: "room_member list"
  sl_observers :: "room_observer_slot list"
  sl_slot_positions :: "i32 list"

definition empty_slot_data :: "u32 \<Rightarrow> u32 \<Rightarrow> bytes \<Rightarrow> i32 \<Rightarrow> room_slot_data" where
  "empty_slot_data track header data master =
     \<lparr>sl_track = track, sl_room_data_header = header, sl_room_data = data, sl_room_master = master,
      sl_closed_slot_ids = [], sl_members_by_id = replicate ROOM_SLOT_COUNT MemberEmpty,
      sl_observers = replicate ROOM_OBSERVER_COUNT ObserverEmpty,
      sl_slot_positions = replicate ROOM_SLOT_COUNT (- 1)\<rparr>"

datatype room_protocol_error =
  RoomPacketError packet_error
| RoomUnexpectedHash string u32 u32
| RoomTrailingBytes string nat
| InvalidPage i32 i32
| InvalidAiCount i32 i32
| LimitExceeded string nat nat
| InvalidClosedSlot u8
| DuplicateClosedSlot u8
| InvalidSlotPosition nat i32
| CountOverflow string

definition classify_room_protocol_request :: "u32 \<Rightarrow> room_protocol_request option" where
  "classify_room_protocol_request h =
     find (\<lambda>request. packet_hash (request_name request) = h) ROOM_PROTOCOL_REQUESTS"

section \<open>Checks\<close>

definition read_fixed :: "nat \<Rightarrow> bytes read" where
  "read_fixed n = read_bytes n"

definition validate_page :: "i32 \<Rightarrow> room_protocol_error + unit" where
  "validate_page page = ensure (0 \<le> page \<and> page \<le> MAX_ROOM_LIST_PAGE) (InvalidPage page MAX_ROOM_LIST_PAGE)"

definition enforce_limit :: "string \<Rightarrow> nat \<Rightarrow> nat \<Rightarrow> room_protocol_error + unit" where
  "enforce_limit field actual maximum =
     (if maximum < actual then Inl (LimitExceeded field actual maximum) else Inr ())"

definition validate_utf16 :: "string \<Rightarrow> ustring \<Rightarrow> nat \<Rightarrow> room_protocol_error + unit" where
  "validate_utf16 field v maximum = enforce_limit field (utf16_units v) maximum"

definition count_i32 :: "string \<Rightarrow> nat \<Rightarrow> room_protocol_error + i32" where
  "count_i32 field count = (if int count < 2 ^ 31 then Inr (int count) else Inl (CountOverflow field))"

definition room_slot_hint :: "u8 \<Rightarrow> u8" where
  "room_slot_hint game_type = (if game_type = 3 \<or> game_type = 4 then 2 else 8)"

section \<open>Request parsers\<close>

abbreviation room_read :: "'a read \<Rightarrow> (room_protocol_error, 'a) parser" where
  "room_read \<equiv> lift_read RoomPacketError"

text \<open>\<open>expect_hash\<close>, the fields, and \<open>ensure_exhausted\<close>, with the errors of this codec.\<close>

definition room_packet :: "string \<Rightarrow> (room_protocol_error, 'a) parser \<Rightarrow> bytes \<Rightarrow> room_protocol_error + 'a" where
  "room_packet = parse_packet RoomPacketError RoomUnexpectedHash RoomTrailingBytes"

definition parse_ch_get_room_list_request :: "bytes \<Rightarrow> room_protocol_error + ch_get_room_list_request" where
  "parse_ch_get_room_list_request = room_packet ''ChGetRoomListRequestPacket''
     (rbind (room_read get_i32) (\<lambda>page. checked (validate_page page) (
      rbind (room_read read_u8) (\<lambda>list_type.
      rbind (room_read read_u8) (\<lambda>list_mode.
      accepted \<lparr>list_page = page, room_list_type = list_type, room_list_mode = list_mode\<rparr>)))))"

definition parse_ch_create_room_request :: "bytes \<Rightarrow> room_protocol_error + ch_create_room_request" where
  "parse_ch_create_room_request = room_packet ''ChCreateRoomRequestPacket''
     (rbind (room_read (read_utf16_bounded MAX_ROOM_NAME_UTF16_UNITS)) (\<lambda>room_name.
      rbind (room_read (read_utf16_bounded MAX_ROOM_PASSWORD_UTF16_UNITS)) (\<lambda>password.
      rbind (room_read read_encoded_u8) (\<lambda>game_type.
      rbind (room_read get_i32) (\<lambda>after_game_type.
      rbind (room_read get_i32) (\<lambda>ai_count.
      checked (ensure (0 \<le> ai_count \<and> ai_count \<le> MAX_ROOM_AI_COUNT)
                 (InvalidAiCount ai_count MAX_ROOM_AI_COUNT)) (
      rbind (room_read read_u32) (\<lambda>header.
      rbind (room_read (read_fixed ROOM_DATA_LENGTH)) (\<lambda>data.
      rbind (room_read (read_fixed ROOM_CONNECTION_CONTEXT_LENGTH)) (\<lambda>context.
      rbind (room_read read_u8) (\<lambda>before_switch.
      rbind (room_read get_i32) (\<lambda>switch.
      rbind (room_read read_u8) (\<lambda>after_1.
      rbind (room_read read_u8) (\<lambda>after_2.
      rbind (room_read get_i32) (\<lambda>tail.
      rbind (room_read read_u8) (\<lambda>last.
      accepted \<lparr>create_room_name = room_name, create_password = password, create_game_type = game_type,
        reserved_after_game_type = after_game_type, create_ai_count = ai_count,
        create_room_data_header = header, create_room_data = data, create_connection_context = context,
        reserved_before_ai_switch = before_switch, ai_switch = switch,
        reserved_after_ai_switch_1 = after_1, reserved_after_ai_switch_2 = after_2,
        reserved_tail = tail, reserved_last = last\<rparr>))))))))))))))))"

definition parse_ch_join_room_request :: "bytes \<Rightarrow> room_protocol_error + ch_join_room_request" where
  "parse_ch_join_room_request = room_packet ''ChJoinRoomRequestPacket''
     (rbind (room_read read_u16) (\<lambda>room_id.
      rbind (room_read (read_utf16_bounded MAX_ROOM_PASSWORD_UTF16_UNITS)) (\<lambda>password.
      rbind (room_read read_u8) (\<lambda>reserved.
      rbind (room_read (read_fixed ROOM_CONNECTION_CONTEXT_LENGTH)) (\<lambda>context.
      accepted \<lparr>join_room_id = room_id, join_password = password, join_reserved = reserved,
        join_connection_context = context\<rparr>)))))"

definition parse_ch_leave_room_request :: "bytes \<Rightarrow> room_protocol_error + ch_leave_room_request" where
  "parse_ch_leave_room_request = room_packet ''ChLeaveRoomRequestPacket''
     (rbind (room_read read_u8) (\<lambda>reserved. accepted \<lparr>leave_reserved = reserved\<rparr>))"

definition parse_gr_first_request :: "bytes \<Rightarrow> room_protocol_error + unit" where
  "parse_gr_first_request = room_packet ''GrFirstRequestPacket'' (accepted ())"

lemma parses_read_fixed [parses_intros]: "parses (read_fixed n) (\<lambda>bs b. b = bs \<and> length bs = n)"
  by (simp add: read_fixed_def read_bytes_def parses_take)

lemma parsed_i32_range [simp]: "0 \<le> i \<Longrightarrow> i \<le> 2 ^ 31 - 1 \<Longrightarrow> in_i32 i"
  by (simp add: in_i32_def)

text \<open>What a client writes for a request, and what the parser demands of it.\<close>

definition list_request_bytes :: "ch_get_room_list_request \<Rightarrow> bytes" where
  "list_request_bytes r = named ''ChGetRoomListRequestPacket'' @ le_i32 (list_page r) @
     [room_list_type r] @ [room_list_mode r] @ []"

definition create_request_bytes :: "u8 \<Rightarrow> ch_create_room_request \<Rightarrow> bytes" where
  "create_request_bytes v r = named ''ChCreateRoomRequestPacket'' @ utf16_field (create_room_name r) @
     utf16_field (create_password r) @ [v] @ le_i32 (reserved_after_game_type r) @
     le_i32 (create_ai_count r) @ le32 (create_room_data_header r) @ create_room_data r @
     create_connection_context r @ [reserved_before_ai_switch r] @ le_i32 (ai_switch r) @
     [reserved_after_ai_switch_1 r] @ [reserved_after_ai_switch_2 r] @ le_i32 (reserved_tail r) @
     [reserved_last r] @ []"

definition create_request_ok :: "ch_create_room_request \<Rightarrow> bool" where
  "create_request_ok r \<longleftrightarrow> utf16_valid 128 (create_room_name r) \<and> utf16_valid 64 (create_password r) \<and>
     0 \<le> create_ai_count r \<and> create_ai_count r \<le> 8 \<and> length (create_room_data r) = 32 \<and>
     length (create_connection_context r) = 28 \<and> in_i32 (reserved_after_game_type r) \<and>
     in_i32 (ai_switch r) \<and> in_i32 (reserved_tail r)"

definition join_request_bytes :: "ch_join_room_request \<Rightarrow> bytes" where
  "join_request_bytes r = named ''ChJoinRoomRequestPacket'' @ le16 (join_room_id r) @
     utf16_field (join_password r) @ [join_reserved r] @ join_connection_context r @ []"

definition join_request_ok :: "ch_join_room_request \<Rightarrow> bool" where
  "join_request_ok r \<longleftrightarrow> utf16_valid 64 (join_password r) \<and> length (join_connection_context r) = 28"

lemma list_request_language:
  "host_fits packet \<Longrightarrow> parse_ch_get_room_list_request packet = Inr r \<longleftrightarrow>
     packet = list_request_bytes r \<and> 0 \<le> list_page r \<and> list_page r \<le> 100000"
  unfolding parse_ch_get_room_list_request_def room_packet_def
proof (rule parse_packet_languageI, (rule parses_intros)+, assumption, goal_cases)
  case 2
  show ?case
    by (insert 2, clarify, unfold list_request_bytes_def, rule exI, rule conjI, rule refl)
       (rule seqI[OF refl] conjI refl | simp add: validate_page_def room_limits in_i32_def)+
qed (auto simp: list_request_bytes_def validate_page_def ensure_Inr room_limits)

lemma create_request_language:
  "host_fits packet \<Longrightarrow> parse_ch_create_room_request packet = Inr r \<longleftrightarrow>
     (\<exists>v. decode_u8 v = create_game_type r \<and> packet = create_request_bytes v r) \<and> create_request_ok r"
  unfolding parse_ch_create_room_request_def room_packet_def
proof (rule parse_packet_languageI, (rule parses_intros)+, assumption, goal_cases)
  case 2
  show ?case
    by (insert 2, clarify, unfold create_request_bytes_def, rule exI, rule conjI, rule refl)
       (rule seqI[OF refl] conjI refl exI | simp add: create_request_ok_def room_limits)+
qed (auto simp: create_request_bytes_def create_request_ok_def ensure_Inr room_limits)

lemma join_request_language:
  "host_fits packet \<Longrightarrow> parse_ch_join_room_request packet = Inr r \<longleftrightarrow>
     packet = join_request_bytes r \<and> join_request_ok r"
  unfolding parse_ch_join_room_request_def room_packet_def
proof (rule parse_packet_languageI, (rule parses_intros)+, assumption, goal_cases)
  case 2
  show ?case
    by (insert 2, clarify, unfold join_request_bytes_def, rule exI, rule conjI, rule refl)
       (rule seqI[OF refl] conjI refl | simp add: join_request_ok_def room_limits)+
qed (auto simp: join_request_bytes_def join_request_ok_def room_limits)

lemma leave_request_language:
  "host_fits packet \<Longrightarrow> parse_ch_leave_room_request packet = Inr r \<longleftrightarrow>
     packet = named ''ChLeaveRoomRequestPacket'' @ [leave_reserved r]"
  unfolding parse_ch_leave_room_request_def room_packet_def
  by (rule parse_packet_languageI, (rule parses_intros)+) auto

lemma first_request_language:
  "host_fits packet \<Longrightarrow> parse_gr_first_request packet = Inr () \<longleftrightarrow> packet = named ''GrFirstRequestPacket''"
  unfolding parse_gr_first_request_def room_packet_def
  by (rule parse_packet_languageI, (rule parses_intros)+) auto

section \<open>Reply serializers\<close>

abbreviation room_utf16 :: "ustring \<Rightarrow> writer \<Rightarrow> room_protocol_error + writer" where
  "room_utf16 \<equiv> put_utf16 RoomPacketError"

definition write_endpoint :: "writer \<Rightarrow> u32 \<Rightarrow> u16 \<Rightarrow> writer" where
  "write_endpoint w address port = write_u16 (write_bytes w (rev (le32 address))) port"

definition check_list_entry :: "room_list_entry \<Rightarrow> room_protocol_error + unit" where
  "check_list_entry room =
     attempt (validate_utf16 ''room name'' (entry_room_name room) MAX_ROOM_NAME_UTF16_UNITS) (\<lambda>_.
     attempt (enforce_limit ''available room slot'' (unat (entry_available_slots room)) ROOM_SLOT_COUNT) (\<lambda>_.
     enforce_limit ''room player'' (unat (entry_player_count room)) ROOM_SLOT_COUNT))"

definition write_list_entry :: "room_list_entry \<Rightarrow> writer \<Rightarrow> room_protocol_error + writer" where
  "write_list_entry room w =
     attempt (room_utf16 (entry_room_name room) (write_i16 w (entry_room_id room))) (\<lambda>w.
     let w = write_u32 w (entry_track room);
         w = write_bool w (entry_locked room);
         w = write_u8 w (entry_game_type room);
         w = write_u8 w (entry_speed_type room);
         w = write_bool w (entry_started room);
         w = write_u8 w (entry_available_slots room);
         w = write_u8 w (entry_player_count room)
     in Inr (write_bytes w (replicate 2 0)))"

definition serialize_ch_get_room_list_reply :: "i32 \<Rightarrow> room_list_entry list \<Rightarrow> room_protocol_error + bytes" where
  "serialize_ch_get_room_list_reply page rooms =
     attempt (validate_page page) (\<lambda>_.
     attempt (enforce_limit ''room-list entry'' (length rooms) MAX_ROOM_LIST_ENTRIES) (\<lambda>_.
     attempt (check_each check_list_entry rooms) (\<lambda>_.
     attempt (count_i32 ''room-list entry'' (length rooms)) (\<lambda>count.
     write_each write_list_entry rooms
       (put_i32 (put_i32 (named ''ChGetRoomListReplyPacket'') page) count)))))"

definition serialize_ch_create_room_reply :: "create_room_outcome \<Rightarrow> u8 \<Rightarrow> bytes" where
  "serialize_ch_create_room_reply outcome game_type =
     (let created = (outcome = CreateAccepted);
          w = named ''ChCreateRoomReplyPacket'';
          w = write_bool w created;
          w = write_bool w created;
          w = write_u8 w (if created then room_slot_hint game_type else 0)
      in write_encoded_u8 w game_type)"

definition serialize_ch_join_room_reply :: "join_room_status \<Rightarrow> u8 \<Rightarrow> bytes" where
  "serialize_ch_join_room_reply status game_type =
     (let success = (status = JoinSuccess);
          w = named ''ChJoinRoomReplyPacket'';
          w = write_u8 w (join_status_code status);
          w = write_bool w success;
          w = write_u8 w (if success then room_slot_hint game_type else 0);
          w = write_encoded_u8 w game_type
      in write_u8 w 0)"

definition serialize_ch_leave_room_reply :: "bool \<Rightarrow> bytes" where
  "serialize_ch_leave_room_reply left = write_bool (named ''ChLeaveRoomReplyPacket'') left"

definition serialize_gr_session_data :: "room_session_data \<Rightarrow> room_protocol_error + bytes" where
  "serialize_gr_session_data session =
     attempt (validate_utf16 ''room name'' (sd_room_name session) MAX_ROOM_NAME_UTF16_UNITS) (\<lambda>_.
     attempt (validate_utf16 ''room password'' (sd_password session) MAX_ROOM_PASSWORD_UTF16_UNITS) (\<lambda>_.
     attempt (room_utf16 (sd_room_name session) (named ''GrSessionDataPacket'')) (\<lambda>w.
     attempt (room_utf16 (sd_password session) w) (\<lambda>w.
     let w = write_u8 w (sd_game_type session);
         w = write_u8 w (sd_speed_type session);
         w = put_i32 w 0;
         w = write_u8 w 0;
         w = put_i32 w 0
     in Inr (write_bytes w (replicate 6 0))))))"

section \<open>Room snapshots\<close>

definition validate_room_player :: "room_player \<Rightarrow> room_protocol_error + unit" where
  "validate_room_player p =
     attempt (validate_utf16 ''rider nickname'' (player_nickname p) MAX_RIDER_NICKNAME_UTF16_UNITS) (\<lambda>_.
     attempt (validate_utf16 ''rider card'' (player_card p) MAX_RIDER_CARD_UTF16_UNITS) (\<lambda>_.
     if club_mark_logo p \<noteq> 0
     then validate_utf16 ''club name'' (club_name p) MAX_CLUB_NAME_UTF16_UNITS
     else Inr ()))"

text \<open>The loop over the closed slots, with the array of those seen so far.\<close>

fun check_closed_slots :: "(u8 \<Rightarrow> 'e) \<Rightarrow> (u8 \<Rightarrow> 'e) \<Rightarrow> u8 list \<Rightarrow> bool list \<Rightarrow> 'e + unit" where
  "check_closed_slots invalid duplicate [] seen = Inr ()"
| "check_closed_slots invalid duplicate (slot # slots) seen =
     (let index = unat slot in
      if ROOM_SLOT_COUNT \<le> index then Inl (invalid slot)
      else if seen ! index then Inl (duplicate slot)
      else check_closed_slots invalid duplicate slots (seen[index := True]))"

fun check_slot_positions :: "(nat \<Rightarrow> i32 \<Rightarrow> 'e) \<Rightarrow> nat \<Rightarrow> i32 list \<Rightarrow> 'e + unit" where
  "check_slot_positions invalid index [] = Inr ()"
| "check_slot_positions invalid index (p # ps) =
     (if - 1 \<le> p \<and> p \<le> 7 then check_slot_positions invalid (Suc index) ps else Inl (invalid index p))"

definition check_member :: "room_member \<Rightarrow> room_protocol_error + unit" where
  "check_member m = (case m of MemberPlayer p \<Rightarrow> validate_room_player p | _ \<Rightarrow> Inr ())"

definition check_observer :: "room_observer_slot \<Rightarrow> room_protocol_error + unit" where
  "check_observer m = (case m of
     ObserverPlayer p \<Rightarrow> validate_utf16 ''observer nickname'' (obs_nickname p) MAX_RIDER_NICKNAME_UTF16_UNITS
   | ObserverEmpty \<Rightarrow> Inr ())"

definition validate_slot_data :: "room_slot_data \<Rightarrow> room_protocol_error + unit" where
  "validate_slot_data slots =
     attempt (enforce_limit ''closed room slot'' (length (sl_closed_slot_ids slots)) ROOM_SLOT_COUNT) (\<lambda>_.
     attempt (check_closed_slots InvalidClosedSlot DuplicateClosedSlot (sl_closed_slot_ids slots)
                (replicate ROOM_SLOT_COUNT False)) (\<lambda>_.
     attempt (check_each check_member (sl_members_by_id slots)) (\<lambda>_.
     attempt (check_each check_observer (sl_observers slots)) (\<lambda>_.
     check_slot_positions InvalidSlotPosition 0 (sl_slot_positions slots)))))"

definition write_room_player :: "room_player \<Rightarrow> writer \<Rightarrow> room_protocol_error + writer" where
  "write_room_player p w =
     (let w = put_i32 w (player_type p);
          w = write_u32 w (player_user_no p);
          w = write_endpoint w (p2p_address p) (p2p_port p);
          w = write_endpoint w 0 0
      in attempt (room_utf16 (player_nickname p) w) (\<lambda>w.
      let w = write_u16 w (emblem_1 p);
          w = write_u16 w (emblem_2 p);
          w = write_u16 w (emblem_3 p);
          w = write_bytes w (rider_item_snapshot p)
      in attempt (room_utf16 (player_card p) w) (\<lambda>w.
      let w = write_u32 w (player_rp p);
          w = write_u8 w (player_team p);
          w = put_i32 w (player_ranking p);
          w = write_bytes w (replicate 30 0);
          w = put_i32 w 1500;
          w = put_i32 w 1499;
          w = put_i32 w 0;
          w = put_i32 w 2000;
          w = put_i32 w 5;
          w = write_bytes w [0xFF, 0, 0, 0];
          w = write_u8 w (rider_school_level p)
      in attempt (if club_mark_logo p = 0
           then map_sum (\<lambda>e. e) (\<lambda>w. put_i32 w 0) (room_utf16 [] w)
           else map_sum (\<lambda>e. e) (\<lambda>w. put_i32 w (club_mark_logo p)) (room_utf16 (club_name p) w)) (\<lambda>w.
      Inr (write_bytes w (replicate 17 0))))))"

definition write_room_ai :: "writer \<Rightarrow> room_ai \<Rightarrow> writer" where
  "write_room_ai w ai =
     (let w = put_i32 w 7;
          w = write_i16 w (ai_character ai);
          w = write_i16 w (ai_rider ai);
          w = write_i16 w (ai_kart ai);
          w = write_i16 w (ai_balloon ai);
          w = write_i16 w (ai_head_band ai);
          w = write_i16 w (ai_goggle ai)
      in write_u8 w (ai_team ai))"

definition write_room_observer :: "room_observer \<Rightarrow> writer \<Rightarrow> room_protocol_error + writer" where
  "write_room_observer p w =
     (let w = put_i32 w (obs_player_type p);
          w = write_u32 w (obs_user_no p);
          w = write_endpoint w (obs_p2p_address p) (obs_p2p_port p);
          w = write_endpoint w 0 0
      in room_utf16 (obs_nickname p) w)"

definition write_member :: "room_member \<Rightarrow> writer \<Rightarrow> room_protocol_error + writer" where
  "write_member m w = (case m of
     MemberPlayer p \<Rightarrow> write_room_player p w
   | MemberAi ai \<Rightarrow> Inr (write_room_ai w ai)
   | MemberClosed t \<Rightarrow> Inr (put_i32 w t)
   | MemberEmpty \<Rightarrow> Inr (put_i32 w 0))"

definition write_observer_slot :: "room_observer_slot \<Rightarrow> writer \<Rightarrow> room_protocol_error + writer" where
  "write_observer_slot m w = (case m of
     ObserverPlayer p \<Rightarrow> write_room_observer p w
   | ObserverEmpty \<Rightarrow> Inr (put_i32 w 0))"

definition serialize_gr_slot_data :: "room_slot_data \<Rightarrow> room_protocol_error + bytes" where
  "serialize_gr_slot_data slots =
     attempt (validate_slot_data slots) (\<lambda>_.
     let w = named ''GrSlotDataPacket'';
         w = write_u32 w (sl_track slots);
         w = write_u32 w (sl_room_data_header slots);
         w = write_bytes w (sl_room_data slots);
         w = put_i32 w (sl_room_master slots);
         w = write_bytes w (replicate 11 0)
     in attempt (count_i32 ''closed room slot'' (length (sl_closed_slot_ids slots))) (\<lambda>count.
     let w = put_i32 w count;
         w = write_bytes w (sl_closed_slot_ids slots);
         w = write_bytes w (replicate 16 0)
     in attempt (write_each write_member (sl_members_by_id slots) w) (\<lambda>w.
        attempt (write_each write_observer_slot (sl_observers slots) w) (\<lambda>w.
        Inr (foldl put_i32 w (sl_slot_positions slots))))))"

text \<open>The two packets that answer \<open>GrFirstRequestPacket\<close>, session data first.\<close>

datatype initial_room_state_packet_kind = SessionData | SlotData

definition serialize_initial_room_state ::
  "room_session_data \<Rightarrow> room_slot_data \<Rightarrow> room_protocol_error + (initial_room_state_packet_kind \<times> bytes) list" where
  "serialize_initial_room_state session slots =
     attempt (serialize_gr_session_data session) (\<lambda>session_packet.
     attempt (serialize_gr_slot_data slots) (\<lambda>slot_packet.
     Inr [(SessionData, session_packet), (SlotData, slot_packet)]))"

section \<open>What is written\<close>

lemma validate_utf16_ok: "validate_utf16 field v m = Inr u \<longleftrightarrow> utf16_units v \<le> m"
  by (simp add: validate_utf16_def enforce_limit_def)

definition presentable_player :: "room_player \<Rightarrow> bool" where
  "presentable_player p \<longleftrightarrow> utf16_units (player_nickname p) \<le> 32 \<and> utf16_units (player_card p) \<le> 128 \<and>
     (club_mark_logo p = 0 \<or> utf16_units (club_name p) \<le> 64)"

definition player_bytes :: "room_player \<Rightarrow> bytes" where
  "player_bytes p = le_i32 (player_type p) @ le32 (player_user_no p) @
     rev (le32 (p2p_address p)) @ le16 (p2p_port p) @ [0, 0, 0, 0, 0, 0] @ utf16_field (player_nickname p) @
     le16 (emblem_1 p) @ le16 (emblem_2 p) @ le16 (emblem_3 p) @ rider_item_snapshot p @
     utf16_field (player_card p) @ le32 (player_rp p) @ [player_team p] @ le_i32 (player_ranking p) @
     replicate 30 0 @ le_i32 1500 @ le_i32 1499 @ le_i32 0 @ le_i32 2000 @ le_i32 5 @
     [0xFF, 0, 0, 0, rider_school_level p] @
     (if club_mark_logo p = 0 then utf16_field [] @ le_i32 0
      else utf16_field (club_name p) @ le_i32 (club_mark_logo p)) @ replicate 17 0"

definition observer_bytes :: "room_observer \<Rightarrow> bytes" where
  "observer_bytes p = le_i32 (obs_player_type p) @ le32 (obs_user_no p) @
     rev (le32 (obs_p2p_address p)) @ le16 (obs_p2p_port p) @ [0, 0, 0, 0, 0, 0] @ utf16_field (obs_nickname p)"

fun member_bytes :: "room_member \<Rightarrow> bytes" where
  "member_bytes (MemberPlayer p) = player_bytes p"
| "member_bytes (MemberAi ai) = le_i32 7 @ le16 (ai_character ai) @ le16 (ai_rider ai) @ le16 (ai_kart ai) @
     le16 (ai_balloon ai) @ le16 (ai_head_band ai) @ le16 (ai_goggle ai) @ [ai_team ai]"
| "member_bytes (MemberClosed t) = le_i32 t"
| "member_bytes MemberEmpty = le_i32 0"

fun observer_slot_bytes :: "room_observer_slot \<Rightarrow> bytes" where
  "observer_slot_bytes (ObserverPlayer p) = observer_bytes p"
| "observer_slot_bytes ObserverEmpty = le_i32 0"

definition slot_data_bytes :: "room_slot_data \<Rightarrow> bytes" where
  "slot_data_bytes s = named ''GrSlotDataPacket'' @ le32 (sl_track s) @ le32 (sl_room_data_header s) @
     sl_room_data s @ le_i32 (sl_room_master s) @ replicate 11 0 @
     le_i32 (int (length (sl_closed_slot_ids s))) @ sl_closed_slot_ids s @ replicate 16 0 @
     concat (map member_bytes (sl_members_by_id s)) @ concat (map observer_slot_bytes (sl_observers s)) @
     concat (map le_i32 (sl_slot_positions s))"

fun presentable_member :: "room_member \<Rightarrow> bool" where
  "presentable_member (MemberPlayer p) = presentable_player p"
| "presentable_member _ = True"

fun presentable_observer :: "room_observer_slot \<Rightarrow> bool" where
  "presentable_observer (ObserverPlayer p) = (utf16_units (obs_nickname p) \<le> 32)"
| "presentable_observer ObserverEmpty = True"

definition slot_data_ok :: "room_slot_data \<Rightarrow> bool" where
  "slot_data_ok s \<longleftrightarrow> distinct (sl_closed_slot_ids s) \<and> (\<forall>slot\<in>set (sl_closed_slot_ids s). unat slot < 8) \<and>
     list_all presentable_member (sl_members_by_id s) \<and> list_all presentable_observer (sl_observers s) \<and>
     (\<forall>p\<in>set (sl_slot_positions s). - 1 \<le> p \<and> p \<le> 7)"

lemma write_player_ok: "presentable_player p \<Longrightarrow> write_room_player p w = Inr (w @ player_bytes p)"
  by (cases "club_mark_logo p = 0")
     (simp_all add: write_room_player_def presentable_player_def put_utf16_ok write_simps write_endpoint_def player_bytes_def
      Let_def utf16_units_Nil le32_def[of 0] le16_def[of 0] del: replicate.simps)

lemma write_member_ok: "presentable_member m \<Longrightarrow> write_member m w = Inr (w @ member_bytes m)"
  by (cases m) (simp_all add: write_member_def write_player_ok write_room_ai_def write_simps write_endpoint_def Let_def)

lemma write_observer_ok: "presentable_observer m \<Longrightarrow> write_observer_slot m w = Inr (w @ observer_slot_bytes m)"
  by (cases m) (simp_all add: write_observer_slot_def write_room_observer_def write_simps write_endpoint_def put_utf16_ok
      observer_bytes_def Let_def le32_def[of 0] le16_def[of 0])

lemma check_closed_ok:
  "length seen = 8 \<Longrightarrow> check_closed_slots invalid duplicate slots seen = Inr () \<longleftrightarrow>
     distinct slots \<and> (\<forall>s\<in>set slots. unat s < 8 \<and> \<not> seen ! unat s)"
proof (induction slots arbitrary: seen)
  case (Cons s slots)
  have eq: "unat s = unat t \<longleftrightarrow> s = t" for t :: u8 by (auto simp: word_unat_eq_iff)
  show ?case
  proof (cases "unat s < 8 \<and> \<not> seen ! unat s")
    case True
    with Cons show ?thesis
      by (auto simp: ROOM_SLOT_COUNT_def Let_def nth_list_update eq)
  qed (auto simp: ROOM_SLOT_COUNT_def Let_def)
qed simp

lemma check_positions_ok:
  "check_slot_positions invalid i ps = Inr () \<longleftrightarrow> (\<forall>p\<in>set ps. - 1 \<le> p \<and> p \<le> 7)"
  by (induction ps arbitrary: i) auto

lemma check_member_ok: "check_member m = Inr () \<longleftrightarrow> presentable_member m"
  by (cases m) (auto simp: check_member_def validate_room_player_def attempt_Inr validate_utf16_ok
      presentable_player_def room_limits)

lemma check_observer_ok: "check_observer m = Inr () \<longleftrightarrow> presentable_observer m"
  by (cases m) (auto simp: check_observer_def validate_utf16_ok room_limits)

lemma closed_slots_bounded: "distinct slots \<Longrightarrow> \<forall>s\<in>set slots. unat (s :: u8) < 8 \<Longrightarrow> length slots \<le> 8"
proof -
  assume d: "distinct slots" and s: "\<forall>s\<in>set slots. unat s < 8"
  have "length slots = card (unat ` set slots)"
    using d by (simp add: card_image inj_on_def word_unat_eq_iff distinct_card)
  also have "\<dots> \<le> card {..<8::nat}" using s by (intro card_mono) auto
  finally show ?thesis by simp
qed

lemma validate_slot_data_ok: "validate_slot_data s = Inr () \<longleftrightarrow> slot_data_ok s"
  by (auto simp: validate_slot_data_def attempt_Inr check_closed_ok check_positions_ok check_each_ok
      check_member_ok check_observer_ok enforce_limit_def slot_data_ok_def list_all_iff room_limits
      dest: closed_slots_bounded)

lemma serialize_slot_data_eq:
  "serialize_gr_slot_data s = (if slot_data_ok s then Inr (slot_data_bytes s)
     else Inl (projl (validate_slot_data s)))"
proof (cases "slot_data_ok s")
  case True
  then have v: "validate_slot_data s = Inr ()" by (simp add: validate_slot_data_ok)
  have l: "length (sl_closed_slot_ids s) \<le> 8"
    using True by (auto simp: slot_data_ok_def intro: closed_slots_bounded)
  have m: "write_each write_member (sl_members_by_id s) w = Inr (w @ concat (map member_bytes (sl_members_by_id s)))"
    and ob: "write_each write_observer_slot (sl_observers s) w =
      Inr (w @ concat (map observer_slot_bytes (sl_observers s)))" for w
    using True by (auto simp: slot_data_ok_def list_all_iff write_member_ok write_observer_ok intro!: write_each_ok)
  show ?thesis using True v l
    by (simp add: serialize_gr_slot_data_def count_i32_def m ob Let_def write_simps write_endpoint_def foldl_put_i32 slot_data_bytes_def
        del: replicate.simps)
next
  case False
  then obtain e where "validate_slot_data s = Inl e"
    by (metis validate_slot_data_ok old.sum.exhaust old.unit.exhaust)
  with False show ?thesis by (simp add: serialize_gr_slot_data_def)
qed

text \<open>C30. A room snapshot is written exactly when its closed slots are distinct seats, its positions name seats or -1 and every name fits its field, and its packet is then the fixed layout of header, eight members, eight observers and eight positions.\<close>

theorem slot_data_layout:
  "serialize_gr_slot_data s = Inr packet \<longleftrightarrow> slot_data_ok s \<and> packet = slot_data_bytes s"
  by (auto simp: serialize_slot_data_eq)

end
