(* ===== verification/LobbyProtocol.thy ===== *)
theory LobbyProtocol
  imports RoomProtocol
begin

text \<open>
  The ready-stage packets (\<open>crates/p4475-core/src/lobby_protocol.rs\<close>): ready state, teams, room
  master, track, basic AI, closed slots, chat, room info, kick and start. A request of one field is
  that field; enumerations with a wire value keep their values in \<open>from_wire\<close> and \<open>\<dots>_wire\<close>.
\<close>

section \<open>Data\<close>

definition SET_SLOT_STATE_REQUEST_NAME :: string where "SET_SLOT_STATE_REQUEST_NAME = ''GrRequestSetSlotStatePacket''"
definition SET_SLOT_STATE_REPLY_NAME :: string where "SET_SLOT_STATE_REPLY_NAME = ''GrReplySetSlotStatePacket''"
definition SLOT_STATE_PACKET_NAME :: string where "SLOT_STATE_PACKET_NAME = ''GrSlotStatePacket''"
definition CHANGE_TEAM_REQUEST_NAME :: string where "CHANGE_TEAM_REQUEST_NAME = ''GrChangeTeamPacket''"
definition CHANGE_TEAM_REPLY_NAME :: string where "CHANGE_TEAM_REPLY_NAME = ''GrChangeTeamPacketReply''"
definition CHANGE_MASTER_REQUEST_NAME :: string where "CHANGE_MASTER_REQUEST_NAME = ''PqRoomMasterChangePacket''"
definition START_ROOM_REQUEST_NAME :: string where "START_ROOM_REQUEST_NAME = ''GrRequestStartPacket''"
definition START_ROOM_REPLY_NAME :: string where "START_ROOM_REPLY_NAME = ''GrReplyStartPacket''"
definition CHANGE_TRACK_REQUEST_NAME :: string where "CHANGE_TRACK_REQUEST_NAME = ''GrChangeTrackPacket''"
definition BASIC_AI_REQUEST_NAME :: string where "BASIC_AI_REQUEST_NAME = ''GrRequestBasicAiPacket''"
definition BASIC_AI_SLOT_DATA_NAME :: string where "BASIC_AI_SLOT_DATA_NAME = ''GrSlotDataBasicAi''"
definition BASIC_AI_REPLY_NAME :: string where "BASIC_AI_REPLY_NAME = ''GrReplyBasicAiPacket''"
definition CLOSE_SLOT_REQUEST_NAME :: string where "CLOSE_SLOT_REQUEST_NAME = ''GrRequestClosePacket''"
definition CLOSE_SLOT_REPLY_NAME :: string where "CLOSE_SLOT_REPLY_NAME = ''GrReplyClosePacket''"
definition RIDER_TALK_REQUEST_NAME :: string where "RIDER_TALK_REQUEST_NAME = ''GrRiderTalkPacket''"
definition RIDER_ECHO_NAME :: string where "RIDER_ECHO_NAME = ''GrRiderEchoPacket''"
definition MACRO_CHAT_REQUEST_NAME :: string where "MACRO_CHAT_REQUEST_NAME = ''PqSendMacroChat''"
definition MACRO_CHAT_RELAY_NAME :: string where "MACRO_CHAT_RELAY_NAME = ''PcSendMacroChat''"
definition CHANGE_ROOM_INFO_REQUEST_NAME :: string where "CHANGE_ROOM_INFO_REQUEST_NAME = ''PqChangeRoomInfoPacket''"
definition CHANGE_ROOM_INFO_REPLY_NAME :: string where "CHANGE_ROOM_INFO_REPLY_NAME = ''PrChangeRoomInfoPacket''"
definition KICK_REQUEST_NAME :: string where "KICK_REQUEST_NAME = ''GrRequestKickPacket''"
definition KICK_BROADCAST_NAME :: string where "KICK_BROADCAST_NAME = ''GrKickBroadcastPacket''"
definition KICK_REPLY_NAME :: string where "KICK_REPLY_NAME = ''GrReplyKickPacket''"

definition ROOM_OBSERVER_ID_END :: i32 where "ROOM_OBSERVER_ID_END = 15"
definition MAX_ROOM_CHAT_UTF16_UNITS :: nat where "MAX_ROOM_CHAT_UTF16_UNITS = 256"

datatype lobby_request =
  SetSlotState | ChangeTeam | ChangeMaster | StartRoom | ChangeTrack | BasicAi | CloseSlot
| RiderTalk | MacroChat | ChangeRoomInfo | KickRequest

datatype player_slot_state = NotReady | Ready | Observer | Preparing

fun slot_state_wire :: "player_slot_state \<Rightarrow> i32" where
  "slot_state_wire NotReady = 2"
| "slot_state_wire Ready = 3"
| "slot_state_wire Observer = 4"
| "slot_state_wire Preparing = 5"

datatype room_team = Red | Blue

fun team_wire :: "room_team \<Rightarrow> u8" where
  "team_wire Red = 1"
| "team_wire Blue = 2"

record change_track_request =
  track_track :: u32
  track_room_data_header :: u32
  track_room_data :: bytes

record basic_ai_request =
  basic_player_id :: u32
  basic_option :: u8

datatype close_slot_operation = Open | Close

definition is_close :: "close_slot_operation \<Rightarrow> bool" where
  "is_close op \<longleftrightarrow> op = Close"

record close_slot_request =
  first_member_id :: u32
  close_operation :: close_slot_operation
  first_slot_id :: u32
  second_member_id :: u32
  second_slot_id :: u32

record rider_talk_request =
  talk_message :: ustring
  talk_reserved :: u32

record macro_chat_request =
  macro_chat_type :: i32
  macro_message_id :: u8
  client_message :: ustring

record change_room_info_request =
  info_room_name :: ustring
  info_password :: ustring
  info_limit_time :: i32
  r_key_allowed :: u8

datatype start_room_status = StartSuccess | StartNotAllReady

fun start_status_wire :: "start_room_status \<Rightarrow> i32" where
  "start_status_wire StartSuccess = 0"
| "start_status_wire StartNotAllReady = 2"

datatype lobby_protocol_error =
  LobbyPacketError packet_error
| LobbyUnexpectedHash string u32 u32
| LobbyTrailingBytes string nat
| InvalidPlayerSlotState i32
| LobbyInvalidTeam u8
| InvalidPlayerId i32
| InvalidSnapshotSlotState nat i32
| LobbyInvalidSlotPosition nat i32
| InvalidCloseSlotOperation u8
| InvalidRoomSlotId u8
| DuplicateRoomSlotId u8
| BasicAiCountLimit nat nat
| ChatTooLong nat nat
| LobbyNicknameTooLong nat nat

definition slot_state_from_wire :: "i32 \<Rightarrow> lobby_protocol_error + player_slot_state" where
  "slot_state_from_wire v =
     (if v = 2 then Inr NotReady else if v = 3 then Inr Ready else if v = 4 then Inr Observer
      else if v = 5 then Inr Preparing else Inl (InvalidPlayerSlotState v))"

definition team_from_wire :: "u8 \<Rightarrow> lobby_protocol_error + room_team" where
  "team_from_wire v = (if v = 1 then Inr Red else if v = 2 then Inr Blue else Inl (LobbyInvalidTeam v))"

definition close_operation_from_wire :: "u8 \<Rightarrow> lobby_protocol_error + close_slot_operation" where
  "close_operation_from_wire v =
     (if v = 0 then Inr Open else if v = 1 then Inr Close else Inl (InvalidCloseSlotOperation v))"

fun close_operation_wire :: "close_slot_operation \<Rightarrow> u8" where
  "close_operation_wire Open = 0"
| "close_operation_wire Close = 1"

lemma slot_state_from_wire_iff: "slot_state_from_wire v = Inr s \<longleftrightarrow> v = slot_state_wire s"
  by (cases s) (simp_all add: slot_state_from_wire_def)

lemma team_from_wire_iff: "team_from_wire v = Inr t \<longleftrightarrow> v = team_wire t"
  by (cases t) (simp_all add: team_from_wire_def)

lemma close_operation_from_wire_iff: "close_operation_from_wire v = Inr oper \<longleftrightarrow> v = close_operation_wire oper"
  by (cases oper) (simp_all add: close_operation_from_wire_def)

lemmas from_wire_iff = slot_state_from_wire_iff team_from_wire_iff close_operation_from_wire_iff

definition lobby_request_names :: "(string \<times> lobby_request) list" where
  "lobby_request_names =
     [(SET_SLOT_STATE_REQUEST_NAME, SetSlotState), (CHANGE_TEAM_REQUEST_NAME, ChangeTeam),
      (CHANGE_MASTER_REQUEST_NAME, ChangeMaster), (START_ROOM_REQUEST_NAME, StartRoom),
      (CHANGE_TRACK_REQUEST_NAME, ChangeTrack), (BASIC_AI_REQUEST_NAME, BasicAi),
      (CLOSE_SLOT_REQUEST_NAME, CloseSlot), (RIDER_TALK_REQUEST_NAME, RiderTalk),
      (MACRO_CHAT_REQUEST_NAME, MacroChat), (CHANGE_ROOM_INFO_REQUEST_NAME, ChangeRoomInfo),
      (KICK_REQUEST_NAME, KickRequest)]"

definition classify_lobby_request :: "u32 \<Rightarrow> lobby_request option" where
  "classify_lobby_request h =
     map_option snd (find (\<lambda>(name, request). packet_hash name = h) lobby_request_names)"

section \<open>Request parsers\<close>

abbreviation lobby_read :: "'a read \<Rightarrow> (lobby_protocol_error, 'a) parser" where
  "lobby_read \<equiv> lift_read LobbyPacketError"

definition lobby_packet :: "string \<Rightarrow> (lobby_protocol_error, 'a) parser \<Rightarrow> bytes \<Rightarrow> lobby_protocol_error + 'a" where
  "lobby_packet = parse_packet LobbyPacketError LobbyUnexpectedHash LobbyTrailingBytes"

definition parse_set_slot_state_request :: "bytes \<Rightarrow> lobby_protocol_error + player_slot_state" where
  "parse_set_slot_state_request = lobby_packet SET_SLOT_STATE_REQUEST_NAME
     (rbind (lobby_read get_i32) (\<lambda>v. converted (slot_state_from_wire v)))"

definition parse_change_team_request :: "bytes \<Rightarrow> lobby_protocol_error + room_team" where
  "parse_change_team_request = lobby_packet CHANGE_TEAM_REQUEST_NAME
     (rbind (lobby_read read_u8) (\<lambda>v. converted (team_from_wire v)))"

definition parse_change_master_request :: "bytes \<Rightarrow> lobby_protocol_error + ustring" where
  "parse_change_master_request = lobby_packet CHANGE_MASTER_REQUEST_NAME
     (lobby_read (read_utf16_bounded MAX_RIDER_NICKNAME_UTF16_UNITS))"

definition parse_start_room_request :: "bytes \<Rightarrow> lobby_protocol_error + i32" where
  "parse_start_room_request = lobby_packet START_ROOM_REQUEST_NAME (lobby_read get_i32)"

definition parse_change_track_request :: "bytes \<Rightarrow> lobby_protocol_error + change_track_request" where
  "parse_change_track_request = lobby_packet CHANGE_TRACK_REQUEST_NAME
     (rbind (lobby_read read_u32) (\<lambda>track.
      rbind (lobby_read read_u32) (\<lambda>header.
      rbind (lobby_read (read_bytes ROOM_DATA_LENGTH)) (\<lambda>data.
      accepted \<lparr>track_track = track, track_room_data_header = header, track_room_data = data\<rparr>))))"

definition parse_basic_ai_request :: "bytes \<Rightarrow> lobby_protocol_error + basic_ai_request" where
  "parse_basic_ai_request = lobby_packet BASIC_AI_REQUEST_NAME
     (rbind (lobby_read read_u32) (\<lambda>player_id.
      rbind (lobby_read read_u8) (\<lambda>option.
      accepted \<lparr>basic_player_id = player_id, basic_option = option\<rparr>)))"

definition parse_close_slot_request :: "bytes \<Rightarrow> lobby_protocol_error + close_slot_request" where
  "parse_close_slot_request = lobby_packet CLOSE_SLOT_REQUEST_NAME
     (rbind (lobby_read read_u32) (\<lambda>member_1.
      rbind (rbind (lobby_read read_u8) (\<lambda>v. converted (close_operation_from_wire v))) (\<lambda>operation.
      rbind (lobby_read read_u32) (\<lambda>slot_1.
      rbind (lobby_read read_u32) (\<lambda>member_2.
      rbind (lobby_read read_u32) (\<lambda>slot_2.
      accepted \<lparr>first_member_id = member_1, close_operation = operation, first_slot_id = slot_1,
        second_member_id = member_2, second_slot_id = slot_2\<rparr>))))))"

definition parse_rider_talk_request :: "bytes \<Rightarrow> lobby_protocol_error + rider_talk_request" where
  "parse_rider_talk_request = lobby_packet RIDER_TALK_REQUEST_NAME
     (rbind (lobby_read (read_utf16_bounded MAX_ROOM_CHAT_UTF16_UNITS)) (\<lambda>message.
      rbind (lobby_read read_u32) (\<lambda>reserved.
      accepted \<lparr>talk_message = message, talk_reserved = reserved\<rparr>)))"

definition parse_macro_chat_request :: "bytes \<Rightarrow> lobby_protocol_error + macro_chat_request" where
  "parse_macro_chat_request = lobby_packet MACRO_CHAT_REQUEST_NAME
     (rbind (lobby_read get_i32) (\<lambda>chat_type.
      rbind (lobby_read read_u8) (\<lambda>message_id.
      rbind (lobby_read (read_utf16_bounded MAX_ROOM_CHAT_UTF16_UNITS)) (\<lambda>message.
      accepted \<lparr>macro_chat_type = chat_type, macro_message_id = message_id, client_message = message\<rparr>))))"

definition parse_change_room_info_request :: "bytes \<Rightarrow> lobby_protocol_error + change_room_info_request" where
  "parse_change_room_info_request = lobby_packet CHANGE_ROOM_INFO_REQUEST_NAME
     (rbind (lobby_read (read_utf16_bounded MAX_ROOM_NAME_UTF16_UNITS)) (\<lambda>room_name.
      rbind (lobby_read (read_utf16_bounded MAX_ROOM_PASSWORD_UTF16_UNITS)) (\<lambda>password.
      rbind (lobby_read get_i32) (\<lambda>limit_time.
      rbind (lobby_read read_u8) (\<lambda>r_key.
      accepted \<lparr>info_room_name = room_name, info_password = password, info_limit_time = limit_time,
        r_key_allowed = r_key\<rparr>)))))"

definition parse_kick_request :: "bytes \<Rightarrow> lobby_protocol_error + i32" where
  "parse_kick_request = lobby_packet KICK_REQUEST_NAME (lobby_read get_i32)"

section \<open>The languages of the parsers\<close>

lemma slot_state_wire_i32: "in_i32 (slot_state_wire s)"
  by (cases s) (simp_all add: in_i32_def)

lemma set_slot_state_language:
  "host_fits packet \<Longrightarrow> parse_set_slot_state_request packet = Inr s \<longleftrightarrow>
     packet = named SET_SLOT_STATE_REQUEST_NAME @ le_i32 (slot_state_wire s)"
  unfolding parse_set_slot_state_request_def lobby_packet_def
  by (rule parse_packet_languageI, (rule parses_intros)+) (auto simp: from_wire_iff slot_state_wire_i32)

lemma change_team_language:
  "host_fits packet \<Longrightarrow> parse_change_team_request packet = Inr t \<longleftrightarrow>
     packet = named CHANGE_TEAM_REQUEST_NAME @ [team_wire t]"
  unfolding parse_change_team_request_def lobby_packet_def
  by (rule parse_packet_languageI, (rule parses_intros)+) (auto simp: from_wire_iff)

lemma change_master_language:
  "host_fits packet \<Longrightarrow> parse_change_master_request packet = Inr n \<longleftrightarrow>
     packet = named CHANGE_MASTER_REQUEST_NAME @ utf16_field n \<and> utf16_valid 32 n"
  unfolding parse_change_master_request_def lobby_packet_def
  by (rule parse_packet_languageI, (rule parses_intros)+) (auto simp: room_limits)

lemma start_room_language:
  "host_fits packet \<Longrightarrow> parse_start_room_request packet = Inr i \<longleftrightarrow>
     packet = named START_ROOM_REQUEST_NAME @ le_i32 i \<and> in_i32 i"
  unfolding parse_start_room_request_def lobby_packet_def
  by (rule parse_packet_languageI, (rule parses_intros)+) auto

lemma kick_language:
  "host_fits packet \<Longrightarrow> parse_kick_request packet = Inr i \<longleftrightarrow>
     packet = named KICK_REQUEST_NAME @ le_i32 i \<and> in_i32 i"
  unfolding parse_kick_request_def lobby_packet_def
  by (rule parse_packet_languageI, (rule parses_intros)+) auto

definition change_track_bytes :: "change_track_request \<Rightarrow> bytes" where
  "change_track_bytes r = named CHANGE_TRACK_REQUEST_NAME @ le32 (track_track r) @
     le32 (track_room_data_header r) @ track_room_data r @ []"

definition basic_ai_bytes :: "basic_ai_request \<Rightarrow> bytes" where
  "basic_ai_bytes r = named BASIC_AI_REQUEST_NAME @ le32 (basic_player_id r) @ [basic_option r] @ []"

definition close_slot_bytes :: "close_slot_request \<Rightarrow> bytes" where
  "close_slot_bytes r = named CLOSE_SLOT_REQUEST_NAME @ le32 (first_member_id r) @
     ([close_operation_wire (close_operation r)] @ []) @ le32 (first_slot_id r) @
     le32 (second_member_id r) @ le32 (second_slot_id r) @ []"

definition rider_talk_bytes :: "rider_talk_request \<Rightarrow> bytes" where
  "rider_talk_bytes r = named RIDER_TALK_REQUEST_NAME @ utf16_field (talk_message r) @ le32 (talk_reserved r) @ []"

definition macro_chat_bytes :: "macro_chat_request \<Rightarrow> bytes" where
  "macro_chat_bytes r = named MACRO_CHAT_REQUEST_NAME @ le_i32 (macro_chat_type r) @ [macro_message_id r] @
     utf16_field (client_message r) @ []"

definition room_info_bytes :: "change_room_info_request \<Rightarrow> bytes" where
  "room_info_bytes r = named CHANGE_ROOM_INFO_REQUEST_NAME @ utf16_field (info_room_name r) @
     utf16_field (info_password r) @ le_i32 (info_limit_time r) @ [r_key_allowed r] @ []"

lemma parses_read_bytes [parses_intros]: "parses (read_bytes n) (\<lambda>bs b. b = bs \<and> length bs = n)"
  by (simp add: read_bytes_def parses_take)

lemma change_track_language:
  "host_fits packet \<Longrightarrow> parse_change_track_request packet = Inr r \<longleftrightarrow>
     packet = change_track_bytes r \<and> length (track_room_data r) = 32"
  unfolding parse_change_track_request_def lobby_packet_def
proof (rule parse_packet_languageI, (rule parses_intros)+, assumption, goal_cases)
  case 2
  show ?case
    by (insert 2, clarify, unfold change_track_bytes_def, rule exI, rule conjI, rule refl)
       (rule seqI[OF refl] conjI refl | simp add: room_limits)+
qed (auto simp: change_track_bytes_def room_limits)

lemma basic_ai_language:
  "host_fits packet \<Longrightarrow> parse_basic_ai_request packet = Inr r \<longleftrightarrow> packet = basic_ai_bytes r"
  unfolding parse_basic_ai_request_def lobby_packet_def
proof (rule parse_packet_languageI, (rule parses_intros)+, assumption, goal_cases)
  case 2
  show ?case
    by (insert 2, clarify, unfold basic_ai_bytes_def, rule exI, rule conjI, rule refl)
       (rule seqI[OF refl] conjI refl | simp)+
qed (auto simp: basic_ai_bytes_def)

lemma close_slot_language:
  "host_fits packet \<Longrightarrow> parse_close_slot_request packet = Inr r \<longleftrightarrow> packet = close_slot_bytes r"
  unfolding parse_close_slot_request_def lobby_packet_def
proof (rule parse_packet_languageI, (rule parses_intros)+, assumption, goal_cases)
  case 2
  show ?case
    by (insert 2, clarify, unfold close_slot_bytes_def, rule exI, rule conjI, rule refl)
       (rule seqI[OF refl] conjI refl from_wire_iff(3)[THEN iffD2, OF refl] | simp)+
qed (auto simp: close_slot_bytes_def from_wire_iff)

lemma rider_talk_language:
  "host_fits packet \<Longrightarrow> parse_rider_talk_request packet = Inr r \<longleftrightarrow>
     packet = rider_talk_bytes r \<and> utf16_valid 256 (talk_message r)"
  unfolding parse_rider_talk_request_def lobby_packet_def
proof (rule parse_packet_languageI, (rule parses_intros)+, assumption, goal_cases)
  case 2
  show ?case
    by (insert 2, clarify, unfold rider_talk_bytes_def, rule exI, rule conjI, rule refl)
       (rule seqI[OF refl] conjI refl | simp add: MAX_ROOM_CHAT_UTF16_UNITS_def)+
qed (auto simp: rider_talk_bytes_def MAX_ROOM_CHAT_UTF16_UNITS_def)

lemma macro_chat_language:
  "host_fits packet \<Longrightarrow> parse_macro_chat_request packet = Inr r \<longleftrightarrow>
     packet = macro_chat_bytes r \<and> utf16_valid 256 (client_message r) \<and> in_i32 (macro_chat_type r)"
  unfolding parse_macro_chat_request_def lobby_packet_def
proof (rule parse_packet_languageI, (rule parses_intros)+, assumption, goal_cases)
  case 2
  show ?case
    by (insert 2, clarify, unfold macro_chat_bytes_def, rule exI, rule conjI, rule refl)
       (rule seqI[OF refl] conjI refl | simp add: MAX_ROOM_CHAT_UTF16_UNITS_def)+
qed (auto simp: macro_chat_bytes_def MAX_ROOM_CHAT_UTF16_UNITS_def)

lemma room_info_language:
  "host_fits packet \<Longrightarrow> parse_change_room_info_request packet = Inr r \<longleftrightarrow>
     packet = room_info_bytes r \<and> utf16_valid 128 (info_room_name r) \<and> utf16_valid 64 (info_password r) \<and>
     in_i32 (info_limit_time r)"
  unfolding parse_change_room_info_request_def lobby_packet_def
proof (rule parse_packet_languageI, (rule parses_intros)+, assumption, goal_cases)
  case 2
  show ?case
    by (insert 2, clarify, unfold room_info_bytes_def, rule exI, rule conjI, rule refl)
       (rule seqI[OF refl] conjI refl | simp add: room_limits)+
qed (auto simp: room_info_bytes_def room_limits)

section \<open>Serializers\<close>

definition validate_player_id :: "i32 \<Rightarrow> lobby_protocol_error + unit" where
  "validate_player_id player_id =
     (if 0 \<le> player_id \<and> player_id \<le> ROOM_OBSERVER_ID_END then Inr () else Inl (InvalidPlayerId player_id))"

definition validate_racer_player_id :: "i32 \<Rightarrow> lobby_protocol_error + unit" where
  "validate_racer_player_id player_id =
     (if 0 \<le> player_id \<and> player_id < int ROOM_SLOT_COUNT then Inr () else Inl (InvalidPlayerId player_id))"

definition validate_closed_slot_ids :: "u8 list \<Rightarrow> lobby_protocol_error + unit" where
  "validate_closed_slot_ids slots =
     check_closed_slots InvalidRoomSlotId DuplicateRoomSlotId slots (replicate ROOM_SLOT_COUNT False)"

definition validate_chat :: "ustring \<Rightarrow> lobby_protocol_error + unit" where
  "validate_chat message =
     (if utf16_units message \<le> MAX_ROOM_CHAT_UTF16_UNITS then Inr ()
      else Inl (ChatTooLong (utf16_units message) MAX_ROOM_CHAT_UTF16_UNITS))"

definition validate_slot_positions :: "i32 list \<Rightarrow> lobby_protocol_error + unit" where
  "validate_slot_positions positions = check_slot_positions LobbyInvalidSlotPosition 0 positions"

definition write_slot_positions :: "writer \<Rightarrow> i32 list \<Rightarrow> writer" where
  "write_slot_positions w positions = foldl put_i32 w positions"

definition write_room_ai_body :: "writer \<Rightarrow> room_ai \<Rightarrow> writer" where
  "write_room_ai_body w ai =
     (let w = write_i16 w (ai_character ai);
          w = write_i16 w (ai_rider ai);
          w = write_i16 w (ai_kart ai);
          w = write_i16 w (ai_balloon ai);
          w = write_i16 w (ai_head_band ai);
          w = write_i16 w (ai_goggle ai)
      in write_u8 w (ai_team ai))"

abbreviation lobby_utf16 :: "ustring \<Rightarrow> writer \<Rightarrow> lobby_protocol_error + writer" where
  "lobby_utf16 \<equiv> put_utf16 LobbyPacketError"

fun check_snapshot_states :: "nat \<Rightarrow> i32 list \<Rightarrow> lobby_protocol_error + unit" where
  "check_snapshot_states i [] = Inr ()"
| "check_snapshot_states i (s # ss) =
     (if s \<in> {0, 1, 2, 3, 4, 5, 7} then check_snapshot_states (Suc i) ss else Inl (InvalidSnapshotSlotState i s))"

definition serialize_slot_state :: "i32 list \<Rightarrow> lobby_protocol_error + bytes" where
  "serialize_slot_state states =
     attempt (check_snapshot_states 0 states) (\<lambda>_.
     Inr (write_bytes (foldl put_i32 (named SLOT_STATE_PACKET_NAME) states) (replicate 32 0)))"

definition serialize_set_slot_state_reply ::
  "u32 \<Rightarrow> bool \<Rightarrow> i32 \<Rightarrow> player_slot_state \<Rightarrow> lobby_protocol_error + bytes" where
  "serialize_set_slot_state_reply user_no ok player_id state =
     attempt (validate_player_id player_id) (\<lambda>_.
     let w = named SET_SLOT_STATE_REPLY_NAME;
         w = write_u32 w user_no;
         w = write_bool w ok;
         w = put_i32 w player_id
     in Inr (put_i32 w (slot_state_wire state)))"

definition serialize_change_team_reply :: "i32 \<Rightarrow> room_team \<Rightarrow> i32 list \<Rightarrow> lobby_protocol_error + bytes" where
  "serialize_change_team_reply player_id team positions =
     attempt (validate_player_id player_id) (\<lambda>_.
     attempt (validate_slot_positions positions) (\<lambda>_.
     let w = put_i32 (named CHANGE_TEAM_REPLY_NAME) player_id;
         w = write_u8 w (team_wire team)
     in Inr (write_slot_positions w positions)))"

definition MAX_BASIC_AI_UPDATE_COUNT :: nat where "MAX_BASIC_AI_UPDATE_COUNT = 2"

definition serialize_basic_ai_added :: "(i32 \<times> room_ai) list \<Rightarrow> i32 list \<Rightarrow> lobby_protocol_error + bytes" where
  "serialize_basic_ai_added ais positions =
     (if ais = [] \<or> MAX_BASIC_AI_UPDATE_COUNT < length ais
      then Inl (BasicAiCountLimit (length ais) MAX_BASIC_AI_UPDATE_COUNT)
      else
        attempt (validate_slot_positions positions) (\<lambda>_.
        let w = put_i32 (named BASIC_AI_SLOT_DATA_NAME) 0;
            w = write_u8 w (of_nat (length ais))
        in attempt (write_each (\<lambda>(player_id, ai) w.
             attempt (validate_racer_player_id player_id) (\<lambda>_.
             Inr (write_room_ai_body (put_i32 w player_id) ai))) ais w) (\<lambda>w.
           Inr (write_slot_positions w positions))))"

definition serialize_basic_ai_removed :: "i32 \<Rightarrow> i32 list \<Rightarrow> lobby_protocol_error + bytes" where
  "serialize_basic_ai_removed player_id positions =
     attempt (validate_racer_player_id player_id) (\<lambda>_.
     attempt (validate_slot_positions positions) (\<lambda>_.
     let w = put_i32 (named BASIC_AI_SLOT_DATA_NAME) 1;
         w = write_u8 w 1;
         w = put_i32 w player_id;
         w = write_bytes w (replicate 13 0)
     in Inr (write_slot_positions w positions)))"

definition serialize_basic_ai_reply :: "bool \<Rightarrow> bytes" where
  "serialize_basic_ai_reply changed = write_bool (named BASIC_AI_REPLY_NAME) changed"

definition serialize_close_slot_reply ::
  "u32 \<Rightarrow> bool \<Rightarrow> u32 \<Rightarrow> u32 \<Rightarrow> close_slot_operation \<Rightarrow> u8 list \<Rightarrow> lobby_protocol_error + bytes" where
  "serialize_close_slot_reply user_no ok member_1 member_2 operation closed =
     attempt (validate_closed_slot_ids closed) (\<lambda>_.
     let w = named CLOSE_SLOT_REPLY_NAME;
         w = write_u32 w user_no;
         w = write_bool w ok;
         w = write_u32 w member_1;
         w = write_u32 w member_2;
         w = put_i32 w (of_bool (is_close operation \<and> ok));
         w = put_i32 w (int (length closed))
     in Inr (write_bytes w closed))"

definition serialize_rider_echo :: "i32 \<Rightarrow> ustring \<Rightarrow> lobby_protocol_error + bytes" where
  "serialize_rider_echo player_id message =
     attempt (validate_player_id player_id) (\<lambda>_.
     attempt (validate_chat message) (\<lambda>_.
     lobby_utf16 message (put_i32 (named RIDER_ECHO_NAME) player_id)))"

definition serialize_macro_chat_relay :: "u32 \<Rightarrow> i32 \<Rightarrow> u8 \<Rightarrow> ustring \<Rightarrow> lobby_protocol_error + bytes" where
  "serialize_macro_chat_relay user_no chat_type message_id message =
     attempt (validate_chat message) (\<lambda>_.
     let w = named MACRO_CHAT_RELAY_NAME;
         w = write_u32 w user_no;
         w = put_i32 w chat_type;
         w = write_u8 w message_id
     in lobby_utf16 message w)"

definition serialize_change_room_info_reply :: "change_room_info_request \<Rightarrow> lobby_protocol_error + bytes" where
  "serialize_change_room_info_reply r =
     (if MAX_ROOM_NAME_UTF16_UNITS < utf16_units (info_room_name r)
      then Inl (LobbyPacketError (StringLimitExceeded (utf16_units (info_room_name r)) MAX_ROOM_NAME_UTF16_UNITS))
      else if MAX_ROOM_PASSWORD_UTF16_UNITS < utf16_units (info_password r)
      then Inl (LobbyPacketError (StringLimitExceeded (utf16_units (info_password r)) MAX_ROOM_PASSWORD_UTF16_UNITS))
      else
        let w = write_u8 (named CHANGE_ROOM_INFO_REPLY_NAME) 1
        in attempt (lobby_utf16 (info_room_name r) w) (\<lambda>w.
           attempt (lobby_utf16 (info_password r) w) (\<lambda>w.
           Inr (write_u8 (put_i32 w (info_limit_time r)) (r_key_allowed r)))))"

definition serialize_kick_broadcast :: "ustring \<Rightarrow> lobby_protocol_error + bytes" where
  "serialize_kick_broadcast nickname =
     (if MAX_RIDER_NICKNAME_UTF16_UNITS < utf16_units nickname
      then Inl (LobbyNicknameTooLong (utf16_units nickname) MAX_RIDER_NICKNAME_UTF16_UNITS)
      else lobby_utf16 nickname (named KICK_BROADCAST_NAME))"

definition serialize_kick_reply :: bytes where
  "serialize_kick_reply = write_u8 (named KICK_REPLY_NAME) 0"

definition serialize_start_room_reply :: "start_room_status \<Rightarrow> bytes" where
  "serialize_start_room_reply status = put_i32 (named START_ROOM_REPLY_NAME) (start_status_wire status)"

section \<open>When a reply can be written\<close>

lemma snapshot_states_ok:
  "check_snapshot_states i ss = Inr () \<longleftrightarrow> set ss \<subseteq> {0, 1, 2, 3, 4, 5, 7}"
  by (induction ss arbitrary: i) auto

lemma attempt_isl: "isl (attempt r f) \<longleftrightarrow> isl r \<or> isl (f (projr r))"
  by (cases r) auto

definition slots_wire_ok :: "i32 list \<Rightarrow> bool" where
  "slots_wire_ok ps \<longleftrightarrow> (\<forall>p\<in>set ps. - 1 \<le> p \<and> p \<le> 7)"

lemma slot_positions_writable: "slots_wire_ok ps \<Longrightarrow> validate_slot_positions ps = Inr ()"
  by (simp add: validate_slot_positions_def check_positions_ok slots_wire_ok_def)

lemma slot_state_written:
  "set ss \<subseteq> {0, 1, 2, 3, 4, 5, 7} \<Longrightarrow> \<not> isl (serialize_slot_state ss)"
  by (simp add: serialize_slot_state_def snapshot_states_ok[THEN iffD2])

lemma set_slot_state_reply_written:
  "0 \<le> player_id \<Longrightarrow> player_id \<le> 15 \<Longrightarrow> \<not> isl (serialize_set_slot_state_reply u a player_id s)"
  by (simp add: serialize_set_slot_state_reply_def validate_player_id_def ROOM_OBSERVER_ID_END_def Let_def)

lemma change_team_reply_written:
  "0 \<le> player_id \<Longrightarrow> player_id \<le> 15 \<Longrightarrow> slots_wire_ok ps \<Longrightarrow> \<not> isl (serialize_change_team_reply player_id t ps)"
  by (simp add: serialize_change_team_reply_def validate_player_id_def ROOM_OBSERVER_ID_END_def Let_def
      slot_positions_writable)

lemma basic_ai_removed_written:
  "0 \<le> player_id \<Longrightarrow> player_id < 8 \<Longrightarrow> slots_wire_ok ps \<Longrightarrow> \<not> isl (serialize_basic_ai_removed player_id ps)"
  by (simp add: serialize_basic_ai_removed_def validate_racer_player_id_def room_limits Let_def
      slot_positions_writable)

lemma basic_ai_added_written:
  assumes "ais \<noteq> []" "length ais \<le> 2" "\<forall>(i, ai)\<in>set ais. 0 \<le> i \<and> i < 8" "slots_wire_ok ps"
  shows "\<not> isl (serialize_basic_ai_added ais ps)"
proof -
  let ?f = "\<lambda>(player_id, ai) w. attempt (validate_racer_player_id player_id) (\<lambda>_.
             Inr (write_room_ai_body (put_i32 w player_id) ai))"
  have "\<exists>w'. write_each ?f xs w = Inr w'" if "\<forall>(i, ai)\<in>set xs. 0 \<le> i \<and> i < 8" for xs w
    using that by (induction xs arbitrary: w) (auto simp: validate_racer_player_id_def room_limits)
  then obtain w' where "write_each ?f ais (write_u8 (put_i32 (named BASIC_AI_SLOT_DATA_NAME) 0) (of_nat (length ais))) = Inr w'"
    using assms(3) by blast
  with assms show ?thesis
    by (simp add: serialize_basic_ai_added_def MAX_BASIC_AI_UPDATE_COUNT_def slot_positions_writable Let_def)
qed

lemma close_slot_reply_written:
  "distinct closed \<Longrightarrow> \<forall>s\<in>set closed. unat s < 8 \<Longrightarrow> \<not> isl (serialize_close_slot_reply u a m1 m2 oper closed)"
  using check_closed_ok[of "replicate 8 False" InvalidRoomSlotId DuplicateRoomSlotId closed]
  by (simp add: serialize_close_slot_reply_def validate_closed_slot_ids_def room_limits Let_def)

section \<open>Properties\<close>

text \<open>C29. The eleven ready-stage requests: each parser accepts exactly the packets that are the hash of its name and the fields of one request, within the limits of its strings and without a byte more.\<close>

theorem lobby_requests_exact:
  assumes "host_fits packet"
  shows "(parse_set_slot_state_request packet = Inr s \<longleftrightarrow>
       packet = named SET_SLOT_STATE_REQUEST_NAME @ le_i32 (slot_state_wire s)) \<and>
    (parse_change_team_request packet = Inr t \<longleftrightarrow> packet = named CHANGE_TEAM_REQUEST_NAME @ [team_wire t]) \<and>
    (parse_change_master_request packet = Inr n \<longleftrightarrow>
       packet = named CHANGE_MASTER_REQUEST_NAME @ utf16_field n \<and> utf16_valid 32 n) \<and>
    (parse_start_room_request packet = Inr i \<longleftrightarrow> packet = named START_ROOM_REQUEST_NAME @ le_i32 i \<and> in_i32 i) \<and>
    (parse_change_track_request packet = Inr ct \<longleftrightarrow>
       packet = change_track_bytes ct \<and> length (track_room_data ct) = 32) \<and>
    (parse_basic_ai_request packet = Inr ai \<longleftrightarrow> packet = basic_ai_bytes ai) \<and>
    (parse_close_slot_request packet = Inr cs \<longleftrightarrow> packet = close_slot_bytes cs) \<and>
    (parse_rider_talk_request packet = Inr rt \<longleftrightarrow>
       packet = rider_talk_bytes rt \<and> utf16_valid 256 (talk_message rt)) \<and>
    (parse_macro_chat_request packet = Inr mc \<longleftrightarrow>
       packet = macro_chat_bytes mc \<and> utf16_valid 256 (client_message mc) \<and> in_i32 (macro_chat_type mc)) \<and>
    (parse_change_room_info_request packet = Inr ri \<longleftrightarrow>
       packet = room_info_bytes ri \<and> utf16_valid 128 (info_room_name ri) \<and>
       utf16_valid 64 (info_password ri) \<and> in_i32 (info_limit_time ri)) \<and>
    (parse_kick_request packet = Inr k \<longleftrightarrow> packet = named KICK_REQUEST_NAME @ le_i32 k \<and> in_i32 k)"
  using assms
  by (simp add: set_slot_state_language change_team_language change_master_language start_room_language
      change_track_language basic_ai_language close_slot_language rider_talk_language macro_chat_language
      room_info_language kick_language)

theorem lobby_requests_exact_witness:
  "parse_kick_request (named KICK_REQUEST_NAME @ le_i32 3) = Inr 3 \<and>
   parse_change_team_request (named CHANGE_TEAM_REQUEST_NAME @ [2]) = Inr Blue"
proof -
  have "host_fits (named KICK_REQUEST_NAME @ le_i32 3)" "host_fits (named CHANGE_TEAM_REQUEST_NAME @ [2])"
    by (simp_all add: host_fits_def named_def new_writer_def write_u32_def le_i32_def)
  from this[THEN lobby_requests_exact] show ?thesis by (simp add: in_i32_def)
qed

end
