(* ===== verification/RoomState.thy ===== *)
theory RoomState
  imports LobbyProtocol RaceObjects IdentityTransfer
    "HOL-Library.Product_Lexorder"
begin

text \<open>
  One multiplayer room: \<open>ProtocolRoomState\<close> of \<open>crates/p4475-server/src/world.rs\<close>, its members by
  member ID, AI racers, closed seats, observers and physical slots, with every operation of its
  \<open>impl\<close>. Fixed arrays are lists of their length, \<open>Instant\<close>s are natural numbers, hash maps are
  tables; the draw of the random track is an argument.
\<close>

section \<open>Races\<close>

datatype room_phase = LobbyPhase | LoadingPhase | RunningPhase | SettlingPhase

record race_fence =
  fence_room :: u32
  fence_epoch :: u64

record time_reward =
  tr_earned_rp :: u32
  tr_earned_lucci :: u32

record applied_time_reward =
  at_current_rp :: u32
  at_earned_rp :: u32
  at_earned_lucci :: u32
  at_current_lucci :: u32

datatype frozen_result_economy = EconomyPending | EconomyApplied applied_time_reward

definition economy_applied :: "frozen_result_economy \<Rightarrow> applied_time_reward option" where
  "economy_applied e = (case e of EconomyPending \<Rightarrow> None | EconomyApplied r \<Rightarrow> Some r)"

record frozen_human_result =
  fr_kart_id :: u16
  fr_floater_codes :: "u16 list"
  fr_character_id :: u16
  fr_club_mark_logo :: i32
  fr_economy :: frozen_result_economy

record frozen_race_participant =
  fp_identity :: identity_binding
  fp_nickname :: ustring
  fp_player_id :: i32
  fp_observer :: bool
  fp_team :: u8
  fp_result :: "frozen_human_result option"

record frozen_ai_participant =
  fa_player_id :: i32
  fa_team :: u8
  fa_kart_id :: u16

record frozen_race_roster =
  roster_fence :: race_fence
  concrete_track :: u32
  participants :: "frozen_race_participant list"
  frozen_ais :: "frozen_ai_participant list"

definition active_racer_count :: "frozen_race_roster \<Rightarrow> nat" where
  "active_racer_count f = length (filter (\<lambda>p. \<not> fp_observer p) (participants f)) + length (frozen_ais f)"

datatype result_team = ResultRed | ResultBlue

record ranked_race_result =
  rk_finish_time :: u32
  rk_rank :: i32
  rk_team :: "result_team option"
  rk_team_points :: i32

record settlement_ranking =
  winning_team :: "result_team option"
  by_player_id :: "(i32, ranked_race_result) table"

datatype reward_persistence_status =
  RewardQueued nat u8
| RewardInFlight u64 u8 nat
| RewardDurable applied_time_reward

definition in_flight_attempt_id :: "reward_persistence_status \<Rightarrow> u64 option" where
  "in_flight_attempt_id s = (case s of RewardInFlight attempt_id _ _ \<Rightarrow> Some attempt_id | _ \<Rightarrow> None)"

record reward_persistence_entry =
  re_user_no :: u32
  re_nickname :: ustring
  re_canonical_nickname :: ustring
  re_player_id :: i32
  re_proposed_reward :: time_reward
  re_status :: reward_persistence_status

datatype reward_terminal_reason =
  InvalidRanking | RewardSampling | RewardPersistence | RewardReceiptMismatch | RewardParticipantMissing
| RewardRetryDeadlineOverflow | RewardAttemptIdExhausted | RewardAttemptLeaseDeadlineOverflow
| ResultSerialization | OutboundReservation

record settlement_dead_letter =
  dl_ranking :: "settlement_ranking option"
  dl_rewards :: "reward_persistence_entry list"
  dl_packets :: "bytes list option"
  dl_failed_user_no :: "u32 option"
  dl_failed_nickname :: "ustring option"
  dl_reason :: reward_terminal_reason

datatype settlement_finalization =
  AwaitingDeadline
| Persisting settlement_ranking "reward_persistence_entry list"
| SettlementReady settlement_ranking "reward_persistence_entry list" "bytes list"
| SettlementFailed settlement_dead_letter

definition retain_as_dead_letter ::
  "settlement_finalization \<Rightarrow> reward_terminal_reason \<Rightarrow> u32 option \<Rightarrow> ustring option \<Rightarrow> settlement_finalization" where
  "retain_as_dead_letter previous reason user_no nickname =
     (let dead = (\<lambda>ranking rewards packets. SettlementFailed
            \<lparr>dl_ranking = ranking, dl_rewards = rewards, dl_packets = packets, dl_failed_user_no = user_no,
             dl_failed_nickname = nickname, dl_reason = reason\<rparr>)
      in case previous of
           Persisting ranking rewards \<Rightarrow> dead (Some ranking) rewards None
         | SettlementReady ranking rewards packets \<Rightarrow> dead (Some ranking) rewards (Some packets)
         | SettlementFailed failed \<Rightarrow> SettlementFailed failed
         | AwaitingDeadline \<Rightarrow> dead None [] None)"

record settlement_state =
  end_tick :: u32
  settlement_deadline :: nat
  finalization :: settlement_finalization

record pending_race_time =
  pt_player_id :: i32
  pt_race_time :: u32
  pt_packet :: bytes

record pending_begin_settlement =
  pb_end_tick :: u32
  pb_excluded_user :: "u32 option"
  pb_packet :: bytes

record pending_race_fanout =
  fanout_race_time :: "pending_race_time option"
  fanout_begin_settlement :: "pending_begin_settlement option"

datatype item_pickup_kind = PickupType1 | PickupType2

record item_pickup_replay =
  last_operation_tick :: u32
  objects_seen_at_tick :: "(item_pickup_kind \<times> u32) list"
  pickup_tokens :: u8
  last_refill_at :: nat

record race_progress =
  finish_times :: "(i32, u32) table"
  settlement :: "settlement_state option"
  pending_fanouts :: "pending_race_fanout list"
  team_gauge_bits :: "u32 list"
  item_pickups :: "(i32, item_pickup_replay) table"
  race_objects :: race_object_registry

text \<open>The gauge of a team is the bit pattern of an \<open>f32\<close>; that of \<open>0.0\<close> is zero.\<close>

definition default_race_progress :: race_progress where
  "default_race_progress = \<lparr>finish_times = [], settlement = None, pending_fanouts = [],
     team_gauge_bits = [0, 0], item_pickups = [], race_objects = default_race_objects\<rparr>"

record frozen_participant_stamp =
  stamp_user_no :: u32
  stamp_generation :: u64

definition participant_stamp :: "identity_binding \<Rightarrow> frozen_participant_stamp" where
  "participant_stamp b = \<lparr>stamp_user_no = bind_user_no b, stamp_generation = bind_generation b\<rparr>"

datatype loading_handshake =
  Dormant
| Awaiting "frozen_participant_stamp list" "frozen_participant_stamp list" nat
| StartScheduled nat

section \<open>The room\<close>

record room_kart_physics_variants =
  variant_default :: bytes
  by_speed_type :: "bytes list"
  by_game_type_and_speed :: "bytes list list option"

record room_participant =
  part_player :: room_player
  part_observer :: bool
  part_observer_master :: bool
  part_kart_physics :: bytes
  part_kart_physics_variants :: "room_kart_physics_variants option"
  part_floater_codes :: "u16 list"

record protocol_room_member =
  m_user_no :: u32
  m_player :: room_player
  m_kart_physics :: bytes
  m_kart_physics_variants :: "room_kart_physics_variants option"
  m_floater_codes :: "u16 list"

record room_settings =
  rs_channel :: channel_binding
  rs_room_name :: ustring
  rs_password :: ustring
  rs_game_type :: u8
  rs_speed_type :: u8
  rs_track :: u32
  rs_room_data_header :: u32
  rs_room_data :: bytes

record protocol_room =
  room_id :: u32
  settings :: room_settings
  phase :: room_phase
  race_fence :: "race_fence option"
  frozen_race :: "frozen_race_roster option"
  race_progress :: race_progress
  loading_handshake :: loading_handshake
  room_master :: i32
  members_by_id :: "protocol_room_member option list"
  ais_by_id :: "room_ai option list"
  closed_slots_by_id :: "nat option list"
  observers :: "protocol_room_member option list"
  slot_positions :: "nat option list"
  random_track_pool :: "(u8 \<times> u32) option"
  random_tracks_used :: "u32 list"
  last_random_track :: "u32 option"

definition new_room :: "u32 \<Rightarrow> room_settings \<Rightarrow> protocol_room" where
  "new_room i s = \<lparr>room_id = i, settings = s, phase = LobbyPhase, race_fence = None, frozen_race = None,
     race_progress = default_race_progress, loading_handshake = Dormant, room_master = 0,
     members_by_id = replicate ROOM_SLOT_COUNT None, ais_by_id = replicate ROOM_SLOT_COUNT None,
     closed_slots_by_id = replicate ROOM_SLOT_COUNT None, observers = replicate ROOM_OBSERVER_COUNT None,
     slot_positions = replicate ROOM_SLOT_COUNT None, random_track_pool = None, random_tracks_used = [],
     last_random_track = None\<rparr>"

definition team_mode :: "protocol_room \<Rightarrow> bool" where
  "team_mode r \<longleftrightarrow> rs_game_type (settings r) = 3 \<or> rs_game_type (settings r) = 4"

text \<open>\<open>iter().position(\<dots>)\<close>, and \<open>iter().flatten()\<close> of an array of options.\<close>

fun first_index :: "('a \<Rightarrow> bool) \<Rightarrow> 'a list \<Rightarrow> nat option" where
  "first_index P [] = None"
| "first_index P (x # xs) = (if P x then Some 0 else map_option Suc (first_index P xs))"

definition flatten :: "'a option list \<Rightarrow> 'a list" where
  "flatten xs = List.map_filter (\<lambda>x. x) xs"

definition is_none :: "'a option \<Rightarrow> bool" where
  "is_none x \<longleftrightarrow> x = None"

definition is_user :: "u32 \<Rightarrow> protocol_room_member option \<Rightarrow> bool" where
  "is_user user_no m = (case m of None \<Rightarrow> False | Some m \<Rightarrow> m_user_no m = user_no)"

text \<open>\<open>(a..b).find(|slot| self.slot_positions[slot].is_none())\<close>.\<close>

definition free_slot_in :: "nat \<Rightarrow> nat \<Rightarrow> nat option list \<Rightarrow> nat option" where
  "free_slot_in a b positions = find (\<lambda>slot. positions ! slot = None) [a..<b]"

definition team_slots :: "u8 \<Rightarrow> nat option list \<Rightarrow> nat option" where
  "team_slots team positions =
     (if team = 2 then free_slot_in 0 (ROOM_SLOT_COUNT div 2) positions
      else free_slot_in (ROOM_SLOT_COUNT div 2) ROOM_SLOT_COUNT positions)"

definition room_is_empty :: "protocol_room \<Rightarrow> bool" where
  "room_is_empty r \<longleftrightarrow> list_all is_none (members_by_id r) \<and> list_all is_none (observers r)"

definition vacant_member_id :: "protocol_room \<Rightarrow> nat option" where
  "vacant_member_id r = find (\<lambda>i. members_by_id r ! i = None \<and> ais_by_id r ! i = None \<and>
     closed_slots_by_id r ! i = None) [0..<ROOM_SLOT_COUNT]"

definition user_nos :: "protocol_room \<Rightarrow> u32 list" where
  "user_nos r = map m_user_no (flatten (members_by_id r @ observers r))"

definition member_id :: "protocol_room \<Rightarrow> u32 \<Rightarrow> nat option" where
  "member_id r user_no = first_index (is_user user_no) (members_by_id r)"

definition observer_id :: "protocol_room \<Rightarrow> u32 \<Rightarrow> nat option" where
  "observer_id r user_no = first_index (is_user user_no) (observers r)"

definition member_by_user_no :: "protocol_room \<Rightarrow> u32 \<Rightarrow> protocol_room_member option" where
  "member_by_user_no r user_no = find (\<lambda>m. m_user_no m = user_no) (flatten (members_by_id r @ observers r))"

definition equipment_player_id :: "protocol_room \<Rightarrow> u32 \<Rightarrow> i32 option" where
  "equipment_player_id r user_no =
     (case first_index (is_user user_no) (members_by_id r) of
        Some i \<Rightarrow> Some (int i)
      | None \<Rightarrow> map_option (\<lambda>i. int (ROOM_SLOT_COUNT + i)) (first_index (is_user user_no) (observers r)))"

definition member_by_player_id :: "protocol_room \<Rightarrow> i32 \<Rightarrow> protocol_room_member option" where
  "member_by_player_id r player_id =
     (if player_id < 0 then None
      else let i = nat player_id in
        if i < ROOM_SLOT_COUNT then members_by_id r ! i
        else if i - ROOM_SLOT_COUNT < length (observers r) then observers r ! (i - ROOM_SLOT_COUNT)
        else None)"

definition ai_count :: "protocol_room \<Rightarrow> nat" where
  "ai_count r = length (flatten (ais_by_id r))"

section \<open>Admission\<close>

definition admission_slot_and_team :: "protocol_room \<Rightarrow> (nat \<times> u8) option" where
  "admission_slot_and_team r =
     (if \<not> team_mode r
      then map_option (\<lambda>slot. (slot, 0)) (first_index is_none (slot_positions r))
      else
        let team_count = (\<lambda>team. length (filter (\<lambda>m. player_team (m_player m) = team) (flatten (members_by_id r))) +
               length (filter (\<lambda>ai. ai_team ai = team) (flatten (ais_by_id r))));
            blue_count = team_count 2;
            red_count = team_count 1;
            preferred = (if blue_count \<le> red_count then 2 else 1);
            other = (if preferred = 2 then 1 else 2)
        in case team_slots preferred (slot_positions r) of
             Some slot \<Rightarrow> Some (slot, preferred)
           | None \<Rightarrow> map_option (\<lambda>slot. (slot, other)) (team_slots other (slot_positions r)))"

definition room_member_of :: "u32 \<Rightarrow> room_player \<Rightarrow> room_participant \<Rightarrow> protocol_room_member" where
  "room_member_of user_no p part = \<lparr>m_user_no = user_no, m_player = p, m_kart_physics = part_kart_physics part,
     m_kart_physics_variants = part_kart_physics_variants part, m_floater_codes = part_floater_codes part\<rparr>"

definition add_participant :: "u32 \<Rightarrow> room_participant \<Rightarrow> protocol_room \<Rightarrow> bool \<times> protocol_room" where
  "add_participant user_no part r =
     (if part_observer part then
        (case first_index is_none (observers r) of
           None \<Rightarrow> (False, r)
         | Some i \<Rightarrow>
             let p = (part_player part)\<lparr>player_type := 4, player_team := 0\<rparr>;
                 r = r\<lparr>observers := (observers r)[i := Some (room_member_of user_no p part)]\<rparr>
             in (True, if part_observer_master part then r\<lparr>room_master := int (ROOM_SLOT_COUNT + i)\<rparr> else r))
      else
        (case vacant_member_id r of
           None \<Rightarrow> (False, r)
         | Some i \<Rightarrow>
             (case admission_slot_and_team r of
                None \<Rightarrow> (False, r)
              | Some (slot, team) \<Rightarrow>
                  let p = (part_player part)\<lparr>player_type := 2, player_team := team,
                        player_ranking := int (length (flatten (members_by_id r)))\<rparr>;
                      r = r\<lparr>members_by_id := (members_by_id r)[i := Some (room_member_of user_no p part)]\<rparr>;
                      r = r\<lparr>slot_positions := (slot_positions r)[slot := Some i]\<rparr>
                  in (True, if member_by_player_id r (room_master r) = None then r\<lparr>room_master := int i\<rparr> else r))))"

section \<open>Leaving\<close>

definition set_ranking :: "nat \<Rightarrow> protocol_room_member option \<Rightarrow> protocol_room_member option" where
  "set_ranking n m = map_option (\<lambda>m. m\<lparr>m_player := (m_player m)\<lparr>player_ranking := int n\<rparr>\<rparr>) m"

text \<open>The loop that writes the ranks 0, 1, 2, \<open>\<dots>\<close> to the members of a sorted list.\<close>

fun rank_from :: "nat \<Rightarrow> nat list \<Rightarrow> protocol_room_member option list \<Rightarrow> protocol_room_member option list" where
  "rank_from n [] ms = ms"
| "rank_from n (i # is) ms = rank_from (Suc n) is (ms[i := set_ranking n (ms ! i)])"

definition assign_next_room_master :: "protocol_room \<Rightarrow> protocol_room" where
  "assign_next_room_master r =
     (case first_index (\<lambda>m. m \<noteq> None) (members_by_id r) of
        Some i \<Rightarrow> r\<lparr>room_master := int i, members_by_id := (members_by_id r)[i :=
            map_option (\<lambda>m. m\<lparr>m_player := (m_player m)\<lparr>player_type := slot_state_wire NotReady\<rparr>\<rparr>) (members_by_id r ! i)]\<rparr>
      | None \<Rightarrow>
          (case first_index (\<lambda>m. m \<noteq> None) (observers r) of
             Some i \<Rightarrow> r\<lparr>room_master := int (ROOM_SLOT_COUNT + i), observers := (observers r)[i :=
                 map_option (\<lambda>m. m\<lparr>m_player := (m_player m)\<lparr>player_type := slot_state_wire Observer\<rparr>\<rparr>) (observers r ! i)]\<rparr>
           | None \<Rightarrow> r\<lparr>room_master := - 1\<rparr>))"

definition occupied_rankings :: "protocol_room_member option list \<Rightarrow> (i32 \<times> nat) list" where
  "occupied_rankings ms = List.map_filter (\<lambda>(i, m). map_option (\<lambda>m. (player_ranking (m_player m), i)) m)
     (enumerate 0 ms)"

definition remove_user :: "u32 \<Rightarrow> protocol_room \<Rightarrow> bool \<times> protocol_room" where
  "remove_user user_no r =
     (case first_index (is_user user_no) (observers r) of
        Some i \<Rightarrow>
          let removed_master = (room_master r = int (ROOM_SLOT_COUNT + i));
              r = r\<lparr>observers := (observers r)[i := None]\<rparr>
          in (True, if removed_master then assign_next_room_master r else r)
      | None \<Rightarrow>
          (case first_index (is_user user_no) (members_by_id r) of
             None \<Rightarrow> (False, r)
           | Some i \<Rightarrow>
               let removed_master = (room_master r = int i);
                   r = r\<lparr>members_by_id := (members_by_id r)[i := None]\<rparr>;
                   r = (case first_index (\<lambda>p. p = Some i) (slot_positions r) of
                          Some slot \<Rightarrow> r\<lparr>slot_positions := (slot_positions r)[slot := None]\<rparr>
                        | None \<Rightarrow> r);
                   r = (if removed_master then assign_next_room_master r else r)
               in (True, r\<lparr>members_by_id :=
                    rank_from 0 (map snd (sort (occupied_rankings (members_by_id r)))) (members_by_id r)\<rparr>)))"

section \<open>Settlement\<close>

text \<open>The next starting grid: the members the ranking knows, by rank and then member ID.\<close>

definition ranked_members :: "settlement_ranking \<Rightarrow> protocol_room_member option list \<Rightarrow> (i32 \<times> nat) list" where
  "ranked_members ranking ms = List.map_filter (\<lambda>(i, m). case m of None \<Rightarrow> None
     | Some _ \<Rightarrow> map_option (\<lambda>result. (rk_rank result, i)) (map_of (by_player_id ranking) (int i)))
     (enumerate 0 ms)"

definition apply_next_grid_ranking :: "settlement_ranking \<Rightarrow> protocol_room \<Rightarrow> protocol_room" where
  "apply_next_grid_ranking ranking r = r\<lparr>members_by_id :=
     rank_from 0 (map snd (sort (ranked_members ranking (members_by_id r)))) (members_by_id r)\<rparr>"

definition master_candidates :: "settlement_ranking \<Rightarrow> protocol_room_member option list \<Rightarrow> (i32 \<times> u32 \<times> i32) list" where
  "master_candidates ranking ms = List.map_filter (\<lambda>(i, m). case m of None \<Rightarrow> None
     | Some _ \<Rightarrow>
         (case map_of (by_player_id ranking) (int i) of
            None \<Rightarrow> None
          | Some ranked \<Rightarrow>
              (case winning_team ranking of
                 Some team \<Rightarrow> if rk_team ranked \<noteq> Some team then None
                               else Some (rk_rank ranked, rk_finish_time ranked, int i)
               | None \<Rightarrow> Some (rk_rank ranked, rk_finish_time ranked, int i))))
     (enumerate 0 ms)"

definition apply_next_lobby_master :: "settlement_ranking \<Rightarrow> protocol_room \<Rightarrow> i32 option \<times> protocol_room" where
  "apply_next_lobby_master ranking r =
     (if int ROOM_SLOT_COUNT \<le> room_master r \<and> member_by_player_id r (room_master r) \<noteq> None
      then (Some (room_master r), r)
      else case master_candidates ranking (members_by_id r) of
             [] \<Rightarrow> (None, r)
           | c # cs \<Rightarrow> let next_master = snd (snd (fold min cs c))
                       in (Some next_master, r\<lparr>room_master := next_master\<rparr>))"

section \<open>AI racers and closed seats\<close>

text \<open>An operation whose \<open>expect\<close> may fail.\<close>

datatype 'a may_panic = Panics | Returns 'a

definition remove_ai :: "u32 \<Rightarrow> protocol_room \<Rightarrow> (i32 option \<times> protocol_room) may_panic" where
  "remove_ai player_id r =
     (let i = unat player_id in
      if length (ais_by_id r) \<le> i \<or> ais_by_id r ! i = None then Returns (None, r)
      else
        let r = r\<lparr>ais_by_id := (ais_by_id r)[i := None]\<rparr>
        in case first_index (\<lambda>p. p = Some i) (slot_positions r) of
             None \<Rightarrow> Panics
           | Some slot \<Rightarrow> Returns (Some (int i), r\<lparr>slot_positions := (slot_positions r)[slot := None]\<rparr>))"

fun add_ais :: "(u8 \<times> room_ai) list \<Rightarrow> (i32 \<times> room_ai) list \<Rightarrow> protocol_room \<Rightarrow> (i32 \<times> room_ai) list option \<times> protocol_room" where
  "add_ais [] added r = (Some added, r)"
| "add_ais ((team, ai) # rest) added r =
     (case vacant_member_id r of
        None \<Rightarrow> (None, r)
      | Some i \<Rightarrow>
          (case (if team = 2 then free_slot_in 0 (ROOM_SLOT_COUNT div 2) (slot_positions r)
                 else if team = 1 then free_slot_in (ROOM_SLOT_COUNT div 2) ROOM_SLOT_COUNT (slot_positions r)
                 else free_slot_in 0 ROOM_SLOT_COUNT (slot_positions r)) of
             None \<Rightarrow> (None, r)
           | Some slot \<Rightarrow>
               let ai = ai\<lparr>ai_team := team\<rparr>;
                   r = r\<lparr>ais_by_id := (ais_by_id r)[i := Some ai]\<rparr>;
                   r = r\<lparr>slot_positions := (slot_positions r)[slot := Some i]\<rparr>
               in add_ais rest (added @ [(int i, ai)]) r))"

definition add_basic_ais :: "room_ai list \<Rightarrow> protocol_room \<Rightarrow> (i32 \<times> room_ai) list option \<times> protocol_room" where
  "add_basic_ais candidates r = add_ais (zip (if team_mode r then [2, 1] else [0]) candidates) [] r"

definition close_pairs :: "close_slot_request \<Rightarrow> protocol_room \<Rightarrow> (nat \<times> nat) list" where
  "close_pairs request r =
     map (\<lambda>(m, s). (unat m, unat s))
       (if team_mode r
        then [(first_member_id request, first_slot_id request), (second_member_id request, second_slot_id request)]
        else [(first_member_id request, first_slot_id request)])"

definition close_pair_allowed :: "bool \<Rightarrow> protocol_room \<Rightarrow> nat \<times> nat \<Rightarrow> bool" where
  "close_pair_allowed close r = (\<lambda>(m, s).
     if close
     then members_by_id r ! m = None \<and> ais_by_id r ! m = None \<and> closed_slots_by_id r ! m = None \<and>
          slot_positions r ! s = None
     else closed_slots_by_id r ! m = Some s \<and> slot_positions r ! s = Some m)"

definition apply_close_pair :: "bool \<Rightarrow> nat \<times> nat \<Rightarrow> protocol_room \<Rightarrow> protocol_room" where
  "apply_close_pair close = (\<lambda>(m, s) r.
     r\<lparr>closed_slots_by_id := (closed_slots_by_id r)[m := if close then Some s else None],
       slot_positions := (slot_positions r)[s := if close then Some m else None]\<rparr>)"

definition set_close_slots :: "close_slot_request \<Rightarrow> protocol_room \<Rightarrow> bool \<times> protocol_room" where
  "set_close_slots request r =
     (let pairs = close_pairs request r; close = is_close (close_operation request) in
      if \<not> list_all (\<lambda>(m, s). m < ROOM_SLOT_COUNT \<and> s < ROOM_SLOT_COUNT) pairs then (False, r)
      else if length pairs = 2 \<and> (fst (pairs ! 0) = fst (pairs ! 1) \<or> snd (pairs ! 0) = snd (pairs ! 1))
      then (False, r)
      else if \<not> list_all (close_pair_allowed close r) pairs then (False, r)
      else (True, fold (apply_close_pair close) pairs r))"

definition closed_slot_ids :: "protocol_room \<Rightarrow> nat list" where
  "closed_slot_ids r = flatten (closed_slots_by_id r)"

section \<open>Random tracks\<close>

definition P4475_RANDOM_TRACK_SELECTORS :: "u32 list" where
  "P4475_RANDOM_TRACK_SELECTORS = [0, 1, 3, 4, 5, 6, 7, 8, 23, 30, 33, 40]"

definition is_random_track_selector :: "u32 \<Rightarrow> bool" where
  "is_random_track_selector track \<longleftrightarrow> track \<in> set P4475_RANDOM_TRACK_SELECTORS"

text \<open>\<open>draw n\<close> is the index drawn below \<open>n\<close>.\<close>

definition select_concrete_track ::
  "(nat \<Rightarrow> nat) \<Rightarrow> u32 list \<Rightarrow> protocol_room \<Rightarrow> u32 option \<times> protocol_room" where
  "select_concrete_track draw random_track_candidates r =
     (if \<not> is_random_track_selector (rs_track (settings r))
      then (Some (rs_track (settings r)),
            r\<lparr>random_track_pool := None, random_tracks_used := [], last_random_track := None\<rparr>)
      else
        let candidates = remdups_adj (sort (filter (\<lambda>t. \<not> is_random_track_selector t) random_track_candidates))
        in if candidates = [] then (None, r)
        else
          let game = of_bool (rs_game_type (settings r) = 2 \<or> rs_game_type (settings r) = 4);
              pool = (game, rs_track (settings r));
              r = (if random_track_pool r \<noteq> Some pool
                   then r\<lparr>random_track_pool := Some pool, random_tracks_used := [], last_random_track := None\<rparr>
                   else r);
              r = r\<lparr>random_tracks_used := filter (\<lambda>t. t \<in> set candidates) (random_tracks_used r)\<rparr>;
              r = (if length candidates \<le> length (random_tracks_used r) then r\<lparr>random_tracks_used := []\<rparr> else r);
              available = filter (\<lambda>t. t \<notin> set (random_tracks_used r)) candidates;
              available = (case last_random_track r of
                 Some previous \<Rightarrow> if 1 < length available then filter (\<lambda>t. t \<noteq> previous) available else available
               | None \<Rightarrow> available);
              available = (if available = [] then candidates else available);
              selected = available ! draw (length available)
          in (Some selected,
              r\<lparr>random_tracks_used := random_tracks_used r @ [selected], last_random_track := Some selected\<rparr>))"

section \<open>Profile updates\<close>

text \<open>The first member of a user, racers before observers, through \<open>iter_mut().chain(\<dots>).find\<close>.\<close>

definition update_member :: "(protocol_room_member \<Rightarrow> protocol_room_member) \<Rightarrow> u32 \<Rightarrow> protocol_room \<Rightarrow> bool \<times> protocol_room" where
  "update_member f user_no r =
     (case first_index (is_user user_no) (members_by_id r) of
        Some i \<Rightarrow> (True, r\<lparr>members_by_id := (members_by_id r)[i := map_option f (members_by_id r ! i)]\<rparr>)
      | None \<Rightarrow>
          (case first_index (is_user user_no) (observers r) of
             Some i \<Rightarrow> (True, r\<lparr>observers := (observers r)[i := map_option f (observers r ! i)]\<rparr>)
           | None \<Rightarrow> (False, r)))"

definition frozen_snapshot :: "u32 \<Rightarrow> bytes \<Rightarrow> frozen_race_roster \<Rightarrow> frozen_race_roster" where
  "frozen_snapshot user_no snapshot f =
     (case first_index (\<lambda>p. bind_user_no (fp_identity p) = user_no) (participants f) of
        None \<Rightarrow> f
      | Some i \<Rightarrow>
          let p = participants f ! i
          in f\<lparr>participants := (participants f)[i := p\<lparr>fp_result := map_option (\<lambda>res.
               res\<lparr>fr_character_id := of_le16 (take 2 snapshot),
                 fr_kart_id := of_le16 (take 2 (drop 4 snapshot))\<rparr>) (fp_result p)\<rparr>]\<rparr>)"

definition set_equipment_snapshot :: "u32 \<Rightarrow> bytes \<Rightarrow> protocol_room \<Rightarrow> bool \<times> protocol_room" where
  "set_equipment_snapshot user_no snapshot r =
     (let (updated, r) = update_member (\<lambda>m. m\<lparr>m_player := (m_player m)\<lparr>rider_item_snapshot := snapshot\<rparr>\<rparr>) user_no r
      in (updated, if updated then r\<lparr>frozen_race := map_option (frozen_snapshot user_no snapshot) (frozen_race r)\<rparr> else r))"

definition set_main_emblems :: "u32 \<Rightarrow> u16 \<times> u16 \<times> u16 \<Rightarrow> protocol_room \<Rightarrow> bool \<times> protocol_room" where
  "set_main_emblems user_no = (\<lambda>(e1, e2, e3). update_member (\<lambda>m. m\<lparr>m_player :=
     (m_player m)\<lparr>emblem_1 := e1, emblem_2 := e2, emblem_3 := e3\<rparr>\<rparr>) user_no)"

definition set_p2p_endpoint :: "u32 \<Rightarrow> u32 \<Rightarrow> u16 \<Rightarrow> protocol_room \<Rightarrow> bool \<times> protocol_room" where
  "set_p2p_endpoint user_no address port = update_member (\<lambda>m. m\<lparr>m_player :=
     (m_player m)\<lparr>p2p_address := address, p2p_port := port\<rparr>\<rparr>) user_no"

section \<open>What the room shows\<close>

definition member_state :: "protocol_room \<Rightarrow> nat \<Rightarrow> i32" where
  "member_state r i =
     (case members_by_id r ! i of
        Some m \<Rightarrow> player_type (m_player m)
      | None \<Rightarrow> if ais_by_id r ! i \<noteq> None then 7 else of_bool (closed_slots_by_id r ! i \<noteq> None))"

definition slot_states :: "protocol_room \<Rightarrow> i32 list" where
  "slot_states r = map (member_state r) [0..<ROOM_SLOT_COUNT]"

definition wire_slot_positions :: "protocol_room \<Rightarrow> i32 list" where
  "wire_slot_positions r = map (\<lambda>p. case p of None \<Rightarrow> - 1 | Some i \<Rightarrow> int i) (slot_positions r)"

definition list_entry :: "protocol_room \<Rightarrow> room_list_entry" where
  "list_entry r = \<lparr>entry_room_id = ucast (room_id r), entry_room_name = rs_room_name (settings r),
     entry_track = rs_track (settings r), entry_locked = (rs_password (settings r) \<noteq> []),
     entry_game_type = rs_game_type (settings r), entry_speed_type = rs_speed_type (settings r),
     entry_started = (phase r \<noteq> LobbyPhase), entry_available_slots = of_nat ROOM_SLOT_COUNT,
     entry_player_count = of_nat (length (flatten (members_by_id r)))\<rparr>"

definition session_data :: "protocol_room \<Rightarrow> room_session_data" where
  "session_data r = \<lparr>sd_room_name = rs_room_name (settings r), sd_password = rs_password (settings r),
     sd_game_type = rs_game_type (settings r), sd_speed_type = rs_speed_type (settings r)\<rparr>"

definition wire_member :: "protocol_room \<Rightarrow> nat \<Rightarrow> room_member" where
  "wire_member r i =
     (case members_by_id r ! i of
        Some m \<Rightarrow> MemberPlayer (m_player m)
      | None \<Rightarrow>
          (case ais_by_id r ! i of
             Some ai \<Rightarrow> MemberAi ai
           | None \<Rightarrow> if closed_slots_by_id r ! i \<noteq> None then MemberClosed 1 else MemberEmpty))"

definition wire_observer :: "protocol_room_member option \<Rightarrow> room_observer_slot" where
  "wire_observer m =
     (case m of
        None \<Rightarrow> ObserverEmpty
      | Some m \<Rightarrow> ObserverPlayer \<lparr>obs_player_type = 4, obs_user_no = m_user_no m,
          obs_p2p_address = p2p_address (m_player m), obs_p2p_port = p2p_port (m_player m),
          obs_nickname = player_nickname (m_player m)\<rparr>)"

definition slot_data :: "protocol_room \<Rightarrow> room_slot_data" where
  "slot_data r = (empty_slot_data (rs_track (settings r)) (rs_room_data_header (settings r))
       (rs_room_data (settings r)) (room_master r))
     \<lparr>sl_closed_slot_ids := map of_nat (closed_slot_ids r),
      sl_members_by_id := map (wire_member r) [0..<ROOM_SLOT_COUNT],
      sl_observers := map wire_observer (observers r),
      sl_slot_positions := wire_slot_positions r\<rparr>"

record room_snapshot =
  snapshot_id :: u32
  snapshot_slots :: "ustring option list"

definition snapshot :: "protocol_room \<Rightarrow> room_snapshot" where
  "snapshot r = \<lparr>snapshot_id = room_id r,
     snapshot_slots = map (\<lambda>p. case p of None \<Rightarrow> None
       | Some i \<Rightarrow> map_option (\<lambda>m. player_nickname (m_player m)) (members_by_id r ! i)) (slot_positions r)\<rparr>"

section \<open>Kart physics of a room\<close>

text \<open>The bytes of a Rust string.\<close>

definition utf8_char :: "nat \<Rightarrow> u8 list" where
  "utf8_char c =
     (if c < 0x80 then [of_nat c]
      else if c < 0x800 then [of_nat (0xC0 + c div 64), of_nat (0x80 + c mod 64)]
      else if c < 0x10000
      then [of_nat (0xE0 + c div 4096), of_nat (0x80 + c div 64 mod 64), of_nat (0x80 + c mod 64)]
      else [of_nat (0xF0 + c div 262144), of_nat (0x80 + c div 4096 mod 64), of_nat (0x80 + c div 64 mod 64),
            of_nat (0x80 + c mod 64)])"

definition as_bytes :: "ustring \<Rightarrow> u8 list" where
  "as_bytes s = concat (map utf8_char s)"

definition is_ascii_alphanumeric :: "u8 \<Rightarrow> bool" where
  "is_ascii_alphanumeric b \<longleftrightarrow> 48 \<le> b \<and> b \<le> 57 \<or> 65 \<le> b \<and> b \<le> 90 \<or> 97 \<le> b \<and> b \<le> 122"

definition SPEED_TYPES :: "u8 list" where
  "SPEED_TYPES = [3, 0, 1, 2, 4, 5, 6, 7, 8]"

definition title_token_at :: "u8 list \<Rightarrow> nat \<Rightarrow> u8 option" where
  "title_token_at bs i =
     (if \<not> ((bs ! i = 83 \<or> bs ! i = 115) \<and> 48 \<le> bs ! (i + 1) \<and> bs ! (i + 1) \<le> 56) then None
      else
        let left = i \<noteq> 0 \<and> is_ascii_alphanumeric (bs ! (i - 1));
            right = i + 2 < length bs \<and> is_ascii_alphanumeric (bs ! (i + 2))
        in if \<not> left \<and> \<not> right then Some (SPEED_TYPES ! unat (bs ! (i + 1) - 48)) else None)"

fun find_map :: "('a \<Rightarrow> 'b option) \<Rightarrow> 'a list \<Rightarrow> 'b option" where
  "find_map f [] = None"
| "find_map f (x # xs) = (case f x of None \<Rightarrow> find_map f xs | Some y \<Rightarrow> Some y)"

definition csharp_room_title_speed_type :: "ustring \<Rightarrow> u8 option" where
  "csharp_room_title_speed_type room_name =
     (let bs = as_bytes room_name in find_map (title_token_at bs) [0..<length bs - 1])"

definition for_room_title :: "room_kart_physics_variants \<Rightarrow> ustring \<Rightarrow> bytes" where
  "for_room_title v room_name =
     (case csharp_room_title_speed_type room_name of
        None \<Rightarrow> variant_default v
      | Some speed \<Rightarrow> by_speed_type v ! unat speed)"

definition nth_option :: "'a list \<Rightarrow> nat \<Rightarrow> 'a option" where
  "nth_option xs i = (if i < length xs then Some (xs ! i) else None)"

definition for_room :: "room_kart_physics_variants \<Rightarrow> ustring \<Rightarrow> u8 \<Rightarrow> u8 \<Rightarrow> bytes" where
  "for_room v room_name mode fallback =
     (case by_game_type_and_speed v of
        None \<Rightarrow>
          (let speed = (case csharp_room_title_speed_type room_name of
                 Some s \<Rightarrow> Some s
               | None \<Rightarrow> if fallback \<noteq> 7 then Some fallback else None)
           in case Option.bind speed (\<lambda>s. nth_option (by_speed_type v) (unat s)) of
                None \<Rightarrow> variant_default v
              | Some block \<Rightarrow> block)
      | Some matrix \<Rightarrow>
          if mode = 0 \<or> 4 \<le> unat mode - 1 then for_room_title v room_name
          else
            let speed = (case csharp_room_title_speed_type room_name of Some s \<Rightarrow> s | None \<Rightarrow> fallback)
            in case nth_option (matrix ! (unat mode - 1)) (unat speed) of
                 None \<Rightarrow> for_room_title v room_name
               | Some block \<Rightarrow> block)"

definition kart_physics_for_room :: "protocol_room_member \<Rightarrow> room_settings \<Rightarrow> bytes" where
  "kart_physics_for_room m s =
     (case m_kart_physics_variants m of
        None \<Rightarrow> m_kart_physics m
      | Some v \<Rightarrow> for_room v (rs_room_name s) (rs_game_type s) (rs_speed_type s))"

end
