(* ===== verification/RaceStart.thy ===== *)
theory RaceStart
  imports RoomState
begin

text \<open>
  The race-start command (\<open>crates/p4475-core/src/race_start_protocol.rs\<close>) and the AI parameters of
  a start (\<open>crates/p4475-server/src/config.rs\<close>). An \<open>f32\<close> is its bit pattern; the order of finite
  floats is that of their signed magnitudes.
\<close>

section \<open>AI race specifications\<close>

definition MISSION_INFO_HASH :: u32 where "MISSION_INFO_HASH = 0x1A54046E"
definition P4475_KART_PHYSICS_BLOCK_LENGTH :: nat where "P4475_KART_PHYSICS_BLOCK_LENGTH = 235"
definition AI_RACE_SPEC_VALUE_COUNT :: nat where "AI_RACE_SPEC_VALUE_COUNT = 6"
definition MAX_GR_COMMAND_START_AI_COUNT :: nat where "MAX_GR_COMMAND_START_AI_COUNT = ROOM_SLOT_COUNT"
definition AI_RACE_SPEC_WIRE_LENGTH :: nat where "AI_RACE_SPEC_WIRE_LENGTH = AI_RACE_SPEC_VALUE_COUNT * 4"

definition MISSION_INFO_TAIL :: bytes where
  "MISSION_INFO_TAIL = [0, 0, 0, 0, 0, 0, 0, 0, 0, 0, 0xFF, 0xFF, 0xFF, 0xFF, 0, 0, 0, 0, 0, 0, 0, 0, 0]"

definition FIXED_START_LENGTH :: nat where
  "FIXED_START_LENGTH = 4 + 4 + P4475_KART_PHYSICS_BLOCK_LENGTH + 4 + 4 + 4 + 4 + 4 + length MISSION_INFO_TAIL"

text \<open>\<open>[10.0, 10_000.0, 10_000.0, 10.0, 10_000.0, 10_000.0]\<close>.\<close>

definition AI_RACE_SPEC_MAX_VALUES :: "u32 list" where
  "AI_RACE_SPEC_MAX_VALUES = [0x41200000, 0x461C4000, 0x461C4000, 0x41200000, 0x461C4000, 0x461C4000]"

definition f32_is_finite :: "u32 \<Rightarrow> bool" where
  "f32_is_finite b \<longleftrightarrow> take_bit 8 (drop_bit 23 b) \<noteq> 0xFF"

definition f32_order :: "u32 \<Rightarrow> int" where
  "f32_order b = (if bit b 31 then - uint (take_bit 31 b) else uint b)"

definition f32_le :: "u32 \<Rightarrow> u32 \<Rightarrow> bool" where
  "f32_le a b \<longleftrightarrow> f32_order a \<le> f32_order b"

datatype race_start_error =
  StartRoomError room_protocol_error
| InvalidKartPhysicsBlockLength nat nat
| TooManyAi nat nat
| AiCountMismatch nat nat
| NonFiniteAiSpecValue nat u32
| AiSpecValueOutOfBounds nat u32 u32 u32
| PayloadLengthOverflow
| PayloadTooLarge nat nat

text \<open>The loop over the fields of a specification.\<close>

fun check_spec_values :: "nat \<Rightarrow> (u32 \<times> u32) list \<Rightarrow> race_start_error + unit" where
  "check_spec_values field [] = Inr ()"
| "check_spec_values field ((v, m) # rest) =
     (if \<not> f32_is_finite v then Inl (NonFiniteAiSpecValue field v)
      else if \<not> (f32_le 0 v \<and> f32_le v m) then Inl (AiSpecValueOutOfBounds field v 0 m)
      else check_spec_values (Suc field) rest)"

definition new_ai_race_spec :: "u32 list \<Rightarrow> race_start_error + u32 list" where
  "new_ai_race_spec values =
     attempt (check_spec_values 0 (zip values AI_RACE_SPEC_MAX_VALUES)) (\<lambda>_. Inr values)"

definition kart_physics_block :: "bytes \<Rightarrow> race_start_error + bytes" where
  "kart_physics_block value =
     (if length value \<noteq> P4475_KART_PHYSICS_BLOCK_LENGTH
      then Inl (InvalidKartPhysicsBlockLength (length value) P4475_KART_PHYSICS_BLOCK_LENGTH)
      else Inr value)"

text \<open>\<open>[0.7, 2400, 2950, 1.5, 1000, 1500]\<close> and \<open>[0.6, 2400, 2950, 1.5, 1000, 1500]\<close>.\<close>

definition DEFAULT_SPEED_BASIC_AI_PARAMETER_VALUES :: "u32 list" where
  "DEFAULT_SPEED_BASIC_AI_PARAMETER_VALUES = [0x3F333333, 0x45160000, 0x45386000, 0x3FC00000, 0x447A0000, 0x44BB8000]"

definition DEFAULT_ITEM_BASIC_AI_PARAMETER_VALUES :: "u32 list" where
  "DEFAULT_ITEM_BASIC_AI_PARAMETER_VALUES = [0x3F19999A, 0x45160000, 0x45386000, 0x3FC00000, 0x447A0000, 0x44BB8000]"

record basic_ai_mode_parameters =
  ai_speed :: "u32 list"
  ai_item :: "u32 list"

definition race_spec_for_game_type :: "basic_ai_mode_parameters \<Rightarrow> u8 \<Rightarrow> u32 list" where
  "race_spec_for_game_type p mode = (if mode = 2 \<or> mode = 4 then ai_item p else ai_speed p)"

definition default_ai_mode_parameters :: "race_start_error + basic_ai_mode_parameters" where
  "default_ai_mode_parameters =
     attempt (new_ai_race_spec DEFAULT_SPEED_BASIC_AI_PARAMETER_VALUES) (\<lambda>speed.
     attempt (new_ai_race_spec DEFAULT_ITEM_BASIC_AI_PARAMETER_VALUES) (\<lambda>item.
     Inr \<lparr>ai_speed = speed, ai_item = item\<rparr>))"

section \<open>The command\<close>

record gr_command_start =
  start_session :: room_session_data
  start_slots :: room_slot_data
  start_kart_physics :: bytes
  start_ai_specs :: "u32 list list"
  start_track :: u32

definition room_step :: "room_protocol_error + 'a \<Rightarrow> (race_start_error + 'a)" where
  "room_step r = (case r of Inl e \<Rightarrow> Inl (StartRoomError e) | Inr x \<Rightarrow> Inr x)"

text \<open>A not-ready master is shown as ready.\<close>

definition race_start_slots :: "room_slot_data \<Rightarrow> room_slot_data" where
  "race_start_slots s =
     (if sl_room_master s < 0 \<or> length (sl_members_by_id s) \<le> nat (sl_room_master s) then s
      else case sl_members_by_id s ! nat (sl_room_master s) of
             MemberPlayer master \<Rightarrow>
               if player_type master = 2
               then s\<lparr>sl_members_by_id := (sl_members_by_id s)[nat (sl_room_master s) :=
                      MemberPlayer (master\<lparr>player_type := 3\<rparr>)]\<rparr>
               else s
           | _ \<Rightarrow> s)"

definition serialize_race_start_slot_data :: "room_slot_data \<Rightarrow> race_start_error + bytes" where
  "serialize_race_start_slot_data s = room_step (serialize_gr_slot_data (race_start_slots s))"

fun is_ai_member :: "room_member \<Rightarrow> bool" where
  "is_ai_member (MemberAi _) = True"
| "is_ai_member _ = False"

definition write_ai_spec :: "writer \<Rightarrow> u32 list \<Rightarrow> writer" where
  "write_ai_spec w spec = foldl write_encoded_f32 w spec"

definition write_start_body :: "gr_command_start \<Rightarrow> bytes \<Rightarrow> bytes \<Rightarrow> bytes" where
  "write_start_body c session_packet slot_packet =
     (let w = named ''GrCommandStartPacket'';
          w = write_bytes w session_packet;
          w = write_bytes w slot_packet;
          w = put_i32 w 0;
          w = write_bytes w (start_kart_physics c);
          w = put_i32 w (int (length (start_ai_specs c)));
          w = foldl write_ai_spec w (start_ai_specs c);
          w = write_u32 w (start_track c);
          w = put_i32 w 10000;
          w = put_i32 w 0;
          w = write_u32 w MISSION_INFO_HASH
      in write_bytes w MISSION_INFO_TAIL)"

definition start_payload_length :: "nat \<Rightarrow> nat \<Rightarrow> nat \<Rightarrow> nat option" where
  "start_payload_length session_length slot_length specs =
     Option.bind (if specs * AI_RACE_SPEC_WIRE_LENGTH < 2 ^ 64 then Some (specs * AI_RACE_SPEC_WIRE_LENGTH) else None)
       (\<lambda>ai_wire_length.
     Option.bind (usize_checked_add FIXED_START_LENGTH session_length) (\<lambda>n.
     Option.bind (usize_checked_add n slot_length) (\<lambda>n. usize_checked_add n ai_wire_length)))"

definition serialize_gr_command_start_bounded :: "gr_command_start \<Rightarrow> nat \<Rightarrow> race_start_error + bytes" where
  "serialize_gr_command_start_bounded c maximum_payload_length =
     (if MAX_GR_COMMAND_START_AI_COUNT < length (start_ai_specs c)
      then Inl (TooManyAi (length (start_ai_specs c)) MAX_GR_COMMAND_START_AI_COUNT)
      else
        let slot_ai_count = length (filter is_ai_member (sl_members_by_id (start_slots c)))
        in if slot_ai_count \<noteq> length (start_ai_specs c)
        then Inl (AiCountMismatch slot_ai_count (length (start_ai_specs c)))
        else
          attempt (room_step (serialize_gr_session_data (start_session c))) (\<lambda>session_packet.
          attempt (serialize_race_start_slot_data (start_slots c)) (\<lambda>slot_packet.
          case start_payload_length (length session_packet) (length slot_packet) (length (start_ai_specs c)) of
            None \<Rightarrow> Inl PayloadLengthOverflow
          | Some payload_length \<Rightarrow>
              if maximum_payload_length < payload_length
              then Inl (PayloadTooLarge payload_length maximum_payload_length)
              else Inr (write_start_body c session_packet slot_packet))))"

section \<open>What it writes\<close>

lemma length_encode_array [simp]: "length (encode_array xs) = length xs"
  by (simp add: encode_array_def)

lemma foldl_write_spec:
  "foldl write_ai_spec w specs = w @ concat (map (\<lambda>spec. concat (map (\<lambda>v. encode_array (le32 v)) spec)) specs)"
proof (induction specs arbitrary: w)
  case (Cons spec specs)
  have "write_ai_spec w spec = w @ concat (map (\<lambda>v. encode_array (le32 v)) spec)" for w
    unfolding write_ai_spec_def
    by (induction spec arbitrary: w) (simp_all add: write_encoded_f32_def write_bytes_def)
  then show ?case using Cons by simp
qed simp

lemma start_body_bytes:
  "write_start_body c s t = named ''GrCommandStartPacket'' @ s @ t @ le_i32 0 @ start_kart_physics c @
     le_i32 (int (length (start_ai_specs c))) @
     concat (map (\<lambda>spec. concat (map (\<lambda>v. encode_array (le32 v)) spec)) (start_ai_specs c)) @
     le32 (start_track c) @ le_i32 10000 @ le_i32 0 @ le32 MISSION_INFO_HASH @ MISSION_INFO_TAIL"
  by (simp add: write_start_body_def Let_def write_simps foldl_write_spec)

definition start_shape :: "gr_command_start \<Rightarrow> bool" where
  "start_shape c \<longleftrightarrow> length (start_kart_physics c) = P4475_KART_PHYSICS_BLOCK_LENGTH \<and>
     list_all (\<lambda>spec. length spec = AI_RACE_SPEC_VALUE_COUNT) (start_ai_specs c)"

lemma start_payload_length_Some: "start_payload_length a b n = Some l \<Longrightarrow> l = FIXED_START_LENGTH + a + b + 24 * n"
  by (auto simp: start_payload_length_def AI_RACE_SPEC_WIRE_LENGTH_def AI_RACE_SPEC_VALUE_COUNT_def bind_eq_Some_conv
      dest!: usize_checked_add_Some split: if_split_asm)

lemma length_start_body:
  assumes "start_shape c"
  shows "length (write_start_body c s t) =
    FIXED_START_LENGTH + length s + length t + 24 * length (start_ai_specs c)"
proof -
  have "length (concat (map (\<lambda>spec. concat (map (\<lambda>v. encode_array (le32 v)) spec)) specs)) = 24 * length specs"
    if "list_all (\<lambda>spec. length spec = 6) specs" for specs
    using that by (induction specs) (simp_all add: length_concat comp_def sum_list_triv)
  from this[of "start_ai_specs c"] show ?thesis
    using assms
    by (simp add: start_body_bytes start_shape_def FIXED_START_LENGTH_def P4475_KART_PHYSICS_BLOCK_LENGTH_def
        AI_RACE_SPEC_VALUE_COUNT_def le_i32_def named_def new_writer_def write_simps MISSION_INFO_TAIL_def)
qed

lemma mission_info_name: "packet_hash ''MissionInfo'' = MISSION_INFO_HASH"
  unfolding MISSION_INFO_HASH_def by code_simp


text \<open>The stock AI parameters of both modes are valid race specifications: the server's defaults never
  fail to build, and a start command always gets six values in their bounds.\<close>

theorem default_ai_parameters_valid:
  "default_ai_mode_parameters = Inr \<lparr>ai_speed = DEFAULT_SPEED_BASIC_AI_PARAMETER_VALUES,
     ai_item = DEFAULT_ITEM_BASIC_AI_PARAMETER_VALUES\<rparr>"
  by code_simp

text \<open>The start of an empty room without racers.\<close>

definition bare_start :: gr_command_start where
  "bare_start = \<lparr>start_session = \<lparr>sd_room_name = [], sd_password = [], sd_game_type = 1, sd_speed_type = 7\<rparr>,
     start_slots = empty_slot_data 1 0 (replicate ROOM_DATA_LENGTH 0) 0,
     start_kart_physics = replicate P4475_KART_PHYSICS_BLOCK_LENGTH 0, start_ai_specs = [], start_track = 1\<rparr>"

lemmas bare_simps = bare_start_def empty_slot_data_def ROOM_SLOT_COUNT_def ROOM_OBSERVER_COUNT_def ROOM_DATA_LENGTH_def eval_nat_numeral

lemma bare_slots: "race_start_slots (start_slots bare_start) = start_slots bare_start"
  by (simp add: race_start_slots_def bare_simps)
lemma bare_slots_ok: "slot_data_ok (start_slots bare_start)"
  by (simp add: slot_data_ok_def bare_simps)

lemma bare_session: "\<exists>q. serialize_gr_session_data (start_session bare_start) = Inr q \<and> length q < 100"
  by (simp add: serialize_gr_session_data_def bare_start_def Let_def validate_utf16_def enforce_limit_def put_utf16_ok
      utf16_units_Nil utf16_field_def encode_utf16_def room_limits attempt_def write_simps named_def new_writer_def le_i32_def)

lemma bare_slots_short: "length (slot_data_bytes (start_slots bare_start)) < 1000"
  by (simp add: slot_data_bytes_def bare_simps Let_def named_def new_writer_def write_simps le_i32_def)


end
