(* ===== verification/RoomInv.thy ===== *)
theory RoomInv
  imports RoomState
begin

text \<open>
  What every room keeps (\<open>crates/p4475-server/src/world.rs\<close>, the room part of
  \<open>debug_assert_invariants\<close>): a seat, occupied by a racer, an AI or a closure, holds exactly one
  physical slot; the master is a present player; the teams of a team room sit in their half; the
  starting ranks are a permutation.
\<close>

section \<open>Searches\<close>

lemma first_index_Some:
  "first_index P xs = Some i \<longleftrightarrow> i < length xs \<and> P (xs ! i) \<and> (\<forall>j<i. \<not> P (xs ! j))"
proof (induction xs arbitrary: i)
  case (Cons x xs)
  show ?case
  proof (cases "P x")
    case True
    then show ?thesis by (cases i) (auto simp: nth_Cons')
  next
    case False
    then show ?thesis
      by (cases i) (auto simp: Cons.IH less_Suc_eq_0_disj)
  qed
qed simp

lemma first_index_None: "first_index P xs = None \<longleftrightarrow> (\<forall>x\<in>set xs. \<not> P x)"
  by (induction xs) auto

lemma find_upt_Some:
  "find P [a..<b] = Some i \<longleftrightarrow> a \<le> i \<and> i < b \<and> P i \<and> (\<forall>j. a \<le> j \<longrightarrow> j < i \<longrightarrow> \<not> P j)"
  (is "?l \<longleftrightarrow> ?r")
proof
  assume ?l
  then obtain k where "k < length [a..<b]" "P ([a..<b] ! k)" "i = [a..<b] ! k" "\<forall>j<k. \<not> P ([a..<b] ! j)"
    by (auto simp: find_Some_iff)
  moreover have "\<not> P j" if "a \<le> j" "j < a + k" for j
    using calculation that by (auto dest!: spec[of _ "j - a"])
  ultimately show ?r by auto
next
  assume r: ?r
  then have "i - a < b - a" "[a..<b] ! (i - a) = i" by auto
  moreover have "\<not> P ([a..<b] ! j)" if "j < i - a" for j
    using r that calculation(1) by (simp add: nth_upt)
  ultimately show ?l using r unfolding find_Some_iff
    by (intro exI[of _ "i - a"]) simp
qed

lemma find_upt_None: "find P [a..<b] = None \<longleftrightarrow> (\<forall>j. a \<le> j \<longrightarrow> j < b \<longrightarrow> \<not> P j)"
  by (auto simp: find_None_iff)

lemma in_flatten: "x \<in> set (flatten xs) \<longleftrightarrow> Some x \<in> set xs"
  by (auto simp: flatten_def in_map_filter)

lemma flatten_simps [simp]:
  "flatten [] = []" "flatten (None # xs) = flatten xs" "flatten (Some x # xs) = x # flatten xs"
  by (simp_all add: flatten_def map_filter_simps)

lemma flatten_append [simp]: "flatten (xs @ ys) = flatten xs @ flatten ys"
  by (induction xs) (auto simp: flatten_def map_filter_simps split: option.splits)

lemma flatten_None: "flatten xs = [] \<longleftrightarrow> (\<forall>x\<in>set xs. x = None)"
  by (induction xs) (auto simp: flatten_def map_filter_simps split: option.splits)

lemma length_flatten: "length (flatten xs) = card {i. i < length xs \<and> xs ! i \<noteq> None}"
proof (induction xs)
  case (Cons x xs)
  let ?S = "{i. i < length xs \<and> xs ! i \<noteq> None}"
  have "{i. i < length (x # xs) \<and> (x # xs) ! i \<noteq> None} = (if x = None then {} else {0}) \<union> Suc ` ?S"
    by (auto simp: less_Suc_eq_0_disj image_iff)
  moreover have "card (Suc ` ?S) = card ?S" by (simp add: card_image)
  moreover have "0 \<notin> Suc ` ?S" by auto
  ultimately show ?case using Cons.IH by (cases x) (simp_all add: card_insert_if)
qed simp

lemma flatten_split:
  assumes "i < length xs"
  shows "flatten xs = flatten (take i xs) @ flatten [xs ! i] @ flatten (drop (Suc i) xs)"
proof -
  have "flatten (take i xs @ [xs ! i] @ drop (Suc i) xs) =
      flatten (take i xs) @ flatten [xs ! i] @ flatten (drop (Suc i) xs)"
    by (simp only: flatten_append)
  moreover have "take i xs @ [xs ! i] @ drop (Suc i) xs = xs"
    by (simp only: append.simps id_take_nth_drop[OF assms, symmetric])
  ultimately show ?thesis by (simp only:)
qed

lemma flatten_update:
  assumes "i < length xs"
  shows "flatten (xs[i := y]) = flatten (take i xs) @ flatten [y] @ flatten (drop (Suc i) xs)"
proof -
  have "flatten (take i xs @ [y] @ drop (Suc i) xs) =
      flatten (take i xs) @ flatten [y] @ flatten (drop (Suc i) xs)"
    by (simp only: flatten_append)
  moreover have "take i xs @ [y] @ drop (Suc i) xs = xs[i := y]"
    by (simp only: append.simps upd_conv_take_nth_drop[OF assms])
  ultimately show ?thesis by (simp only:)
qed

section \<open>Seats and slots\<close>

text \<open>
  The seats \<open>P\<close> below 8 and the physical slots that name them are in bijection. The operations of
  the room change it in three ways: a seat is taken together with a free slot, it is given up
  together with its slot, or its slot moves.
\<close>

definition seats_ok :: "(nat \<Rightarrow> bool) \<Rightarrow> nat option list \<Rightarrow> bool" where
  "seats_ok P slots \<longleftrightarrow> length slots = 8 \<and> (\<forall>s<8. \<forall>i. slots ! s = Some i \<longrightarrow> i < 8 \<and> P i) \<and>
     (\<forall>s<8. \<forall>t<8. \<forall>i. slots ! s = Some i \<longrightarrow> slots ! t = Some i \<longrightarrow> s = t) \<and>
     (\<forall>i<8. P i \<longrightarrow> (\<exists>s<8. slots ! s = Some i))"

lemma seats_okD:
  assumes "seats_ok P slots"
  shows "length slots = 8" "s < 8 \<Longrightarrow> slots ! s = Some i \<Longrightarrow> i < 8 \<and> P i"
    "s < 8 \<Longrightarrow> t < 8 \<Longrightarrow> slots ! s = Some i \<Longrightarrow> slots ! t = Some i \<Longrightarrow> s = t"
    "i < 8 \<Longrightarrow> P i \<Longrightarrow> \<exists>s<8. slots ! s = Some i"
  using assms unfolding seats_ok_def by blast+

lemma seats_cong: "(\<And>i. i < 8 \<Longrightarrow> P i = Q i) \<Longrightarrow> seats_ok P slots = seats_ok Q slots"
  unfolding seats_ok_def by blast

lemma seats_okI:
  assumes "length slots = 8" "\<And>s i. s < 8 \<Longrightarrow> slots ! s = Some i \<Longrightarrow> i < 8 \<and> P i"
    "\<And>s t i. s < 8 \<Longrightarrow> t < 8 \<Longrightarrow> slots ! s = Some i \<Longrightarrow> slots ! t = Some i \<Longrightarrow> s = t"
    "\<And>i. i < 8 \<Longrightarrow> P i \<Longrightarrow> \<exists>s<8. slots ! s = Some i"
  shows "seats_ok P slots"
  unfolding seats_ok_def using assms by blast

lemma seat_taken:
  assumes "seats_ok P slots" "i < 8" "\<not> P i" "s < 8" "slots ! s = None"
  shows "seats_ok (\<lambda>j. j = i \<or> P j) (slots[s := Some i])"
proof -
  note d = seats_okD[OF assms(1)]
  have n: "slots[s := Some i] ! t = (if t = s then Some i else slots ! t)" if "t < 8" for t
    using that d(1) assms(4) by (simp add: nth_list_update)
  have i: "slots ! t \<noteq> Some i" if "t < 8" for t using d(2)[OF that] assms(3) by blast
  show ?thesis
  proof (rule seats_okI)
    fix t u j assume "t < 8" "u < 8" "slots[s := Some i] ! t = Some j" "slots[s := Some i] ! u = Some j"
    then show "t = u" using n i d(3) by (auto split: if_split_asm)
  next
    fix j assume j: "j < 8" "j = i \<or> P j"
    show "\<exists>t<8. slots[s := Some i] ! t = Some j"
    proof (cases "j = i")
      case False
      then obtain t where t: "t < 8" "slots ! t = Some j" using d(4) j by blast
      then have "t \<noteq> s" using assms(5) by auto
      then show ?thesis using t n by auto
    qed (use assms(4) n in auto)
  qed (use d(1,2) assms(2) n in \<open>auto split: if_split_asm\<close>)
qed

lemma seat_left:
  assumes "seats_ok P slots" "s < 8" "slots ! s = Some i"
  shows "seats_ok (\<lambda>j. j \<noteq> i \<and> P j) (slots[s := None])"
proof -
  note d = seats_okD[OF assms(1)]
  have n: "slots[s := None] ! t = (if t = s then None else slots ! t)" if "t < 8" for t
    using that d(1) assms(2) by (simp add: nth_list_update)
  show ?thesis
  proof (rule seats_okI)
    fix t j assume t: "t < 8" "slots[s := None] ! t = Some j"
    then have "t \<noteq> s" "slots ! t = Some j" using n by (auto split: if_split_asm)
    then show "j < 8 \<and> j \<noteq> i \<and> P j" using d(2,3) t(1) assms(2,3) by blast
  next
    fix t u j assume "t < 8" "u < 8" "slots[s := None] ! t = Some j" "slots[s := None] ! u = Some j"
    then show "t = u" using n d(3) by (auto split: if_split_asm)
  next
    fix j assume j: "j < 8" "j \<noteq> i \<and> P j"
    then obtain t where "t < 8" "slots ! t = Some j" using d(4) by blast
    moreover have "t \<noteq> s" using calculation assms(3) j by auto
    ultimately show "\<exists>t<8. slots[s := None] ! t = Some j" using n by auto
  qed (use d(1) in simp)
qed

lemma seat_moved:
  assumes "seats_ok P slots" "s < 8" "slots ! s = Some i" "t < 8" "slots ! t = None"
  shows "seats_ok P (slots[s := None, t := Some i])"
proof -
  have i: "i < 8" "P i" using seats_okD(2)[OF assms(1,2,3)] by simp_all
  have "t \<noteq> s" using assms by auto
  then have "slots[s := None] ! t = None" using assms(5) by simp
  from seat_taken[OF seat_left[OF assms(1,2,3)] i(1) _ assms(4) this]
  have "seats_ok (\<lambda>j. j = i \<or> j \<noteq> i \<and> P j) (slots[s := None, t := Some i])" by simp
  then show ?thesis using i by (subst seats_cong[of _ "\<lambda>j. j = i \<or> j \<noteq> i \<and> P j"]) auto
qed

text \<open>So many seats are taken as slots: a vacant seat always comes with a free slot.\<close>

lemma seats_card:
  assumes "seats_ok P slots"
  shows "card {i. i < 8 \<and> P i} = card {s. s < 8 \<and> slots ! s \<noteq> None}"
proof (rule bij_betw_same_card[symmetric])
  note d = seats_okD[OF assms]
  show "bij_betw (\<lambda>s. the (slots ! s)) {s. s < 8 \<and> slots ! s \<noteq> None} {i. i < 8 \<and> P i}"
    unfolding bij_betw_def
  proof
    show "inj_on (\<lambda>s. the (slots ! s)) {s. s < 8 \<and> slots ! s \<noteq> None}"
      using d(3) by (auto simp: inj_on_def)
    show "(\<lambda>s. the (slots ! s)) ` {s. s < 8 \<and> slots ! s \<noteq> None} = {i. i < 8 \<and> P i}"
      using d(2,4) by (force simp: image_iff)
  qed
qed

lemma all_taken_card: "card {i. i < (8::nat) \<and> Q i} = 8 \<longleftrightarrow> (\<forall>i<8. Q i)"
proof
  assume "card {i. i < (8::nat) \<and> Q i} = 8"
  moreover have "{i. i < (8::nat) \<and> Q i} \<subseteq> {..<8}" by auto
  ultimately have "{i. i < (8::nat) \<and> Q i} = {..<8}" by (intro card_subset_eq) auto
  then show "\<forall>i<8. Q i" by auto
next
  assume "\<forall>i<8. Q i"
  then have "{i. i < (8::nat) \<and> Q i} = {..<8}" by auto
  then show "card {i. i < (8::nat) \<and> Q i} = 8" by simp
qed

lemma vacancy:
  "seats_ok P slots \<Longrightarrow> (\<exists>i<8. \<not> P i) \<longleftrightarrow> (\<exists>s<8. slots ! s = None)"
  using seats_card[of P slots] all_taken_card[of P] all_taken_card[of "\<lambda>s. slots ! s \<noteq> None"] by metis

section \<open>The invariants of a room\<close>

definition seated :: "protocol_room \<Rightarrow> nat \<Rightarrow> bool" where
  "seated r i \<longleftrightarrow> members_by_id r ! i \<noteq> None \<or> ais_by_id r ! i \<noteq> None \<or> closed_slots_by_id r ! i \<noteq> None"

definition room_shape :: "protocol_room \<Rightarrow> bool" where
  "room_shape r \<longleftrightarrow> length (members_by_id r) = 8 \<and> length (ais_by_id r) = 8 \<and>
     length (closed_slots_by_id r) = 8 \<and> length (observers r) = 8"

definition one_occupant :: "protocol_room \<Rightarrow> nat \<Rightarrow> bool" where
  "one_occupant r i \<longleftrightarrow> (members_by_id r ! i = None \<or> ais_by_id r ! i = None) \<and>
     (members_by_id r ! i = None \<or> closed_slots_by_id r ! i = None) \<and>
     (ais_by_id r ! i = None \<or> closed_slots_by_id r ! i = None)"

definition closed_named :: "protocol_room \<Rightarrow> bool" where
  "closed_named r \<longleftrightarrow> (\<forall>i<8. \<forall>s. closed_slots_by_id r ! i = Some s \<longrightarrow> s < 8 \<and> slot_positions r ! s = Some i)"

definition room_seats :: "protocol_room \<Rightarrow> bool" where
  "room_seats r \<longleftrightarrow> room_shape r \<and> (\<forall>i<8. one_occupant r i) \<and> seats_ok (seated r) (slot_positions r) \<and>
     closed_named r"

text \<open>The team of a seat, and where a team of a team room may sit: blue in the first four slots.\<close>

definition team_of :: "protocol_room \<Rightarrow> nat \<Rightarrow> u8 option" where
  "team_of r i = (case members_by_id r ! i of Some m \<Rightarrow> Some (player_team (m_player m))
     | None \<Rightarrow> map_option ai_team (ais_by_id r ! i))"

definition team_at :: "bool \<Rightarrow> nat \<Rightarrow> u8 \<Rightarrow> bool" where
  "team_at teams s t \<longleftrightarrow> (if teams then t = 2 \<and> s < 4 \<or> t = 1 \<and> 4 \<le> s else t = 0)"

definition teams_ok :: "protocol_room \<Rightarrow> bool" where
  "teams_ok r \<longleftrightarrow> (\<forall>s<8. \<forall>i t. slot_positions r ! s = Some i \<longrightarrow> team_of r i = Some t \<longrightarrow>
     team_at (team_mode r) s t)"

definition master_ok :: "protocol_room \<Rightarrow> bool" where
  "master_ok r \<longleftrightarrow> room_is_empty r \<or> member_by_player_id r (room_master r) \<noteq> None \<or>
     list_all is_none (members_by_id r) \<and> room_master r = 0"

definition presentable :: "protocol_room \<Rightarrow> bool" where
  "presentable r \<longleftrightarrow>
     (\<forall>m\<in>set (flatten (members_by_id r)). presentable_player (m_player m) \<and> player_type (m_player m) \<in> {2, 3}) \<and>
     (\<forall>m\<in>set (flatten (observers r)). utf16_units (player_nickname (m_player m)) \<le> 32)"

definition seat_inv :: "protocol_room \<Rightarrow> bool" where
  "seat_inv r \<longleftrightarrow> room_seats r \<and> teams_ok r \<and> master_ok r \<and> presentable r"

lemma room_seatsD:
  assumes "room_seats r"
  shows "length (members_by_id r) = 8" "length (ais_by_id r) = 8" "length (closed_slots_by_id r) = 8"
    "length (observers r) = 8" "length (slot_positions r) = 8" "i < 8 \<Longrightarrow> one_occupant r i"
    "seats_ok (seated r) (slot_positions r)" "closed_named r"
  using assms seats_okD(1)[of "seated r" "slot_positions r"] unfolding room_seats_def room_shape_def
  by simp_all

lemma room_seatsI:
  assumes "room_shape r" "\<And>i. i < 8 \<Longrightarrow> one_occupant r i" "seats_ok (seated r) (slot_positions r)" "closed_named r"
  shows "room_seats r"
  unfolding room_seats_def using assms by blast

section \<open>Rosters\<close>

text \<open>
  Most operations change data of members but not who sits where: they keep the roster, and with it
  every invariant about seats, teams and users.
\<close>

definition roster_key :: "protocol_room_member \<Rightarrow> u32 \<times> u8" where
  "roster_key m = (m_user_no m, player_team (m_player m))"

definition same_roster :: "protocol_room \<Rightarrow> protocol_room \<Rightarrow> bool" where
  "same_roster r r' \<longleftrightarrow>
     map (map_option roster_key) (members_by_id r') = map (map_option roster_key) (members_by_id r) \<and>
     map (map_option m_user_no) (observers r') = map (map_option m_user_no) (observers r) \<and>
     ais_by_id r' = ais_by_id r \<and> closed_slots_by_id r' = closed_slots_by_id r \<and>
     slot_positions r' = slot_positions r \<and> team_mode r' = team_mode r"

lemma same_rosterD:
  assumes "same_roster r r'"
  shows "length (members_by_id r') = length (members_by_id r)"
    "length (observers r') = length (observers r)"
    "i < length (members_by_id r) \<Longrightarrow> map_option roster_key (members_by_id r' ! i) = map_option roster_key (members_by_id r ! i)"
    "i < length (observers r) \<Longrightarrow> map_option m_user_no (observers r' ! i) = map_option m_user_no (observers r ! i)"
    "ais_by_id r' = ais_by_id r" "closed_slots_by_id r' = closed_slots_by_id r"
    "slot_positions r' = slot_positions r" "team_mode r' = team_mode r"
proof -
  note a = assms[unfolded same_roster_def]
  show l: "length (members_by_id r') = length (members_by_id r)" "length (observers r') = length (observers r)"
    using a by (metis length_map)+
  show "map_option roster_key (members_by_id r' ! i) = map_option roster_key (members_by_id r ! i)"
    if "i < length (members_by_id r)" using a l that by (metis nth_map)
  show "map_option m_user_no (observers r' ! i) = map_option m_user_no (observers r ! i)"
    if "i < length (observers r)" using a l that by (metis nth_map)
qed (use assms in \<open>simp_all add: same_roster_def\<close>)

lemma same_roster_refl [simp, intro]: "same_roster r r"
  by (simp add: same_roster_def)

lemma same_roster_trans: "same_roster r r' \<Longrightarrow> same_roster r' r'' \<Longrightarrow> same_roster r r''"
  by (simp add: same_roster_def)

lemma same_roster_None:
  "same_roster r r' \<Longrightarrow> i < length (members_by_id r) \<Longrightarrow> (members_by_id r' ! i = None) = (members_by_id r ! i = None)"
  by (metis same_rosterD(3) option.map_disc_iff)

lemma same_roster_seats:
  assumes "same_roster r r'" "room_seats r"
  shows "room_seats r'"
proof -
  note d = same_rosterD[OF assms(1)] and s = room_seatsD[OF assms(2)]
  have n: "(members_by_id r' ! i = None) = (members_by_id r ! i = None)" if "i < 8" for i
    using same_roster_None[OF assms(1)] that s(1) by simp
  have "seated r' i = seated r i" if "i < 8" for i
    using n[OF that] d(5,6) by (simp add: seated_def)
  then have "seats_ok (seated r') (slot_positions r')"
    using s(7) seats_cong[of "seated r'" "seated r"] d(7) by simp
  moreover have "one_occupant r' i" if "i < 8" for i
    using s(6)[OF that] n[OF that] d(5,6) by (simp add: one_occupant_def)
  ultimately show ?thesis
    using d s by (intro room_seatsI) (simp_all add: room_shape_def closed_named_def)
qed

lemma same_roster_team:
  assumes "same_roster r r'" "i < length (members_by_id r)"
  shows "team_of r' i = team_of r i"
  using same_rosterD(3,5)[OF assms(1)] assms(2)
  by (cases "members_by_id r ! i"; cases "members_by_id r' ! i") (force simp: team_of_def roster_key_def)+

lemma same_roster_teams:
  assumes "same_roster r r'" "room_seats r" "teams_ok r"
  shows "teams_ok r'"
  unfolding teams_ok_def
proof (intro allI impI)
  note d = same_rosterD[OF assms(1)] and s = room_seatsD[OF assms(2)]
  fix s i t assume a: "s < 8" "slot_positions r' ! s = Some i" "team_of r' i = Some t"
  then have "i < 8" using seats_okD(2)[OF s(7)] d(7) by simp
  then have "team_of r i = Some t" using a(3) same_roster_team[OF assms(1)] s(1) by simp
  moreover have "slot_positions r ! s = Some i" using a(2) d(7) by simp
  ultimately have "team_at (team_mode r) s t" using assms(3) a(1) unfolding teams_ok_def by blast
  then show "team_at (team_mode r') s t" using d(8) by simp
qed

lemma same_roster_users:
  assumes "same_roster r r'"
  shows "user_nos r' = user_nos r"
proof -
  have *: "map f (flatten xs) = flatten (map (map_option f) xs)" for f :: "'a \<Rightarrow> 'b" and xs
    by (induction xs) (auto simp: flatten_def map_filter_simps split: option.splits)
  have k: "map (map_option m_user_no) ms = map (map_option fst) (map (map_option roster_key) ms)" for ms
    by (simp add: roster_key_def option.map_comp comp_def)
  have "map (map_option roster_key) (members_by_id r') = map (map_option roster_key) (members_by_id r)"
    using assms by (simp add: same_roster_def)
  then have "map (map_option m_user_no) (members_by_id r') = map (map_option m_user_no) (members_by_id r)"
    by (simp only: k)
  then show ?thesis
    using assms unfolding user_nos_def * by (simp add: same_roster_def)
qed

lemma same_roster_empty:
  assumes "same_roster r r'"
  shows "list_all is_none (members_by_id r') = list_all is_none (members_by_id r)"
    "list_all is_none (observers r') = list_all is_none (observers r)"
    "room_is_empty r' = room_is_empty r"
proof -
  have *: "list_all is_none xs = list_all is_none ys"
    if "map (map_option f) xs = map (map_option f) ys" for f :: "'a \<Rightarrow> 'b" and xs ys
  proof -
    have "list_all is_none zs = list_all is_none (map (map_option f) zs)" for zs
      by (induction zs) (auto simp: is_none_def)
    then show ?thesis using that by metis
  qed
  show "list_all is_none (members_by_id r') = list_all is_none (members_by_id r)"
    "list_all is_none (observers r') = list_all is_none (observers r)"
    using assms *[of roster_key "members_by_id r'" "members_by_id r"] *[of m_user_no "observers r'" "observers r"]
    by (simp_all only: same_roster_def)
  then show "room_is_empty r' = room_is_empty r" by (simp add: room_is_empty_def)
qed

lemma same_roster_player:
  assumes "same_roster r r'" "room_seats r"
  shows "(member_by_player_id r' p = None) = (member_by_player_id r p = None)"
proof -
  note d = same_rosterD[OF assms(1)] and s = room_seatsD[OF assms(2)]
  have "(observers r' ! i = None) = (observers r ! i = None)" if "i < length (observers r)" for i
    using d(4)[OF that] by (metis option.map_disc_iff)
  then show ?thesis
    using d(1,2) s same_roster_None[OF assms(1)]
    by (auto simp: member_by_player_id_def Let_def ROOM_SLOT_COUNT_def)
qed

lemma same_roster_master:
  assumes "same_roster r r'" "room_seats r" "master_ok r" "room_master r' = room_master r"
  shows "master_ok r'"
  using assms(3,4) same_roster_empty[OF assms(1)] same_roster_player[OF assms(1,2)]
  by (simp add: master_ok_def)

section \<open>Taking and leaving a seat\<close>

text \<open>Two rooms that differ at most in what sits on seat \<open>i\<close>.\<close>

definition other_seats_same :: "nat \<Rightarrow> protocol_room \<Rightarrow> protocol_room \<Rightarrow> bool" where
  "other_seats_same i r r' \<longleftrightarrow> (\<forall>j<8. j \<noteq> i \<longrightarrow> members_by_id r' ! j = members_by_id r ! j \<and>
     ais_by_id r' ! j = ais_by_id r ! j \<and> closed_slots_by_id r' ! j = closed_slots_by_id r ! j)"

lemma other_seats_sameD:
  assumes "other_seats_same i r r'" "j < 8" "j \<noteq> i"
  shows "seated r' j = seated r j" "one_occupant r' j = one_occupant r j" "team_of r' j = team_of r j"
    "closed_slots_by_id r' ! j = closed_slots_by_id r ! j"
proof -
  have "members_by_id r' ! j = members_by_id r ! j" "ais_by_id r' ! j = ais_by_id r ! j"
    "closed_slots_by_id r' ! j = closed_slots_by_id r ! j"
    using assms unfolding other_seats_same_def by blast+
  then show "seated r' j = seated r j" "one_occupant r' j = one_occupant r j" "team_of r' j = team_of r j"
    "closed_slots_by_id r' ! j = closed_slots_by_id r ! j"
    by (simp_all add: seated_def one_occupant_def team_of_def split: option.split)
qed

lemma take_seat:
  assumes r: "room_seats r" and i: "i < 8" "\<not> seated r i" and s: "s < 8" "slot_positions r ! s = None"
    and r': "room_shape r'" "slot_positions r' = (slot_positions r)[s := Some i]" "other_seats_same i r r'"
      "seated r' i" "one_occupant r' i" "\<And>t. closed_slots_by_id r' ! i = Some t \<Longrightarrow> t = s"
  shows "room_seats r'"
proof (rule room_seatsI[OF r'(1)])
  note d = room_seatsD[OF r] and o = other_seats_sameD[OF r'(3)]
  show "one_occupant r' j" if "j < 8" for j
    using that o(2) d(6) r'(5) by (cases "j = i") auto
  have "seats_ok (\<lambda>j. j = i \<or> seated r j) (slot_positions r')"
    using seat_taken[OF d(7) i s] r'(2) by simp
  moreover have "seated r' j = (j = i \<or> seated r j)" if "j < 8" for j
    using that o(1) r'(4) by (cases "j = i") auto
  ultimately show "seats_ok (seated r') (slot_positions r')"
    using seats_cong[of "seated r'" "\<lambda>j. j = i \<or> seated r j"] by simp
  show "closed_named r'" unfolding closed_named_def
  proof (intro allI impI)
    fix j t assume j: "j < 8" "closed_slots_by_id r' ! j = Some t"
    show "t < 8 \<and> slot_positions r' ! t = Some j"
    proof (cases "j = i")
      case True
      then show ?thesis using r'(2,6) j s(1) d(5) by simp
    next
      case False
      then have "t < 8 \<and> slot_positions r ! t = Some j"
        using d(8) j o(4) unfolding closed_named_def by simp
      moreover then have "t \<noteq> s" using s(2) by auto
      ultimately show ?thesis using r'(2) by simp
    qed
  qed
qed

lemma take_seat_teams:
  assumes "teams_ok r" "room_seats r" and s: "s < 8" "slot_positions r ! s = None"
    and i: "i < 8" "\<not> seated r i"
    and r': "slot_positions r' = (slot_positions r)[s := Some i]" "other_seats_same i r r'"
      "team_mode r' = team_mode r" "\<And>t. team_of r' i = Some t \<Longrightarrow> team_at (team_mode r) s t"
  shows "teams_ok r'"
  unfolding teams_ok_def
proof (intro allI impI)
  note d = room_seatsD[OF assms(2)] and o = other_seats_sameD[OF r'(2)]
  fix u j t assume a: "u < 8" "slot_positions r' ! u = Some j" "team_of r' j = Some t"
  show "team_at (team_mode r') u t"
  proof (cases "u = s")
    case True
    then have "j = i" using a(2) r'(1) s(1) d(5) by simp
    with True a(3) r'(3,4) show ?thesis by simp
  next
    case False
    then have u: "slot_positions r ! u = Some j" using a(2) r'(1) by simp
    then have "j < 8" "seated r j" using seats_okD(2)[OF d(7) a(1)] by simp_all
    then have "team_of r j = Some t" using o(3)[of j] a(3) i(2) by (cases "j = i") auto
    then have "team_at (team_mode r) u t" using assms(1) a(1) u unfolding teams_ok_def by blast
    then show ?thesis by (simp add: r'(3))
  qed
qed

lemma leave_seat:
  assumes r: "room_seats r" and s: "s < 8" "slot_positions r ! s = Some i"
    and r': "room_shape r'" "slot_positions r' = (slot_positions r)[s := None]" "other_seats_same i r r'"
      "\<not> seated r' i"
  shows "room_seats r'"
proof (rule room_seatsI[OF r'(1)])
  note d = room_seatsD[OF r] and o = other_seats_sameD[OF r'(3)]
  show "one_occupant r' j" if "j < 8" for j
    using that o(2) d(6) r'(4) by (cases "j = i") (auto simp: one_occupant_def seated_def)
  have "seats_ok (\<lambda>j. j \<noteq> i \<and> seated r j) (slot_positions r')"
    using seat_left[OF d(7) s] r'(2) by simp
  moreover have "seated r' j = (j \<noteq> i \<and> seated r j)" if "j < 8" for j
    using that o(1) r'(4) by (cases "j = i") auto
  ultimately show "seats_ok (seated r') (slot_positions r')"
    using seats_cong[of "seated r'" "\<lambda>j. j \<noteq> i \<and> seated r j"] by simp
  show "closed_named r'" unfolding closed_named_def
  proof (intro allI impI)
    fix j t assume j: "j < 8" "closed_slots_by_id r' ! j = Some t"
    then have "j \<noteq> i" using r'(4) by (auto simp: seated_def)
    then have t: "t < 8 \<and> slot_positions r ! t = Some j"
      using d(8) j o(4) unfolding closed_named_def by simp
    moreover then have "t \<noteq> s" using s(2) \<open>j \<noteq> i\<close> by auto
    ultimately show "t < 8 \<and> slot_positions r' ! t = Some j" using r'(2) by simp
  qed
qed

lemma leave_seat_teams:
  assumes "teams_ok r" "room_seats r" and s: "s < 8" "slot_positions r ! s = Some i"
    and r': "slot_positions r' = (slot_positions r)[s := None]" "other_seats_same i r r'"
      "team_mode r' = team_mode r"
  shows "teams_ok r'"
  unfolding teams_ok_def
proof (intro allI impI)
  note d = room_seatsD[OF assms(2)] and o = other_seats_sameD[OF r'(2)]
  fix u j t assume a: "u < 8" "slot_positions r' ! u = Some j" "team_of r' j = Some t"
  then have "u \<noteq> s" using r'(1) s(1) d(5) by auto
  then have u: "slot_positions r ! u = Some j" using a(2) r'(1) by simp
  then have "j < 8" "j \<noteq> i" using seats_okD(2,3)[OF d(7)] a(1) s \<open>u \<noteq> s\<close> by blast+
  then have "team_of r j = Some t" using o(3)[of j] a(3) by simp
  then have "team_at (team_mode r) u t" using assms(1) a(1) u unfolding teams_ok_def by blast
  then show "team_at (team_mode r') u t" by (simp add: r'(3))
qed

lemma seat_has_slot:
  assumes "room_seats r" "i < 8" "seated r i"
  obtains s where "s < 8" "slot_positions r ! s = Some i"
    "first_index (\<lambda>p. p = Some i) (slot_positions r) = Some s"
proof -
  note d = room_seatsD[OF assms(1)]
  obtain s where s: "s < 8" "slot_positions r ! s = Some i" using seats_okD(4)[OF d(7) assms(2,3)] by blast
  have "\<not> slot_positions r ! j = Some i" if "j < s" for j
  proof
    assume "slot_positions r ! j = Some i"
    then have "j = s" using seats_okD(3)[OF d(7), of j s i] s that by simp
    then show False using that by simp
  qed
  then have "first_index (\<lambda>p. p = Some i) (slot_positions r) = Some s"
    using s d(5) by (auto simp: first_index_Some)
  then show thesis using that s by blast
qed

section \<open>Changes of data\<close>

lemma flatten_update_sub: "set (flatten (xs[i := Some x])) \<subseteq> insert x (set (flatten xs))"
  by (auto simp: in_flatten dest!: set_update_subset_insert[THEN subsetD])

lemma flatten_drop_sub: "set (flatten (xs[i := None])) \<subseteq> set (flatten xs)"
  by (auto simp: in_flatten dest!: set_update_subset_insert[THEN subsetD])

lemma nth_in_flatten: "i < length xs \<Longrightarrow> xs ! i = Some x \<Longrightarrow> x \<in> set (flatten xs)"
  by (metis in_flatten nth_mem)

lemma map_update_same: "i < length xs \<Longrightarrow> f y = f (xs ! i) \<Longrightarrow> map f (xs[i := y]) = map f xs"
  by (simp add: map_update list_update_same_conv)

lemma map_update_key: "map_option g (y :: 'a option) = map_option g (xs ! i) \<Longrightarrow> map (map_option g) (xs[i := y]) = map (map_option g) xs"
  by (cases "i < length xs") (simp_all add: map_update_same list_update_beyond)

lemma rank_from_key:
  assumes "\<And>n m. map_option g (set_ranking n m) = map_option g m"
  shows "map (map_option g) (rank_from n is ms) = map (map_option g) ms"
  by (induction "is" arbitrary: n ms) (simp_all add: map_update_key assms)

lemma set_ranking_key: "map_option roster_key (set_ranking n m) = map_option roster_key m"
  by (cases m) (simp_all add: set_ranking_def roster_key_def)

lemma rank_from_roster: "same_roster r (r\<lparr>members_by_id := rank_from n is (members_by_id r)\<rparr>)"
  by (simp add: same_roster_def rank_from_key[of roster_key, OF set_ranking_key] team_mode_def)

text \<open>What presentation sees of a member: everything but the rank and the race data.\<close>

definition shown_key :: "protocol_room_member \<Rightarrow> i32 \<times> ustring \<times> ustring \<times> ustring \<times> i32" where
  "shown_key m = (player_type (m_player m), player_nickname (m_player m), player_card (m_player m),
     club_name (m_player m), club_mark_logo (m_player m))"

lemma flatten_map: "flatten (map (map_option g) xs) = map g (flatten xs)"
  by (induction xs) (auto simp: flatten_def map_filter_simps split: option.splits)

lemma shown_presentable:
  assumes "map (map_option shown_key) (members_by_id r') = map (map_option shown_key) (members_by_id r)"
    "map (map_option shown_key) (observers r') = map (map_option shown_key) (observers r)" "presentable r"
  shows "presentable r'"
proof -
  have im: "shown_key ` set (flatten ms') = shown_key ` set (flatten ms)"
    if "map (map_option shown_key) ms' = map (map_option shown_key) ms" for ms ms'
  proof -
    have "map shown_key (flatten ms') = map shown_key (flatten ms)"
      using that by (simp add: flatten_map[symmetric])
    then show ?thesis by (metis list.set_map)
  qed
  note s = im[OF assms(1)] im[OF assms(2)]
  have k: "presentable_player (m_player m') = presentable_player (m_player m)"
    "player_type (m_player m') = player_type (m_player m)"
    "player_nickname (m_player m') = player_nickname (m_player m)" if "shown_key m' = shown_key m" for m m'
    using that by (simp_all add: shown_key_def presentable_player_def)
  show ?thesis unfolding presentable_def
  proof (intro conjI ballI)
    fix m' assume "m' \<in> set (flatten (members_by_id r'))"
    then have "shown_key m' \<in> shown_key ` set (flatten (members_by_id r))" using s(1) by blast
    then obtain m where m: "m \<in> set (flatten (members_by_id r))" "shown_key m' = shown_key m" by blast
    then show "presentable_player (m_player m')" "player_type (m_player m') \<in> {2, 3}"
      using m assms(3) unfolding presentable_def k[OF m(2)] by blast+
  next
    fix m' assume "m' \<in> set (flatten (observers r'))"
    then have "shown_key m' \<in> shown_key ` set (flatten (observers r))" using s(2) by blast
    then obtain m where m: "m \<in> set (flatten (observers r))" "shown_key m' = shown_key m" by blast
    then show "utf16_units (player_nickname (m_player m')) \<le> 32"
      using m assms(3) unfolding presentable_def k[OF m(2)] by blast
  qed
qed

lemma set_ranking_shown: "map_option shown_key (set_ranking n m) = map_option shown_key m"
  by (cases m) (simp_all add: set_ranking_def shown_key_def)

lemma rank_from_inv: "seat_inv r \<Longrightarrow> seat_inv (r\<lparr>members_by_id := rank_from n is (members_by_id r)\<rparr>)"
  unfolding seat_inv_def
  using rank_from_roster[of r n "is"] same_roster_seats same_roster_teams same_roster_master
  by (auto intro!: shown_presentable[of _ r]
      simp: rank_from_key[of shown_key, OF set_ranking_shown])

lemma update_member_cases:
  obtains (racer) i m where "first_index (is_user u) (members_by_id r) = Some i" "i < length (members_by_id r)"
      "members_by_id r ! i = Some m" "m_user_no m = u"
      "update_member f u r = (True, r\<lparr>members_by_id := (members_by_id r)[i := Some (f m)]\<rparr>)"
  | (observer) i m where "first_index (is_user u) (members_by_id r) = None"
      "first_index (is_user u) (observers r) = Some i" "i < length (observers r)"
      "observers r ! i = Some m" "m_user_no m = u"
      "update_member f u r = (True, r\<lparr>observers := (observers r)[i := Some (f m)]\<rparr>)"
  | (absent) "first_index (is_user u) (members_by_id r) = None" "first_index (is_user u) (observers r) = None"
      "update_member f u r = (False, r)"
proof -
  have some: "\<exists>m. x = Some m \<and> m_user_no m = u" if "is_user u x" for x
    using that by (cases x) (simp_all add: is_user_def)
  show thesis
  proof (cases "first_index (is_user u) (members_by_id r)")
    case (Some i)
    then have i: "i < length (members_by_id r)" "is_user u (members_by_id r ! i)" by (simp_all add: first_index_Some)
    from some[OF i(2)] obtain m where "members_by_id r ! i = Some m" "m_user_no m = u" by blast
    with i(1) Some show thesis by (intro racer[of i m]) (simp_all add: update_member_def)
  next
    case None
    show thesis
    proof (cases "first_index (is_user u) (observers r)")
      case (Some i)
      then have i: "i < length (observers r)" "is_user u (observers r ! i)" by (simp_all add: first_index_Some)
      from some[OF i(2)] obtain m where "observers r ! i = Some m" "m_user_no m = u" by blast
      with i(1) Some None show thesis by (intro observer[of i m]) (simp_all add: update_member_def)
    next
      case None': None
      then show thesis using None by (intro absent) (simp_all add: update_member_def)
    qed
  qed
qed

text \<open>An update that keeps the roster and what is shown keeps the invariant.\<close>

lemma update_member_inv:
  assumes "seat_inv r" "\<And>m. roster_key (f m) = roster_key m" "\<And>m. shown_key (f m) = shown_key m"
  shows "seat_inv (snd (update_member f u r)) \<and> same_roster r (snd (update_member f u r))"
proof -
  have user: "m_user_no (f m) = m_user_no m" for m using assms(2)[of m] by (simp add: roster_key_def)
  have *: "same_roster r (snd (update_member f u r)) \<and> room_master (snd (update_member f u r)) = room_master r \<and>
     map (map_option shown_key) (members_by_id (snd (update_member f u r))) = map (map_option shown_key) (members_by_id r) \<and>
     map (map_option shown_key) (observers (snd (update_member f u r))) = map (map_option shown_key) (observers r)"
    by (cases rule: update_member_cases[of u r f])
       (simp_all add: same_roster_def team_mode_def map_update_key assms(2,3) user)
  with assms(1) show ?thesis unfolding seat_inv_def
    using same_roster_seats same_roster_teams same_roster_master shown_presentable[of _ r] by blast
qed

section \<open>The room master\<close>

lemma is_user_Some: "is_user u x \<longleftrightarrow> (\<exists>m. x = Some m \<and> m_user_no m = u)"
  by (cases x) (simp_all add: is_user_def)

text \<open>The invariant looks at nothing but these fields.\<close>

lemma seats_cong_core:
  assumes "members_by_id r' = members_by_id r" "ais_by_id r' = ais_by_id r"
    "closed_slots_by_id r' = closed_slots_by_id r" "length (observers r') = length (observers r)"
    "slot_positions r' = slot_positions r" "rs_game_type (settings r') = rs_game_type (settings r)"
  shows "room_seats r' = room_seats r" "teams_ok r' = teams_ok r"
proof -
  have "seated r' = seated r" "one_occupant r' = one_occupant r" "team_of r' = team_of r" "team_mode r' = team_mode r"
    unfolding fun_eq_iff seated_def one_occupant_def team_of_def team_mode_def assms by (rule allI refl)+
  then show "room_seats r' = room_seats r" "teams_ok r' = teams_ok r"
    by (simp_all add: room_seats_def room_shape_def closed_named_def teams_ok_def assms)
qed

lemma people_cong_core:
  assumes "members_by_id r' = members_by_id r" "observers r' = observers r"
  shows "member_by_player_id r' = member_by_player_id r" "room_is_empty r' = room_is_empty r"
    "presentable r' = presentable r" "user_nos r' = user_nos r"
  unfolding fun_eq_iff member_by_player_id_def room_is_empty_def presentable_def user_nos_def assms
  by (rule allI refl)+

lemma seat_inv_core:
  assumes "members_by_id r' = members_by_id r" "ais_by_id r' = ais_by_id r"
    "closed_slots_by_id r' = closed_slots_by_id r" "observers r' = observers r"
    "slot_positions r' = slot_positions r" "room_master r' = room_master r"
    "rs_game_type (settings r') = rs_game_type (settings r)"
  shows "seat_inv r' = seat_inv r" "user_nos r' = user_nos r"
  using seats_cong_core[of r' r] people_cong_core[of r' r] assms
  by (simp_all add: seat_inv_def master_ok_def)

lemma member_lookup:
  assumes "room_seats r"
  shows "i < 8 \<Longrightarrow> member_by_player_id r (int i) = members_by_id r ! i"
    "i < 8 \<Longrightarrow> member_by_player_id r (int (8 + i)) = observers r ! i"
    "i < 8 \<Longrightarrow> member_by_player_id r (8 + int i) = observers r ! i"
  using room_seatsD(4)[OF assms] by (simp_all add: member_by_player_id_def Let_def ROOM_SLOT_COUNT_def nat_add_distrib)

lemma assign_master_cases:
  obtains (racer) i m where "i < length (members_by_id r)" "members_by_id r ! i = Some m"
      "assign_next_room_master r = r\<lparr>room_master := int i, members_by_id := (members_by_id r)[i :=
         Some (m\<lparr>m_player := (m_player m)\<lparr>player_type := 2\<rparr>\<rparr>)]\<rparr>"
  | (observer) i m where "list_all is_none (members_by_id r)" "i < length (observers r)" "observers r ! i = Some m"
      "assign_next_room_master r = r\<lparr>room_master := int (8 + i), observers := (observers r)[i :=
         Some (m\<lparr>m_player := (m_player m)\<lparr>player_type := 4\<rparr>\<rparr>)]\<rparr>"
  | (nobody) "room_is_empty r" "assign_next_room_master r = r\<lparr>room_master := - 1\<rparr>"
proof -
  have none: "list_all is_none xs" if "first_index (\<lambda>m. m \<noteq> None) xs = None" for xs :: "'a option list"
    using that by (simp add: first_index_None list_all_iff is_none_def)
  show thesis
  proof (cases "first_index (\<lambda>m. m \<noteq> None) (members_by_id r)")
    case (Some i)
    then have "i < length (members_by_id r)" "members_by_id r ! i \<noteq> None" unfolding first_index_Some by blast+
    then obtain m where "i < length (members_by_id r)" "members_by_id r ! i = Some m" by blast
    then show thesis using Some by (intro racer[of i m]) (simp_all only: assign_next_room_master_def
        option.case option.map slot_state_wire.simps)
  next
    case None
    note n = None
    show thesis
    proof (cases "first_index (\<lambda>m. m \<noteq> None) (observers r)")
      case (Some i)
      then have "i < length (observers r)" "observers r ! i \<noteq> None" unfolding first_index_Some by blast+
      then obtain m where "i < length (observers r)" "observers r ! i = Some m" by blast
      then show thesis using Some n none[OF n] by (intro observer[of i m])
        (simp_all only: assign_next_room_master_def option.case option.map slot_state_wire.simps ROOM_SLOT_COUNT_def)
    next
      case None
      then show thesis using n none[OF n] none[OF None]
        by (intro nobody) (simp_all only: assign_next_room_master_def option.case room_is_empty_def)
    qed
  qed
qed

lemma assign_master_roster: "same_roster r (assign_next_room_master r)"
  by (cases rule: assign_master_cases[of r])
     (simp_all add: same_roster_def team_mode_def map_update_key roster_key_def)

lemma assign_master_ok:
  assumes "room_seats r"
  shows "master_ok (assign_next_room_master r)"
proof -
  note l = member_lookup[OF same_roster_seats[OF assign_master_roster assms]] and d = room_seatsD[OF assms]
  show ?thesis
  proof (cases rule: assign_master_cases[of r])
    case (racer i m)
    then show ?thesis using l(1)[of i] d(1) by (simp add: master_ok_def)
  next
    case (observer i m)
    then show ?thesis using l(2)[of i] d(4) by (simp add: master_ok_def)
  next
    case nobody
    then show ?thesis by (simp add: master_ok_def room_is_empty_def)
  qed
qed

lemma presentable_member_update:
  "presentable r \<Longrightarrow> presentable_player (m_player m) \<Longrightarrow> player_type (m_player m) \<in> {2, 3} \<Longrightarrow>
     presentable (r\<lparr>members_by_id := (members_by_id r)[i := Some m]\<rparr>)"
  using flatten_update_sub[of "members_by_id r" i m] by (auto simp: presentable_def)

lemma presentable_observer_update:
  "presentable r \<Longrightarrow> utf16_units (player_nickname (m_player m)) \<le> 32 \<Longrightarrow>
     presentable (r\<lparr>observers := (observers r)[i := Some m]\<rparr>)"
  using flatten_update_sub[of "observers r" i m] by (auto simp: presentable_def)

lemma presentable_drop:
  "presentable r \<Longrightarrow> presentable (r\<lparr>members_by_id := (members_by_id r)[i := None]\<rparr>)"
  "presentable r \<Longrightarrow> presentable (r\<lparr>observers := (observers r)[i := None]\<rparr>)"
  using flatten_drop_sub[of "members_by_id r" i] flatten_drop_sub[of "observers r" i]
  by (auto simp: presentable_def)

lemma presentable_cong:
  "members_by_id r' = members_by_id r \<Longrightarrow> observers r' = observers r \<Longrightarrow> presentable r' = presentable r"
  by (simp add: presentable_def)

lemma assign_master_presentable:
  assumes p: "presentable r"
  shows "presentable (assign_next_room_master r)"
proof (cases rule: assign_master_cases[of r])
  case (racer i m)
  let ?m = "m\<lparr>m_player := (m_player m)\<lparr>player_type := 2\<rparr>\<rparr>"
  have "presentable_player (m_player m)" using p nth_in_flatten[OF racer(1,2)] by (simp add: presentable_def)
  then have "presentable (r\<lparr>members_by_id := (members_by_id r)[i := Some ?m]\<rparr>)"
    by (intro presentable_member_update p) (simp_all add: presentable_player_def)
  then show ?thesis using racer(3) by (simp add: presentable_def)
next
  case (observer i m)
  let ?m = "m\<lparr>m_player := (m_player m)\<lparr>player_type := 4\<rparr>\<rparr>"
  have "utf16_units (player_nickname (m_player m)) \<le> 32"
    using p nth_in_flatten[OF observer(2,3)] by (simp add: presentable_def)
  then have "presentable (r\<lparr>observers := (observers r)[i := Some ?m]\<rparr>)"
    by (intro presentable_observer_update p) simp
  then show ?thesis using observer(4) by (simp add: presentable_def)
next
  case nobody
  then show ?thesis using p by (simp add: presentable_def)
qed

lemma assign_master_inv:
  assumes "room_seats r" "teams_ok r" "presentable r"
  shows "seat_inv (assign_next_room_master r)" "user_nos (assign_next_room_master r) = user_nos r"
  using assms same_roster_seats[OF assign_master_roster] same_roster_teams[OF assign_master_roster]
    assign_master_ok assign_master_presentable same_roster_users[OF assign_master_roster]
  by (simp_all add: seat_inv_def)

end
