(* ===== verification/RoomOps.thy ===== *)
theory RoomOps
  imports RoomInv "HOL-Library.Multiset"
begin

text \<open>
  Every operation of a room keeps its invariant: admission, leaving, AI racers, closed seats, team
  changes, settlement (\<open>crates/p4475-server/src/world.rs\<close>, \<open>impl ProtocolRoomState\<close>).
\<close>

section \<open>Admission\<close>

lemma vacant_Some:
  "vacant_member_id r = Some i \<longleftrightarrow> i < 8 \<and> \<not> seated r i \<and> (\<forall>j<i. seated r j)"
  by (auto simp: vacant_member_id_def find_upt_Some seated_def ROOM_SLOT_COUNT_def)

lemma vacant_None: "vacant_member_id r = None \<longleftrightarrow> (\<forall>i<8. seated r i)"
  by (auto simp: vacant_member_id_def find_upt_None seated_def ROOM_SLOT_COUNT_def)

lemma free_slot_Some: "free_slot_in a b slots = Some s \<Longrightarrow> a \<le> s \<and> s < b \<and> slots ! s = None"
  by (simp add: free_slot_in_def find_upt_Some)

lemma free_slot_None: "free_slot_in a b slots = None \<longleftrightarrow> (\<forall>s. a \<le> s \<longrightarrow> s < b \<longrightarrow> slots ! s \<noteq> None)"
  by (simp add: free_slot_in_def find_upt_None)

lemma team_slots_Some: "team_slots t slots = Some s \<Longrightarrow> slots ! s = None \<and> (if t = 2 then s < 4 else 4 \<le> s \<and> s < 8)"
  by (auto simp: team_slots_def ROOM_SLOT_COUNT_def dest: free_slot_Some split: if_split_asm)

lemma admission_Some:
  assumes "room_seats r" "admission_slot_and_team r = Some (s, t)"
  shows "s < 8" "slot_positions r ! s = None" "team_at (team_mode r) s t"
proof -
  have "s < 8 \<and> slot_positions r ! s = None \<and> team_at (team_mode r) s t"
  proof (cases "team_mode r")
    case False
    then have "first_index is_none (slot_positions r) = Some s" "t = 0"
      using assms(2) by (auto simp: admission_slot_and_team_def)
    then show ?thesis using room_seatsD(5)[OF assms(1)] False
      by (auto simp: first_index_Some is_none_def team_at_def)
  next
    case True
    then show ?thesis using assms(2)
      by (auto simp: admission_slot_and_team_def Let_def team_at_def split: option.split_asm if_split_asm
          dest!: team_slots_Some)
  qed
  then show "s < 8" "slot_positions r ! s = None" "team_at (team_mode r) s t" by simp_all
qed

lemma split_half: "(\<forall>s. s < 4 \<longrightarrow> P s) \<and> (\<forall>s. 4 \<le> s \<longrightarrow> s < 8 \<longrightarrow> P s) \<longleftrightarrow> (\<forall>s<8::nat. P s)"
proof
  assume h: "(\<forall>s. s < 4 \<longrightarrow> P s) \<and> (\<forall>s. 4 \<le> s \<longrightarrow> s < 8 \<longrightarrow> P s)"
  show "\<forall>s<8. P s"
  proof (intro allI impI)
    fix s :: nat assume "s < 8"
    then show "P s" using h by (cases "s < 4") simp_all
  qed
qed simp

lemma admission_None:
  assumes "room_seats r"
  shows "admission_slot_and_team r = None \<longleftrightarrow> (\<forall>s<8. slot_positions r ! s \<noteq> None)"
proof (cases "team_mode r")
  case False
  have "(\<forall>x\<in>set (slot_positions r). x \<noteq> None) \<longleftrightarrow> (\<forall>s<8. slot_positions r ! s \<noteq> None)"
    using room_seatsD(5)[OF assms] by (simp only: all_set_conv_all_nth)
  moreover have "admission_slot_and_team r = None \<longleftrightarrow> first_index is_none (slot_positions r) = None"
    using False by (simp add: admission_slot_and_team_def)
  ultimately show ?thesis by (simp only: first_index_None is_none_def)
next
  case True
  let ?blue = "team_slots 2 (slot_positions r)" and ?red = "team_slots 1 (slot_positions r)"
  have "admission_slot_and_team r = None \<longleftrightarrow> ?blue = None \<and> ?red = None"
    using True by (auto simp: admission_slot_and_team_def Let_def split: option.split)
  also have "\<dots> \<longleftrightarrow> (\<forall>s. s < 4 \<longrightarrow> slot_positions r ! s \<noteq> None) \<and>
      (\<forall>s. 4 \<le> s \<longrightarrow> s < 8 \<longrightarrow> slot_positions r ! s \<noteq> None)"
    by (simp add: team_slots_def free_slot_None ROOM_SLOT_COUNT_def)
  also have "\<dots> \<longleftrightarrow> (\<forall>s<8. slot_positions r ! s \<noteq> None)"
    by (rule split_half)
  finally show ?thesis .
qed

text \<open>A vacant seat and a free slot come together, so a racer is refused for lack of a seat only.\<close>

lemma seat_and_slot:
  "room_seats r \<Longrightarrow> vacant_member_id r = None \<longleftrightarrow> admission_slot_and_team r = None"
  using vacancy[OF room_seatsD(7)[of r]] unfolding vacant_None by (metis admission_None)

definition admissible :: "room_participant \<Rightarrow> bool" where
  "admissible p \<longleftrightarrow> (if part_observer p then utf16_units (player_nickname (part_player p)) \<le> 32
     else presentable_player (part_player p))"

lemma presentable_player_cong:
  "player_nickname p = player_nickname q \<Longrightarrow> player_card p = player_card q \<Longrightarrow> club_name p = club_name q \<Longrightarrow>
   club_mark_logo p = club_mark_logo q \<Longrightarrow> presentable_player p = presentable_player q"
  by (simp add: presentable_player_def)

text \<open>The racer that takes seat \<open>i\<close> in slot \<open>s\<close>, before the choice of a master.\<close>

definition joining_racer :: "u32 \<Rightarrow> room_participant \<Rightarrow> u8 \<Rightarrow> protocol_room \<Rightarrow> protocol_room_member" where
  "joining_racer u p t r = room_member_of u ((part_player p)\<lparr>player_type := 2, player_team := t,
     player_ranking := int (length (flatten (members_by_id r)))\<rparr>) p"

definition racer_joined :: "u32 \<Rightarrow> room_participant \<Rightarrow> nat \<Rightarrow> nat \<Rightarrow> u8 \<Rightarrow> protocol_room \<Rightarrow> protocol_room" where
  "racer_joined u p i s t r = r\<lparr>members_by_id := (members_by_id r)[i := Some (joining_racer u p t r)],
     slot_positions := (slot_positions r)[s := Some i]\<rparr>"

lemma add_participant_cases:
  obtains (refused) "add_participant u p r = (False, r)"
      "if part_observer p then \<forall>x\<in>set (observers r). x \<noteq> None
       else vacant_member_id r = None \<or> admission_slot_and_team r = None"
  | (observer) i where "part_observer p" "i < length (observers r)" "observers r ! i = None"
      "add_participant u p r = (True, r\<lparr>observers := (observers r)[i :=
         Some (room_member_of u ((part_player p)\<lparr>player_type := 4, player_team := 0\<rparr>) p)],
         room_master := (if part_observer_master p then int (8 + i) else room_master r)\<rparr>)"
  | (racer) i s t where "\<not> part_observer p" "vacant_member_id r = Some i"
      "admission_slot_and_team r = Some (s, t)"
      "add_participant u p r = (True, let r' = racer_joined u p i s t r in
         if member_by_player_id r' (room_master r) = None then r'\<lparr>room_master := int i\<rparr> else r')"
proof (cases "part_observer p")
  case True
  then show thesis
  proof (cases "first_index is_none (observers r)")
    case None
    then have "\<forall>x\<in>set (observers r). x \<noteq> None" by (simp only: first_index_None is_none_def simp_thms)
    moreover have "add_participant u p r = (False, r)"
      using True None by (simp add: add_participant_def)
    ultimately show thesis using True refused by presburger
  next
    case (Some i)
    then have "i < length (observers r)" "observers r ! i = None"
      by (simp_all add: first_index_Some is_none_def)
    then show thesis using True Some
      by (intro observer[of i]) (simp_all add: add_participant_def Let_def ROOM_SLOT_COUNT_def)
  qed
next
  case False
  show thesis
  proof (cases "vacant_member_id r")
    case None
    then show thesis using False by (intro refused) (simp_all add: add_participant_def)
  next
    case (Some i)
    show thesis
    proof (cases "admission_slot_and_team r")
      case None
      then show thesis using False Some by (intro refused) (simp_all add: add_participant_def)
    next
      case (Some st)
      then show thesis using False \<open>vacant_member_id r = Some i\<close>
        by (intro racer[of i "fst st" "snd st"])
          (simp_all add: add_participant_def Let_def racer_joined_def joining_racer_def split: prod.split)
    qed
  qed
qed

lemma flatten_fill:
  assumes "i < length xs" "xs ! i = None"
  shows "mset (flatten (xs[i := Some x])) = add_mset x (mset (flatten xs))"
  unfolding flatten_update[OF assms(1)] flatten_split[OF assms(1)] assms(2) by simp

lemma joining_racer_simps [simp]:
  "m_user_no (joining_racer u p t r) = u" "player_team (m_player (joining_racer u p t r)) = t"
  "player_type (m_player (joining_racer u p t r)) = 2"
  "admissible p \<Longrightarrow> \<not> part_observer p \<Longrightarrow> presentable_player (m_player (joining_racer u p t r))"
  by (simp_all add: joining_racer_def room_member_of_def admissible_def presentable_player_def)

lemma racer_joined_seats:
  assumes "room_seats r" "teams_ok r" "presentable r" "admissible p" "\<not> part_observer p"
    "vacant_member_id r = Some i" "admission_slot_and_team r = Some (s, t)"
  shows "room_seats (racer_joined u p i s t r)" "teams_ok (racer_joined u p i s t r)"
    "presentable (racer_joined u p i s t r)" "mset (user_nos (racer_joined u p i s t r)) = add_mset u (mset (user_nos r))"
    "members_by_id (racer_joined u p i s t r) ! i = Some (joining_racer u p t r)"
proof -
  note d = room_seatsD[OF assms(1)] and a = admission_Some[OF assms(1,7)]
  have i: "i < 8" "\<not> seated r i" using assms(6) by (simp_all add: vacant_Some)
  let ?r = "racer_joined u p i s t r"
  have n: "members_by_id r ! i = None" "ais_by_id r ! i = None" "closed_slots_by_id r ! i = None"
    using i(2) by (simp_all add: seated_def)
  have o: "other_seats_same i r ?r" by (simp add: other_seats_same_def racer_joined_def)
  show g: "members_by_id ?r ! i = Some (joining_racer u p t r)" using i d(1) by (simp add: racer_joined_def)
  have k: "team_mode ?r = team_mode r" "slot_positions ?r = (slot_positions r)[s := Some i]"
    "ais_by_id ?r = ais_by_id r" "closed_slots_by_id ?r = closed_slots_by_id r" "observers ?r = observers r"
    by (simp_all add: racer_joined_def team_mode_def)
  show "room_seats ?r"
    by (rule take_seat[OF assms(1) i a(1,2) _ k(2) o])
       (use d g n k in \<open>simp_all add: seated_def one_occupant_def room_shape_def\<close>, simp add: racer_joined_def)
  show "teams_ok ?r"
    by (rule take_seat_teams[OF assms(2,1) a(1,2) i k(2) o k(1)]) (use a(3) g in \<open>simp add: team_of_def\<close>)
  have "presentable (r\<lparr>members_by_id := (members_by_id r)[i := Some (joining_racer u p t r)]\<rparr>)"
    using presentable_member_update[OF assms(3)] assms(4,5) by simp
  then show "presentable ?r" by (simp add: presentable_def racer_joined_def)
  show "mset (user_nos ?r) = add_mset u (mset (user_nos r))"
    using flatten_fill[of i "members_by_id r"] i d(1) n(1) by (simp add: user_nos_def racer_joined_def)
qed

text \<open>The seated racer becomes the master where the room has none.\<close>

lemma racer_joined_master: "room_master (racer_joined u p i s t r) = room_master r"
  by (simp add: racer_joined_def)

lemma seated_master:
  assumes "room_seats r" "teams_ok r" "presentable r" "i < 8" "members_by_id r ! i = Some m"
  shows "b \<or> member_by_player_id r (room_master r) \<noteq> None \<Longrightarrow>
      seat_inv (if b then r\<lparr>room_master := int i\<rparr> else r)"
    "user_nos (r\<lparr>room_master := x\<rparr>) = user_nos r"
proof -
  let ?r = "r\<lparr>room_master := int i\<rparr>"
  have s: "room_seats ?r = room_seats r" "teams_ok ?r = teams_ok r" "presentable ?r = presentable r"
    "member_by_player_id ?r = member_by_player_id r"
    using seats_cong_core[of ?r r] people_cong_core[of ?r r] by simp_all
  show "seat_inv (if b then ?r else r)" if "b \<or> member_by_player_id r (room_master r) \<noteq> None"
    using that assms s member_lookup(1)[OF assms(1,4)] by (auto simp: seat_inv_def master_ok_def)
  show "user_nos (r\<lparr>room_master := x\<rparr>) = user_nos r" by (simp add: user_nos_def)
qed

theorem add_participant_inv:
  assumes "seat_inv r" "admissible p" "room_is_empty r \<longrightarrow> room_master r = 0"
  shows "seat_inv (snd (add_participant u p r)) \<and>
    mset (user_nos (snd (add_participant u p r))) =
      (if fst (add_participant u p r) then add_mset u (mset (user_nos r)) else mset (user_nos r))"
proof -
  have r: "room_seats r" "teams_ok r" "master_ok r" "presentable r" using assms(1) by (simp_all add: seat_inv_def)
  note d = room_seatsD[OF r(1)]
  show ?thesis
  proof (cases rule: add_participant_cases[of u p r])
    case refused
    then show ?thesis using assms(1) by simp
  next
    case (observer i)
    let ?m = "room_member_of u ((part_player p)\<lparr>player_type := 4, player_team := 0\<rparr>) p"
    let ?r = "r\<lparr>observers := (observers r)[i := Some ?m]\<rparr>"
    let ?r' = "r\<lparr>observers := (observers r)[i := Some ?m], room_master :=
       (if part_observer_master p then int (8 + i) else room_master r)\<rparr>"
    have i: "i < 8" using observer(2) d(4) by simp
    have "presentable ?r" using assms(2) observer(1)
      by (intro presentable_observer_update r(4)) (simp add: admissible_def room_member_of_def)
    then have c: "room_seats ?r'" "teams_ok ?r'" "presentable ?r'"
      using r seats_cong_core[of ?r' r] people_cong_core(3)[of ?r' ?r] by simp_all
    note l = member_lookup[OF c(1)]
    have "master_ok ?r'"
    proof (cases "part_observer_master p")
      case True
      then show ?thesis using l(2)[OF i] observer(2) by (simp add: master_ok_def)
    next
      case False
      have "member_by_player_id ?r' q \<noteq> None" if "member_by_player_id r q \<noteq> None" for q
        using that observer(2) by (auto simp: member_by_player_id_def Let_def nth_list_update split: if_split_asm)
      moreover have "list_all is_none (members_by_id r) \<and> room_master r = 0 \<or> member_by_player_id r (room_master r) \<noteq> None"
        using r(3) assms(3) by (auto simp: master_ok_def room_is_empty_def)
      ultimately show ?thesis using False by (auto simp: master_ok_def)
    qed
    then have "seat_inv ?r'" using c by (simp add: seat_inv_def)
    moreover have "mset (user_nos ?r') = add_mset u (mset (user_nos r))"
      using flatten_fill[OF observer(2,3), of ?m] by (simp add: user_nos_def room_member_of_def)
    ultimately show ?thesis using observer(4) by simp
  next
    case (racer i s t)
    note c = racer_joined_seats[OF r(1,2,4) assms(2) racer(1-3), of u]
    have i: "i < 8" using racer(2) by (simp add: vacant_Some)
    show ?thesis
      using c(4) seated_master(1)[OF c(1-3) i c(5), of True] seated_master(1)[OF c(1-3) i c(5), of False]
        seated_master(2)[OF c(1-3) i c(5)] racer(4)
      by (simp add: Let_def racer_joined_master)
  qed
qed

section \<open>Leaving\<close>

lemma flatten_vacate:
  assumes "i < length xs" "xs ! i = Some x"
  shows "mset (flatten xs) = add_mset x (mset (flatten (xs[i := None])))"
  unfolding flatten_update[OF assms(1)] flatten_split[OF assms(1)] assms(2) by simp

lemma drop_seat:
  assumes "room_seats r" "teams_ok r" "presentable r" "i < 8" "members_by_id r ! i = Some m"
    "first_index (\<lambda>p. p = Some i) (slot_positions r) = Some s"
  shows "room_seats (r\<lparr>members_by_id := (members_by_id r)[i := None], slot_positions := (slot_positions r)[s := None]\<rparr>)"
    "teams_ok (r\<lparr>members_by_id := (members_by_id r)[i := None], slot_positions := (slot_positions r)[s := None]\<rparr>)"
    "presentable (r\<lparr>members_by_id := (members_by_id r)[i := None], slot_positions := (slot_positions r)[s := None]\<rparr>)"
proof -
  let ?r = "r\<lparr>members_by_id := (members_by_id r)[i := None], slot_positions := (slot_positions r)[s := None]\<rparr>"
  note d = room_seatsD[OF assms(1)]
  have s: "s < 8" "slot_positions r ! s = Some i" using assms(6) d(5) by (simp_all add: first_index_Some)
  have o: "other_seats_same i r ?r" by (simp add: other_seats_same_def)
  have "\<not> seated ?r i" using d(1) d(6)[OF assms(4)] assms(4,5) by (simp add: seated_def one_occupant_def)
  then show "room_seats ?r" using leave_seat[OF assms(1) s _ _ o] d by (simp add: room_shape_def)
  show "teams_ok ?r" using leave_seat_teams[OF assms(2,1) s _ o] by (simp add: team_mode_def)
  show "presentable ?r" using presentable_drop(1)[OF assms(3), of i] by (simp add: presentable_def)
qed

lemma is_user_None_absent:
  "first_index (is_user u) ms = None \<longleftrightarrow> u \<notin> m_user_no ` set (flatten ms)"
  by (auto simp: first_index_None is_user_Some in_flatten)

lemma is_user_found:
  assumes "first_index (is_user u) ms = Some i"
  obtains m where "i < length ms" "ms ! i = Some m" "m_user_no m = u"
  using assms by (auto simp: first_index_Some is_user_Some)

text \<open>The player IDs of the others still name someone.\<close>

lemma master_kept:
  assumes "room_seats r" "master_ok r" "\<not> room_is_empty r" "room_master r \<noteq> q"
    "\<And>p. p \<noteq> q \<Longrightarrow> member_by_player_id r p \<noteq> None \<Longrightarrow> member_by_player_id r' p \<noteq> None"
    "list_all is_none (members_by_id r) \<Longrightarrow> list_all is_none (members_by_id r')" "room_master r' = room_master r"
  shows "master_ok r'"
  using assms unfolding master_ok_def by metis

lemma list_all_drop: "list_all is_none xs \<Longrightarrow> list_all is_none (xs[i := None])"
  by (cases "i < length xs") (auto simp: list_all_length nth_list_update is_none_def list_update_beyond)

lemma observer_left:
  assumes "seat_inv r" "first_index (is_user u) (observers r) = Some i"
  shows "seat_inv (snd (remove_user u r))" "fst (remove_user u r)"
    "mset (user_nos r) = add_mset u (mset (user_nos (snd (remove_user u r))))"
proof -
  have r: "room_seats r" "teams_ok r" "master_ok r" "presentable r" using assms(1) by (simp_all add: seat_inv_def)
  note d = room_seatsD[OF r(1)]
  obtain m where m: "i < length (observers r)" "observers r ! i = Some m" "m_user_no m = u"
    by (rule is_user_found[OF assms(2)])
  let ?r = "r\<lparr>observers := (observers r)[i := None]\<rparr>"
  have c: "room_seats ?r" "teams_ok ?r" "presentable ?r"
    using r seats_cong_core[of ?r r] presentable_drop(2)[OF r(4)] by simp_all
  have e: "\<not> room_is_empty r"
    using m by (auto simp: room_is_empty_def list_all_length is_none_def)
  have u: "mset (user_nos r) = add_mset u (mset (user_nos ?r))"
    using flatten_vacate[OF m(1,2)] m(3) by (simp add: user_nos_def)
  have k: "master_ok ?r" if "room_master r \<noteq> int (8 + i)"
    by (rule master_kept[OF r(1,3) e that]) (use m d in \<open>auto simp: member_by_player_id_def Let_def
      nth_list_update ROOM_SLOT_COUNT_def split: if_split_asm\<close>)
  have eq: "remove_user u r = (True, if room_master r = int (8 + i) then assign_next_room_master ?r else ?r)"
    using assms(2) by (simp add: remove_user_def Let_def ROOM_SLOT_COUNT_def)
  show "seat_inv (snd (remove_user u r))" "fst (remove_user u r)"
    "mset (user_nos r) = add_mset u (mset (user_nos (snd (remove_user u r))))"
    using assign_master_inv[OF c] k c u by (simp_all add: eq seat_inv_def)
qed

lemma racer_left:
  assumes "seat_inv r" "first_index (is_user u) (observers r) = None" "first_index (is_user u) (members_by_id r) = Some i"
  obtains r' where "seat_inv r'" "mset (user_nos r) = add_mset u (mset (user_nos r'))"
    "remove_user u r = (True, r'\<lparr>members_by_id :=
       rank_from 0 (map snd (sort (occupied_rankings (members_by_id r')))) (members_by_id r')\<rparr>)"
proof -
  have r: "room_seats r" "teams_ok r" "master_ok r" "presentable r" using assms(1) by (simp_all add: seat_inv_def)
  note d = room_seatsD[OF r(1)]
  obtain m where m: "i < length (members_by_id r)" "members_by_id r ! i = Some m" "m_user_no m = u"
    by (rule is_user_found[OF assms(3)])
  have i: "i < 8" using m(1) d(1) by simp
  have "seated r i" using m(2) by (simp add: seated_def)
  then obtain s where s: "s < 8" "slot_positions r ! s = Some i"
    "first_index (\<lambda>p. p = Some i) (slot_positions r) = Some s" by (rule seat_has_slot[OF r(1) i])
  let ?r = "r\<lparr>members_by_id := (members_by_id r)[i := None], slot_positions := (slot_positions r)[s := None]\<rparr>"
  note c = drop_seat[OF r(1,2,4) i m(2) s(3)]
  have e: "\<not> room_is_empty r" using m by (auto simp: room_is_empty_def list_all_length is_none_def)
  have u: "mset (user_nos r) = add_mset u (mset (user_nos ?r))"
    using flatten_vacate[OF m(1,2)] m(3) by (simp add: user_nos_def)
  have k: "master_ok ?r" if "room_master r \<noteq> int i"
    by (rule master_kept[OF r(1,3) e that]) (use m d in \<open>auto simp: member_by_player_id_def Let_def list_all_drop
      nth_list_update ROOM_SLOT_COUNT_def split: if_split_asm\<close>)
  let ?r' = "if room_master r = int i then assign_next_room_master ?r else ?r"
  show thesis
  proof (rule that[of ?r'])
    show "seat_inv ?r'" "mset (user_nos r) = add_mset u (mset (user_nos ?r'))"
      using assign_master_inv[OF c] k c u by (simp_all add: seat_inv_def)
    show "remove_user u r = (True, ?r'\<lparr>members_by_id :=
       rank_from 0 (map snd (sort (occupied_rankings (members_by_id ?r')))) (members_by_id ?r')\<rparr>)"
      using assms(2,3) s(3) by (simp add: remove_user_def Let_def)
  qed
qed

theorem remove_user_inv:
  assumes "seat_inv r"
  shows "seat_inv (snd (remove_user u r))"
    "if fst (remove_user u r) then mset (user_nos r) = add_mset u (mset (user_nos (snd (remove_user u r))))
     else snd (remove_user u r) = r \<and> u \<notin> set (user_nos r)"
proof -
  have "seat_inv (snd (remove_user u r)) \<and> (if fst (remove_user u r)
     then mset (user_nos r) = add_mset u (mset (user_nos (snd (remove_user u r))))
     else snd (remove_user u r) = r \<and> u \<notin> set (user_nos r))"
  proof (cases "first_index (is_user u) (observers r)")
    case (Some i)
    then show ?thesis using observer_left[OF assms Some] by simp
  next
    case None
    note o = None
    show ?thesis
    proof (cases "first_index (is_user u) (members_by_id r)")
      case (Some i)
      from racer_left[OF assms o this] show ?thesis
        using rank_from_inv same_roster_users[OF rank_from_roster] by (metis fst_conv snd_conv)
    next
      case None
      have "remove_user u r = (False, r)" using None o by (simp add: remove_user_def)
      moreover have "u \<notin> set (user_nos r)"
        using None o by (simp add: is_user_None_absent user_nos_def image_Un)
      ultimately show ?thesis using assms by simp
    qed
  qed
  then show "seat_inv (snd (remove_user u r))"
    "if fst (remove_user u r) then mset (user_nos r) = add_mset u (mset (user_nos (snd (remove_user u r))))
     else snd (remove_user u r) = r \<and> u \<notin> set (user_nos r)" by blast+
qed

section \<open>AI racers\<close>

text \<open>A seat given to, or taken from, somebody who is no member.\<close>

lemma same_people_inv:
  assumes "seat_inv r" "room_seats r'" "teams_ok r'" "members_by_id r' = members_by_id r" "observers r' = observers r"
    "room_master r' = room_master r"
  shows "seat_inv r'" "user_nos r' = user_nos r"
  using assms people_cong_core[OF assms(4,5)] by (simp_all add: seat_inv_def master_ok_def)

theorem remove_ai_inv:
  assumes "seat_inv r"
  obtains removed r' where "remove_ai p r = Returns (removed, r')" "seat_inv r'" "user_nos r' = user_nos r"
    "removed = None \<longrightarrow> r' = r"
proof (cases "length (ais_by_id r) \<le> unat p \<or> ais_by_id r ! unat p = None")
  case True
  then show thesis using assms by (intro that[of None r]) (auto simp: remove_ai_def)
next
  case False
  have r: "room_seats r" "teams_ok r" using assms by (simp_all add: seat_inv_def)
  note d = room_seatsD[OF r(1)]
  let ?i = "unat p"
  have i: "?i < 8" "seated r ?i" "members_by_id r ! ?i = None" "closed_slots_by_id r ! ?i = None"
    using False d(2) d(6)[of ?i] by (auto simp: seated_def one_occupant_def)
  from seat_has_slot[OF r(1) i(1,2)] obtain s where s: "s < 8" "slot_positions r ! s = Some ?i"
    "first_index (\<lambda>p. p = Some ?i) (slot_positions r) = Some s" .
  let ?r = "r\<lparr>ais_by_id := (ais_by_id r)[?i := None], slot_positions := (slot_positions r)[s := None]\<rparr>"
  have o: "other_seats_same ?i r ?r" by (simp add: other_seats_same_def)
  have "\<not> seated ?r ?i" using i d(2) by (simp add: seated_def)
  then have "room_seats ?r" using leave_seat[OF r(1) s(1,2) _ _ o] d by (simp add: room_shape_def)
  moreover have "teams_ok ?r" using leave_seat_teams[OF r(2,1) s(1,2) _ o] by (simp add: team_mode_def)
  ultimately show thesis using False s(3) same_people_inv[OF assms, of ?r]
    by (intro that[of "Some (int ?i)" ?r]) (auto simp: remove_ai_def Let_def)
qed

definition ai_seated :: "nat \<Rightarrow> nat \<Rightarrow> room_ai \<Rightarrow> protocol_room \<Rightarrow> protocol_room" where
  "ai_seated i s ai r = r\<lparr>ais_by_id := (ais_by_id r)[i := Some ai], slot_positions := (slot_positions r)[s := Some i]\<rparr>"

lemma ai_seated_inv:
  assumes "seat_inv r" "vacant_member_id r = Some i" "s < 8" "slot_positions r ! s = None"
    "team_at (team_mode r) s (ai_team ai)"
  shows "seat_inv (ai_seated i s ai r)" "user_nos (ai_seated i s ai r) = user_nos r"
    "team_mode (ai_seated i s ai r) = team_mode r"
proof -
  have r: "room_seats r" "teams_ok r" using assms(1) by (simp_all add: seat_inv_def)
  note d = room_seatsD[OF r(1)]
  have i: "i < 8" "\<not> seated r i" using assms(2) by (simp_all add: vacant_Some)
  then have n: "members_by_id r ! i = None" "closed_slots_by_id r ! i = None" by (simp_all add: seated_def)
  let ?r = "ai_seated i s ai r"
  have k: "slot_positions ?r = (slot_positions r)[s := Some i]" "members_by_id ?r = members_by_id r"
    "closed_slots_by_id ?r = closed_slots_by_id r" "observers ?r = observers r" "room_master ?r = room_master r"
    "ais_by_id ?r ! i = Some ai" using i d(2) by (simp_all add: ai_seated_def)
  show t: "team_mode ?r = team_mode r" by (simp add: ai_seated_def team_mode_def)
  have o: "other_seats_same i r ?r" by (simp add: other_seats_same_def ai_seated_def)
  have "room_seats ?r"
    by (rule take_seat[OF r(1) i assms(3,4) _ k(1) o])
       (use d n k in \<open>simp_all add: seated_def one_occupant_def room_shape_def\<close>, simp add: ai_seated_def)
  moreover have "teams_ok ?r"
    by (rule take_seat_teams[OF r(2,1) assms(3,4) i k(1) o t]) (use assms(5) n k in \<open>simp add: team_of_def\<close>)
  ultimately show "seat_inv ?r" "user_nos ?r = user_nos r" using same_people_inv[OF assms(1)] k by simp_all
qed

theorem add_ais_inv:
  assumes "seat_inv r" "\<And>t ai. (t, ai) \<in> set requests \<Longrightarrow> (if team_mode r then t \<in> {1, 2} else t = 0)"
  shows "seat_inv (snd (add_ais requests added r)) \<and> user_nos (snd (add_ais requests added r)) = user_nos r"
  using assms
proof (induction requests added r rule: add_ais.induct)
  case (1 added r)
  then show ?case by simp
next
  case (2 team ai rest added r)
  show ?case
  proof (cases "vacant_member_id r")
    case None
    then show ?thesis using 2(2) by simp
  next
    case (Some i)
    let ?slot = "if team = 2 then free_slot_in 0 (ROOM_SLOT_COUNT div 2) (slot_positions r)
       else if team = 1 then free_slot_in (ROOM_SLOT_COUNT div 2) ROOM_SLOT_COUNT (slot_positions r)
       else free_slot_in 0 ROOM_SLOT_COUNT (slot_positions r)"
    show ?thesis
    proof (cases ?slot)
      case None
      then show ?thesis using 2(2) Some by simp
    next
      case slot: (Some s)
      have "if team_mode r then team \<in> {1, 2} else team = 0" using 2(3)[of team ai] by simp
      then have s: "s < 8" "slot_positions r ! s = None" "team_at (team_mode r) s (ai_team (ai\<lparr>ai_team := team\<rparr>))"
        using slot by (auto simp: ROOM_SLOT_COUNT_def team_at_def dest!: free_slot_Some split: if_split_asm)
      have step: "add_ais ((team, ai) # rest) added r =
          add_ais rest (added @ [(int i, ai\<lparr>ai_team := team\<rparr>)]) (ai_seated i s (ai\<lparr>ai_team := team\<rparr>) r)"
        using Some slot by (simp add: ai_seated_def Let_def)
      note inv = ai_seated_inv[OF 2(2) Some s]
      have rest: "if team_mode r then t \<in> {1, 2} else t = 0" if "(t, x) \<in> set rest" for t x
        using 2(3)[of t x] that by simp
      let ?r = "ai_seated i s (ai\<lparr>ai_team := team\<rparr>) r"
      have "r\<lparr>ais_by_id := (ais_by_id r)[i := Some (ai\<lparr>ai_team := team\<rparr>)], slot_positions :=
          (slot_positions (r\<lparr>ais_by_id := (ais_by_id r)[i := Some (ai\<lparr>ai_team := team\<rparr>)]\<rparr>))[s := Some i]\<rparr> = ?r"
        by (simp add: ai_seated_def)
      note ih = 2(1)[OF Some slot refl refl refl, unfolded this, OF inv(1)]
      show ?thesis unfolding step
        using ih[unfolded inv(2,3), OF rest] by simp
    qed
  qed
qed

section \<open>Closed seats\<close>

lemma close_pair_inv:
  assumes "seat_inv r" "m < 8" "s < 8" "close_pair_allowed close r (m, s)"
  shows "seat_inv (apply_close_pair close (m, s) r)" "user_nos (apply_close_pair close (m, s) r) = user_nos r"
proof -
  let ?r = "apply_close_pair close (m, s) r"
  have r: "room_seats r" "teams_ok r" using assms(1) by (simp_all add: seat_inv_def)
  note d = room_seatsD[OF r(1)] and a = assms(4)[unfolded close_pair_allowed_def prod.case]
  have o: "other_seats_same m r ?r" and t: "team_mode ?r = team_mode r" and sh: "room_shape ?r"
    using d by (simp_all add: other_seats_same_def apply_close_pair_def team_mode_def room_shape_def)
  have k: "members_by_id ?r = members_by_id r" "observers ?r = observers r" "room_master ?r = room_master r"
    "slot_positions ?r = (slot_positions r)[s := if close then Some m else None]" "ais_by_id ?r = ais_by_id r"
    "closed_slots_by_id ?r ! m = (if close then Some s else None)"
    using assms(2) d(3) by (simp_all add: apply_close_pair_def)
  have "room_seats ?r \<and> teams_ok ?r"
  proof (cases close)
    case True
    then have v: "\<not> seated r m" "slot_positions r ! s = None" using a by (simp_all add: seated_def)
    have u: "members_by_id r ! m = None" "ais_by_id r ! m = None" using v by (simp_all add: seated_def)
    show ?thesis
      using take_seat[OF r(1) assms(2) v(1) assms(3) v(2) sh _ o]
        take_seat_teams[OF r(2,1) assms(3) v(2) assms(2) v(1) _ o t] True k u
      by (simp add: seated_def one_occupant_def team_of_def)
  next
    case False
    then have v: "slot_positions r ! s = Some m" "closed_slots_by_id r ! m \<noteq> None" using a by simp_all
    have "\<not> seated ?r m" using d(6)[OF assms(2)] v(2) k False by (simp add: seated_def one_occupant_def)
    then show ?thesis
      using leave_seat[OF r(1) assms(3) v(1) sh _ o] leave_seat_teams[OF r(2,1) assms(3) v(1) _ o t] False k by simp
  qed
  then show "seat_inv ?r" "user_nos ?r = user_nos r" using same_people_inv[OF assms(1)] k by blast+
qed

lemma close_pair_other:
  "m' \<noteq> m \<Longrightarrow> s' \<noteq> s \<Longrightarrow> close_pair_allowed close (apply_close_pair b (m, s) r) (m', s') = close_pair_allowed close r (m', s')"
  by (simp add: close_pair_allowed_def apply_close_pair_def)

lemma close_pairs_cases:
  obtains (one) p where "close_pairs request r = [p]" | (two) p q where "close_pairs request r = [p, q]"
  by (cases "team_mode r") (simp_all add: close_pairs_def)

lemma set_close_slots_accepted:
  assumes "fst (set_close_slots request r)"
  obtains (one) m s where "close_pairs request r = [(m, s)]" "m < 8" "s < 8"
      "close_pair_allowed (is_close (close_operation request)) r (m, s)"
      "snd (set_close_slots request r) = apply_close_pair (is_close (close_operation request)) (m, s) r"
  | (two) m s m' s' where "close_pairs request r = [(m, s), (m', s')]" "m < 8" "s < 8" "m' < 8" "s' < 8"
      "m' \<noteq> m" "s' \<noteq> s"
      "close_pair_allowed (is_close (close_operation request)) r (m, s)"
      "close_pair_allowed (is_close (close_operation request)) r (m', s')"
      "snd (set_close_slots request r) = apply_close_pair (is_close (close_operation request)) (m', s')
         (apply_close_pair (is_close (close_operation request)) (m, s) r)"
proof (cases rule: close_pairs_cases[of request r])
  case (one p)
  obtain m s where p: "p = (m, s)" by (cases p)
  have "m < 8 \<and> s < 8 \<and> close_pair_allowed (is_close (close_operation request)) r (m, s)"
    using assms one p by (simp add: set_close_slots_def Let_def ROOM_SLOT_COUNT_def split: if_split_asm)
  then show thesis using one p
    by (intro that(1)[of m s]) (simp_all add: set_close_slots_def Let_def ROOM_SLOT_COUNT_def)
next
  case (two p q)
  obtain m s where p: "p = (m, s)" by (cases p)
  obtain m' s' where q: "q = (m', s')" by (cases q)
  have c: "m < 8 \<and> s < 8 \<and> m' < 8 \<and> s' < 8 \<and> m' \<noteq> m \<and> s' \<noteq> s \<and>
      close_pair_allowed (is_close (close_operation request)) r (m, s) \<and>
      close_pair_allowed (is_close (close_operation request)) r (m', s')"
    using assms two p q by (auto simp: set_close_slots_def Let_def ROOM_SLOT_COUNT_def split: if_split_asm)
  then show thesis using two p q
    by (intro that(2)[of m s m' s']) (simp_all add: set_close_slots_def Let_def ROOM_SLOT_COUNT_def)
qed

theorem set_close_slots_inv:
  assumes "seat_inv r"
  shows "seat_inv (snd (set_close_slots request r))" "user_nos (snd (set_close_slots request r)) = user_nos r"
proof -
  have "seat_inv (snd (set_close_slots request r)) \<and> user_nos (snd (set_close_slots request r)) = user_nos r"
  proof (cases "fst (set_close_slots request r)")
    case True
    then show ?thesis
    proof (cases rule: set_close_slots_accepted)
      case (one m s)
      then show ?thesis using close_pair_inv[OF assms] by simp
    next
      case (two m s m' s')
      note f = close_pair_inv[OF assms two(2,3,8)]
      show ?thesis
        using f close_pair_inv[OF f(1) two(4,5)] two(9,10) close_pair_other[OF two(6,7)] by simp
    qed
  next
    case False
    then have "snd (set_close_slots request r) = r"
      by (auto simp: set_close_slots_def Let_def split: if_split_asm)
    then show ?thesis using assms by simp
  qed
  then show "seat_inv (snd (set_close_slots request r))"
    "user_nos (snd (set_close_slots request r)) = user_nos r" by blast+
qed

section \<open>Starting grids\<close>

lemma rank_from_other: "j \<notin> set is \<Longrightarrow> rank_from n is ms ! j = ms ! j"
  by (induction "is" arbitrary: n ms) simp_all

lemma rank_from_length [simp]: "length (rank_from n is ms) = length ms"
  by (induction "is" arbitrary: n ms) simp_all

lemma rank_from_nth:
  "distinct is \<Longrightarrow> set is \<subseteq> {..<length ms} \<Longrightarrow> k < length is \<Longrightarrow>
   rank_from n is ms ! (is ! k) = set_ranking (n + k) (ms ! (is ! k))"
proof (induction "is" arbitrary: n ms k)
  case (Cons i "is")
  show ?case
  proof (cases k)
    case 0
    then show ?thesis using Cons(2,3) by (simp add: rank_from_other)
  next
    case (Suc k')
    then have "is ! k' \<noteq> i" using Cons(2,4) by (metis distinct.simps(2) nth_mem Suc_less_eq length_Cons)
    then show ?thesis using Cons(1)[of "ms[i := set_ranking n (ms ! i)]" k' "Suc n"] Cons(2-4) Suc by simp
  qed
qed simp

abbreviation grid_rank :: "protocol_room_member \<Rightarrow> i32" where
  "grid_rank m \<equiv> player_ranking (m_player m)"

text \<open>The members of an array of options are read off the indices it occupies.\<close>

definition occupied :: "'a option list \<Rightarrow> nat list" where
  "occupied xs = filter (\<lambda>i. xs ! i \<noteq> None) [0..<length xs]"

lemma flatten_occupied: "flatten xs = map (\<lambda>i. the (xs ! i)) (occupied xs)"
proof (induction xs rule: rev_induct)
  case (snoc x xs)
  have "filter (\<lambda>i. (xs @ [x]) ! i \<noteq> None) [0..<length xs] = occupied xs"
    unfolding occupied_def by (rule filter_cong) (auto simp: nth_append)
  moreover have "map (\<lambda>i. the ((xs @ [x]) ! i)) (occupied xs) = map (\<lambda>i. the (xs ! i)) (occupied xs)"
    by (auto simp: occupied_def nth_append)
  ultimately show ?case using snoc by (cases x) (simp_all add: occupied_def)
qed (simp add: occupied_def)

lemma rankings_indices: "map snd (occupied_rankings ms) = occupied ms"
proof -
  have "map snd (List.map_filter (\<lambda>(i, m). map_option (\<lambda>m. (grid_rank m, i)) m) (enumerate n ms)) =
      map (\<lambda>i. n + i) (occupied ms)" for n
  proof (induction ms rule: rev_induct)
    case (snoc x xs)
    have "filter (\<lambda>i. (xs @ [x]) ! i \<noteq> None) [0..<length xs] = occupied xs"
      unfolding occupied_def by (rule filter_cong) (auto simp: nth_append)
    then show ?case using snoc
      by (cases x) (simp_all add: occupied_def enumerate_append_eq List.map_filter_def)
  qed (simp add: occupied_def map_filter_simps)
  from this[of 0] show ?thesis by (simp add: occupied_rankings_def)
qed

text \<open>The ranks of a room are the numbers below the number of its racers.\<close>

definition ranks_ok :: "protocol_room \<Rightarrow> bool" where
  "ranks_ok r \<longleftrightarrow> mset (map grid_rank (flatten (members_by_id r))) = mset (map int [0..<length (flatten (members_by_id r))])"

lemma rank_from_ranks:
  assumes "mset is = mset (occupied ms)"
  shows "mset (map grid_rank (flatten (rank_from 0 is ms))) = mset (map int [0..<length (flatten (rank_from 0 is ms))])"
proof -
  have dist: "distinct is" "set is \<subseteq> {..<length ms}" "set is = set (occupied ms)" "length is = length (occupied ms)"
    using assms by (metis occupied_def distinct_filter distinct_upt mset_eq_imp_distinct_iff)
      (use mset_eq_setD[OF assms] mset_eq_length[OF assms] in \<open>auto simp: occupied_def\<close>)
  have some: "rank_from 0 is ms ! (is ! k) = set_ranking k (ms ! (is ! k))" if "k < length is" for k
    using rank_from_nth[OF dist(1,2) that, of 0] by simp
  have occ: "(rank_from 0 is ms ! i = None) = (ms ! i = None)" if "i < length ms" for i
  proof (cases "i \<in> set is")
    case True
    then obtain k where "k < length is" "is ! k = i" by (auto simp: in_set_conv_nth)
    then show ?thesis using some[of k] by (simp add: set_ranking_def)
  qed (simp add: rank_from_other)
  have o: "occupied (rank_from 0 is ms) = occupied ms"
    unfolding occupied_def rank_from_length by (rule filter_cong) (use occ in auto)
  have "mset (map grid_rank (flatten (rank_from 0 is ms))) =
      image_mset (\<lambda>i. grid_rank (the (rank_from 0 is ms ! i))) (mset is)"
    unfolding flatten_occupied o assms by (simp add: image_mset.compositionality comp_def)
  also have "\<dots> = mset (map (\<lambda>k. grid_rank (the (rank_from 0 is ms ! (is ! k)))) [0..<length is])"
    by (metis (no_types, lifting) map_nth map_map comp_apply map_cong mset_map)
  also have "map (\<lambda>k. grid_rank (the (rank_from 0 is ms ! (is ! k)))) [0..<length is] = map int [0..<length is]"
  proof (rule map_cong[OF refl])
    fix k assume "k \<in> set [0..<length is]"
    then have k: "k < length is" by simp
    then have "is ! k \<in> set (occupied ms)" using dist(3) nth_mem by blast
    then obtain m where "ms ! (is ! k) = Some m" by (auto simp: occupied_def)
    then show "grid_rank (the (rank_from 0 is ms ! (is ! k))) = int k" by (simp add: some[OF k] set_ranking_def)
  qed
  finally show ?thesis unfolding flatten_occupied o by (simp add: dist(4))
qed

lemma mset_sorted_indices: "mset (map snd (sort xs)) = mset (map snd (xs :: (i32 \<times> nat) list))"
  by (metis mset_map mset_sort)

theorem remove_user_ranks:
  assumes "seat_inv r" "first_index (is_user u) (observers r) = None" "u \<in> set (user_nos r)"
  shows "ranks_ok (snd (remove_user u r))"
proof -
  have "first_index (is_user u) (members_by_id r) \<noteq> None"
    using assms(2,3) by (auto simp: is_user_None_absent user_nos_def)
  then obtain i where "first_index (is_user u) (members_by_id r) = Some i" by blast
  from racer_left[OF assms(1,2) this] obtain r' where e: "remove_user u r = (True, r'\<lparr>members_by_id :=
       rank_from 0 (map snd (sort (occupied_rankings (members_by_id r')))) (members_by_id r')\<rparr>)" by blast
  have "mset (map snd (sort (occupied_rankings (members_by_id r')))) = mset (occupied (members_by_id r'))"
    by (simp only: mset_sorted_indices rankings_indices)
  from rank_from_ranks[OF this] show ?thesis by (simp add: e ranks_ok_def)
qed

lemma ranked_members_indices:
  "map snd (ranked_members ranking ms) =
     filter (\<lambda>i. map_of (by_player_id ranking) (int i) \<noteq> None) (occupied ms)"
proof -
  let ?f = "\<lambda>(i, m). case m of None \<Rightarrow> None | Some _ \<Rightarrow>
    map_option (\<lambda>result. (rk_rank result, i)) (map_of (by_player_id ranking) (int i))"
  have "map snd (List.map_filter ?f (enumerate 0 ms)) =
      filter (\<lambda>i. map_of (by_player_id ranking) (int i) \<noteq> None) (occupied ms)" for ms :: "protocol_room_member option list"
  proof (induction ms rule: rev_induct)
    case (snoc x xs)
    have "filter (\<lambda>i. (xs @ [x]) ! i \<noteq> None) [0..<length xs] = occupied xs"
      unfolding occupied_def by (rule filter_cong) (auto simp: nth_append)
    then show ?case using snoc
      by (cases x; cases "map_of (by_player_id ranking) (int (length xs))")
         (simp_all add: occupied_def enumerate_append_eq List.map_filter_def)
  qed (simp add: occupied_def List.map_filter_def)
  then show ?thesis by (simp add: ranked_members_def)
qed

theorem next_grid_inv:
  "seat_inv r \<Longrightarrow> seat_inv (apply_next_grid_ranking ranking r)"
  "user_nos (apply_next_grid_ranking ranking r) = user_nos r"
  using rank_from_inv same_roster_users[OF rank_from_roster] by (simp_all add: apply_next_grid_ranking_def)

theorem next_grid_ranks:
  assumes "\<And>i m. i < length (members_by_id r) \<Longrightarrow> members_by_id r ! i = Some m \<Longrightarrow>
    map_of (by_player_id ranking) (int i) \<noteq> None"
  shows "ranks_ok (apply_next_grid_ranking ranking r)"
proof -
  have "filter (\<lambda>i. map_of (by_player_id ranking) (int i) \<noteq> None) (occupied (members_by_id r)) =
      occupied (members_by_id r)"
    unfolding filter_id_conv occupied_def using assms by auto
  then have "mset (map snd (sort (ranked_members ranking (members_by_id r)))) = mset (occupied (members_by_id r))"
    by (simp only: mset_sorted_indices ranked_members_indices)
  from rank_from_ranks[OF this] show ?thesis by (simp add: apply_next_grid_ranking_def ranks_ok_def)
qed

lemma join_ranks:
  assumes "ranks_ok r" "seat_inv r" "admissible p"
  shows "ranks_ok (snd (add_participant u p r))"
proof (cases rule: add_participant_cases[of u p r])
  case (racer i s t)
  have r: "room_seats r" "teams_ok r" "presentable r" using assms(2) by (simp_all add: seat_inv_def)
  have i: "i < length (members_by_id r)" "members_by_id r ! i = None"
    using racer(2) room_seatsD(1)[OF r(1)] by (simp_all add: vacant_Some seated_def)
  let ?j = "racer_joined u p i s t r"
  have m: "mset (flatten (members_by_id ?j)) = add_mset (joining_racer u p t r) (mset (flatten (members_by_id r)))"
    using flatten_fill[OF i] by (simp add: racer_joined_def)
  then have "length (flatten (members_by_id ?j)) = Suc (length (flatten (members_by_id r)))"
    by (metis size_mset size_add_mset)
  then have "ranks_ok ?j" using assms(1) m
    by (simp add: ranks_ok_def joining_racer_def room_member_of_def)
  then show ?thesis using racer(4) by (simp add: ranks_ok_def Let_def)
qed (use assms(1) in \<open>simp_all add: ranks_ok_def\<close>)

section \<open>The next master\<close>

lemma in_candidates:
  "(k, f, p) \<in> set (master_candidates ranking ms) \<longleftrightarrow>
     (\<exists>i m res. i < length ms \<and> ms ! i = Some m \<and> p = int i \<and> map_of (by_player_id ranking) p = Some res \<and>
        (winning_team ranking = None \<or> rk_team res = winning_team ranking) \<and> k = rk_rank res \<and> f = rk_finish_time res)"
  unfolding master_candidates_def in_map_filter
proof (intro iffI)
  assume "\<exists>y\<in>set (enumerate 0 ms). (case y of (i, m) \<Rightarrow> case m of None \<Rightarrow> None | Some _ \<Rightarrow>
     (case map_of (by_player_id ranking) (int i) of None \<Rightarrow> None
      | Some ranked \<Rightarrow> (case winning_team ranking of
          Some team \<Rightarrow> if rk_team ranked \<noteq> Some team then None else Some (rk_rank ranked, rk_finish_time ranked, int i)
        | None \<Rightarrow> Some (rk_rank ranked, rk_finish_time ranked, int i)))) = Some (k, f, p)"
  then show "\<exists>i m res. i < length ms \<and> ms ! i = Some m \<and> p = int i \<and> map_of (by_player_id ranking) p = Some res \<and>
        (winning_team ranking = None \<or> rk_team res = winning_team ranking) \<and> k = rk_rank res \<and> f = rk_finish_time res"
    by (elim bexE, split prod.split_asm) (auto simp: in_set_enumerate_eq split: option.split_asm if_split_asm)
next
  assume "\<exists>i m res. i < length ms \<and> ms ! i = Some m \<and> p = int i \<and> map_of (by_player_id ranking) p = Some res \<and>
        (winning_team ranking = None \<or> rk_team res = winning_team ranking) \<and> k = rk_rank res \<and> f = rk_finish_time res"
  then obtain i m res where i: "i < length ms" "ms ! i = Some m" "p = int i" "map_of (by_player_id ranking) p = Some res"
    "winning_team ranking = None \<or> rk_team res = winning_team ranking" "k = rk_rank res" "f = rk_finish_time res" by blast
  have "(i, Some m) \<in> set (enumerate 0 ms)" using i by (simp add: in_set_enumerate_eq)
  moreover have "(case (i, Some m) of (i, m) \<Rightarrow> case m of None \<Rightarrow> None | Some _ \<Rightarrow>
     (case map_of (by_player_id ranking) (int i) of None \<Rightarrow> None
      | Some ranked \<Rightarrow> (case winning_team ranking of
          Some team \<Rightarrow> if rk_team ranked \<noteq> Some team then None else Some (rk_rank ranked, rk_finish_time ranked, int i)
        | None \<Rightarrow> Some (rk_rank ranked, rk_finish_time ranked, int i)))) = Some (k, f, p)"
    using i by (auto split: option.split)
  ultimately show "\<exists>y\<in>set (enumerate 0 ms). (case y of (i, m) \<Rightarrow> case m of None \<Rightarrow> None | Some _ \<Rightarrow>
     (case map_of (by_player_id ranking) (int i) of None \<Rightarrow> None
      | Some ranked \<Rightarrow> (case winning_team ranking of
          Some team \<Rightarrow> if rk_team ranked \<noteq> Some team then None else Some (rk_rank ranked, rk_finish_time ranked, int i)
        | None \<Rightarrow> Some (rk_rank ranked, rk_finish_time ranked, int i)))) = Some (k, f, p)" by blast
qed

text \<open>The next master is the candidate of the least rank, then finish time, then player ID.\<close>

theorem next_master_inv:
  assumes "seat_inv r"
  shows "seat_inv (snd (apply_next_lobby_master ranking r))"
    "user_nos (snd (apply_next_lobby_master ranking r)) = user_nos r"
    "case fst (apply_next_lobby_master ranking r) of None \<Rightarrow> snd (apply_next_lobby_master ranking r) = r
     | Some p \<Rightarrow> room_master (snd (apply_next_lobby_master ranking r)) = p \<and> member_by_player_id r p \<noteq> None"
proof -
  have r: "room_seats r" "teams_ok r" "presentable r" using assms by (simp_all add: seat_inv_def)
  have "seat_inv (snd (apply_next_lobby_master ranking r)) \<and>
    user_nos (snd (apply_next_lobby_master ranking r)) = user_nos r \<and>
    (case fst (apply_next_lobby_master ranking r) of None \<Rightarrow> snd (apply_next_lobby_master ranking r) = r
     | Some p \<Rightarrow> room_master (snd (apply_next_lobby_master ranking r)) = p \<and> member_by_player_id r p \<noteq> None)"
  proof (cases "int ROOM_SLOT_COUNT \<le> room_master r \<and> member_by_player_id r (room_master r) \<noteq> None")
    case True
    then show ?thesis using assms by (simp add: apply_next_lobby_master_def)
  next
    case False
    show ?thesis
    proof (cases "master_candidates ranking (members_by_id r)")
      case Nil
      then show ?thesis using assms by (simp add: apply_next_lobby_master_def if_not_P[OF False])
    next
      case (Cons c cs)
      obtain k f p where m: "fold min cs c = (k, f, p)" by (cases "fold min cs c")
      have "Min (set (c # cs)) \<in> set (c # cs)" by (rule Min_in) simp_all
      then have "(k, f, p) \<in> set (master_candidates ranking (members_by_id r))"
        by (simp only: Min.set_eq_fold m Cons)
      then obtain i m where i: "i < length (members_by_id r)" "members_by_id r ! i = Some m" "p = int i"
        unfolding in_candidates by blast
      then have "i < 8" using room_seatsD(1)[OF r(1)] by simp
      note s = seated_master(1)[OF r this i(2), of True] seated_master(2)[OF r this i(2)] member_lookup(1)[OF r(1) this]
      have "apply_next_lobby_master ranking r = (Some p, r\<lparr>room_master := p\<rparr>)"
        unfolding apply_next_lobby_master_def if_not_P[OF False] using Cons m by simp
      then show ?thesis using s i by simp
    qed
  qed
  then show "seat_inv (snd (apply_next_lobby_master ranking r))"
    "user_nos (snd (apply_next_lobby_master ranking r)) = user_nos r"
    "case fst (apply_next_lobby_master ranking r) of None \<Rightarrow> snd (apply_next_lobby_master ranking r) = r
     | Some p \<Rightarrow> room_master (snd (apply_next_lobby_master ranking r)) = p \<and> member_by_player_id r p \<noteq> None"
    by blast+
qed

section \<open>Track selection\<close>

lemma select_track_core:
  "members_by_id (snd (select_concrete_track draw cands r)) = members_by_id r"
  "ais_by_id (snd (select_concrete_track draw cands r)) = ais_by_id r"
  "closed_slots_by_id (snd (select_concrete_track draw cands r)) = closed_slots_by_id r"
  "observers (snd (select_concrete_track draw cands r)) = observers r"
  "slot_positions (snd (select_concrete_track draw cands r)) = slot_positions r"
  "room_master (snd (select_concrete_track draw cands r)) = room_master r"
  "settings (snd (select_concrete_track draw cands r)) = settings r"
  "room_id (snd (select_concrete_track draw cands r)) = room_id r"
  "phase (snd (select_concrete_track draw cands r)) = phase r"
  by (simp_all add: select_concrete_track_def Let_def)

lemma select_track_inv:
  "seat_inv (snd (select_concrete_track draw cands r)) = seat_inv r"
  "user_nos (snd (select_concrete_track draw cands r)) = user_nos r"
  by (simp_all add: seat_inv_core[OF select_track_core(1-6)] select_track_core)

end
