(* ===== verification/Lobby.thy ===== *)
theory Lobby
  imports RoomOps RaceStart OperationGate
begin

text \<open>
  The part of the world actor that owns the multiplayer rooms (\<open>crates/p4475-server/src/world.rs\<close>):
  the lobby commands, the room directory, and the outbound queues they reserve. A handler first plans
  (checks, builds the next room and every packet), then reserves one queue slot for each delivery, and
  only then commits; a plan is a value here, and \<open>run_plan\<close> reserves and commits it.
\<close>

section \<open>Sessions and their outbound queues\<close>

text \<open>
  A bounded channel with the slots still free, the batches sent and not yet received, and whether the
  receiver is gone. Sending through a reserved slot moves it to the queue.
\<close>

record outbound_channel =
  free_slots :: nat
  queue :: "bytes list list"
  receiver_gone :: bool

record session_state =
  outbound :: "outbound_channel option"
  outbound_operations :: "wire_gate option"

type_synonym session_table = "(u64, session_state) table"
type_synonym deliveries = "(u64 \<times> bytes list) list"

definition track_outbound :: "session_state \<Rightarrow> bool \<times> session_state" where
  "track_outbound st =
     (case outbound_operations st of
        None \<Rightarrow> (True, st)
      | Some g \<Rightarrow> (case try_begin_outbound g of (k, g) \<Rightarrow> (k \<noteq> None, st\<lparr>outbound_operations := Some g\<rparr>)))"

text \<open>Dropping the guard of a tracked batch.\<close>

definition untrack_outbound :: "session_state \<Rightarrow> session_state" where
  "untrack_outbound st = st\<lparr>outbound_operations := map_option (wire_release Outbound) (outbound_operations st)\<rparr>"

text \<open>One turn of the loop of \<open>reserve_outbound\<close>; where the batch is not tracked the permit is dropped.\<close>

definition reserve_one :: "u64 \<Rightarrow> session_table \<Rightarrow> bool \<times> session_table" where
  "reserve_one session ss =
     (case map_of ss session of
        None \<Rightarrow> (False, ss)
      | Some st \<Rightarrow>
          (case outbound st of
             None \<Rightarrow> (False, ss)
           | Some c \<Rightarrow>
               if receiver_gone c \<or> free_slots c = 0 then (False, ss)
               else
                 let (tracked, st) = track_outbound st
                 in if tracked then (True, tput session (st\<lparr>outbound := Some (c\<lparr>free_slots := free_slots c - 1\<rparr>)\<rparr>) ss)
                    else (False, tput session st ss)))"

definition release_one :: "u64 \<Rightarrow> session_table \<Rightarrow> session_table" where
  "release_one session ss =
     (case map_of ss session of
        None \<Rightarrow> ss
      | Some st \<Rightarrow> tput session (untrack_outbound (st\<lparr>outbound :=
          map_option (\<lambda>c. c\<lparr>free_slots := Suc (free_slots c)\<rparr>) (outbound st)\<rparr>)) ss)"

text \<open>The session that could not be reserved, after everything reserved before it is dropped.\<close>

fun reserve_outbound :: "deliveries \<Rightarrow> u64 list \<Rightarrow> session_table \<Rightarrow> (u64 + unit) \<times> session_table" where
  "reserve_outbound [] reserved ss = (Inr (), ss)"
| "reserve_outbound ((session, batch) # ds) reserved ss =
     (case reserve_one session ss of
        (True, ss) \<Rightarrow> reserve_outbound ds (session # reserved) ss
      | (False, ss) \<Rightarrow> (Inl session, fold release_one reserved ss))"

definition send_reserved :: "u64 \<times> bytes list \<Rightarrow> session_table \<Rightarrow> session_table" where
  "send_reserved = (\<lambda>(session, batch) ss.
     case map_of ss session of
       None \<Rightarrow> ss
     | Some st \<Rightarrow> tput session (st\<lparr>outbound := map_option (\<lambda>c. c\<lparr>queue := queue c @ [batch]\<rparr>) (outbound st)\<rparr>) ss)"

definition publish_reserved :: "deliveries \<Rightarrow> session_table \<Rightarrow> session_table" where
  "publish_reserved ds ss = fold send_reserved ds ss"

section \<open>The world\<close>

type_synonym resolved_random_tracks = "(u8 \<times> u32, u32 list \<times> u32 list) table"

record lobby_world =
  host_strings :: host
  identities :: identity_registry
  admitted_identity :: "identity_binding option"
  sessions :: session_table
  rooms :: "(u32, room_snapshot) table"
  room_by_identity :: "(ustring, u32) table"
  protocol_rooms :: "(u32, protocol_room) table"
  protocol_room_by_user :: "(u32, u32) table"
  free_protocol_room_ids :: "u16 list"
  next_room_id :: u32
  next_race_epoch :: "u64 option"
  reward_lanes :: "(u32, race_fence) table"
  observed_p2p_ports :: "(u32, identity_binding \<times> u16) table"
  world_random_tracks :: "resolved_random_tracks option"
  quiescing :: bool

record start_room_plan =
  plan_track_candidates :: "u32 list"
  plan_random_tracks :: "resolved_random_tracks option"
  plan_ai_specs :: "u32 list list"
  plan_ai_parameters :: basic_ai_mode_parameters
  plan_maximum_payload_length :: nat

datatype lobby_error =
  WorldQuiescing
| NotInRoom
| NotLobby room_phase
| HumanRacerRequired
| ObserverStateServerOwned
| PreparingStateServerOwned
| NotRoomMaster
| InvalidMasterTarget ustring
| InvalidKickTarget i32
| TeamModeRequired
| TeamFull room_team
| NoRacers
| AiParticipantsUnsupported
| RacerNotReady u32
| RaceEpochExhausted
| MissingTrackCandidates
| InactiveRosterMember u32
| RewardLaneOccupied u32 u32 u64
| OutboundUnavailable u64
| LobbyProtocol lobby_protocol_error
| LobbyRoomProtocol room_protocol_error
| LobbyRaceStart race_start_error

datatype lobby_command_payload =
  CommandSetSlotState player_slot_state
| CommandChangeTeam room_team
| CommandChangeMaster ustring
| CommandStartRoom start_room_plan
| CommandChangeTrack change_track_request
| CommandBasicAi basic_ai_request "room_ai \<times> room_ai"
| CommandCloseSlot close_slot_request
| CommandRiderTalk rider_talk_request
| CommandMacroChat macro_chat_request ustring
| CommandChangeRoomInfo change_room_info_request
| CommandKick i32

datatype lobby_outcome =
  SlotStateChanged u32 i32 player_slot_state
| TeamChanged u32 i32 room_team nat
| MasterChanged u32 i32 i32
| Started u32 u64 u32 nat nat
| TrackChanged u32 u32
| BasicAiChanged u32 bool nat
| ClosedSlotsChanged u32 bool nat
| MessageRelayed u32 nat
| RoomInfoChanged u32
| PlayerKicked u32 i32 ustring

definition lobby_protocol :: "lobby_protocol_error + 'a \<Rightarrow> lobby_error + 'a" where
  "lobby_protocol r = (case r of Inl e \<Rightarrow> Inl (LobbyProtocol e) | Inr x \<Rightarrow> Inr x)"

definition lobby_room_protocol :: "room_protocol_error + 'a \<Rightarrow> lobby_error + 'a" where
  "lobby_room_protocol r = (case r of Inl e \<Rightarrow> Inl (LobbyRoomProtocol e) | Inr x \<Rightarrow> Inr x)"

definition lobby_race_start :: "race_start_error + 'a \<Rightarrow> lobby_error + 'a" where
  "lobby_race_start r = (case r of Inl e \<Rightarrow> Inl (LobbyRaceStart e) | Inr x \<Rightarrow> Inr x)"

section \<open>Views of the directory\<close>

definition authorize_session_operation :: "u64 \<Rightarrow> lobby_world \<Rightarrow> identity_error + identity_binding" where
  "authorize_session_operation session w =
     (case admitted_identity w of
        Some b \<Rightarrow> if bind_owner b = session then Inr b else authorize (host_strings w) session (identities w)
      | None \<Rightarrow> authorize (host_strings w) session (identities w))"

definition protocol_room_id :: "identity_binding \<Rightarrow> lobby_world \<Rightarrow> lobby_error + u32" where
  "protocol_room_id identity w = ok_or NotInRoom (map_of (protocol_room_by_user w) (bind_user_no identity))"

definition require_lobby :: "protocol_room \<Rightarrow> lobby_error + unit" where
  "require_lobby r = (if phase r = LobbyPhase then Inr () else Inl (NotLobby (phase r)))"

definition require_lobby_master :: "protocol_room \<Rightarrow> u32 \<Rightarrow> lobby_error + i32" where
  "require_lobby_master r user_no =
     attempt (require_lobby r) (\<lambda>_.
     attempt (ok_or HumanRacerRequired (equipment_player_id r user_no)) (\<lambda>player_id.
     if room_master r \<noteq> player_id then Inl NotRoomMaster else Inr player_id))"

fun session_list :: "identity_registry \<Rightarrow> u32 list \<Rightarrow> lobby_error + (u32 \<times> u64) list" where
  "session_list ids [] = Inr []"
| "session_list ids (u # us) =
     (case active_identity_by_user_no u ids of
        None \<Rightarrow> Inl (InactiveRosterMember u)
      | Some b \<Rightarrow> attempt (session_list ids us) (\<lambda>rest. Inr ((u, bind_owner b) # rest)))"

definition active_room_sessions :: "protocol_room \<Rightarrow> lobby_world \<Rightarrow> lobby_error + (u32 \<times> u64) list" where
  "active_room_sessions r w = session_list (identities w) (user_nos r)"

definition same_batch_for_room :: "protocol_room \<Rightarrow> bytes list \<Rightarrow> lobby_world \<Rightarrow> lobby_error + deliveries" where
  "same_batch_for_room r batch w =
     attempt (active_room_sessions r w) (\<lambda>targets. Inr (map (\<lambda>(_, session). (session, batch)) targets))"

definition requester_then_room_snapshot ::
  "protocol_room \<Rightarrow> u32 \<Rightarrow> bytes \<Rightarrow> bytes \<Rightarrow> lobby_world \<Rightarrow> lobby_error + deliveries" where
  "requester_then_room_snapshot r requester requester_packet snap_packet w =
     attempt (active_room_sessions r w) (\<lambda>targets. Inr (map (\<lambda>(user_no, session).
       (session, if user_no = requester then [requester_packet, snap_packet] else [snap_packet])) targets))"

definition deliveries_for_users :: "u32 list \<Rightarrow> bytes list \<Rightarrow> lobby_world \<Rightarrow> deliveries" where
  "deliveries_for_users users batch w =
     List.map_filter (\<lambda>u. map_option (\<lambda>b. (bind_owner b, batch)) (active_identity_by_user_no u (identities w))) users"

section \<open>Plans\<close>

record lobby_plan =
  plan_deliveries :: deliveries
  plan_commit :: "lobby_world \<Rightarrow> lobby_world"
  plan_outcome :: lobby_outcome

definition run_plan :: "lobby_error + lobby_plan \<Rightarrow> lobby_world \<Rightarrow> (lobby_error + lobby_outcome) \<times> lobby_world" where
  "run_plan p w =
     (case p of
        Inl e \<Rightarrow> (Inl e, w)
      | Inr p \<Rightarrow>
          (case reserve_outbound (plan_deliveries p) [] (sessions w) of
             (Inl session, ss) \<Rightarrow> (Inl (OutboundUnavailable session), w\<lparr>sessions := ss\<rparr>)
           | (Inr _, ss) \<Rightarrow>
               let w = plan_commit p (w\<lparr>sessions := ss\<rparr>)
               in (Inr (plan_outcome p), w\<lparr>sessions := publish_reserved (plan_deliveries p) (sessions w)\<rparr>)))"

definition put_room :: "u32 \<Rightarrow> protocol_room \<Rightarrow> lobby_world \<Rightarrow> lobby_world" where
  "put_room rid r w = w\<lparr>protocol_rooms := tput rid r (protocol_rooms w)\<rparr>"

text \<open>\<open>protocol_room_id(identity)?\<close> and the room it names, which the code expects to exist.\<close>

definition with_room ::
  "identity_binding \<Rightarrow> lobby_world \<Rightarrow> (u32 \<Rightarrow> protocol_room \<Rightarrow> (lobby_error + lobby_plan) may_panic) \<Rightarrow> (lobby_error + lobby_plan) may_panic" where
  "with_room identity w f =
     (case protocol_room_id identity w of
        Inl e \<Rightarrow> Returns (Inl e)
      | Inr rid \<Rightarrow>
          (case map_of (protocol_rooms w) rid of
             None \<Rightarrow> Panics
           | Some r \<Rightarrow> f rid r))"

section \<open>Member commands\<close>

definition set_player_type :: "i32 \<Rightarrow> nat \<Rightarrow> protocol_room \<Rightarrow> protocol_room" where
  "set_player_type t i r = r\<lparr>members_by_id := (members_by_id r)[i :=
     map_option (\<lambda>m. m\<lparr>m_player := (m_player m)\<lparr>player_type := t\<rparr>\<rparr>) (members_by_id r ! i)]\<rparr>"

definition set_slot_state :: "identity_binding \<Rightarrow> player_slot_state \<Rightarrow> lobby_world \<Rightarrow> (lobby_error + lobby_plan) may_panic" where
  "set_slot_state identity state w = with_room identity w (\<lambda>rid r. Returns (
     attempt (require_lobby r) (\<lambda>_.
     attempt (ensure (observer_id r (bind_user_no identity) = None) HumanRacerRequired) (\<lambda>_.
     attempt (case state of NotReady \<Rightarrow> Inr () | Ready \<Rightarrow> Inr () | Observer \<Rightarrow> Inl ObserverStateServerOwned
       | Preparing \<Rightarrow> Inl PreparingStateServerOwned) (\<lambda>_.
     attempt (ok_or HumanRacerRequired (member_id r (bind_user_no identity))) (\<lambda>i.
     let next = set_player_type (slot_state_wire state) i r in
     attempt (lobby_protocol (serialize_slot_state (slot_states next))) (\<lambda>state_packet.
     attempt (lobby_protocol (serialize_set_slot_state_reply (bind_user_no identity) True (int i) state)) (\<lambda>reply_packet.
     attempt (lobby_room_protocol (serialize_gr_slot_data (slot_data next))) (\<lambda>slot_packet.
     attempt (same_batch_for_room next [state_packet, reply_packet, slot_packet] w) (\<lambda>ds.
     Inr \<lparr>plan_deliveries = ds, plan_commit = put_room rid next,
       plan_outcome = SlotStateChanged rid (int i) state\<rparr>))))))))))"

text \<open>The move of a racer to a free slot of the other half.\<close>

definition move_to_team :: "nat \<Rightarrow> nat \<Rightarrow> nat \<Rightarrow> room_team \<Rightarrow> protocol_room \<Rightarrow> protocol_room" where
  "move_to_team i current target team r =
     (let r = r\<lparr>slot_positions := (slot_positions r)[current := None]\<rparr>;
          r = r\<lparr>slot_positions := (slot_positions r)[target := Some i]\<rparr>
      in r\<lparr>members_by_id := (members_by_id r)[i := map_option (\<lambda>m. m\<lparr>m_player :=
           (m_player m)\<lparr>player_team := team_wire team, player_type := slot_state_wire NotReady\<rparr>\<rparr>) (members_by_id r ! i)]\<rparr>)"

definition team_range :: "room_team \<Rightarrow> protocol_room \<Rightarrow> nat option" where
  "team_range team r =
     (case team of Blue \<Rightarrow> free_slot_in 0 (ROOM_SLOT_COUNT div 2) (slot_positions r)
      | Red \<Rightarrow> free_slot_in (ROOM_SLOT_COUNT div 2) ROOM_SLOT_COUNT (slot_positions r))"

definition change_team :: "identity_binding \<Rightarrow> room_team \<Rightarrow> lobby_world \<Rightarrow> (lobby_error + lobby_plan) may_panic" where
  "change_team identity team w = with_room identity w (\<lambda>rid r.
     case attempt (require_lobby r) (\<lambda>_.
          attempt (ensure (team_mode r) TeamModeRequired) (\<lambda>_.
          ok_or HumanRacerRequired (member_id r (bind_user_no identity)))) of
       Inl e \<Rightarrow> Returns (Inl e)
     | Inr i \<Rightarrow>
         (case (first_index (\<lambda>p. p = Some i) (slot_positions r), members_by_id r ! i) of
            (Some current, Some m) \<Rightarrow> Returns (
              attempt (if player_team (m_player m) = team_wire team then Inr (current, r)
                       else attempt (ok_or (TeamFull team) (team_range team r)) (\<lambda>target.
                         Inr (target, move_to_team i current target team r))) (\<lambda>(target, next).
              attempt (lobby_protocol (serialize_change_team_reply (int i) team (wire_slot_positions next))) (\<lambda>team_packet.
              attempt (lobby_room_protocol (serialize_gr_slot_data (slot_data next))) (\<lambda>slot_packet.
              attempt (requester_then_room_snapshot next (bind_user_no identity) team_packet slot_packet w) (\<lambda>ds.
              Inr \<lparr>plan_deliveries = ds, plan_commit = put_room rid next,
                plan_outcome = TeamChanged rid (int i) team target\<rparr>)))))
          | _ \<Rightarrow> Panics))"

definition named_member :: "host \<Rightarrow> ustring \<Rightarrow> protocol_room_member option \<Rightarrow> bool" where
  "named_member h key m = (case m of None \<Rightarrow> False
     | Some m \<Rightarrow> canonical_nickname_key h (player_nickname (m_player m)) = key)"

definition change_master :: "identity_binding \<Rightarrow> ustring \<Rightarrow> lobby_world \<Rightarrow> (lobby_error + lobby_plan) may_panic" where
  "change_master identity target_nickname w = with_room identity w (\<lambda>rid r. Returns (
     attempt (require_lobby r) (\<lambda>_.
     attempt (ok_or HumanRacerRequired (member_id r (bind_user_no identity))) (\<lambda>requester_id.
     attempt (ensure (room_master r = int requester_id) NotRoomMaster) (\<lambda>_.
     let target_key = canonical_nickname_key (host_strings w) target_nickname in
     attempt (ok_or (InvalidMasterTarget target_nickname)
       (first_index (named_member (host_strings w) target_key) (members_by_id r))) (\<lambda>target_id.
     let next = set_player_type (slot_state_wire NotReady) requester_id r;
         next = set_player_type (slot_state_wire NotReady) target_id next;
         previous_player_id = room_master next;
         next = next\<lparr>room_master := int target_id\<rparr> in
     attempt (lobby_room_protocol (serialize_gr_slot_data (slot_data next))) (\<lambda>slot_packet.
     attempt (same_batch_for_room next [slot_packet] w) (\<lambda>ds.
     Inr \<lparr>plan_deliveries = ds, plan_commit = put_room rid next,
       plan_outcome = MasterChanged rid previous_player_id (int target_id)\<rparr>))))))))"

section \<open>Master commands\<close>

definition change_track :: "identity_binding \<Rightarrow> change_track_request \<Rightarrow> lobby_world \<Rightarrow> (lobby_error + lobby_plan) may_panic" where
  "change_track identity request w = with_room identity w (\<lambda>rid r. Returns (
     attempt (require_lobby_master r (bind_user_no identity)) (\<lambda>_.
     let next = r\<lparr>settings := (settings r)\<lparr>rs_track := track_track request,
           rs_room_data_header := track_room_data_header request, rs_room_data := track_room_data request\<rparr>\<rparr> in
     attempt (lobby_room_protocol (serialize_gr_slot_data (slot_data next))) (\<lambda>slot_packet.
     attempt (same_batch_for_room next [slot_packet] w) (\<lambda>ds.
     Inr \<lparr>plan_deliveries = ds, plan_commit = put_room rid next,
       plan_outcome = TrackChanged rid (track_track request)\<rparr>)))))"

text \<open>The room after a basic-AI request, with the packet that tells of the change.\<close>

definition basic_ai_change ::
  "basic_ai_request \<Rightarrow> room_ai \<times> room_ai \<Rightarrow> protocol_room \<Rightarrow> (lobby_error + (bytes option \<times> protocol_room)) may_panic" where
  "basic_ai_change request candidates r =
     (case remove_ai (basic_player_id request) r of
        Panics \<Rightarrow> Panics
      | Returns (Some player_id, next) \<Rightarrow> Returns (
          attempt (lobby_protocol (serialize_basic_ai_removed player_id (wire_slot_positions next))) (\<lambda>packet.
          Inr (Some packet, next)))
      | Returns (None, next) \<Rightarrow> Returns (
          case add_basic_ais [fst candidates, snd candidates] next of
            (None, _) \<Rightarrow> Inr (None, next)
          | (Some added, attempted) \<Rightarrow>
              attempt (lobby_protocol (serialize_basic_ai_added added (wire_slot_positions attempted))) (\<lambda>packet.
              Inr (Some packet, attempted))))"

definition change_basic_ai ::
  "identity_binding \<Rightarrow> basic_ai_request \<Rightarrow> room_ai \<times> room_ai \<Rightarrow> lobby_world \<Rightarrow> (lobby_error + lobby_plan) may_panic" where
  "change_basic_ai identity request candidates w = with_room identity w (\<lambda>rid r.
     case require_lobby_master r (bind_user_no identity) of
       Inl e \<Rightarrow> Returns (Inl e)
     | Inr _ \<Rightarrow>
         (case basic_ai_change request candidates r of
            Panics \<Rightarrow> Panics
          | Returns (Inl e) \<Rightarrow> Returns (Inl e)
          | Returns (Inr (delta_packet, next)) \<Rightarrow> Returns (
              let changed = (delta_packet \<noteq> None);
                  packets = (case delta_packet of None \<Rightarrow> [] | Some packet \<Rightarrow> [packet]) @ [serialize_basic_ai_reply changed] in
              attempt (same_batch_for_room next packets w) (\<lambda>ds.
              Inr \<lparr>plan_deliveries = ds, plan_commit = (if changed then put_room rid next else id),
                plan_outcome = BasicAiChanged rid changed (ai_count next)\<rparr>))))"

definition change_closed_slots :: "identity_binding \<Rightarrow> close_slot_request \<Rightarrow> lobby_world \<Rightarrow> (lobby_error + lobby_plan) may_panic" where
  "change_closed_slots identity request w = with_room identity w (\<lambda>rid r. Returns (
     attempt (require_lobby_master r (bind_user_no identity)) (\<lambda>_.
     let (ok, next) = set_close_slots request r;
         next = (if ok then next else r);
         second = (if team_mode r then second_member_id request else first_member_id request);
         closed = closed_slot_ids next in
     attempt (lobby_protocol (serialize_close_slot_reply (bind_user_no identity) ok (first_member_id request) second
       (close_operation request) (map of_nat closed))) (\<lambda>reply.
     attempt (same_batch_for_room next [reply] w) (\<lambda>ds.
     Inr \<lparr>plan_deliveries = ds, plan_commit = (if ok then put_room rid next else id),
       plan_outcome = ClosedSlotsChanged rid ok (length closed)\<rparr>)))))"

definition change_room_info ::
  "identity_binding \<Rightarrow> change_room_info_request \<Rightarrow> lobby_world \<Rightarrow> (lobby_error + lobby_plan) may_panic" where
  "change_room_info identity request w = with_room identity w (\<lambda>rid r. Returns (
     attempt (require_lobby_master r (bind_user_no identity)) (\<lambda>_.
     let next = r\<lparr>settings := (settings r)\<lparr>rs_room_name := info_room_name request, rs_password := info_password request\<rparr>\<rparr> in
     attempt (lobby_protocol (serialize_change_room_info_reply request)) (\<lambda>reply.
     attempt (same_batch_for_room next [reply] w) (\<lambda>ds.
     Inr \<lparr>plan_deliveries = ds, plan_commit = put_room rid next, plan_outcome = RoomInfoChanged rid\<rparr>)))))"

definition free_room_id :: "u32 \<Rightarrow> lobby_world \<Rightarrow> lobby_world" where
  "free_room_id rid w = w\<lparr>free_protocol_room_ids := List.insort_insert (ucast rid) (free_protocol_room_ids w)\<rparr>"

definition drop_room :: "u32 \<Rightarrow> lobby_world \<Rightarrow> lobby_world" where
  "drop_room rid w = free_room_id rid (w\<lparr>protocol_rooms := tdel rid (protocol_rooms w)\<rparr>)"

definition commit_kick :: "u32 \<Rightarrow> u32 \<Rightarrow> protocol_room \<Rightarrow> lobby_world \<Rightarrow> lobby_world" where
  "commit_kick target_user rid next w =
     (let w = w\<lparr>protocol_room_by_user := tdel target_user (protocol_room_by_user w)\<rparr>
      in if room_is_empty next then drop_room rid w else put_room rid next w)"

text \<open>What the others get, the requester's reply after the broadcast, and what the kicked player gets.\<close>

definition kick_deliveries ::
  "u32 \<Rightarrow> u32 \<Rightarrow> u64 \<Rightarrow> bytes \<Rightarrow> bytes \<Rightarrow> bytes \<Rightarrow> bytes \<Rightarrow> (u32 \<times> u64) list \<Rightarrow> deliveries" where
  "kick_deliveries requester target_user target_session leave broadcast reply slots targets =
     map (\<lambda>(u, session). (session, if u = requester then [broadcast, reply, slots] else [broadcast, slots])) targets @
     [(target_session, if target_user = requester then [leave, reply] else [leave])]"

definition kick_player :: "identity_binding \<Rightarrow> i32 \<Rightarrow> lobby_world \<Rightarrow> (lobby_error + lobby_plan) may_panic" where
  "kick_player identity target_player_id w = with_room identity w (\<lambda>rid r. Returns (
     attempt (require_lobby_master r (bind_user_no identity)) (\<lambda>_.
     attempt (ensure (0 \<le> target_player_id \<and> target_player_id < int ROOM_SLOT_COUNT) (InvalidKickTarget target_player_id)) (\<lambda>_.
     attempt (ok_or (InvalidKickTarget target_player_id) (members_by_id r ! nat target_player_id)) (\<lambda>target.
     attempt (ok_or (InactiveRosterMember (m_user_no target))
       (map_option bind_owner (active_identity_by_user_no (m_user_no target) (identities w)))) (\<lambda>target_session.
     let next = snd (remove_user (m_user_no target) r) in
     attempt (lobby_protocol (serialize_kick_broadcast (player_nickname (m_player target)))) (\<lambda>broadcast.
     attempt (lobby_room_protocol (serialize_gr_slot_data (slot_data next))) (\<lambda>slot_packet.
     attempt (active_room_sessions next w) (\<lambda>targets.
     Inr \<lparr>plan_deliveries = kick_deliveries (bind_user_no identity) (m_user_no target) target_session
         (serialize_ch_leave_room_reply True) broadcast serialize_kick_reply slot_packet targets,
       plan_commit = commit_kick (m_user_no target) rid next,
       plan_outcome = PlayerKicked rid target_player_id (player_nickname (m_player target))\<rparr>)))))))))"

section \<open>Chat\<close>

definition relay_rider_talk :: "identity_binding \<Rightarrow> rider_talk_request \<Rightarrow> lobby_world \<Rightarrow> (lobby_error + lobby_plan) may_panic" where
  "relay_rider_talk identity request w = with_room identity w (\<lambda>rid r. Returns (
     attempt (ok_or HumanRacerRequired (equipment_player_id r (bind_user_no identity))) (\<lambda>player_id.
     attempt (lobby_protocol (serialize_rider_echo player_id (talk_message request))) (\<lambda>packet.
     attempt (active_room_sessions r w) (\<lambda>targets.
     let ds = map (\<lambda>(_, session). (session, [packet])) (filter (\<lambda>(u, _). u \<noteq> bind_user_no identity) targets) in
     Inr \<lparr>plan_deliveries = ds, plan_commit = id, plan_outcome = MessageRelayed rid (length ds)\<rparr>)))))"

definition hears_macro :: "protocol_room \<Rightarrow> i32 \<Rightarrow> u8 \<Rightarrow> u32 \<Rightarrow> bool" where
  "hears_macro r chat_type sender_team u \<longleftrightarrow> chat_type = 0 \<or> sender_team = 0 \<or>
     (case member_by_user_no r u of None \<Rightarrow> False | Some m \<Rightarrow> player_team (m_player m) = sender_team)"

definition relay_macro_chat ::
  "identity_binding \<Rightarrow> macro_chat_request \<Rightarrow> ustring \<Rightarrow> lobby_world \<Rightarrow> (lobby_error + lobby_plan) may_panic" where
  "relay_macro_chat identity request resolved_message w = with_room identity w (\<lambda>rid r. Returns (
     attempt (ok_or HumanRacerRequired (member_by_user_no r (bind_user_no identity))) (\<lambda>sender.
     attempt (lobby_protocol (serialize_macro_chat_relay (bind_user_no identity) (macro_chat_type request)
       (macro_message_id request) resolved_message)) (\<lambda>packet.
     attempt (active_room_sessions r w) (\<lambda>targets.
     let ds = map (\<lambda>(_, session). (session, [packet])) (filter (\<lambda>(u, _). u \<noteq> bind_user_no identity \<and>
           hears_macro r (macro_chat_type request) (player_team (m_player sender)) u) targets) in
     Inr \<lparr>plan_deliveries = ds, plan_commit = id, plan_outcome = MessageRelayed rid (length ds)\<rparr>)))))"

section \<open>Starting a race\<close>

text \<open>\<open>ResolvedRandomTracks::candidates\<close>.\<close>

definition random_candidates :: "resolved_random_tracks \<Rightarrow> u8 \<Rightarrow> u32 \<Rightarrow> bool \<Rightarrow> u32 list" where
  "random_candidates pools mode selector basic_ai_only =
     (case map_of pools (of_bool (mode = 2 \<or> mode = 4), selector) of
        None \<Rightarrow> []
      | Some (hashes, basic_ai_hashes) \<Rightarrow>
          if basic_ai_only \<and> basic_ai_hashes \<noteq> [] then basic_ai_hashes else hashes)"

definition select_start_track ::
  "(nat \<Rightarrow> nat) \<Rightarrow> protocol_room \<Rightarrow> start_room_plan \<Rightarrow> (lobby_error + u32) \<times> protocol_room" where
  "select_start_track draw r p =
     (let catalog = map_option (\<lambda>pools. random_candidates pools (rs_game_type (settings r)) (rs_track (settings r))
            (ai_count r \<noteq> 0)) (plan_random_tracks p);
          candidates = (case catalog of None \<Rightarrow> plan_track_candidates p
            | Some cs \<Rightarrow> if cs = [] then plan_track_candidates p else cs)
      in case select_concrete_track draw candidates r of
           (None, next) \<Rightarrow> (Inl MissingTrackCandidates, next)
         | (Some track, next) \<Rightarrow> (Inr track, next))"

fun check_start_racers ::
  "(u32, race_fence) table \<Rightarrow> i32 \<Rightarrow> (nat \<times> protocol_room_member option) list \<Rightarrow> lobby_error + unit" where
  "check_start_racers lanes requester [] = Inr ()"
| "check_start_racers lanes requester ((i, None) # rest) = check_start_racers lanes requester rest"
| "check_start_racers lanes requester ((i, Some m) # rest) =
     (if int i \<noteq> requester \<and> player_type (m_player m) \<noteq> slot_state_wire Ready
      then Inl (RacerNotReady (m_user_no m))
      else case map_of lanes (m_user_no m) of
             Some fence \<Rightarrow> Inl (RewardLaneOccupied (m_user_no m) (fence_room fence) (fence_epoch fence))
           | None \<Rightarrow> check_start_racers lanes requester rest)"

definition validate_start_racers :: "protocol_room \<Rightarrow> i32 \<Rightarrow> lobby_world \<Rightarrow> lobby_error + nat" where
  "validate_start_racers r requester w =
     (let racer_count = length (flatten (members_by_id r)) in
      if racer_count = 0 then Inl NoRacers
      else attempt (check_start_racers (reward_lanes w) requester (enumerate 0 (members_by_id r))) (\<lambda>_.
        Inr racer_count))"

definition frozen_racer :: "nat \<Rightarrow> protocol_room_member \<Rightarrow> identity_binding \<Rightarrow> frozen_race_participant" where
  "frozen_racer i m b = \<lparr>fp_identity = b, fp_nickname = player_nickname (m_player m), fp_player_id = int i,
     fp_observer = False, fp_team = player_team (m_player m),
     fp_result = Some \<lparr>fr_kart_id = of_le16 (take 2 (drop 4 (rider_item_snapshot (m_player m)))),
       fr_floater_codes = m_floater_codes m, fr_character_id = of_le16 (take 2 (rider_item_snapshot (m_player m))),
       fr_club_mark_logo = club_mark_logo (m_player m), fr_economy = EconomyPending\<rparr>\<rparr>"

definition frozen_observer :: "nat \<Rightarrow> protocol_room_member \<Rightarrow> identity_binding \<Rightarrow> frozen_race_participant" where
  "frozen_observer i m b = \<lparr>fp_identity = b, fp_nickname = player_nickname (m_player m),
     fp_player_id = int (ROOM_SLOT_COUNT + i), fp_observer = True, fp_team = 0, fp_result = None\<rparr>"

fun freeze_members ::
  "(nat \<Rightarrow> protocol_room_member \<Rightarrow> identity_binding \<Rightarrow> frozen_race_participant) \<Rightarrow> identity_registry \<Rightarrow>
   (nat \<times> protocol_room_member option) list \<Rightarrow> lobby_error + frozen_race_participant list" where
  "freeze_members freeze ids [] = Inr []"
| "freeze_members freeze ids ((i, None) # rest) = freeze_members freeze ids rest"
| "freeze_members freeze ids ((i, Some m) # rest) =
     (case active_identity_by_user_no (m_user_no m) ids of
        None \<Rightarrow> Inl (InactiveRosterMember (m_user_no m))
      | Some b \<Rightarrow> attempt (freeze_members freeze ids rest) (\<lambda>ps. Inr (freeze i m b # ps)))"

definition freeze_race_roster :: "protocol_room \<Rightarrow> race_fence \<Rightarrow> u32 \<Rightarrow> lobby_world \<Rightarrow> lobby_error + frozen_race_roster" where
  "freeze_race_roster r fence track w =
     attempt (freeze_members frozen_racer (identities w) (enumerate 0 (members_by_id r))) (\<lambda>racers.
     attempt (freeze_members frozen_observer (identities w) (enumerate 0 (observers r))) (\<lambda>watchers.
     Inr \<lparr>roster_fence = fence, concrete_track = track, participants = racers @ watchers,
       frozen_ais = List.map_filter (\<lambda>(i, ai). map_option (\<lambda>ai. \<lparr>fa_player_id = int i, fa_team = ai_team ai,
         fa_kart_id = ai_kart ai\<rparr>) ai) (enumerate 0 (ais_by_id r))\<rparr>))"

definition start_deliveries ::
  "identity_binding \<Rightarrow> protocol_room \<Rightarrow> frozen_race_roster \<Rightarrow> start_room_plan \<Rightarrow>
   frozen_race_participant \<Rightarrow> (lobby_error + (u64 \<times> bytes list)) may_panic" where
  "start_deliveries identity r frozen p participant =
     (case member_by_user_no r (bind_user_no (fp_identity participant)) of
        None \<Rightarrow> Panics
      | Some m \<Rightarrow> Returns (
          attempt (lobby_race_start (serialize_gr_command_start_bounded
            \<lparr>start_session = session_data r, start_slots = (slot_data r)\<lparr>sl_track := concrete_track frozen\<rparr>,
             start_kart_physics = kart_physics_for_room m (settings r),
             start_ai_specs = replicate (ai_count r)
               (race_spec_for_game_type (plan_ai_parameters p) (rs_game_type (settings r))),
             start_track = concrete_track frozen\<rparr> (plan_maximum_payload_length p))) (\<lambda>command.
          Inr (bind_owner (fp_identity participant),
            if bind_user_no (fp_identity participant) = bind_user_no identity
            then [serialize_start_room_reply StartSuccess, command] else [command]))))"

fun all_start_deliveries ::
  "identity_binding \<Rightarrow> protocol_room \<Rightarrow> frozen_race_roster \<Rightarrow> start_room_plan \<Rightarrow>
   frozen_race_participant list \<Rightarrow> (lobby_error + deliveries) may_panic" where
  "all_start_deliveries identity r frozen p [] = Returns (Inr [])"
| "all_start_deliveries identity r frozen p (participant # rest) =
     (case start_deliveries identity r frozen p participant of
        Panics \<Rightarrow> Panics
      | Returns (Inl e) \<Rightarrow> Returns (Inl e)
      | Returns (Inr d) \<Rightarrow>
          (case all_start_deliveries identity r frozen p rest of
             Panics \<Rightarrow> Panics
           | Returns ds \<Rightarrow> Returns (attempt ds (\<lambda>ds. Inr (d # ds)))))"

definition commit_start :: "u32 \<Rightarrow> protocol_room \<Rightarrow> frozen_race_roster \<Rightarrow> u64 option \<Rightarrow> lobby_world \<Rightarrow> lobby_world" where
  "commit_start rid next frozen following_race_epoch w =
     (let next = next\<lparr>phase := LoadingPhase, race_fence := Some (roster_fence frozen), frozen_race := Some frozen,
            race_progress := default_race_progress, loading_handshake := Dormant\<rparr>;
          w = put_room rid next w;
          humans = map (\<lambda>p. bind_user_no (fp_identity p)) (filter (\<lambda>p. \<not> fp_observer p) (participants frozen));
          w = w\<lparr>reward_lanes := fold (\<lambda>u. tput u (roster_fence frozen)) humans (reward_lanes w)\<rparr>
      in w\<lparr>next_race_epoch := following_race_epoch\<rparr>)"

text \<open>The part of \<open>start_room\<close> after the checks: the track, the frozen roster, the commands.\<close>

definition plan_start ::
  "(nat \<Rightarrow> nat) \<Rightarrow> identity_binding \<Rightarrow> start_room_plan \<Rightarrow> u32 \<Rightarrow> protocol_room \<Rightarrow> nat \<Rightarrow> u64 \<Rightarrow> lobby_world \<Rightarrow>
   (lobby_error + lobby_plan) may_panic" where
  "plan_start draw identity p rid r racer_count race_epoch w =
     (let following = checked_succ race_epoch;
          fence = \<lparr>fence_room = rid, fence_epoch = race_epoch\<rparr>;
          (selected, next) = select_start_track draw r p
      in case attempt selected (\<lambda>track. freeze_race_roster r fence track w) of
           Inl e \<Rightarrow> Returns (Inl e)
         | Inr frozen \<Rightarrow>
             (case all_start_deliveries identity r frozen p (participants frozen) of
                Panics \<Rightarrow> Panics
              | Returns ds \<Rightarrow> Returns (attempt ds (\<lambda>ds.
                  Inr \<lparr>plan_deliveries = ds, plan_commit = commit_start rid next frozen following,
                    plan_outcome = Started rid race_epoch (concrete_track frozen) racer_count
                      (length (filter fp_observer (participants frozen)))\<rparr>))))"

definition start_room ::
  "(nat \<Rightarrow> nat) \<Rightarrow> identity_binding \<Rightarrow> start_room_plan \<Rightarrow> lobby_world \<Rightarrow> (lobby_error + lobby_plan) may_panic" where
  "start_room draw identity p w =
     (if quiescing w then Returns (Inl WorldQuiescing)
      else with_room identity w (\<lambda>rid r.
        case attempt (require_lobby_master r (bind_user_no identity)) (\<lambda>requester.
             attempt (ensure (plan_ai_specs p = []) AiParticipantsUnsupported) (\<lambda>_.
             attempt (validate_start_racers r requester w) (\<lambda>racer_count.
             attempt (ok_or RaceEpochExhausted (next_race_epoch w)) (\<lambda>race_epoch.
             Inr (racer_count, race_epoch))))) of
          Inl e \<Rightarrow> Returns (Inl e)
        | Inr (racer_count, race_epoch) \<Rightarrow> plan_start draw identity p rid r racer_count race_epoch w))"

section \<open>The lobby commands\<close>

definition publish_start_rejection :: "u64 \<Rightarrow> lobby_world \<Rightarrow> (lobby_error + unit) \<times> lobby_world" where
  "publish_start_rejection session w =
     (let ds = [(session, [serialize_start_room_reply StartNotAllReady])]
      in case reserve_outbound ds [] (sessions w) of
           (Inl s, ss) \<Rightarrow> (Inl (OutboundUnavailable s), w\<lparr>sessions := ss\<rparr>)
         | (Inr _, ss) \<Rightarrow> (Inr (), w\<lparr>sessions := publish_reserved ds ss\<rparr>))"

definition is_outbound_unavailable :: "lobby_error \<Rightarrow> bool" where
  "is_outbound_unavailable e = (case e of OutboundUnavailable _ \<Rightarrow> True | _ \<Rightarrow> False)"

definition start_command ::
  "(nat \<Rightarrow> nat) \<Rightarrow> u64 \<Rightarrow> identity_binding \<Rightarrow> start_room_plan \<Rightarrow> lobby_world \<Rightarrow>
   ((lobby_error + lobby_outcome) \<times> lobby_world) may_panic" where
  "start_command draw session identity p w =
     (let p = (if world_random_tracks w \<noteq> None then p\<lparr>plan_random_tracks := world_random_tracks w\<rparr> else p)
      in case start_room draw identity p w of
           Panics \<Rightarrow> Panics
         | Returns planned \<Rightarrow> Returns (
             case run_plan planned w of
               (Inr outcome, w) \<Rightarrow> (Inr outcome, w)
             | (Inl e, w) \<Rightarrow>
                 if is_outbound_unavailable e then (Inl e, w)
                 else case publish_start_rejection session w of
                        (Inl e', w) \<Rightarrow> (Inl e', w)
                      | (Inr _, w) \<Rightarrow> (Inl e, w)))"

definition planned_command ::
  "(nat \<Rightarrow> nat) \<Rightarrow> identity_binding \<Rightarrow> lobby_command_payload \<Rightarrow> lobby_world \<Rightarrow> (lobby_error + lobby_plan) may_panic" where
  "planned_command draw identity c w =
     (case c of
        CommandSetSlotState state \<Rightarrow> set_slot_state identity state w
      | CommandChangeTeam team \<Rightarrow> change_team identity team w
      | CommandChangeMaster nickname \<Rightarrow> change_master identity nickname w
      | CommandStartRoom p \<Rightarrow> start_room draw identity p w
      | CommandChangeTrack request \<Rightarrow> change_track identity request w
      | CommandBasicAi request candidates \<Rightarrow> change_basic_ai identity request candidates w
      | CommandCloseSlot request \<Rightarrow> change_closed_slots identity request w
      | CommandRiderTalk request \<Rightarrow> relay_rider_talk identity request w
      | CommandMacroChat request message \<Rightarrow> relay_macro_chat identity request message w
      | CommandChangeRoomInfo request \<Rightarrow> change_room_info identity request w
      | CommandKick target \<Rightarrow> kick_player identity target w)"

datatype lobby_failure = NotAuthorized identity_error | LobbyFailure lobby_error

definition lobby_result :: "(lobby_error + lobby_outcome) \<times> lobby_world \<Rightarrow> (lobby_failure + lobby_outcome) \<times> lobby_world" where
  "lobby_result = (\<lambda>(r, w). (case r of Inl e \<Rightarrow> Inl (LobbyFailure e) | Inr x \<Rightarrow> Inr x, w))"

definition lobby_command ::
  "(nat \<Rightarrow> nat) \<Rightarrow> u64 \<Rightarrow> lobby_command_payload \<Rightarrow> lobby_world \<Rightarrow> ((lobby_failure + lobby_outcome) \<times> lobby_world) may_panic" where
  "lobby_command draw session c w =
     (case authorize_session_operation session w of
        Inl e \<Rightarrow> Returns (Inl (NotAuthorized e), w)
      | Inr identity \<Rightarrow>
          (case c of
             CommandStartRoom p \<Rightarrow>
               (case start_command draw session identity p w of Panics \<Rightarrow> Panics | Returns x \<Rightarrow> Returns (lobby_result x))
           | _ \<Rightarrow>
               (case planned_command draw identity c w of
                  Panics \<Rightarrow> Panics
                | Returns planned \<Rightarrow> Returns (lobby_result (run_plan planned w)))))"

end
