(* ===== verification/RoomDirectory.thy ===== *)
theory RoomDirectory
  imports Lobby
begin

text \<open>
  The room directory of the world actor (\<open>crates/p4475-server/src/world.rs\<close>): room identifiers,
  listing, creation, joining, leaving, first state, the room part of a migration and of a released
  identity, and the rooms of the internal slot protocol.

  \<open>deliver\<close> sends without a reservation and closes the sessions it cannot reach. Here it sends, drops
  those sessions from the table and returns them: what closing does to their identities is the
  identity registry's \<open>disconnect\<close> and, where that releases an identity, \<open>release_room_state\<close> below.
\<close>

section \<open>Unreserved sends\<close>

definition send_now :: "u64 \<times> bytes list \<Rightarrow> session_table \<Rightarrow> u64 list \<times> session_table" where
  "send_now = (\<lambda>(session, batch) ss.
     case map_of ss session of
       None \<Rightarrow> ([], ss)
     | Some st \<Rightarrow>
         (case outbound st of
            None \<Rightarrow> ([session], tdel session ss)
          | Some c \<Rightarrow>
              let (tracked, st) = track_outbound st
              in if \<not> tracked \<or> receiver_gone c \<or> free_slots c = 0 then ([session], tdel session ss)
                 else ([], tput session (st\<lparr>outbound := Some (c\<lparr>free_slots := free_slots c - 1,
                        queue := queue c @ [batch]\<rparr>)\<rparr>) ss)))"

fun deliver :: "deliveries \<Rightarrow> session_table \<Rightarrow> u64 list \<times> session_table" where
  "deliver [] ss = ([], ss)"
| "deliver (d # ds) ss =
     (let (failed, ss) = send_now d ss; (rest, ss) = deliver ds ss in (failed @ rest, ss))"

definition deliver_in :: "deliveries \<Rightarrow> lobby_world \<Rightarrow> u64 list \<times> lobby_world" where
  "deliver_in ds w = (let (failed, ss) = deliver ds (sessions w) in (failed, w\<lparr>sessions := ss\<rparr>))"

section \<open>Channels\<close>

definition expected_room_game_type :: "u8 \<Rightarrow> u8 option" where
  "expected_room_game_type c =
     (if c \<in> {67, 23, 14} then Some 1
      else if c \<in> {65, 8} then Some 2
      else if c \<in> {68, 24, 13} then Some 3
      else if c \<in> {66, 7} then Some 4
      else None)"

definition channel_default_speed_type :: "u8 \<Rightarrow> u8" where
  "channel_default_speed_type c = (if c = 23 \<or> c = 24 then 4 else 7)"

section \<open>The room list\<close>

definition listed_rooms :: "channel_binding \<Rightarrow> ch_get_room_list_request \<Rightarrow> lobby_world \<Rightarrow> protocol_room list" where
  "listed_rooms ch request w =
     (let found = filter (\<lambda>r. rs_channel (settings r) = ch \<and> rs_game_type (settings r) = room_list_type request)
            (map snd (protocol_rooms w))
      in take 10 (drop (nat (list_page request) * 10) (sort_key room_id found)))"

definition protocol_room_list ::
  "u64 \<Rightarrow> identity_binding \<Rightarrow> ch_get_room_list_request \<Rightarrow> lobby_world \<Rightarrow> (room_protocol_error + u64 list) \<times> lobby_world" where
  "protocol_room_list session identity request w =
     (let entries = (case bind_channel identity of
            None \<Rightarrow> []
          | Some ch \<Rightarrow>
              if expected_room_game_type (game_type ch) = Some (room_list_type request)
              then map list_entry (listed_rooms ch request w) else [])
      in case serialize_ch_get_room_list_reply (list_page request) entries of
           Inl e \<Rightarrow> (Inl e, w)
         | Inr packet \<Rightarrow> (case deliver_in [(session, [packet])] w of (failed, w) \<Rightarrow> (Inr failed, w)))"

section \<open>Room identifiers\<close>

definition room_id_taken :: "u32 \<Rightarrow> lobby_world \<Rightarrow> bool" where
  "room_id_taken rid w \<longleftrightarrow> map_of (rooms w) rid \<noteq> None \<or> map_of (protocol_rooms w) rid \<noteq> None"

text \<open>The freed identifiers are tried first, smallest first, and the taken ones are forgotten.\<close>

fun reuse_room_id :: "u16 list \<Rightarrow> lobby_world \<Rightarrow> u32 option \<times> u16 list" where
  "reuse_room_id [] w = (None, [])"
| "reuse_room_id (candidate # rest) w =
     (if room_id_taken (ucast candidate) w then reuse_room_id rest w else (Some (ucast candidate), rest))"

text \<open>The search from \<open>candidate\<close> through the non-zero 16-bit numbers, at most \<open>fuel\<close> of them.\<close>

fun search_room_id :: "nat \<Rightarrow> u16 \<Rightarrow> lobby_world \<Rightarrow> (u32 \<times> u32) option" where
  "search_room_id 0 candidate w = None"
| "search_room_id (Suc fuel) candidate w =
     (if room_id_taken (ucast candidate) w then search_room_id fuel (max (candidate + 1) 1) w
      else Some (ucast candidate, if candidate = - 1 then 1 else ucast candidate + 1))"

definition first_candidate :: "u32 \<Rightarrow> u16" where
  "first_candidate n = (if unat n < 2 ^ 16 \<and> n \<noteq> 0 then ucast n else 1)"

definition allocate_protocol_room_id :: "lobby_world \<Rightarrow> u32 option \<times> lobby_world" where
  "allocate_protocol_room_id w =
     (case reuse_room_id (free_protocol_room_ids w) w of
        (Some rid, rest) \<Rightarrow> (Some rid, w\<lparr>free_protocol_room_ids := rest\<rparr>)
      | (None, rest) \<Rightarrow>
          let w = w\<lparr>free_protocol_room_ids := rest\<rparr>
          in case search_room_id 65535 (first_candidate (next_room_id w)) w of
               None \<Rightarrow> (None, w)
             | Some (rid, following) \<Rightarrow> (Some rid, w\<lparr>next_room_id := following\<rparr>))"

section \<open>Creation and joining\<close>

definition observed_p2p_port :: "identity_binding \<Rightarrow> lobby_world \<Rightarrow> u16 option" where
  "observed_p2p_port identity w =
     (case map_of (observed_p2p_ports w) (bind_user_no identity) of
        None \<Rightarrow> None
      | Some (observed, port) \<Rightarrow> if observed = identity then Some port else None)"

definition prepare_participant :: "identity_binding \<Rightarrow> room_participant \<Rightarrow> lobby_world \<Rightarrow> room_participant" where
  "prepare_participant identity part w =
     (let port = (case observed_p2p_port identity w of Some port \<Rightarrow> port | None \<Rightarrow> p2p_port (part_player part));
          endpoint = legacy_p2p_endpoint (bind_source_ip identity) port
      in part\<lparr>part_player := (part_player part)\<lparr>player_user_no := bind_user_no identity,
           player_nickname := bind_nickname identity, p2p_address := ep_address endpoint, p2p_port := ep_port endpoint\<rparr>\<rparr>)"

definition created_settings :: "channel_binding \<Rightarrow> ch_create_room_request \<Rightarrow> room_settings" where
  "created_settings ch request = \<lparr>rs_channel = ch, rs_room_name = create_room_name request,
     rs_password = create_password request, rs_game_type = create_game_type request,
     rs_speed_type = (case csharp_room_title_speed_type (create_room_name request) of
       Some speed \<Rightarrow> speed | None \<Rightarrow> channel_default_speed_type (game_type ch)),
     rs_track = 0, rs_room_data_header = create_room_data_header request, rs_room_data = create_room_data request\<rparr>"

definition room_joined :: "u32 \<Rightarrow> u32 \<Rightarrow> protocol_room \<Rightarrow> lobby_world \<Rightarrow> lobby_world" where
  "room_joined user_no rid r w =
     (let w = put_room rid r w in w\<lparr>protocol_room_by_user := tput user_no rid (protocol_room_by_user w)\<rparr>)"

text \<open>What creation does before its reply: the outcome, or the error that ends it without one.\<close>

definition try_create ::
  "identity_binding \<Rightarrow> ch_create_room_request \<Rightarrow> room_participant \<Rightarrow> lobby_world \<Rightarrow>
   (room_protocol_error + create_room_outcome) \<times> lobby_world" where
  "try_create identity request part w =
     (case bind_channel identity of
        None \<Rightarrow> (Inr CreateRejected, w)
      | Some ch \<Rightarrow>
          if expected_room_game_type (game_type ch) \<noteq> Some (create_game_type request) \<or>
             map_of (protocol_room_by_user w) (bind_user_no identity) \<noteq> None
          then (Inr CreateRejected, w)
          else
            (case allocate_protocol_room_id w of
               (None, w) \<Rightarrow> (Inr CreateRejected, w)
             | (Some rid, w) \<Rightarrow>
                 let r = new_room rid (created_settings ch request);
                     part = prepare_participant identity part w
                 in case add_participant (bind_user_no identity) part r of
                      (False, _) \<Rightarrow> (Inr CreateRejected, free_room_id rid w)
                    | (True, r) \<Rightarrow>
                        (case serialize_gr_slot_data (slot_data r) of
                           Inl e \<Rightarrow> (Inl e, free_room_id rid w)
                         | Inr _ \<Rightarrow> (Inr CreateAccepted, room_joined (bind_user_no identity) rid r w))))"

definition protocol_create_room ::
  "u64 \<Rightarrow> identity_binding \<Rightarrow> ch_create_room_request \<Rightarrow> room_participant \<Rightarrow> lobby_world \<Rightarrow>
   (room_protocol_error + u64 list) \<times> lobby_world" where
  "protocol_create_room session identity request part w =
     (case try_create identity request part w of
        (Inl e, w) \<Rightarrow> (Inl e, w)
      | (Inr outcome, w) \<Rightarrow>
          (case deliver_in [(session, [serialize_ch_create_room_reply outcome (create_game_type request)])] w of
             (failed, w) \<Rightarrow> (Inr failed, w)))"

definition join_admission ::
  "identity_binding \<Rightarrow> ch_join_room_request \<Rightarrow> room_participant \<Rightarrow> lobby_world \<Rightarrow>
   room_protocol_error + (join_room_status \<times> u8 \<times> protocol_room option)" where
  "join_admission identity request part w =
     (case map_of (protocol_rooms w) (ucast (join_room_id request)) of
        None \<Rightarrow> Inr (JoinUnavailable, 0, None)
      | Some r \<Rightarrow>
          let mode = rs_game_type (settings r) in
          if phase r \<noteq> LobbyPhase \<or>
             (case bind_channel identity of None \<Rightarrow> True
              | Some ch \<Rightarrow> rs_channel (settings r) \<noteq> ch \<or>
                  expected_room_game_type (game_type ch) \<noteq> Some mode)
          then Inr (JoinUnavailable, mode, None)
          else if rs_password (settings r) \<noteq> [] \<and> rs_password (settings r) \<noteq> join_password request
          then Inr (JoinWrongPassword, mode, None)
          else if map_of (protocol_room_by_user w) (bind_user_no identity) \<noteq> None
          then Inr (JoinFull, mode, None)
          else case add_participant (bind_user_no identity) (prepare_participant identity part w) r of
                 (False, _) \<Rightarrow> Inr (JoinFull, mode, None)
               | (True, next) \<Rightarrow>
                   attempt (serialize_gr_slot_data (slot_data next)) (\<lambda>_.
                   Inr (JoinSuccess, rs_game_type (settings next), Some next)))"

definition protocol_join_room ::
  "u64 \<Rightarrow> identity_binding \<Rightarrow> ch_join_room_request \<Rightarrow> room_participant \<Rightarrow> lobby_world \<Rightarrow>
   (room_protocol_error + u64 list) \<times> lobby_world" where
  "protocol_join_room session identity request part w =
     (case join_admission identity request part w of
        Inl e \<Rightarrow> (Inl e, w)
      | Inr (status, mode, replacement) \<Rightarrow>
          let w = (case replacement of None \<Rightarrow> w
                | Some r \<Rightarrow> room_joined (bind_user_no identity) (ucast (join_room_id request)) r w)
          in case deliver_in [(session, [serialize_ch_join_room_reply status mode])] w of
               (failed, w) \<Rightarrow> (Inr failed, w))"

section \<open>Leaving\<close>

definition release_reward_lanes :: "race_fence \<Rightarrow> lobby_world \<Rightarrow> lobby_world" where
  "release_reward_lanes fence w = w\<lparr>reward_lanes := filter (\<lambda>(_, owned). owned \<noteq> fence) (reward_lanes w)\<rparr>"

text \<open>An empty room is dropped in the lobby and while loading; a race goes on to its settlement.\<close>

definition vacated_room_ends :: "protocol_room \<Rightarrow> bool" where
  "vacated_room_ends r \<longleftrightarrow> room_is_empty r \<and> (phase r = LobbyPhase \<or> phase r = LoadingPhase)"

definition aborted_fence :: "protocol_room \<Rightarrow> race_fence option" where
  "aborted_fence r = (if vacated_room_ends r \<and> phase r = LoadingPhase then race_fence r else None)"

definition remove_protocol_user :: "u32 \<Rightarrow> lobby_world \<Rightarrow> (deliveries \<times> lobby_world) may_panic" where
  "remove_protocol_user user_no w =
     (case map_of (protocol_room_by_user w) user_no of
        None \<Rightarrow> Returns ([], w)
      | Some rid \<Rightarrow>
          let w = w\<lparr>protocol_room_by_user := tdel user_no (protocol_room_by_user w)\<rparr>
          in case map_of (protocol_rooms w) rid of
               None \<Rightarrow> Returns ([], w)
             | Some r \<Rightarrow>
                 let r = snd (remove_user user_no r); w = put_room rid r w
                 in if vacated_room_ends r
                    then let w = (case aborted_fence r of None \<Rightarrow> w | Some fence \<Rightarrow> release_reward_lanes fence w)
                         in Returns ([], drop_room rid w)
                    else if room_is_empty r then Returns ([], w)
                    else case serialize_gr_slot_data (slot_data r) of
                           Inl _ \<Rightarrow> Panics
                         | Inr packet \<Rightarrow> Returns (deliveries_for_users (user_nos r) [packet] w, w))"

definition protocol_leave_room :: "u64 \<Rightarrow> identity_binding \<Rightarrow> lobby_world \<Rightarrow> (u64 list \<times> lobby_world) may_panic" where
  "protocol_leave_room session identity w =
     (let left = (map_of (protocol_room_by_user w) (bind_user_no identity) \<noteq> None);
          reply = [(session, [serialize_ch_leave_room_reply left])]
      in case (if left then remove_protocol_user (bind_user_no identity) w else Returns ([], w)) of
           Panics \<Rightarrow> Panics
         | Returns (ds, w) \<Rightarrow> Returns (deliver_in (reply @ ds) w))"

definition protocol_first_state ::
  "u64 \<Rightarrow> identity_binding \<Rightarrow> lobby_world \<Rightarrow> ((room_protocol_error + u64 list) \<times> lobby_world) may_panic" where
  "protocol_first_state session identity w =
     (case map_of (protocol_room_by_user w) (bind_user_no identity) of
        None \<Rightarrow> Returns (Inr [], w)
      | Some rid \<Rightarrow>
          (case map_of (protocol_rooms w) rid of
             None \<Rightarrow> Panics
           | Some r \<Rightarrow> Returns (
               case serialize_initial_room_state (session_data r) (slot_data r) of
                 Inl e \<Rightarrow> (Inl e, w)
               | Inr packets \<Rightarrow> (case deliver_in [(session, map snd packets)] w of (failed, w) \<Rightarrow> (Inr failed, w)))))"

text \<open>The room part of \<open>release_identity_state_with_wire_policy\<close>.\<close>

definition leave_snapshot :: "ustring \<Rightarrow> room_snapshot \<Rightarrow> room_snapshot" where
  "leave_snapshot nickname r =
     (case first_index (\<lambda>slot. slot = Some nickname) (snapshot_slots r) of
        None \<Rightarrow> r
      | Some i \<Rightarrow> r\<lparr>snapshot_slots := (snapshot_slots r)[i := None]\<rparr>)"

definition release_room_state :: "released_identity \<Rightarrow> bool \<Rightarrow> lobby_world \<Rightarrow> (deliveries \<times> lobby_world) may_panic" where
  "release_room_state identity publish_wire w =
     (let w = w\<lparr>observed_p2p_ports := tdel (rel_user_no identity) (observed_p2p_ports w)\<rparr>;
          w = (case map_of (room_by_identity w) (rel_nickname identity) of
                 None \<Rightarrow> w
               | Some rid \<Rightarrow>
                   let w = w\<lparr>room_by_identity := tdel (rel_nickname identity) (room_by_identity w)\<rparr>
                   in case map_of (rooms w) rid of
                        None \<Rightarrow> w
                      | Some r \<Rightarrow> w\<lparr>rooms := tput rid (leave_snapshot (rel_nickname identity) r) (rooms w)\<rparr>)
      in case remove_protocol_user (rel_user_no identity) w of
           Panics \<Rightarrow> Panics
         | Returns (ds, w) \<Rightarrow> Returns (if publish_wire then ds else [], w))"

section \<open>Migration\<close>

record protocol_migration_delta =
  delta_user_no :: u32
  delta_room_id :: u32
  expected_room :: protocol_room
  next_room :: "protocol_room option"
  remove_membership :: bool
  remove_room :: bool
  aborted_loading_fence :: "race_fence option"

datatype protocol_transition_error = ProtocolRoomTransitionInconsistent u32 | TransitionRoomProtocol room_protocol_error

type_synonym transition_plan = "protocol_migration_delta option \<times> deliveries"

definition plan_protocol_room_exit_from_snapshot ::
  "u32 \<Rightarrow> u32 \<Rightarrow> protocol_room \<Rightarrow> lobby_world \<Rightarrow> protocol_transition_error + transition_plan" where
  "plan_protocol_room_exit_from_snapshot user_no rid expected w =
     (case remove_user user_no expected of
        (False, _) \<Rightarrow> Inl (ProtocolRoomTransitionInconsistent user_no)
      | (True, next) \<Rightarrow>
          let gone = vacated_room_ends next;
              delta = \<lparr>delta_user_no = user_no, delta_room_id = rid, expected_room = expected,
                next_room = (if gone then None else Some next), remove_membership = True, remove_room = gone,
                aborted_loading_fence = aborted_fence next\<rparr>
          in if room_is_empty next then Inr (Some delta, [])
             else case serialize_gr_slot_data (slot_data next) of
                    Inl e \<Rightarrow> Inl (TransitionRoomProtocol e)
                  | Inr packet \<Rightarrow> Inr (Some delta, deliveries_for_users (user_nos next) [packet] w))"

definition plan_protocol_room_exit :: "u32 \<Rightarrow> lobby_world \<Rightarrow> protocol_transition_error + transition_plan" where
  "plan_protocol_room_exit user_no w =
     (case map_of (protocol_room_by_user w) user_no of
        None \<Rightarrow> Inr (None, [])
      | Some rid \<Rightarrow>
          attempt (ok_or (ProtocolRoomTransitionInconsistent user_no) (map_of (protocol_rooms w) rid)) (\<lambda>expected.
          plan_protocol_room_exit_from_snapshot user_no rid expected w))"

text \<open>A migration within the channel of the room only clears the peer-to-peer port; another one leaves the room.\<close>

definition plan_protocol_migration :: "identity_binding \<Rightarrow> lobby_world \<Rightarrow> protocol_transition_error + transition_plan" where
  "plan_protocol_migration replacement w =
     (case map_of (protocol_room_by_user w) (bind_user_no replacement) of
        None \<Rightarrow> Inr (None, [])
      | Some rid \<Rightarrow>
          attempt (ok_or (ProtocolRoomTransitionInconsistent (bind_user_no replacement)) (map_of (protocol_rooms w) rid))
            (\<lambda>expected.
          if bind_channel replacement = Some (rs_channel (settings expected))
          then
            let endpoint = legacy_p2p_endpoint (bind_source_ip replacement) 0
            in case set_p2p_endpoint (bind_user_no replacement) (ep_address endpoint) (ep_port endpoint) expected of
                 (False, _) \<Rightarrow> Inl (ProtocolRoomTransitionInconsistent (bind_user_no replacement))
               | (True, next) \<Rightarrow>
                   if next = expected then Inr (None, [])
                   else Inr (Some \<lparr>delta_user_no = bind_user_no replacement, delta_room_id = rid,
                          expected_room = expected, next_room = Some next, remove_membership = False,
                          remove_room = False, aborted_loading_fence = None\<rparr>, [])
          else plan_protocol_room_exit_from_snapshot (bind_user_no replacement) rid expected w))"

text \<open>\<open>lock\<close> refuses a delta planned on another state; \<open>commit\<close> applies it.\<close>

definition lock_delta :: "protocol_migration_delta \<Rightarrow> lobby_world \<Rightarrow> protocol_transition_error + protocol_migration_delta" where
  "lock_delta d w =
     (if map_of (protocol_room_by_user w) (delta_user_no d) \<noteq> Some (delta_room_id d) \<or>
         map_of (protocol_rooms w) (delta_room_id d) \<noteq> Some (expected_room d)
      then Inl (ProtocolRoomTransitionInconsistent (delta_user_no d)) else Inr d)"

definition commit_delta :: "protocol_migration_delta \<Rightarrow> lobby_world \<Rightarrow> lobby_world" where
  "commit_delta d w =
     (let w = (if remove_membership d
               then w\<lparr>protocol_room_by_user := tdel (delta_user_no d) (protocol_room_by_user w)\<rparr> else w);
          w = (if remove_room d then drop_room (delta_room_id d) w
               else case next_room d of None \<Rightarrow> w | Some r \<Rightarrow> put_room (delta_room_id d) r w)
      in case aborted_loading_fence d of None \<Rightarrow> w | Some fence \<Rightarrow> release_reward_lanes fence w)"

section \<open>Back to the lobby\<close>

text \<open>The reset that ends a loading phase or a settlement.\<close>

definition lobby_again :: "protocol_room \<Rightarrow> protocol_room" where
  "lobby_again r = r\<lparr>phase := LobbyPhase, race_fence := None, frozen_race := None,
     race_progress := default_race_progress, loading_handshake := Dormant,
     members_by_id := map (map_option (\<lambda>m. m\<lparr>m_player := (m_player m)\<lparr>player_type := slot_state_wire NotReady\<rparr>\<rparr>))
       (members_by_id r)\<rparr>"

definition abort_loading_room :: "u32 \<Rightarrow> lobby_world \<Rightarrow> lobby_world may_panic" where
  "abort_loading_room rid w =
     (let w = (case Option.bind (map_of (protocol_rooms w) rid) race_fence of
                 None \<Rightarrow> w | Some fence \<Rightarrow> release_reward_lanes fence w)
      in case map_of (protocol_rooms w) rid of
           None \<Rightarrow> Panics
         | Some r \<Rightarrow> Returns (put_room rid (lobby_again r) w))"

text \<open>The state change of \<open>try_finalize_settlement\<close> once its deliveries are reserved.\<close>

definition finish_settlement :: "u32 \<Rightarrow> settlement_ranking \<Rightarrow> lobby_world \<Rightarrow> lobby_world" where
  "finish_settlement rid ranking w =
     (case map_of (protocol_rooms w) rid of
        None \<Rightarrow> w
      | Some r \<Rightarrow>
          let w = (case race_fence r of None \<Rightarrow> w | Some fence \<Rightarrow> release_reward_lanes fence w)
          in if room_is_empty r then drop_room rid w
             else put_room rid (lobby_again (snd (apply_next_lobby_master ranking (apply_next_grid_ranking ranking r)))) w)"

section \<open>Rooms of the internal slot protocol\<close>

text \<open>
  The loop of \<open>create_room\<close> ends as soon as it meets an identifier that is not taken; one turn per
  taken identifier and one more are enough, which \<open>create_room_ends\<close> below proves.
\<close>

fun next_snapshot_id :: "nat \<Rightarrow> lobby_world \<Rightarrow> (u32 \<times> lobby_world) option" where
  "next_snapshot_id 0 w = None"
| "next_snapshot_id (Suc fuel) w =
     (let candidate = next_room_id w;
          w = w\<lparr>next_room_id := max (next_room_id w + 1) 1\<rparr>
      in if room_id_taken candidate w then next_snapshot_id fuel w
         else Some (candidate, if unat candidate < 2 ^ 16
           then w\<lparr>free_protocol_room_ids := filter (\<lambda>i. i \<noteq> ucast candidate) (free_protocol_room_ids w)\<rparr> else w))"

definition create_room_fuel :: "lobby_world \<Rightarrow> nat" where
  "create_room_fuel w = length (rooms w) + length (protocol_rooms w) + 1"

definition create_room :: "lobby_world \<Rightarrow> (u32 \<times> lobby_world) option" where
  "create_room w =
     (case next_snapshot_id (create_room_fuel w) w of
        None \<Rightarrow> None
      | Some (rid, w) \<Rightarrow> Some (rid, w\<lparr>rooms := tput rid
          \<lparr>snapshot_id = rid, snapshot_slots = replicate ROOM_SLOT_COUNT None\<rparr> (rooms w)\<rparr>))"

datatype room_error = RoomNotFound u32 | AlreadyJoined ustring | RoomFull u32 | NotJoined ustring

definition room_snapshot_of :: "u32 \<Rightarrow> lobby_world \<Rightarrow> room_error + room_snapshot" where
  "room_snapshot_of rid w =
     ok_or (RoomNotFound rid) (case map_of (rooms w) rid of
       Some r \<Rightarrow> Some r
     | None \<Rightarrow> map_option snapshot (map_of (protocol_rooms w) rid))"

definition join_room :: "u32 \<Rightarrow> ustring \<Rightarrow> lobby_world \<Rightarrow> (room_error + nat) \<times> lobby_world" where
  "join_room rid identity w =
     (if map_of (room_by_identity w) identity \<noteq> None then (Inl (AlreadyJoined identity), w)
      else case map_of (rooms w) rid of
        None \<Rightarrow> (Inl (RoomNotFound rid), w)
      | Some r \<Rightarrow>
          (case first_index is_none (snapshot_slots r) of
             None \<Rightarrow> (Inl (RoomFull rid), w)
           | Some i \<Rightarrow> (Inr i, w\<lparr>rooms := tput rid (r\<lparr>snapshot_slots := (snapshot_slots r)[i := Some identity]\<rparr>) (rooms w),
               room_by_identity := tput identity rid (room_by_identity w)\<rparr>)))"

definition leave_room :: "ustring \<Rightarrow> lobby_world \<Rightarrow> (room_error + unit) \<times> lobby_world" where
  "leave_room identity w =
     (case map_of (room_by_identity w) identity of
        None \<Rightarrow> (Inl (NotJoined identity), w)
      | Some rid \<Rightarrow>
          let w = w\<lparr>room_by_identity := tdel identity (room_by_identity w)\<rparr>
          in case map_of (rooms w) rid of
               None \<Rightarrow> (Inl (RoomNotFound rid), w)
             | Some r \<Rightarrow>
                 (case first_index (\<lambda>slot. slot = Some identity) (snapshot_slots r) of
                    None \<Rightarrow> (Inl (NotJoined identity), w)
                  | Some i \<Rightarrow> (Inr (), w\<lparr>rooms := tput rid (r\<lparr>snapshot_slots := (snapshot_slots r)[i := None]\<rparr>) (rooms w)\<rparr>)))"

end
