(* ===== verification/RoomTracks.thy ===== *)
theory RoomTracks
  imports RoomOps
begin

text \<open>
  The random track of a room (\<open>crates/p4475-server/src/world.rs\<close>,
  \<open>ProtocolRoomState::select_concrete_track\<close>): every selection is a candidate of the catalog, and a
  pool is used up before a track comes again.
\<close>

section \<open>One selection\<close>

definition track_candidates :: "u32 list \<Rightarrow> u32 list" where
  "track_candidates cands = remdups_adj (sort (filter (\<lambda>t. \<not> is_random_track_selector t) cands))"

definition track_pool :: "protocol_room \<Rightarrow> u8 \<times> u32" where
  "track_pool r = (of_bool (rs_game_type (settings r) = 2 \<or> rs_game_type (settings r) = 4), rs_track (settings r))"

lemma sorted_distinct_remdups_adj: "sorted xs \<Longrightarrow> distinct (remdups_adj xs)"
  by (induction xs rule: remdups_adj.induct) auto

lemma candidates_distinct: "distinct (track_candidates cands)"
  by (simp add: track_candidates_def sorted_distinct_remdups_adj)

lemma candidates_set: "set (track_candidates cands) = {t \<in> set cands. \<not> is_random_track_selector t}"
  by (auto simp: track_candidates_def)

text \<open>A room whose cycle through the pool is under way.\<close>

definition cycle_ok :: "u32 list \<Rightarrow> protocol_room \<Rightarrow> bool" where
  "cycle_ok cs r \<longleftrightarrow> random_track_pool r = Some (track_pool r) \<and> set (random_tracks_used r) \<subseteq> set cs"

lemma select_concrete:
  "\<not> is_random_track_selector (rs_track (settings r)) \<Longrightarrow>
   fst (select_concrete_track draw cands r) = Some (rs_track (settings r))"
  by (simp add: select_concrete_track_def)

lemma select_no_candidates:
  "is_random_track_selector (rs_track (settings r)) \<Longrightarrow> track_candidates cands = [] \<Longrightarrow>
   select_concrete_track draw cands r = (None, r)"
  by (simp add: select_concrete_track_def track_candidates_def Let_def)

text \<open>Where the pool is another's, or used up, the selection starts over.\<close>

definition cycle_start :: "u32 list \<Rightarrow> protocol_room \<Rightarrow> protocol_room" where
  "cycle_start cs r =
     (let r = (if random_track_pool r \<noteq> Some (track_pool r)
               then r\<lparr>random_track_pool := Some (track_pool r), random_tracks_used := [], last_random_track := None\<rparr>
               else r);
          r = r\<lparr>random_tracks_used := filter (\<lambda>t. t \<in> set cs) (random_tracks_used r)\<rparr>
      in if length cs \<le> length (random_tracks_used r) then r\<lparr>random_tracks_used := []\<rparr> else r)"

lemma cycle_start_ok:
  "cycle_ok cs (cycle_start cs r)" "settings (cycle_start cs r) = settings r"
  "cs \<noteq> [] \<Longrightarrow> length (random_tracks_used (cycle_start cs r)) < length cs"
  by (auto simp: cycle_start_def cycle_ok_def track_pool_def Let_def)

lemma cycle_start_fixed:
  "cycle_ok cs r \<Longrightarrow> length (random_tracks_used r) < length cs \<Longrightarrow> cycle_start cs r = r"
proof -
  assume a: "cycle_ok cs r" "length (random_tracks_used r) < length cs"
  then have "filter (\<lambda>t. t \<in> set cs) (random_tracks_used r) = random_tracks_used r"
    by (auto simp: cycle_ok_def filter_id_conv)
  then show ?thesis using a by (simp add: cycle_start_def cycle_ok_def)
qed

definition drawn_track :: "(nat \<Rightarrow> nat) \<Rightarrow> u32 list \<Rightarrow> protocol_room \<Rightarrow> u32 option \<times> protocol_room" where
  "drawn_track draw cs r =
     (let available = filter (\<lambda>t. t \<notin> set (random_tracks_used r)) cs;
          available = (case last_random_track r of
             Some previous \<Rightarrow> if 1 < length available then filter (\<lambda>t. t \<noteq> previous) available else available
           | None \<Rightarrow> available);
          available = (if available = [] then cs else available);
          selected = available ! draw (length available)
      in (Some selected, r\<lparr>random_tracks_used := random_tracks_used r @ [selected], last_random_track := Some selected\<rparr>))"

lemma select_drawn:
  assumes "is_random_track_selector (rs_track (settings r))" "track_candidates cands \<noteq> []"
  shows "select_concrete_track draw cands r = drawn_track draw (track_candidates cands) (cycle_start (track_candidates cands) r)"
  by (simp only: select_concrete_track_def Let_def track_candidates_def[symmetric] cycle_start_def drawn_track_def
      track_pool_def assms not_True_eq_False if_False)

text \<open>What a selection does where the pool is the room's own and not used up.\<close>

lemma select_step:
  assumes "is_random_track_selector (rs_track (settings r))" "cycle_ok (track_candidates cands) r"
    "length (random_tracks_used r) < length (track_candidates cands)" "\<And>n. 0 < n \<Longrightarrow> draw n < n"
  obtains t r' where "select_concrete_track draw cands r = (Some t, r')"
    "t \<in> set (track_candidates cands)" "t \<notin> set (random_tracks_used r)"
    "random_tracks_used r' = random_tracks_used r @ [t]" "cycle_ok (track_candidates cands) r'"
    "settings r' = settings r"
proof -
  let ?cs = "track_candidates cands"
  have ne: "?cs \<noteq> []" using assms(3) by auto
  let ?free = "filter (\<lambda>t. t \<notin> set (random_tracks_used r)) ?cs"
  let ?av = "case last_random_track r of Some previous \<Rightarrow>
      if 1 < length ?free then filter (\<lambda>t. t \<noteq> previous) ?free else ?free | None \<Rightarrow> ?free"
  have "?free \<noteq> []"
  proof
    assume "?free = []"
    then have "set ?cs \<subseteq> set (random_tracks_used r)" by (auto simp: filter_empty_conv)
    then have "card (set ?cs) \<le> card (set (random_tracks_used r))" by (simp add: card_mono)
    then show False using assms(3) card_length[of "random_tracks_used r"] candidates_distinct[of cands]
      by (simp add: distinct_card)
  qed
  moreover have "filter (\<lambda>t. t \<noteq> p) ?free \<noteq> []" if "1 < length ?free" for p
  proof
    assume "filter (\<lambda>t. t \<noteq> p) ?free = []"
    then have "set ?free \<subseteq> {p}" by (auto simp: filter_empty_conv)
    then have "card (set ?free) \<le> 1" by (metis card_mono finite.emptyI finite_insert is_singletonI is_singleton_altdef)
    moreover have "card (set ?free) = length ?free"
      by (rule distinct_card[OF distinct_filter[OF candidates_distinct]])
    ultimately show False using that by linarith
  qed
  ultimately have av: "?av \<noteq> []" "set ?av \<subseteq> set ?free" by (auto split: option.split)
  let ?t = "?av ! draw (length ?av)"
  have "?t \<in> set ?av" by (rule nth_mem, rule assms(4)) (use av(1) in \<open>simp only: length_greater_0_conv simp_thms\<close>)
  then have t: "?t \<in> set ?free" using av(2) by blast
  have e: "select_concrete_track draw cands r = (Some ?t,
      r\<lparr>random_tracks_used := random_tracks_used r @ [?t], last_random_track := Some ?t\<rparr>)"
    using select_drawn[OF assms(1) ne] cycle_start_fixed[OF assms(2,3)] av(1)
    by (simp only: drawn_track_def Let_def if_False simp_thms)
  show thesis
    by (rule that[OF e]) (use t assms(2) in \<open>auto simp: cycle_ok_def track_pool_def\<close>)
qed

lemma select_from_start:
  assumes "is_random_track_selector (rs_track (settings r))" "track_candidates cands \<noteq> []"
  shows "select_concrete_track draw cands r = select_concrete_track draw cands (cycle_start (track_candidates cands) r)"
proof -
  let ?cs = "track_candidates cands"
  have "is_random_track_selector (rs_track (settings (cycle_start ?cs r)))" using assms(1) cycle_start_ok(2) by simp
  moreover have "cycle_start ?cs (cycle_start ?cs r) = cycle_start ?cs r"
    by (rule cycle_start_fixed[OF cycle_start_ok(1) cycle_start_ok(3)[OF assms(2)]])
  ultimately show ?thesis using select_drawn[OF assms] select_drawn[OF _ assms(2), of "cycle_start ?cs r"] by simp
qed

lemma select_any:
  assumes "is_random_track_selector (rs_track (settings r))" "track_candidates cands \<noteq> []"
    "\<And>n. 0 < n \<Longrightarrow> draw n < n"
  obtains t r' where "select_concrete_track draw cands r = (Some t, r')" "t \<in> set (track_candidates cands)"
    "cycle_ok (track_candidates cands) r'" "settings r' = settings r"
    "random_tracks_used r' = random_tracks_used (cycle_start (track_candidates cands) r) @ [t]"
proof -
  let ?r = "cycle_start (track_candidates cands) r"
  have "is_random_track_selector (rs_track (settings ?r))" using assms(1) cycle_start_ok(2) by simp
  from select_step[OF this cycle_start_ok(1) cycle_start_ok(3)[OF assms(2)] assms(3)] show thesis
    using that select_from_start[OF assms(1,2)] cycle_start_ok(2)[of "track_candidates cands" r] by metis
qed

section \<open>A cycle of selections\<close>

text \<open>The tracks of the following selections, one index source each.\<close>

fun select_run :: "(nat \<Rightarrow> nat) list \<Rightarrow> u32 list \<Rightarrow> protocol_room \<Rightarrow> u32 option list" where
  "select_run [] cands r = []"
| "select_run (draw # draws) cands r =
     fst (select_concrete_track draw cands r) # select_run draws cands (snd (select_concrete_track draw cands r))"

definition draws_ok :: "(nat \<Rightarrow> nat) list \<Rightarrow> bool" where
  "draws_ok draws \<longleftrightarrow> (\<forall>draw\<in>set draws. \<forall>n. 0 < n \<longrightarrow> draw n < n)"

lemma run_completes:
  assumes "is_random_track_selector (rs_track (settings r))" "cycle_ok (track_candidates cands) r"
    "distinct (random_tracks_used r)" "draws_ok draws"
    "length (random_tracks_used r) + length draws = length (track_candidates cands)"
  shows "mset (map Some (random_tracks_used r) @ select_run draws cands r) = mset (map Some (track_candidates cands))"
  using assms
proof (induction draws arbitrary: r)
  case Nil
  then have "set (random_tracks_used r) = set (track_candidates cands)"
    by (intro card_subset_eq) (simp_all add: cycle_ok_def distinct_card candidates_distinct)
  then have "mset (random_tracks_used r) = mset (track_candidates cands)"
    using set_eq_iff_mset_eq_distinct Nil(3) candidates_distinct by blast
  then show ?case by simp
next
  case (Cons draw draws)
  have "length (random_tracks_used r) < length (track_candidates cands)" using Cons(6) by simp
  moreover have "\<And>n. 0 < n \<Longrightarrow> draw n < n" using Cons(5) by (simp add: draws_ok_def)
  ultimately obtain t r' where e: "select_concrete_track draw cands r = (Some t, r')"
    "t \<notin> set (random_tracks_used r)" "random_tracks_used r' = random_tracks_used r @ [t]"
    "cycle_ok (track_candidates cands) r'" "settings r' = settings r"
    using select_step[OF Cons(2,3)] by metis
  have "mset (map Some (random_tracks_used r') @ select_run draws cands r') = mset (map Some (track_candidates cands))"
    by (rule Cons.IH) (use Cons.prems e in \<open>simp_all add: draws_ok_def\<close>)
  then show ?case using e by simp
qed

lemma fresh_cycle:
  assumes "random_track_pool r \<noteq> Some (track_pool r) \<or> random_tracks_used r = []"
  shows "random_tracks_used (cycle_start cs r) = []"
  using assms by (auto simp: cycle_start_def Let_def)

lemma select_run_from_start:
  assumes "is_random_track_selector (rs_track (settings r))" "track_candidates cands \<noteq> []"
  shows "select_run draws cands r = select_run draws cands (cycle_start (track_candidates cands) r)"
  by (cases draws) (simp_all add: select_from_start[OF assms])

text \<open>C27. While a random-track selector stands, the selections of a room go through the whole pool of
  the selector before any track comes again: the first \<open>n\<close> selections from a fresh pool of \<open>n\<close>
  distinct concrete candidates are those candidates, each exactly once, whatever indices are drawn.\<close>

theorem random_tracks_cycle:
  assumes "is_random_track_selector (rs_track (settings r))" "draws_ok draws"
    "random_track_pool r \<noteq> Some (track_pool r) \<or> random_tracks_used r = []"
    "length draws = card {t \<in> set cands. \<not> is_random_track_selector t}"
  shows "mset (select_run draws cands r) = mset_set (Some ` {t \<in> set cands. \<not> is_random_track_selector t})"
proof (cases "track_candidates cands = []")
  case True
  then have "{t \<in> set cands. \<not> is_random_track_selector t} = {}" using candidates_set[of cands] by simp
  then show ?thesis using assms(4) by (simp only: card.empty list.size length_0_conv) simp
next
  case False
  let ?cs = "track_candidates cands"
  let ?r = "cycle_start ?cs r"
  have n: "length draws = length ?cs"
    using assms(4) candidates_set[of cands] candidates_distinct[of cands] by (metis distinct_card)
  have "mset (select_run draws cands ?r) = mset (map Some ?cs)"
    using run_completes[of ?r cands draws] assms(1,2) cycle_start_ok[of ?cs r] fresh_cycle[OF assms(3)] n by simp
  also have "\<dots> = mset_set (set (map Some ?cs))"
    by (rule mset_set_set[symmetric]) (simp add: distinct_map candidates_distinct)
  finally show ?thesis using select_run_from_start[OF assms(1) False] candidates_set[of cands] by simp
qed

text \<open>Two concrete tracks among a selector and a repetition.\<close>

definition bare_room :: protocol_room where
  "bare_room = new_room 1 \<lparr>rs_channel = \<lparr>channel_id = 1, game_type = 67\<rparr>, rs_room_name = [], rs_password = [],
     rs_game_type = 1, rs_speed_type = 7, rs_track = 3, rs_room_data_header = 0, rs_room_data = []\<rparr>"

theorem random_tracks_cycle_witness:
  "mset (select_run [\<lambda>_. 0, \<lambda>n. n - 1] [21, 8, 22, 21] bare_room) = {#Some 21, Some 22#}"
proof -
  have set: "{t \<in> set [21, 8, 22, 21 :: u32]. \<not> is_random_track_selector t} = {21, 22}"
    by (auto simp: is_random_track_selector_def P4475_RANDOM_TRACK_SELECTORS_def)
  have "mset (select_run [\<lambda>_. 0, \<lambda>n. n - 1] [21, 8, 22, 21] bare_room) = mset_set (Some ` {t \<in> set [21, 8, 22, 21 :: u32]. \<not> is_random_track_selector t})"
  proof (rule random_tracks_cycle)
    show "is_random_track_selector (rs_track (settings bare_room))"
      by (simp add: bare_room_def new_room_def is_random_track_selector_def P4475_RANDOM_TRACK_SELECTORS_def)
    show "draws_ok [\<lambda>_. 0, \<lambda>n. n - 1]" by (simp add: draws_ok_def)
    show "random_track_pool bare_room \<noteq> Some (track_pool bare_room) \<or> random_tracks_used bare_room = []"
      by (simp add: bare_room_def new_room_def)
  qed (unfold set, simp)
  then show ?thesis unfolding set by simp
qed

end
