(* ===== verification/LobbyInv.thy ===== *)
theory LobbyInv
  imports RoomDirectory RoomTracks
begin

text \<open>
  The invariants of the room directory (\<open>debug_assert_invariants\<close> of
  \<open>crates/p4475-server/src/world.rs\<close>): every room is well formed and shows on the wire, the members
  of the rooms and the membership table agree, and the free identifiers are free. Every lobby command
  plans a room that keeps them and never meets a failing \<open>expect\<close>.
\<close>

section \<open>A well-formed room can be shown\<close>

lemma closed_distinct:
  assumes "room_seats r"
  shows "distinct (flatten (closed_slots_by_id r))" "\<forall>s\<in>set (flatten (closed_slots_by_id r)). s < 8"
proof -
  note d = room_seatsD[OF assms]
  let ?c = "closed_slots_by_id r"
  have c: "s < 8 \<and> slot_positions r ! s = Some i" if "i < 8" "?c ! i = Some s" for i s
    using d(8) that by (auto simp: closed_named_def)
  then show "\<forall>s\<in>set (flatten ?c). s < 8"
  proof (intro ballI)
    fix s assume "s \<in> set (flatten ?c)"
    then obtain i where "i < 8" "?c ! i = Some s" unfolding in_flatten using d(3) by (metis in_set_conv_nth)
    then show "s < 8" using c by blast
  qed
  have "inj_on (\<lambda>i. the (?c ! i)) (set (occupied ?c))"
  proof (rule inj_onI)
    fix i j assume "i \<in> set (occupied ?c)" "j \<in> set (occupied ?c)" "the (?c ! i) = the (?c ! j)"
    then obtain s where "?c ! i = Some s" "?c ! j = Some s" "i < 8" "j < 8"
      using d(3) by (auto simp: occupied_def)
    then show "i = j" using c[of i s] c[of j s] by simp
  qed
  then show "distinct (flatten ?c)"
    unfolding flatten_occupied distinct_map by (simp add: occupied_def)
qed

lemma seat_inv_shows:
  assumes "seat_inv r"
  shows "slot_data_ok (slot_data r)"
proof -
  have r: "room_seats r" "presentable r" using assms by (simp_all add: seat_inv_def)
  note d = room_seatsD[OF r(1)] and c = closed_distinct[OF r(1)]
  have closed: "distinct (map of_nat (closed_slot_ids r) :: u8 list) \<and>
      (\<forall>slot\<in>set (map of_nat (closed_slot_ids r) :: u8 list). unat slot < 8)"
  proof
    have small: "unat (of_nat s :: u8) = s" if "s < 8" for s
      using that by (simp add: unat_of_nat)
    show "distinct (map of_nat (closed_slot_ids r) :: u8 list)"
      unfolding distinct_map closed_slot_ids_def using c small
      by (metis inj_onI)
    show "\<forall>slot\<in>set (map of_nat (closed_slot_ids r) :: u8 list). unat slot < 8"
      using c(2) small by (auto simp: closed_slot_ids_def)
  qed
  have members: "presentable_member (wire_member r i)" if "i < 8" for i
    using r(2) nth_in_flatten[of i "members_by_id r"] that d(1)
    by (cases "members_by_id r ! i") (auto simp: wire_member_def presentable_def split: option.split)
  have watchers: "presentable_observer (wire_observer m)" if "m \<in> set (observers r)" for m
    using r(2) that by (cases m) (auto simp: wire_observer_def presentable_def in_flatten)
  have positions: "- 1 \<le> p \<and> p \<le> 7" if "p \<in> set (wire_slot_positions r)" for p
    using that seats_okD(2)[OF d(7)] d(5)
    by (force simp: wire_slot_positions_def in_set_conv_nth split: option.split_asm)
  show ?thesis
    using closed members watchers positions
    by (auto simp: slot_data_ok_def slot_data_def list_all_iff ROOM_SLOT_COUNT_def)
qed

lemma seat_inv_serializes: "seat_inv r \<Longrightarrow> serialize_gr_slot_data (slot_data r) = Inr (slot_data_bytes (slot_data r))"
  using seat_inv_shows by (simp add: slot_data_layout)

text \<open>Conversely, a newcomer of a room that serializes can be shown.\<close>

lemma shown_newcomer:
  assumes "seat_inv r" "add_participant u p r = (True, r')" "slot_data_ok (slot_data r')"
  shows "admissible p"
proof (cases rule: add_participant_cases[of u p r])
  case refused
  then show ?thesis using assms(2) by simp
next
  case (observer i)
  have "observers r' ! i = Some (room_member_of u ((part_player p)\<lparr>player_type := 4, player_team := 0\<rparr>) p)"
    using observer assms(2) by auto
  moreover have "i < length (observers r')" using observer assms(2) by auto
  ultimately have "Some (room_member_of u ((part_player p)\<lparr>player_type := 4, player_team := 0\<rparr>) p) \<in> set (observers r')"
    by (metis nth_mem)
  then have "wire_observer (Some (room_member_of u ((part_player p)\<lparr>player_type := 4, player_team := 0\<rparr>) p)) \<in>
      set (sl_observers (slot_data r'))"
    by (simp add: slot_data_def)
  then have "presentable_observer (wire_observer (Some (room_member_of u ((part_player p)\<lparr>player_type := 4, player_team := 0\<rparr>) p)))"
    using assms(3) by (auto simp: slot_data_ok_def list_all_iff)
  then show ?thesis using observer(1) by (simp add: wire_observer_def admissible_def room_member_of_def)
next
  case (racer i s t)
  have i: "i < 8" "i < length (members_by_id r)"
    using racer(2) room_seatsD(1)[of r] assms(1) by (simp_all add: vacant_Some seat_inv_def)
  have "members_by_id r' = (members_by_id r)[i := Some (joining_racer u p t r)]"
    using racer(4) assms(2) by (auto simp: Let_def racer_joined_def split: if_split_asm)
  then have "wire_member r' i = MemberPlayer (m_player (joining_racer u p t r))"
    using i(2) by (simp add: wire_member_def)
  moreover have "wire_member r' i \<in> set (sl_members_by_id (slot_data r'))"
    using i(1) by (auto simp: slot_data_def ROOM_SLOT_COUNT_def)
  ultimately have "presentable_player (m_player (joining_racer u p t r))"
    using assms(3) unfolding slot_data_ok_def list_all_iff by (metis presentable_member.simps(1))
  then show ?thesis using racer(1)
    by (simp add: admissible_def joining_racer_def room_member_of_def presentable_player_def)
qed

section \<open>The directory\<close>

text \<open>A room still owned by somebody, or by the race that it finishes.\<close>

definition room_entry_ok :: "u32 \<Rightarrow> protocol_room \<Rightarrow> bool" where
  "room_entry_ok rid r \<longleftrightarrow> room_id r = rid \<and> rid \<noteq> 0 \<and> unat rid < 2 ^ 16 \<and> seat_inv r \<and> distinct (user_nos r) \<and>
     (phase r = LobbyPhase \<or> phase r = LoadingPhase \<longrightarrow> \<not> room_is_empty r)"

definition rooms_ok :: "lobby_world \<Rightarrow> bool" where
  "rooms_ok w \<longleftrightarrow> (\<forall>rid r. map_of (protocol_rooms w) rid = Some r \<longrightarrow> room_entry_ok rid r \<and> map_of (rooms w) rid = None)"

definition members_ok :: "lobby_world \<Rightarrow> bool" where
  "members_ok w \<longleftrightarrow> (\<forall>u rid. map_of (protocol_room_by_user w) u = Some rid \<longleftrightarrow>
     (\<exists>r. map_of (protocol_rooms w) rid = Some r \<and> u \<in> set (user_nos r)))"

definition free_ids_ok :: "lobby_world \<Rightarrow> bool" where
  "free_ids_ok w \<longleftrightarrow> sorted (free_protocol_room_ids w) \<and> distinct (free_protocol_room_ids w) \<and>
     (\<forall>i\<in>set (free_protocol_room_ids w). i \<noteq> 0 \<and> \<not> room_id_taken (ucast i) w)"

definition dir_inv :: "lobby_world \<Rightarrow> bool" where
  "dir_inv w \<longleftrightarrow> rooms_ok w \<and> members_ok w \<and> free_ids_ok w"

lemma dir_inv_cong:
  assumes "protocol_rooms w' = protocol_rooms w" "rooms w' = rooms w"
    "protocol_room_by_user w' = protocol_room_by_user w" "free_protocol_room_ids w' = free_protocol_room_ids w"
  shows "dir_inv w' = dir_inv w"
  by (simp add: dir_inv_def rooms_ok_def members_ok_def free_ids_ok_def room_id_taken_def assms)

lemma dir_inv_sessions [simp]: "dir_inv (w\<lparr>sessions := ss\<rparr>) = dir_inv w"
  by (rule dir_inv_cong) simp_all

lemma dir_inv_lanes [simp]: "dir_inv (w\<lparr>reward_lanes := l\<rparr>) = dir_inv w"
  by (rule dir_inv_cong) simp_all

lemma dir_inv_epoch [simp]: "dir_inv (w\<lparr>next_race_epoch := e\<rparr>) = dir_inv w"
  by (rule dir_inv_cong) simp_all

lemma dir_inv_ports [simp]: "dir_inv (w\<lparr>observed_p2p_ports := t\<rparr>) = dir_inv w"
  by (rule dir_inv_cong) simp_all

lemma dir_inv_next_id [simp]: "dir_inv (w\<lparr>next_room_id := n\<rparr>) = dir_inv w"
  by (rule dir_inv_cong) simp_all

lemma dir_inv_release_lanes [simp]: "dir_inv (release_reward_lanes fence w) = dir_inv w"
  by (simp add: release_reward_lanes_def)

lemma dir_invD:
  assumes "dir_inv w"
  shows "map_of (protocol_rooms w) rid = Some r \<Longrightarrow> room_entry_ok rid r"
    "map_of (protocol_rooms w) rid = Some r \<Longrightarrow> map_of (rooms w) rid = None"
    "map_of (protocol_room_by_user w) u = Some rid \<Longrightarrow>
       \<exists>r. map_of (protocol_rooms w) rid = Some r \<and> u \<in> set (user_nos r)"
    "map_of (protocol_rooms w) rid = Some r \<Longrightarrow> u \<in> set (user_nos r) \<Longrightarrow> map_of (protocol_room_by_user w) u = Some rid"
  using assms unfolding dir_inv_def rooms_ok_def members_ok_def by blast+

lemma narrow_wide [simp]: "ucast (ucast (i :: u16) :: u32) = i"
  by transfer simp

lemma wide_narrow: "unat (rid :: u32) < 2 ^ 16 \<Longrightarrow> ucast (ucast rid :: u16) = rid"
  by (rule unsigned_word_eqI[where ?'a = nat]) (simp add: unsigned_ucast_eq take_bit_eq_mod unat_mod_distrib)

text \<open>A room replaced under its identifier, with the membership of its users adjusted.\<close>

lemma dir_inv_put:
  assumes "dir_inv w" "room_entry_ok rid r'" "map_of (rooms w) rid = None" "ucast rid \<notin> set (free_protocol_room_ids w)"
    "\<And>u. map_of by' u = Some rid \<longleftrightarrow> u \<in> set (user_nos r')"
    "\<And>u other. other \<noteq> rid \<Longrightarrow> map_of by' u = Some other \<longleftrightarrow> map_of (protocol_room_by_user w) u = Some other"
  shows "dir_inv (put_room rid r' w\<lparr>protocol_room_by_user := by'\<rparr>)"
proof -
  have w: "rooms_ok w" "members_ok w" "free_ids_ok w" using assms(1) by (simp_all add: dir_inv_def)
  let ?w = "put_room rid r' w\<lparr>protocol_room_by_user := by'\<rparr>"
  have "rooms_ok ?w" using w(1) assms(2,3) by (simp add: rooms_ok_def put_room_def)
  moreover have "members_ok ?w"
    unfolding members_ok_def
  proof (intro allI)
    fix u other
    show "map_of (protocol_room_by_user ?w) u = Some other \<longleftrightarrow>
        (\<exists>r. map_of (protocol_rooms ?w) other = Some r \<and> u \<in> set (user_nos r))"
      using w(2) assms(5,6) unfolding members_ok_def by (cases "other = rid") (simp_all add: put_room_def)
  qed
  moreover have "free_ids_ok ?w"
  proof -
    have "ucast i \<noteq> rid" if "i \<in> set (free_protocol_room_ids w)" for i :: u16
    proof
      assume "ucast i = rid"
      then have "ucast rid = i" by (metis narrow_wide)
      then show False using that assms(4) by simp
    qed
    then show ?thesis using w(3) by (auto simp: free_ids_ok_def put_room_def room_id_taken_def)
  qed
  ultimately show ?thesis by (simp add: dir_inv_def)
qed

lemma known_id_not_free:
  assumes "dir_inv w" "map_of (protocol_rooms w) rid = Some r"
  shows "ucast rid \<notin> set (free_protocol_room_ids w)"
proof
  assume a: "ucast rid \<in> set (free_protocol_room_ids w)"
  have "unat rid < 2 ^ 16" using dir_invD(1)[OF assms] by (simp add: room_entry_ok_def)
  then have "(ucast (ucast rid :: u16) :: u32) = rid"
    by (rule wide_narrow)
  then have "\<not> room_id_taken rid w" using assms(1) a by (auto simp: dir_inv_def free_ids_ok_def)
  then show False using assms(2) by (simp add: room_id_taken_def)
qed

lemma dir_inv_replace:
  assumes "dir_inv w" "map_of (protocol_rooms w) rid = Some r" "room_entry_ok rid r'" "set (user_nos r') = set (user_nos r)"
  shows "dir_inv (put_room rid r' w)"
proof -
  note d = dir_invD[OF assms(1)]
  have "dir_inv (put_room rid r' w\<lparr>protocol_room_by_user := protocol_room_by_user w\<rparr>)"
  proof (rule dir_inv_put[OF assms(1,3) d(2)[OF assms(2)] known_id_not_free[OF assms(1,2)]])
    show "map_of (protocol_room_by_user w) u = Some rid \<longleftrightarrow> u \<in> set (user_nos r')" for u
      using d(3)[of u rid] d(4)[OF assms(2), of u] assms(2,4) by auto
  qed simp
  then show ?thesis by (simp add: put_room_def)
qed

section \<open>Rooms that keep their people\<close>

lemma empty_no_users: "room_is_empty r \<longleftrightarrow> user_nos r = []"
  by (auto simp: room_is_empty_def user_nos_def flatten_None list_all_iff is_none_def)

definition quiet :: "protocol_room \<Rightarrow> protocol_room \<Rightarrow> bool" where
  "quiet r next \<longleftrightarrow> room_id next = room_id r \<and> phase next = phase r \<and> seat_inv next \<and>
     mset (user_nos next) = mset (user_nos r)"

lemma quiet_entry:
  assumes "quiet r next" "room_entry_ok rid r"
  shows "room_entry_ok rid next" "set (user_nos next) = set (user_nos r)"
proof -
  have m: "mset (user_nos next) = mset (user_nos r)" using assms(1) by (simp add: quiet_def)
  then show "set (user_nos next) = set (user_nos r)" by (rule mset_eq_setD)
  have "distinct (user_nos next) = distinct (user_nos r)" using m by (rule mset_eq_imp_distinct_iff)
  moreover have "(user_nos next = []) = (user_nos r = [])" using m by auto
  ultimately show "room_entry_ok rid next"
    using assms by (simp add: quiet_def room_entry_ok_def empty_no_users)
qed

lemma quiet_put:
  assumes "dir_inv w" "map_of (protocol_rooms w) rid = Some r" "quiet r next"
  shows "dir_inv (put_room rid next w)"
  using dir_inv_replace[OF assms(1,2)] quiet_entry[OF assms(3) dir_invD(1)[OF assms(1,2)]] by blast

lemma quiet_refl: "seat_inv r \<Longrightarrow> quiet r r"
  by (simp add: quiet_def)

lemma quiet_trans: "quiet r s \<Longrightarrow> quiet s t \<Longrightarrow> quiet r t"
  by (simp add: quiet_def)

lemma quiet_settings:
  assumes "seat_inv r" "rs_game_type s = rs_game_type (settings r)"
  shows "quiet r (r\<lparr>settings := s\<rparr>)"
  using seat_inv_core[of "r\<lparr>settings := s\<rparr>" r] assms by (simp add: quiet_def)

lemma set_type_fields [simp]:
  "room_master (set_player_type t i r) = room_master r" "room_id (set_player_type t i r) = room_id r"
  "phase (set_player_type t i r) = phase r" "settings (set_player_type t i r) = settings r"
  by (simp_all add: set_player_type_def)

lemma set_type_quiet:
  assumes "seat_inv r" "t = 2 \<or> t = 3"
  shows "quiet r (set_player_type t i r)"
proof -
  have r: "room_seats r" "teams_ok r" "master_ok r" "presentable r" using assms(1) by (simp_all add: seat_inv_def)
  have roster: "same_roster r (set_player_type t i r)"
    by (cases "members_by_id r ! i")
       (simp_all add: same_roster_def set_player_type_def team_mode_def map_update_key roster_key_def)
  have "presentable (set_player_type t i r)"
  proof (cases "i < length (members_by_id r)")
    case True
    show ?thesis
    proof (cases "members_by_id r ! i")
      case None
      then show ?thesis using r(4) presentable_drop(1)[OF r(4), of i] by (simp add: set_player_type_def)
    next
      case (Some m)
      then have "presentable_player (m_player m)" using r(4) nth_in_flatten[OF True Some] by (simp add: presentable_def)
      then show ?thesis using presentable_member_update[OF r(4)] assms(2) Some
        by (simp add: set_player_type_def presentable_player_def)
    qed
  next
    case False
    then show ?thesis using r(4) by (simp add: set_player_type_def presentable_def list_update_beyond)
  qed
  then show ?thesis
    using same_roster_seats[OF roster r(1)] same_roster_teams[OF roster r(1,2)] same_roster_master[OF roster r(1,3)]
      same_roster_users[OF roster] by (simp add: quiet_def seat_inv_def)
qed

lemma member_id_Some:
  assumes "member_id r u = Some i"
  obtains m where "i < length (members_by_id r)" "members_by_id r ! i = Some m" "m_user_no m = u"
  using is_user_found[of u "members_by_id r" i] assms by (metis member_id_def)

text \<open>A racer keeps one slot: it moves to the other half with the racer's team.\<close>

lemma move_quiet:
  assumes "seat_inv r" "team_mode r" "i < 8" "members_by_id r ! i = Some m" "c < 8" "slot_positions r ! c = Some i"
    "team_range team r = Some s"
  shows "quiet r (move_to_team i c s team r)"
proof -
  have r: "room_seats r" "teams_ok r" "master_ok r" "presentable r" using assms(1) by (simp_all add: seat_inv_def)
  note d = room_seatsD[OF r(1)]
  let ?m = "m\<lparr>m_player := (m_player m)\<lparr>player_team := team_wire team, player_type := slot_state_wire NotReady\<rparr>\<rparr>"
  have s: "s < 8" "slot_positions r ! s = None" "team_at True s (team_wire team)"
    using assms(7) by (auto simp: team_range_def team_at_def ROOM_SLOT_COUNT_def dest!: free_slot_Some split: room_team.split_asm)
  have "c \<noteq> s" using s(2) assms(6) by auto
  let ?r = "move_to_team i c s team r"
  have e: "?r = r\<lparr>slot_positions := ((slot_positions r)[c := None])[s := Some i],
      members_by_id := (members_by_id r)[i := Some ?m]\<rparr>"
    using assms(4) by (simp add: move_to_team_def Let_def)
  have f: "slot_positions ?r = ((slot_positions r)[c := None])[s := Some i]" "ais_by_id ?r = ais_by_id r"
    "closed_slots_by_id ?r = closed_slots_by_id r" "observers ?r = observers r" "room_master ?r = room_master r"
    "members_by_id ?r = (members_by_id r)[i := Some ?m]" "team_mode ?r = team_mode r"
    by (simp_all add: e team_mode_def)
  have others: "members_by_id ?r ! j = members_by_id r ! j" if "j \<noteq> i" for j using that by (simp add: f)
  have here: "members_by_id ?r ! i = Some ?m" using assms(3) d(1) by (simp add: f)
  have n: "(members_by_id ?r ! j = None) = (members_by_id r ! j = None)" for j
    using others[of j] here assms(4) by (cases "j = i") auto
  have seats: "room_seats ?r"
  proof (rule room_seatsI)
    show "room_shape ?r" using d by (simp add: room_shape_def f)
    show "one_occupant ?r j" if "j < 8" for j using d(6)[OF that] n by (simp add: one_occupant_def f)
    have "seats_ok (seated r) (slot_positions ?r)"
      unfolding f(1) by (rule seat_moved[OF d(7) assms(5,6) s(1,2)])
    moreover have "seated ?r = seated r" using n by (simp add: seated_def f fun_eq_iff)
    ultimately show "seats_ok (seated ?r) (slot_positions ?r)" by simp
    have "closed_slots_by_id r ! i = None" using d(6)[OF assms(3)] assms(4) by (simp add: one_occupant_def)
    then have "j \<noteq> i" if "closed_slots_by_id r ! j = Some u" for j u using that by auto
    then have "u < 8 \<and> slot_positions ?r ! u = Some j" if "j < 8" "closed_slots_by_id r ! j = Some u" for j u
    proof -
      have u: "u < 8" "slot_positions r ! u = Some j" using d(8) that by (auto simp: closed_named_def)
      then have "u \<noteq> c" "u \<noteq> s" using assms(6) s(2) \<open>closed_slots_by_id r ! i = None\<close> that(2) by auto
      then show ?thesis using u by (simp add: f)
    qed
    then show "closed_named ?r" by (simp add: closed_named_def f)
  qed
  have teams: "teams_ok ?r"
    unfolding teams_ok_def
  proof (intro allI impI)
    fix u j t assume a: "u < 8" "slot_positions ?r ! u = Some j" "team_of ?r j = Some t"
    show "team_at (team_mode ?r) u t"
    proof (cases "u = s")
      case True
      then have "j = i" using a(2) d(5) s(1) by (simp add: f)
      then show ?thesis using True a(3) here s(3) assms(2) by (simp add: team_of_def f(7))
    next
      case False
      then have u: "u \<noteq> c" "slot_positions r ! u = Some j"
        using a(1,2) d(5) assms(5) \<open>c \<noteq> s\<close> by (auto simp: f nth_list_update split: if_split_asm)
      then have "j \<noteq> i" using seats_okD(3)[OF d(7), of u c i] a(1) assms(5,6) by auto
      then have "team_of r j = Some t" using a(3) others[of j] by (simp add: team_of_def f(2) split: option.splits)
      then have "team_at (team_mode r) u t" using r(2) a(1) u(2) unfolding teams_ok_def by blast
      then show ?thesis by (simp add: f(7))
    qed
  qed
  have "member_by_player_id ?r p \<noteq> None" if "member_by_player_id r p \<noteq> None" for p
    using that here others[of "nat p"] by (cases "nat p = i") (simp_all add: member_by_player_id_def Let_def f(4) split: if_split_asm)
  moreover have "\<not> list_all is_none (members_by_id r)" "\<not> room_is_empty r"
    using assms(3,4) d(1) by (auto simp: list_all_length is_none_def room_is_empty_def)
  ultimately have master: "master_ok ?r" using r(3) by (simp add: master_ok_def f(5))
  have "presentable_player (m_player m)" using r(4) nth_in_flatten[of i "members_by_id r"] assms(3,4) d(1)
    by (simp add: presentable_def)
  then have "presentable (r\<lparr>members_by_id := (members_by_id r)[i := Some ?m]\<rparr>)"
    by (intro presentable_member_update[OF r(4)]) (simp_all add: presentable_player_def)
  then have shown: "presentable ?r" by (simp add: presentable_def f)
  have "map m_user_no (flatten (members_by_id ?r)) = map m_user_no (flatten (members_by_id r))"
    unfolding flatten_map[symmetric] f(6) using assms(4) by (simp add: map_update_key)
  then show ?thesis
    using seats teams master shown by (simp add: quiet_def seat_inv_def user_nos_def f(4) move_to_team_def Let_def)
qed

section \<open>Leaving the directory\<close>

lemma distinct_add_mset: "mset xs = add_mset u (mset ys) \<Longrightarrow> distinct xs \<Longrightarrow> distinct ys \<and> u \<notin> set ys \<and> set xs = insert u (set ys)"
proof -
  assume a: "mset xs = add_mset u (mset ys)" "distinct xs"
  then have "mset xs = mset (u # ys)" by simp
  then have "distinct (u # ys)" "set xs = set (u # ys)" using a(2) mset_eq_imp_distinct_iff mset_eq_setD by blast+
  then show ?thesis by simp
qed

lemma dir_inv_left:
  assumes "dir_inv w" "map_of (protocol_rooms w) rid = Some r" "room_entry_ok rid r'"
    "mset (user_nos r) = add_mset u (mset (user_nos r'))"
  shows "dir_inv (put_room rid r' (w\<lparr>protocol_room_by_user := tdel u (protocol_room_by_user w)\<rparr>))"
proof -
  note d = dir_invD[OF assms(1)]
  have e: "distinct (user_nos r')" "u \<notin> set (user_nos r')" "set (user_nos r) = insert u (set (user_nos r'))"
    using distinct_add_mset[OF assms(4)] d(1)[OF assms(2)] by (simp_all add: room_entry_ok_def)
  have u: "map_of (protocol_room_by_user w) u = Some rid" using d(4)[OF assms(2)] e(3) by simp
  have "dir_inv (put_room rid r' w\<lparr>protocol_room_by_user := tdel u (protocol_room_by_user w)\<rparr>)"
  proof (rule dir_inv_put[OF assms(1,3) d(2)[OF assms(2)] known_id_not_free[OF assms(1,2)]])
    fix v
    have "map_of (protocol_room_by_user w) v = Some rid \<longleftrightarrow> v \<in> set (user_nos r)"
      using d(3)[of v rid] d(4)[OF assms(2), of v] assms(2) by auto
    then show "map_of (tdel u (protocol_room_by_user w)) v = Some rid \<longleftrightarrow> v \<in> set (user_nos r')"
      using e(2,3) by auto
  qed (use u in auto)
  then show ?thesis by (rule dir_inv_cong[THEN iffD2, rotated 4]) (simp_all add: put_room_def)
qed

lemma dir_inv_drop:
  assumes "dir_inv w" "map_of (protocol_rooms w) rid = Some r"
    "\<And>u. map_of by' u \<noteq> Some rid"
    "\<And>u other. other \<noteq> rid \<Longrightarrow> map_of by' u = Some other \<longleftrightarrow> map_of (protocol_room_by_user w) u = Some other"
  shows "dir_inv (drop_room rid (w\<lparr>protocol_room_by_user := by'\<rparr>))"
proof -
  note d = dir_invD[OF assms(1)]
  let ?w = "drop_room rid (w\<lparr>protocol_room_by_user := by'\<rparr>)"
  have f: "protocol_rooms ?w = tdel rid (protocol_rooms w)" "rooms ?w = rooms w" "protocol_room_by_user ?w = by'"
    "free_protocol_room_ids ?w = List.insort_insert (ucast rid) (free_protocol_room_ids w)"
    by (simp_all add: drop_room_def free_room_id_def)
  have "rooms_ok ?w" using d(1,2) by (auto simp: rooms_ok_def f)
  moreover have "members_ok ?w"
    unfolding members_ok_def f
  proof (intro allI)
    fix v other
    show "map_of by' v = Some other \<longleftrightarrow>
        (\<exists>r. map_of (tdel rid (protocol_rooms w)) other = Some r \<and> v \<in> set (user_nos r))"
      using d(3)[of v other] d(4)[of other _ v] assms(3,4) by (cases "other = rid") auto
  qed
  moreover have "free_ids_ok ?w"
  proof -
    have rid: "rid \<noteq> 0" "unat rid < 2 ^ 16" using d(1)[OF assms(2)] by (simp_all add: room_entry_ok_def)
    then have bk: "(ucast (ucast rid :: u16) :: u32) = rid" by (intro wide_narrow)
    then have "(ucast rid :: u16) \<noteq> 0" using rid(1) by auto
    moreover have "\<not> room_id_taken rid ?w" using d(2)[OF assms(2)] by (simp add: room_id_taken_def f)
    moreover have "\<not> room_id_taken (ucast i) ?w" if "\<not> room_id_taken (ucast i) w" for i :: u16
      using that by (simp add: room_id_taken_def f)
    ultimately show ?thesis
      using assms(1) bk unfolding dir_inv_def free_ids_ok_def f
      by (auto simp: set_insort_insert sorted_insort_insert distinct_insort_insert)
  qed
  ultimately show ?thesis by (simp add: dir_inv_def)
qed

lemma dir_inv_dropped:
  assumes "dir_inv w" "map_of (protocol_rooms w) rid = Some r" "set (user_nos r) \<subseteq> {u}"
    "map_of (protocol_room_by_user w) u = Some rid"
  shows "dir_inv (drop_room rid (w\<lparr>protocol_room_by_user := tdel u (protocol_room_by_user w)\<rparr>))"
proof (rule dir_inv_drop[OF assms(1,2)])
  fix v other
  note d = dir_invD[OF assms(1)]
  show "map_of (tdel u (protocol_room_by_user w)) v \<noteq> Some rid"
    using d(3)[of v rid] assms(2,3) by (cases "v = u") auto
  show "other \<noteq> rid \<Longrightarrow> map_of (tdel u (protocol_room_by_user w)) v = Some other \<longleftrightarrow>
      map_of (protocol_room_by_user w) v = Some other"
    using assms(4) by (cases "v = u") auto
qed

lemma dir_inv_empty_dropped:
  assumes "dir_inv w" "map_of (protocol_rooms w) rid = Some r" "user_nos r = []"
  shows "dir_inv (drop_room rid w)"
proof -
  have "dir_inv (drop_room rid (w\<lparr>protocol_room_by_user := protocol_room_by_user w\<rparr>))"
  proof (rule dir_inv_drop[OF assms(1,2)])
    show "map_of (protocol_room_by_user w) v \<noteq> Some rid" for v
      using dir_invD(3)[OF assms(1), of v rid] assms(2,3) by auto
  qed simp
  then show ?thesis by simp
qed

text \<open>The removal of a user from a room that has other people.\<close>

lemma removed_entry:
  assumes "room_entry_ok rid r" "u \<in> set (user_nos r)"
  shows "fst (remove_user u r)" "mset (user_nos r) = add_mset u (mset (user_nos (snd (remove_user u r))))"
    "phase (snd (remove_user u r)) = phase r" "settings (snd (remove_user u r)) = settings r"
    "race_fence (snd (remove_user u r)) = race_fence r"
    "\<not> vacated_room_ends (snd (remove_user u r)) \<Longrightarrow> room_entry_ok rid (snd (remove_user u r))"
proof -
  have inv: "seat_inv r" "distinct (user_nos r)" using assms(1) by (simp_all add: room_entry_ok_def)
  note m = remove_user_inv[OF inv(1), of u]
  show f: "fst (remove_user u r)" using m(2) assms(2) by (auto split: if_split_asm)
  then show u: "mset (user_nos r) = add_mset u (mset (user_nos (snd (remove_user u r))))" using m(2) by simp
  have a: "phase (assign_next_room_master x) = phase x \<and> room_id (assign_next_room_master x) = room_id x \<and>
      settings (assign_next_room_master x) = settings x \<and> race_fence (assign_next_room_master x) = race_fence x" for x
    by (cases rule: assign_master_cases[of x]) simp_all
  have k: "phase (snd (remove_user u r)) = phase r \<and> room_id (snd (remove_user u r)) = room_id r \<and>
      settings (snd (remove_user u r)) = settings r \<and> race_fence (snd (remove_user u r)) = race_fence r"
    by (simp add: remove_user_def Let_def a split: option.split)
  then show "phase (snd (remove_user u r)) = phase r" "settings (snd (remove_user u r)) = settings r"
    "race_fence (snd (remove_user u r)) = race_fence r" by simp_all
  show "room_entry_ok rid (snd (remove_user u r))" if "\<not> vacated_room_ends (snd (remove_user u r))"
    using that assms(1) m(1) k distinct_add_mset[OF u inv(2)]
    by (auto simp: room_entry_ok_def vacated_room_ends_def)
qed

end
