(* ===== verification/LobbyPlans.thy ===== *)
theory LobbyPlans
  imports LobbyInv
begin

text \<open>
  What every lobby command plans (\<open>crates/p4475-server/src/world.rs\<close>): a change that keeps the
  invariants of the directory, computed without meeting a failing \<open>expect\<close>.
\<close>

section \<open>Plans on the room of the requester\<close>

lemma with_room_Inr:
  assumes "with_room identity w f = Returns (Inr p)"
  obtains rid r where "map_of (protocol_room_by_user w) (bind_user_no identity) = Some rid"
    "map_of (protocol_rooms w) rid = Some r" "f rid r = Returns (Inr p)"
  using assms by (auto simp: with_room_def protocol_room_id_def ok_or_Inr ok_or_Inl split: sum.split_asm option.split_asm)

lemma with_room_total:
  assumes "dir_inv w" "\<And>rid r. map_of (protocol_rooms w) rid = Some r \<Longrightarrow> seat_inv r \<Longrightarrow> f rid r \<noteq> Panics"
  shows "with_room identity w f \<noteq> Panics"
proof (cases "map_of (protocol_room_by_user w) (bind_user_no identity)")
  case None
  then show ?thesis by (simp add: with_room_def protocol_room_id_def)
next
  case (Some rid)
  then obtain r where "map_of (protocol_rooms w) rid = Some r" using dir_invD(3)[OF assms(1)] by blast
  then show ?thesis using Some assms(2)[of rid r] dir_invD(1)[OF assms(1)]
    by (simp add: with_room_def protocol_room_id_def room_entry_ok_def)
qed

definition keeps_dir :: "lobby_world \<Rightarrow> lobby_plan \<Rightarrow> bool" where
  "keeps_dir w p \<longleftrightarrow> (\<forall>ss. dir_inv (plan_commit p (w\<lparr>sessions := ss\<rparr>)))"

lemma keeps_put:
  assumes "dir_inv w" "map_of (protocol_rooms w) rid = Some r" "quiet r next" "plan_commit p = put_room rid next"
  shows "keeps_dir w p"
  unfolding keeps_dir_def assms(4)
proof
  fix ss
  have "dir_inv (put_room rid next w)" by (rule quiet_put[OF assms(1-3)])
  moreover have "put_room rid next (w\<lparr>sessions := ss\<rparr>) = (put_room rid next w)\<lparr>sessions := ss\<rparr>"
    by (simp add: put_room_def)
  ultimately show "dir_inv (put_room rid next (w\<lparr>sessions := ss\<rparr>))" by simp
qed

lemma keeps_id: "dir_inv w \<Longrightarrow> plan_commit p = id \<Longrightarrow> keeps_dir w p"
  by (simp add: keeps_dir_def)

lemma world_seat_inv: "dir_inv w \<Longrightarrow> map_of (protocol_rooms w) rid = Some r \<Longrightarrow> seat_inv r"
  using dir_invD(1) by (simp add: room_entry_ok_def)

lemmas plan_eqs = result_eqs Let_def

section \<open>Member commands\<close>

lemma set_slot_state_keeps:
  assumes "dir_inv w" "set_slot_state identity state w = Returns (Inr p)"
  shows "keeps_dir w p"
  using assms(2) unfolding set_slot_state_def
proof (rule with_room_Inr, goal_cases)
  case (1 rid r)
  note inv = world_seat_inv[OF assms(1) 1(2)]
  from 1(3) obtain i where "slot_state_wire state = 2 \<or> slot_state_wire state = 3"
    "plan_commit p = put_room rid (set_player_type (slot_state_wire state) i r)"
    by (auto simp: plan_eqs split: player_slot_state.split_asm)
  then show ?case using keeps_put[OF assms(1) 1(2) set_type_quiet[OF inv]] by blast
qed

lemma change_team_keeps:
  assumes "dir_inv w" "change_team identity team w = Returns (Inr p)"
  shows "keeps_dir w p"
  using assms(2) unfolding change_team_def
proof (rule with_room_Inr, goal_cases)
  case (1 rid r)
  note inv = world_seat_inv[OF assms(1) 1(2)]
  have seats: "room_seats r" using inv by (simp add: seat_inv_def)
  from 1(3) obtain i c m where i: "team_mode r" "member_id r (bind_user_no identity) = Some i"
    "first_index (\<lambda>p. p = Some i) (slot_positions r) = Some c" "members_by_id r ! i = Some m" "require_lobby r = Inr ()"
    by (auto simp: plan_eqs split: sum.split_asm option.split_asm)
  have b: "i < 8" "c < 8" "slot_positions r ! c = Some i"
    using member_id_Some[OF i(2)] i(3) room_seatsD(1,5)[OF seats] by (auto simp: first_index_Some)
  from 1(3) i obtain nx where n: "plan_commit p = put_room rid nx"
    "nx = r \<or> (\<exists>s. team_range team r = Some s \<and> nx = move_to_team i c s team r)"
    by (auto simp: plan_eqs split: if_split_asm)
  have "quiet r nx" using n(2) quiet_refl[OF inv] move_quiet[OF inv i(1) b(1) i(4) b(2,3)] by blast
  then show ?case using keeps_put[OF assms(1) 1(2) _ n(1)] by blast
qed

lemma change_team_total:
  assumes "dir_inv w"
  shows "change_team identity team w \<noteq> Panics"
  unfolding change_team_def
proof (rule with_room_total[OF assms], goal_cases)
  case (1 rid r)
  have seats: "room_seats r" using 1(2) by (simp add: seat_inv_def)
  have "\<exists>c m. first_index (\<lambda>p. p = Some i) (slot_positions r) = Some c \<and> members_by_id r ! i = Some m"
    if member: "member_id r (bind_user_no identity) = Some i" for i
  proof -
    obtain m where m: "i < length (members_by_id r)" "members_by_id r ! i = Some m"
      using member_id_Some[OF member] by blast
    then have "i < 8" "seated r i" using room_seatsD(1)[OF seats] by (simp_all add: seated_def)
    then show ?thesis using seat_has_slot[OF seats] m(2) by metis
  qed
  then show ?case by (auto simp: plan_eqs split: sum.split option.split)
qed

lemma change_master_keeps:
  assumes "dir_inv w" "change_master identity nickname w = Returns (Inr p)"
  shows "keeps_dir w p"
  using assms(2) unfolding change_master_def
proof (rule with_room_Inr, goal_cases)
  case (1 rid r)
  note inv = world_seat_inv[OF assms(1) 1(2)]
  from 1(3) obtain j i where ij: "first_index (named_member (host_strings w)
      (canonical_nickname_key (host_strings w) nickname)) (members_by_id r) = Some i"
    "plan_commit p = put_room rid ((set_player_type 2 i (set_player_type 2 j r))\<lparr>room_master := int i\<rparr>)"
    by (auto simp: plan_eqs)
  let ?s = "set_player_type 2 i (set_player_type 2 j r)"
  have q: "quiet r ?s" using set_type_quiet[OF inv] set_type_quiet quiet_trans by (metis quiet_def)
  then have s: "room_seats ?s" "teams_ok ?s" "presentable ?s" by (simp_all add: quiet_def seat_inv_def)
  have i: "i < length (members_by_id r)" "members_by_id r ! i \<noteq> None"
    using ij(1) by (auto simp: first_index_Some named_member_def split: option.split_asm)
  have "i < length (members_by_id ?s)" "members_by_id ?s ! i \<noteq> None"
    using i by (cases "j = i"; auto simp: set_player_type_def nth_list_update)+
  then obtain m where "i < 8" "members_by_id ?s ! i = Some m" using room_seatsD(1)[OF s(1)] by auto
  from seated_master[OF s this] have "seat_inv (?s\<lparr>room_master := int i\<rparr>)"
    "user_nos (?s\<lparr>room_master := int i\<rparr>) = user_nos ?s" by (metis (full_types))+
  then have "quiet r (?s\<lparr>room_master := int i\<rparr>)" using q by (simp add: quiet_def)
  then show ?case using keeps_put[OF assms(1) 1(2) _ ij(2)] by blast
qed

section \<open>Master commands\<close>

lemma change_track_keeps:
  assumes "dir_inv w" "change_track identity request w = Returns (Inr p)"
  shows "keeps_dir w p"
  using assms(2) unfolding change_track_def
proof (rule with_room_Inr, goal_cases)
  case (1 rid r)
  let ?s = "(settings r)\<lparr>rs_track := track_track request, rs_room_data_header := track_room_data_header request,
     rs_room_data := track_room_data request\<rparr>"
  from 1(3) have c: "plan_commit p = put_room rid (r\<lparr>settings := ?s\<rparr>)" by (auto simp: plan_eqs)
  have "quiet r (r\<lparr>settings := ?s\<rparr>)" by (rule quiet_settings[OF world_seat_inv[OF assms(1) 1(2)]]) simp
  then show ?case using keeps_put[OF assms(1) 1(2) _ c] by blast
qed

lemma change_room_info_keeps:
  assumes "dir_inv w" "change_room_info identity request w = Returns (Inr p)"
  shows "keeps_dir w p"
  using assms(2) unfolding change_room_info_def
proof (rule with_room_Inr, goal_cases)
  case (1 rid r)
  let ?s = "(settings r)\<lparr>rs_room_name := info_room_name request, rs_password := info_password request\<rparr>"
  from 1(3) have c: "plan_commit p = put_room rid (r\<lparr>settings := ?s\<rparr>)" by (auto simp: plan_eqs)
  have "quiet r (r\<lparr>settings := ?s\<rparr>)" by (rule quiet_settings[OF world_seat_inv[OF assms(1) 1(2)]]) simp
  then show ?case using keeps_put[OF assms(1) 1(2) _ c] by blast
qed

lemma set_close_fields:
  "room_id (snd (set_close_slots request r)) = room_id r" "phase (snd (set_close_slots request r)) = phase r"
proof -
  have "room_id (fold (apply_close_pair b) ps x) = room_id x \<and> phase (fold (apply_close_pair b) ps x) = phase x" for b ps x
    by (induction ps arbitrary: x) (simp_all add: apply_close_pair_def split_beta)
  then show "room_id (snd (set_close_slots request r)) = room_id r" "phase (snd (set_close_slots request r)) = phase r"
    by (simp_all add: set_close_slots_def Let_def)
qed

lemma change_closed_slots_keeps:
  assumes "dir_inv w" "change_closed_slots identity request w = Returns (Inr p)"
  shows "keeps_dir w p"
  using assms(2) unfolding change_closed_slots_def
proof (rule with_room_Inr, goal_cases)
  case (1 rid r)
  note inv = world_seat_inv[OF assms(1) 1(2)]
  from 1(3) have "plan_commit p = put_room rid (snd (set_close_slots request r)) \<or> plan_commit p = id"
    by (auto simp: plan_eqs split: prod.split_asm if_split_asm)
  moreover have "quiet r (snd (set_close_slots request r))"
    using set_close_slots_inv[OF inv] set_close_fields by (simp add: quiet_def)
  ultimately show ?case using keeps_put[OF assms(1) 1(2)] keeps_id[OF assms(1)] by blast
qed

lemma remove_ai_fields:
  "remove_ai p r = Returns (x, r') \<Longrightarrow> room_id r' = room_id r \<and> phase r' = phase r"
  by (auto simp: remove_ai_def Let_def split: if_split_asm option.split_asm)

lemma add_ais_fields:
  "room_id (snd (add_ais cs added r)) = room_id r \<and> phase (snd (add_ais cs added r)) = phase r"
proof (induction cs added r rule: add_ais.induct)
  case (2 team ai rest added r)
  let ?slot = "if team = 2 then free_slot_in 0 (ROOM_SLOT_COUNT div 2) (slot_positions r)
     else if team = 1 then free_slot_in (ROOM_SLOT_COUNT div 2) ROOM_SLOT_COUNT (slot_positions r)
     else free_slot_in 0 ROOM_SLOT_COUNT (slot_positions r)"
  show ?case
  proof (cases "vacant_member_id r")
    case (Some i)
    show ?thesis
    proof (cases ?slot)
      case None
      then show ?thesis using Some by simp
    next
      case slot: (Some s)
      show ?thesis using 2[OF Some slot refl refl refl] Some slot by (simp add: Let_def)
    qed
  qed simp
qed simp

lemma basic_ai_quiet:
  assumes "seat_inv r" "basic_ai_change request candidates r = Returns (Inr (d, r'))"
  shows "quiet r r'"
proof -
  obtain x s where s: "remove_ai (basic_player_id request) r = Returns (x, s)" "seat_inv s" "user_nos s = user_nos r"
    using remove_ai_inv[OF assms(1)] by blast
  then have q: "quiet r s" using remove_ai_fields[OF s(1)] by (simp add: quiet_def)
  let ?a = "add_basic_ais [fst candidates, snd candidates] s"
  have teams: "if team_mode s then t \<in> {1, 2} else t = 0"
    if "(t, ai) \<in> set (zip (if team_mode s then [2, 1] else [0]) [fst candidates, snd candidates])" for t ai
    using that by (auto split: if_split_asm)
  have "quiet s (snd ?a)"
    using add_ais_inv[OF s(2) teams] add_ais_fields by (simp add: quiet_def add_basic_ais_def)
  moreover have "r' = s \<or> r' = snd ?a"
    using assms(2) s(1)
    by (auto simp: basic_ai_change_def plan_eqs split: option.split_asm prod.split_asm)
  ultimately show ?thesis using q quiet_trans by blast
qed

lemma basic_ai_total:
  assumes "seat_inv r"
  shows "basic_ai_change request candidates r \<noteq> Panics"
proof -
  obtain x s where "remove_ai (basic_player_id request) r = Returns (x, s)"
    using remove_ai_inv[OF assms] by blast
  then show ?thesis by (cases x) (simp_all add: basic_ai_change_def split: option.split prod.split)
qed

lemma change_basic_ai_keeps:
  assumes "dir_inv w" "change_basic_ai identity request candidates w = Returns (Inr p)"
  shows "keeps_dir w p"
  using assms(2) unfolding change_basic_ai_def
proof (rule with_room_Inr, goal_cases)
  case (1 rid r)
  from 1(3) obtain d r' where "basic_ai_change request candidates r = Returns (Inr (d, r'))"
    "plan_commit p = put_room rid r' \<or> plan_commit p = id"
    by (auto simp: plan_eqs split: sum.split_asm may_panic.split_asm prod.split_asm if_split_asm)
  then show ?case
    using keeps_put[OF assms(1) 1(2) basic_ai_quiet[OF world_seat_inv[OF assms(1) 1(2)]]] keeps_id[OF assms(1)] by blast
qed

lemma change_basic_ai_total:
  assumes "dir_inv w"
  shows "change_basic_ai identity request candidates w \<noteq> Panics"
  unfolding change_basic_ai_def
  by (rule with_room_total[OF assms])
     (use basic_ai_total in \<open>auto split: sum.split may_panic.split prod.split\<close>)

lemma kick_player_keeps:
  assumes "dir_inv w" "kick_player identity target w = Returns (Inr p)"
  shows "keeps_dir w p"
  using assms(2) unfolding kick_player_def
proof (rule with_room_Inr, goal_cases)
  case (1 rid r)
  note entry = dir_invD(1)[OF assms(1) 1(2)] and inv = world_seat_inv[OF assms(1) 1(2)]
  from 1(3) obtain m where m: "0 \<le> target" "target < 8" "members_by_id r ! nat target = Some m" "phase r = LobbyPhase"
    "plan_commit p = commit_kick (m_user_no m) rid (snd (remove_user (m_user_no m) r))"
    by (auto simp: plan_eqs require_lobby_master_def require_lobby_def ROOM_SLOT_COUNT_def split: if_split_asm)
  let ?u = "m_user_no m"
  have "m \<in> set (flatten (members_by_id r))"
    using m(1,2,3) room_seatsD(1)[of r] inv by (intro nth_in_flatten[of "nat target"]) (simp_all add: seat_inv_def)
  then have u: "?u \<in> set (user_nos r)" by (simp add: user_nos_def)
  note e = removed_entry[OF entry u]
  have "dir_inv (commit_kick ?u rid (snd (remove_user ?u r)) (w\<lparr>sessions := ss\<rparr>))" for ss
  proof -
    have w: "dir_inv (w\<lparr>sessions := ss\<rparr>)" using assms(1) by simp
    have at: "map_of (protocol_rooms (w\<lparr>sessions := ss\<rparr>)) rid = Some r"
      "map_of (protocol_room_by_user (w\<lparr>sessions := ss\<rparr>)) ?u = Some rid"
      using 1(2) dir_invD(4)[OF assms(1) 1(2) u] by simp_all
    show ?thesis
    proof (cases "room_is_empty (snd (remove_user ?u r))")
      case True
      then have "mset (user_nos r) = {#?u#}" using e(2) by (simp add: empty_no_users)
      then have "set (user_nos r) \<subseteq> {?u}" using set_mset_mset[of "user_nos r"] by simp
      from dir_inv_dropped[OF w at(1) this at(2)] True show ?thesis by (simp add: commit_kick_def)
    next
      case False
      then show ?thesis using dir_inv_left[OF w at(1) e(6) e(2)] by (simp add: commit_kick_def vacated_room_ends_def)
    qed
  qed
  then show ?case by (simp add: keeps_dir_def m(5))
qed

section \<open>Chat\<close>

lemma chat_keeps:
  "dir_inv w \<Longrightarrow> relay_rider_talk identity request w = Returns (Inr p) \<Longrightarrow> keeps_dir w p"
  "dir_inv w \<Longrightarrow> relay_macro_chat identity macro message w = Returns (Inr p) \<Longrightarrow> keeps_dir w p"
  unfolding relay_rider_talk_def relay_macro_chat_def
  by (erule with_room_Inr, rule keeps_id, assumption, force simp: plan_eqs)+

section \<open>Starting a race\<close>

definition lobby_inv :: "lobby_world \<Rightarrow> bool" where
  "lobby_inv w \<longleftrightarrow> dir_inv w \<and> reg_inv (host_strings w) {} (identities w)"

lemma active_user_no:
  assumes "reg_inv h K ids" "active_identity_by_user_no u ids = Some b"
  shows "bind_user_no b = u" "map_of (session_bindings ids) (bind_owner b) = Some b"
proof -
  note d = reg_invD[OF assms(1)]
  obtain k a s where k: "map_of (name_by_user_no ids) u = Some k" "map_of (active_by_name ids) k = Some a"
    "owner a = Some s" "b = identity_binding_of a s"
    using assms(2) by (auto simp: active_identity_by_user_no_def active_identity_binding_def split: option.split_asm)
  obtain i where i: "map_of (known_by_name ids) k = Some i" "known_user_no i = u"
    using known_invD(6)[OF d(2) k(1)] by blast
  have e: "known a = i" "map_of (session_bindings ids) s = Some (identity_binding_of a s)"
    using d(5)[OF k(2)] i(1) k(3) by (simp_all add: entry_ok_def)
  show "bind_user_no b = u" using k(4) e(1) i(2) by (simp add: identity_binding_of_def)
  show "map_of (session_bindings ids) (bind_owner b) = Some b" using k(4) e(2) by (simp add: identity_binding_of_def)
qed

text \<open>What the frozen participants of a member list are.\<close>

lemma freeze_members_Inr:
  assumes "freeze_members freeze ids ms = Inr ps"
  shows "list_all2 (\<lambda>(i, m) p. \<exists>b. active_identity_by_user_no (m_user_no m) ids = Some b \<and> p = freeze i m b)
    (List.map_filter (\<lambda>(i, m). map_option (Pair i) m) ms) ps"
  using assms
proof (induction freeze ids ms arbitrary: ps rule: freeze_members.induct)
  case (3 freeze ids i m rest)
  then show ?case by (auto simp: attempt_Inr map_filter_simps split: option.split_asm)
qed (simp_all add: map_filter_simps)

definition frozen_users :: "frozen_race_participant list \<Rightarrow> u32 list" where
  "frozen_users ps = map (\<lambda>p. bind_user_no (fp_identity p)) ps"

lemma indexed_members: "map (\<lambda>(i, m). m) (List.map_filter (\<lambda>(i, m). map_option (Pair i) m) (enumerate n ms)) = flatten ms"
  by (induction ms arbitrary: n) (auto simp: map_filter_simps split: option.split)

lemma frozen_members_users:
  assumes "freeze_members freeze ids (enumerate 0 ms) = Inr ps" "reg_inv h K ids"
    "\<And>i m b. fp_identity (freeze i m b) = b"
  shows "frozen_users ps = map m_user_no (flatten ms)"
proof -
  let ?ms = "List.map_filter (\<lambda>(i, m). map_option (Pair i) m) (enumerate 0 ms)"
  have "list_all2 (\<lambda>(i, m) p. bind_user_no (fp_identity p) = m_user_no m) ?ms ps"
    using freeze_members_Inr[OF assms(1)]
    by (rule list_all2_mono) (use active_user_no(1)[OF assms(2)] assms(3) in auto)
  then have "frozen_users ps = map (\<lambda>(i, m). m_user_no m) ?ms"
    unfolding frozen_users_def by (induction rule: list_all2_induct) auto
  also have "\<dots> = map m_user_no (map (\<lambda>(i, m). m) ?ms)" by (simp add: split_beta)
  finally show ?thesis by (simp only: indexed_members)
qed

lemma freeze_roster_users:
  assumes "freeze_race_roster r fence track w = Inr frozen" "reg_inv h K (identities w)"
  shows "frozen_users (participants frozen) = user_nos r" "roster_fence frozen = fence" "concrete_track frozen = track"
proof -
  obtain racers watchers where f: "freeze_members frozen_racer (identities w) (enumerate 0 (members_by_id r)) = Inr racers"
    "freeze_members frozen_observer (identities w) (enumerate 0 (observers r)) = Inr watchers"
    "participants frozen = racers @ watchers" "roster_fence frozen = fence" "concrete_track frozen = track"
    using assms(1) by (auto simp: freeze_race_roster_def attempt_Inr)
  have "frozen_users racers = map m_user_no (flatten (members_by_id r))"
    by (rule frozen_members_users[OF f(1) assms(2)]) (simp add: frozen_racer_def)
  moreover have "frozen_users watchers = map m_user_no (flatten (observers r))"
    by (rule frozen_members_users[OF f(2) assms(2)]) (simp add: frozen_observer_def)
  ultimately show "frozen_users (participants frozen) = user_nos r" using f(3) by (simp add: frozen_users_def user_nos_def)
  show "roster_fence frozen = fence" "concrete_track frozen = track" using f by simp_all
qed

lemma member_by_user_found: "u \<in> set (user_nos r) \<Longrightarrow> member_by_user_no r u \<noteq> None"
  by (auto simp: member_by_user_no_def user_nos_def find_None_iff)

lemma all_start_total:
  assumes "set (frozen_users ps) \<subseteq> set (user_nos r)"
  shows "all_start_deliveries identity r frozen p ps \<noteq> Panics"
  using assms
proof (induction ps)
  case (Cons participant ps)
  have "member_by_user_no r (bind_user_no (fp_identity participant)) \<noteq> None"
    using Cons.prems member_by_user_found by (simp add: frozen_users_def)
  moreover have "all_start_deliveries identity r frozen p ps \<noteq> Panics"
    using Cons by (simp add: frozen_users_def)
  ultimately show ?case by (auto simp: start_deliveries_def split: option.split sum.split may_panic.split)
qed simp

lemma start_room_total:
  assumes "lobby_inv w"
  shows "start_room draw identity p w \<noteq> Panics"
proof (cases "quiescing w")
  case True
  then show ?thesis by (simp add: start_room_def)
next
  case False
  have inv: "dir_inv w" "reg_inv (host_strings w) {} (identities w)" using assms by (simp_all add: lobby_inv_def)
  have "plan_start draw identity p rid r n e w \<noteq> Panics" for rid r n e
  proof -
    obtain selected nx where s: "select_start_track draw r p = (selected, nx)" by (cases "select_start_track draw r p")
    show ?thesis
    proof (cases "attempt selected (\<lambda>track. freeze_race_roster r \<lparr>fence_room = rid, fence_epoch = e\<rparr> track w)")
      case (Inl x)
      then show ?thesis by (simp add: plan_start_def s)
    next
      case (Inr frozen)
      then obtain track where "freeze_race_roster r \<lparr>fence_room = rid, fence_epoch = e\<rparr> track w = Inr frozen"
        by (auto simp: attempt_Inr)
      then have "frozen_users (participants frozen) = user_nos r" using freeze_roster_users(1) inv(2) by blast
      then have "all_start_deliveries identity r frozen p (participants frozen) \<noteq> Panics"
        by (intro all_start_total) simp
      then show ?thesis using Inr by (simp add: plan_start_def s split: may_panic.split)
    qed
  qed
  then have "with_room identity w (\<lambda>rid r.
        case attempt (require_lobby_master r (bind_user_no identity)) (\<lambda>requester.
             attempt (ensure (plan_ai_specs p = []) AiParticipantsUnsupported) (\<lambda>_.
             attempt (validate_start_racers r requester w) (\<lambda>racer_count.
             attempt (ok_or RaceEpochExhausted (next_race_epoch w)) (\<lambda>race_epoch.
             Inr (racer_count, race_epoch))))) of
          Inl e \<Rightarrow> Returns (Inl e)
        | Inr (racer_count, race_epoch) \<Rightarrow> plan_start draw identity p rid r racer_count race_epoch w) \<noteq> Panics"
    by (intro with_room_total[OF inv(1)]) (simp split: sum.split prod.split)
  then show ?thesis using False by (simp add: start_room_def)
qed

lemma select_start_core:
  "members_by_id (snd (select_start_track draw r p)) = members_by_id r"
  "ais_by_id (snd (select_start_track draw r p)) = ais_by_id r"
  "closed_slots_by_id (snd (select_start_track draw r p)) = closed_slots_by_id r"
  "observers (snd (select_start_track draw r p)) = observers r"
  "slot_positions (snd (select_start_track draw r p)) = slot_positions r"
  "room_master (snd (select_start_track draw r p)) = room_master r"
  "settings (snd (select_start_track draw r p)) = settings r"
  "room_id (snd (select_start_track draw r p)) = room_id r"
proof -
  have "snd (select_start_track draw r p) = snd (select_concrete_track draw
     (case map_option (\<lambda>pools. random_candidates pools (rs_game_type (settings r)) (rs_track (settings r)) (ai_count r \<noteq> 0))
        (plan_random_tracks p) of None \<Rightarrow> plan_track_candidates p
      | Some cs \<Rightarrow> if cs = [] then plan_track_candidates p else cs) r)"
    by (simp add: select_start_track_def Let_def split: prod.split option.split)
  then show "members_by_id (snd (select_start_track draw r p)) = members_by_id r"
    "ais_by_id (snd (select_start_track draw r p)) = ais_by_id r"
    "closed_slots_by_id (snd (select_start_track draw r p)) = closed_slots_by_id r"
    "observers (snd (select_start_track draw r p)) = observers r"
    "slot_positions (snd (select_start_track draw r p)) = slot_positions r"
    "room_master (snd (select_start_track draw r p)) = room_master r"
    "settings (snd (select_start_track draw r p)) = settings r"
    "room_id (snd (select_start_track draw r p)) = room_id r"
    by (simp_all only: select_track_core)
qed

lemma start_room_plan:
  assumes "start_room draw identity p w = Returns (Inr pl)"
  obtains rid r e n frozen track ds where "map_of (protocol_room_by_user w) (bind_user_no identity) = Some rid"
    "map_of (protocol_rooms w) rid = Some r" "phase r = LobbyPhase" "next_race_epoch w = Some e"
    "validate_start_racers r (room_master r) w = Inr n" "equipment_player_id r (bind_user_no identity) = Some (room_master r)"
    "fst (select_start_track draw r p) = Inr track"
    "freeze_race_roster r \<lparr>fence_room = rid, fence_epoch = e\<rparr> track w = Inr frozen"
    "all_start_deliveries identity r frozen p (participants frozen) = Returns (Inr ds)"
    "plan_deliveries pl = ds"
    "plan_commit pl = commit_start rid (snd (select_start_track draw r p)) frozen (checked_succ e)"
    "\<not> quiescing w"
proof -
  from assms have q: "\<not> quiescing w" by (auto simp: start_room_def split: if_split_asm)
  from assms[unfolded start_room_def if_not_P[OF q]] show thesis
  proof (rule with_room_Inr, goal_cases)
    case (1 rid r)
    from 1(3) obtain e n where a: "require_lobby_master r (bind_user_no identity) = Inr (room_master r)"
      "phase r = LobbyPhase" "equipment_player_id r (bind_user_no identity) = Some (room_master r)"
      "validate_start_racers r (room_master r) w = Inr n" "next_race_epoch w = Some e"
      "plan_start draw identity p rid r n e w = Returns (Inr pl)"
      by (auto simp: attempt_Inr attempt_Inl ok_or_Inr ensure_Inr require_lobby_master_def require_lobby_def
          split: sum.split_asm prod.split_asm if_split_asm)
    from a(6) obtain track frozen ds where b: "fst (select_start_track draw r p) = Inr track"
      "freeze_race_roster r \<lparr>fence_room = rid, fence_epoch = e\<rparr> track w = Inr frozen"
      "all_start_deliveries identity r frozen p (participants frozen) = Returns (Inr ds)"
      "plan_deliveries pl = ds"
      "plan_commit pl = commit_start rid (snd (select_start_track draw r p)) frozen (checked_succ e)"
      by (auto simp: plan_start_def Let_def attempt_Inr split: prod.split_asm sum.split_asm may_panic.split_asm)
    show thesis by (rule that[OF 1(1,2) a(2,5,4,3) b q])
  qed
qed

lemma start_room_keeps:
  assumes "dir_inv w" "start_room draw identity p w = Returns (Inr pl)"
  shows "keeps_dir w pl"
  using assms(2)
proof (rule start_room_plan, goal_cases)
  case (1 rid r e n frozen track ds)
  note entry = dir_invD(1)[OF assms(1) 1(2)]
  note c = select_start_core[of draw r p]
  define nx where "nx = (snd (select_start_track draw r p))\<lparr>phase := LoadingPhase, race_fence := Some (roster_fence frozen),
     frozen_race := Some frozen, race_progress := default_race_progress, loading_handshake := Dormant\<rparr>"
  have n: "seat_inv nx = seat_inv r" "user_nos nx = user_nos r"
    using seat_inv_core[of nx r] c by (simp_all add: nx_def)
  have "room_is_empty nx = room_is_empty r" by (simp add: empty_no_users n)
  then have nentry: "room_entry_ok rid nx" using entry n 1(3) c by (simp add: room_entry_ok_def) (simp add: nx_def c)
  have "dir_inv (commit_start rid (snd (select_start_track draw r p)) frozen (checked_succ e) (w\<lparr>sessions := ss\<rparr>))" for ss
  proof -
    have "dir_inv (put_room rid nx (w\<lparr>sessions := ss\<rparr>))"
      by (rule dir_inv_replace[of _ _ r]) (use assms(1) 1(2) nentry n(2) in simp_all)
    then show ?thesis by (simp add: commit_start_def nx_def Let_def)
  qed
  then show ?case by (simp add: keeps_dir_def 1(11))
qed

end
