(* ===== verification/LobbyEffects.thy ===== *)
theory LobbyEffects
  imports LobbyPlans
begin

text \<open>
  What a lobby command does to the outbound queues (\<open>reserve_outbound\<close> and \<open>publish_reserved\<close> of
  \<open>crates/p4475-server/src/world.rs\<close>): a command that fails sends nothing, a command that succeeds
  sends exactly the batches of its plan, in order.
\<close>

section \<open>Queues\<close>

text \<open>The batches waiting for a session.\<close>

definition batches :: "session_table \<Rightarrow> u64 \<Rightarrow> bytes list list" where
  "batches ss s = (case Option.bind (map_of ss s) outbound of None \<Rightarrow> [] | Some c \<Rightarrow> queue c)"

definition writable :: "session_table \<Rightarrow> u64 \<Rightarrow> bool" where
  "writable ss s \<longleftrightarrow> Option.bind (map_of ss s) outbound \<noteq> None"

definition sent_to :: "u64 \<Rightarrow> deliveries \<Rightarrow> bytes list list" where
  "sent_to s ds = map snd (filter (\<lambda>d. fst d = s) ds)"

lemma sent_to_simps [simp]:
  "sent_to s [] = []" "sent_to s (d # ds) = (if fst d = s then snd d # sent_to s ds else sent_to s ds)"
  "sent_to s (ds @ es) = sent_to s ds @ sent_to s es"
  by (simp_all add: sent_to_def)

lemma track_outbound_channel [simp]: "outbound (snd (track_outbound st)) = outbound st"
  by (simp add: track_outbound_def split: option.split prod.split)

lemma reserve_one_effect:
  "batches (snd (reserve_one s ss)) = batches ss" "writable (snd (reserve_one s ss)) = writable ss"
  "fst (reserve_one s ss) \<Longrightarrow> writable ss s"
proof -
  have "batches (snd (reserve_one s ss)) t = batches ss t \<and> writable (snd (reserve_one s ss)) t = writable ss t \<and>
      (fst (reserve_one s ss) \<longrightarrow> writable ss s)" for t
  proof (cases "map_of ss s")
    case None
    then show ?thesis by (simp add: reserve_one_def)
  next
    case (Some st)
    obtain tracked st' where t: "track_outbound st = (tracked, st')" by (cases "track_outbound st")
    then have "outbound st' = outbound st" using track_outbound_channel[of st] by simp
    then show ?thesis using Some t
      by (cases "outbound st"; cases tracked) (auto simp: reserve_one_def batches_def writable_def)
  qed
  then show "batches (snd (reserve_one s ss)) = batches ss" "writable (snd (reserve_one s ss)) = writable ss"
    "fst (reserve_one s ss) \<Longrightarrow> writable ss s" by (auto simp: fun_eq_iff)
qed

lemma release_one_effect:
  "batches (release_one s ss) = batches ss" "writable (release_one s ss) = writable ss"
proof -
  have "batches (release_one s ss) t = batches ss t \<and> writable (release_one s ss) t = writable ss t" for t
    by (cases "map_of ss s") (auto simp: release_one_def batches_def writable_def untrack_outbound_def bind_eq_None_conv
      split: option.split)
  then show "batches (release_one s ss) = batches ss" "writable (release_one s ss) = writable ss" by (auto simp: fun_eq_iff)
qed

lemma release_all_effect:
  "batches (fold release_one reserved ss) = batches ss" "writable (fold release_one reserved ss) = writable ss"
  by (induction reserved arbitrary: ss) (simp_all add: release_one_effect)

lemma reserve_effect:
  "batches (snd (reserve_outbound ds reserved ss)) = batches ss"
  "writable (snd (reserve_outbound ds reserved ss)) = writable ss"
  "fst (reserve_outbound ds reserved ss) = Inr () \<Longrightarrow> \<forall>d\<in>set ds. writable ss (fst d)"
proof -
  have "batches (snd (reserve_outbound ds reserved ss)) = batches ss \<and>
    writable (snd (reserve_outbound ds reserved ss)) = writable ss \<and>
    (fst (reserve_outbound ds reserved ss) = Inr () \<longrightarrow> (\<forall>d\<in>set ds. writable ss (fst d)))"
  proof (induction ds reserved ss rule: reserve_outbound.induct)
    case (2 session batch ds reserved ss)
    note e = reserve_one_effect[of session ss]
    show ?case
    proof (cases "reserve_one session ss")
      case (Pair ok ss')
      show ?thesis
      proof (cases ok)
        case True
        then show ?thesis using 2[OF Pair[symmetric]] Pair e by simp
      next
        case False
        then show ?thesis using Pair e by (simp add: release_all_effect)
      qed
    qed
  qed simp
  then show "batches (snd (reserve_outbound ds reserved ss)) = batches ss"
    "writable (snd (reserve_outbound ds reserved ss)) = writable ss"
    "fst (reserve_outbound ds reserved ss) = Inr () \<Longrightarrow> \<forall>d\<in>set ds. writable ss (fst d)" by blast+
qed

lemma send_reserved_effect:
  "writable ss (fst d) \<Longrightarrow> batches (send_reserved d ss) s = batches ss s @ sent_to s [d]"
  "writable (send_reserved d ss) = writable ss"
proof -
  show "batches (send_reserved d ss) s = batches ss s @ sent_to s [d]" if w: "writable ss (fst d)"
  proof -
    obtain st c where "map_of ss (fst d) = Some st" "outbound st = Some c"
      using w by (cases "map_of ss (fst d)") (auto simp: writable_def)
    then show ?thesis by (cases d) (auto simp: send_reserved_def batches_def)
  qed
  have "writable (send_reserved d ss) t = writable ss t" for t
    by (cases d; cases "map_of ss (fst d)")
       (auto simp: send_reserved_def writable_def bind_eq_None_conv split: option.split)
  then show "writable (send_reserved d ss) = writable ss" by (simp add: fun_eq_iff)
qed

lemma publish_effect:
  "\<forall>d\<in>set ds. writable ss (fst d) \<Longrightarrow> batches (publish_reserved ds ss) s = batches ss s @ sent_to s ds"
proof (induction ds arbitrary: ss)
  case (Cons d ds)
  have "batches (publish_reserved ds (send_reserved d ss)) s = batches (send_reserved d ss) s @ sent_to s ds"
    by (rule Cons.IH) (use Cons.prems send_reserved_effect(2) in auto)
  then show ?case using send_reserved_effect(1)[of ss d s] Cons.prems by (simp add: publish_reserved_def)
qed (simp add: publish_reserved_def)

section \<open>A plan is all or nothing\<close>

lemma run_plan_failed:
  assumes "run_plan planned w = (Inl e, w')"
  shows "\<exists>ss. w' = w\<lparr>sessions := ss\<rparr> \<and> batches ss = batches (sessions w)"
proof (cases planned)
  case (Inl x)
  then have "w' = w\<lparr>sessions := sessions w\<rparr>" using assms by (simp add: run_plan_def)
  then show ?thesis by blast
next
  case (Inr p)
  then have "w' = w\<lparr>sessions := snd (reserve_outbound (plan_deliveries p) [] (sessions w))\<rparr>"
    using assms by (auto simp: run_plan_def Let_def split: prod.split_asm sum.split_asm)
  then show ?thesis using reserve_effect(1) by blast
qed

lemma run_plan_done:
  assumes "run_plan planned w = (Inr outcome, w')"
  obtains p ss where "planned = Inr p" "outcome = plan_outcome p" "batches ss = batches (sessions w)"
    "\<forall>d\<in>set (plan_deliveries p). writable ss (fst d)"
    "w' = (plan_commit p (w\<lparr>sessions := ss\<rparr>))\<lparr>sessions :=
       publish_reserved (plan_deliveries p) (sessions (plan_commit p (w\<lparr>sessions := ss\<rparr>)))\<rparr>"
proof -
  obtain p where p: "planned = Inr p" using assms by (cases planned) (simp_all add: run_plan_def)
  let ?x = "reserve_outbound (plan_deliveries p) [] (sessions w)"
  have x: "fst ?x = Inr ()" using assms p by (auto simp: run_plan_def split: prod.split_asm sum.split_asm)
  note r = reserve_effect[of "plan_deliveries p" "[]" "sessions w"]
  show thesis
  proof (rule that[OF p, of "snd ?x"])
    show "outcome = plan_outcome p"
      "w' = (plan_commit p (w\<lparr>sessions := snd ?x\<rparr>))\<lparr>sessions :=
       publish_reserved (plan_deliveries p) (sessions (plan_commit p (w\<lparr>sessions := snd ?x\<rparr>)))\<rparr>"
      using assms p x by (auto simp: run_plan_def Let_def split: prod.split_asm sum.split_asm)
    show "batches (snd ?x) = batches (sessions w)" by (rule r(1))
    show "\<forall>d\<in>set (plan_deliveries p). writable (snd ?x) (fst d)" using r(2,3) x by simp
  qed
qed

section \<open>The parts of the world a plan leaves alone\<close>

definition spares :: "(lobby_world \<Rightarrow> lobby_world) \<Rightarrow> bool" where
  "spares f \<longleftrightarrow> (\<forall>w. sessions (f w) = sessions w \<and> identities (f w) = identities w \<and>
     host_strings (f w) = host_strings w \<and> admitted_identity (f w) = admitted_identity w)"

lemma spares_intros:
  "spares id" "spares (put_room rid r)" "spares (commit_kick u rid r)" "spares (commit_start rid r frozen e)"
  by (simp_all add: spares_def put_room_def commit_kick_def drop_room_def free_room_id_def commit_start_def Let_def)

lemma planned_spares:
  assumes "planned_command draw identity c w = Returns (Inr p)"
  shows "spares (plan_commit p)"
proof (cases c)
  case (CommandSetSlotState x)
  with assms have "set_slot_state identity x w = Returns (Inr p)" by (simp add: planned_command_def)
  then show ?thesis unfolding set_slot_state_def
    by (rule with_room_Inr) (auto simp: plan_eqs spares_intros)
next
  case (CommandChangeTeam x)
  with assms have "change_team identity x w = Returns (Inr p)" by (simp add: planned_command_def)
  then show ?thesis unfolding change_team_def
    by (rule with_room_Inr) (auto simp: plan_eqs spares_intros split: sum.split_asm option.split_asm)
next
  case (CommandChangeMaster x)
  with assms have "change_master identity x w = Returns (Inr p)" by (simp add: planned_command_def)
  then show ?thesis unfolding change_master_def by (rule with_room_Inr) (auto simp: plan_eqs spares_intros)
next
  case (CommandStartRoom x)
  with assms have "start_room draw identity x w = Returns (Inr p)" by (simp add: planned_command_def)
  then show ?thesis by (rule start_room_plan) (simp add: spares_intros)
next
  case (CommandChangeTrack x)
  with assms have "change_track identity x w = Returns (Inr p)" by (simp add: planned_command_def)
  then show ?thesis unfolding change_track_def by (rule with_room_Inr) (auto simp: plan_eqs spares_intros)
next
  case (CommandBasicAi x y)
  with assms have "change_basic_ai identity x y w = Returns (Inr p)" by (simp add: planned_command_def)
  then show ?thesis unfolding change_basic_ai_def
    by (rule with_room_Inr)
       (auto simp: plan_eqs spares_intros split: sum.split_asm may_panic.split_asm prod.split_asm if_split_asm)
next
  case (CommandCloseSlot x)
  with assms have "change_closed_slots identity x w = Returns (Inr p)" by (simp add: planned_command_def)
  then show ?thesis unfolding change_closed_slots_def
    by (rule with_room_Inr) (auto simp: plan_eqs spares_intros split: prod.split_asm if_split_asm)
next
  case (CommandRiderTalk x)
  with assms have "relay_rider_talk identity x w = Returns (Inr p)" by (simp add: planned_command_def)
  then show ?thesis unfolding relay_rider_talk_def by (rule with_room_Inr) (auto simp: plan_eqs spares_intros)
next
  case (CommandMacroChat x y)
  with assms have "relay_macro_chat identity x y w = Returns (Inr p)" by (simp add: planned_command_def)
  then show ?thesis unfolding relay_macro_chat_def by (rule with_room_Inr) (auto simp: plan_eqs spares_intros)
next
  case (CommandChangeRoomInfo x)
  with assms have "change_room_info identity x w = Returns (Inr p)" by (simp add: planned_command_def)
  then show ?thesis unfolding change_room_info_def by (rule with_room_Inr) (auto simp: plan_eqs spares_intros)
next
  case (CommandKick x)
  with assms have "kick_player identity x w = Returns (Inr p)" by (simp add: planned_command_def)
  then show ?thesis unfolding kick_player_def by (rule with_room_Inr) (auto simp: plan_eqs spares_intros)
qed

lemma planned_keeps:
  assumes "dir_inv w" "planned_command draw identity c w = Returns (Inr p)"
  shows "keeps_dir w p"
  using assms
  by (cases c) (simp_all add: planned_command_def set_slot_state_keeps change_team_keeps change_master_keeps
    start_room_keeps change_track_keeps change_basic_ai_keeps change_closed_slots_keeps chat_keeps
    change_room_info_keeps kick_player_keeps)

lemma simple_totals:
  assumes "dir_inv w"
  shows "set_slot_state identity state w \<noteq> Panics" "change_master identity nickname w \<noteq> Panics"
    "change_track identity track w \<noteq> Panics" "change_closed_slots identity close w \<noteq> Panics"
    "relay_rider_talk identity talk w \<noteq> Panics" "relay_macro_chat identity macro message w \<noteq> Panics"
    "change_room_info identity info w \<noteq> Panics" "kick_player identity target w \<noteq> Panics"
  unfolding set_slot_state_def change_master_def change_track_def change_closed_slots_def relay_rider_talk_def
    relay_macro_chat_def change_room_info_def kick_player_def
  by (rule with_room_total[OF assms], simp)+

lemma planned_total:
  assumes "lobby_inv w"
  shows "planned_command draw identity c w \<noteq> Panics"
proof -
  have "dir_inv w" using assms by (simp add: lobby_inv_def)
  then show ?thesis
    by (cases c) (simp_all add: planned_command_def simple_totals change_team_total change_basic_ai_total
      start_room_total[OF assms])
qed

lemma lobby_inv_spared:
  assumes "lobby_inv w" "dir_inv (f w)" "spares f"
  shows "lobby_inv (f w)"
  using assms by (simp add: lobby_inv_def spares_def)

lemma lobby_inv_sessions [simp]: "lobby_inv (w\<lparr>sessions := ss\<rparr>) = lobby_inv w"
  by (simp add: lobby_inv_def)

lemma run_planned_inv:
  assumes "lobby_inv w" "planned_command draw identity c w = Returns planned" "run_plan planned w = (result, w')"
  shows "lobby_inv w'"
proof (cases result)
  case (Inl e)
  then obtain ss where "w' = w\<lparr>sessions := ss\<rparr>" using run_plan_failed assms(3) by blast
  then show ?thesis using assms(1) by simp
next
  case (Inr outcome)
  with assms(3) have "run_plan planned w = (Inr outcome, w')" by simp
  then obtain p ss where p: "planned = Inr p"
    "w' = (plan_commit p (w\<lparr>sessions := ss\<rparr>))\<lparr>sessions :=
       publish_reserved (plan_deliveries p) (sessions (plan_commit p (w\<lparr>sessions := ss\<rparr>)))\<rparr>"
    by (rule run_plan_done)
  have d: "dir_inv w" using assms(1) by (simp add: lobby_inv_def)
  have "spares (plan_commit p)" using planned_spares assms(2) p(1) by simp
  moreover have "dir_inv (plan_commit p (w\<lparr>sessions := ss\<rparr>))"
    using planned_keeps[OF d] assms(2) p(1) by (simp add: keeps_dir_def)
  ultimately have "lobby_inv (plan_commit p (w\<lparr>sessions := ss\<rparr>))"
    using lobby_inv_spared[of "w\<lparr>sessions := ss\<rparr>" "plan_commit p"] assms(1) by simp
  then show ?thesis using p(2) by simp
qed

end
