(* ===== verification/LobbyProps.thy ===== *)
theory LobbyProps
  imports LobbyEffects
begin

text \<open>
  The properties of the lobby commands (\<open>World::lobby_command\<close> of
  \<open>crates/p4475-server/src/world.rs\<close>).
\<close>

section \<open>No command panics, a failed command changes nothing\<close>

definition start_rejection :: "bytes list" where
  "start_rejection = [serialize_start_room_reply StartNotAllReady]"

lemma rejection_effect:
  assumes "publish_start_rejection session w = (x, w')"
  shows "\<exists>ss. w' = w\<lparr>sessions := ss\<rparr> \<and>
    (\<forall>s. batches ss s = batches (sessions w) s @ (if x = Inr () \<and> s = session then [start_rejection] else []))"
proof -
  let ?ds = "[(session, start_rejection)]"
  note r = reserve_effect[of ?ds "[]" "sessions w"]
  obtain res ss where e: "reserve_outbound ?ds [] (sessions w) = (res, ss)" by (cases "reserve_outbound ?ds [] (sessions w)")
  show ?thesis
  proof (cases res)
    case (Inl s)
    then have "x = Inl (OutboundUnavailable s)" "w' = w\<lparr>sessions := ss\<rparr>"
      using assms e by (simp_all add: publish_start_rejection_def start_rejection_def)
    then show ?thesis using r(1) e by (intro exI[of _ ss]) simp
  next
    case (Inr u)
    then have x: "x = Inr ()" "w' = w\<lparr>sessions := publish_reserved ?ds ss\<rparr>"
      using assms e by (simp_all add: publish_start_rejection_def start_rejection_def)
    have "\<forall>d\<in>set ?ds. writable ss (fst d)" using r(2,3) e Inr by (cases u) simp
    from publish_effect[OF this] show ?thesis using x r(1) e
      by (intro exI[of _ "publish_reserved ?ds ss"]) (auto simp: sent_to_def)
  qed
qed

definition is_start :: "lobby_command_payload \<Rightarrow> bool" where
  "is_start c \<longleftrightarrow> (case c of CommandStartRoom _ \<Rightarrow> True | _ \<Rightarrow> False)"

text \<open>A failure leaves everything but the sessions, and the queues but for a start rejection.\<close>

definition nothing_done :: "u64 \<Rightarrow> lobby_command_payload \<Rightarrow> lobby_world \<Rightarrow> lobby_world \<Rightarrow> bool" where
  "nothing_done session c w w' \<longleftrightarrow> w'\<lparr>sessions := sessions w\<rparr> = w \<and>
     ((\<forall>s. batches (sessions w') s = batches (sessions w) s) \<or>
      is_start c \<and> (\<forall>s. batches (sessions w') s = batches (sessions w) s @ (if s = session then [start_rejection] else [])))"

lemma nothing_done_quiet: "batches ss = batches (sessions w) \<Longrightarrow> nothing_done session c w (w\<lparr>sessions := ss\<rparr>)"
  by (simp add: nothing_done_def)

lemma start_command_effect:
  assumes "lobby_inv w"
  obtains result w' where "start_command draw session identity p w = Returns (result, w')" "lobby_inv w'"
    "case result of Inl e \<Rightarrow> nothing_done session (CommandStartRoom p) w w' | Inr _ \<Rightarrow> True"
proof -
  define q where "q = (if world_random_tracks w \<noteq> None then p\<lparr>plan_random_tracks := world_random_tracks w\<rparr> else p)"
  obtain planned where s: "start_room draw identity q w = Returns planned"
    using start_room_total[OF assms, of draw identity q] by (cases "start_room draw identity q w") auto
  then have planned: "planned_command draw identity (CommandStartRoom q) w = Returns planned" by (simp add: planned_command_def)
  obtain r w1 where r: "run_plan planned w = (r, w1)" by (cases "run_plan planned w")
  have inv: "lobby_inv w1" by (rule run_planned_inv[OF assms planned r])
  have e: "start_command draw session identity p w = Returns (case (r, w1) of
      (Inr outcome, w) \<Rightarrow> (Inr outcome, w)
    | (Inl e, w) \<Rightarrow> if is_outbound_unavailable e then (Inl e, w)
        else case publish_start_rejection session w of (Inl e', w) \<Rightarrow> (Inl e', w) | (Inr _, w) \<Rightarrow> (Inl e, w))"
    unfolding start_command_def Let_def q_def[symmetric] s may_panic.case r ..
  show thesis
  proof (cases r)
    case (Inr outcome)
    then show thesis using e inv by (intro that[of r w1]) simp_all
  next
    case (Inl x)
    obtain ss where w1: "w1 = w\<lparr>sessions := ss\<rparr>" "batches ss = batches (sessions w)"
      using run_plan_failed r Inl by blast
    show thesis
    proof (cases "is_outbound_unavailable x")
      case True
      then show thesis using e Inl inv w1 nothing_done_quiet by (intro that[of r w1]) simp_all
    next
      case False
      obtain y w2 where y: "publish_start_rejection session w1 = (y, w2)" by (cases "publish_start_rejection session w1")
      obtain ss' where w2: "w2 = w1\<lparr>sessions := ss'\<rparr>"
        "\<forall>s. batches ss' s = batches (sessions w1) s @ (if y = Inr () \<and> s = session then [start_rejection] else [])"
        using rejection_effect[OF y] by blast
      have n: "nothing_done session (CommandStartRoom p) w w2"
        using w1 w2 by (cases "y = Inr ()") (simp_all add: nothing_done_def is_start_def)
      have "lobby_inv w2" using inv w2(1) by simp
      moreover have "start_command draw session identity p w =
          Returns (Inl (case y of Inl e' \<Rightarrow> e' | Inr _ \<Rightarrow> x), w2)"
        using e Inl y False by (cases y) simp_all
      ultimately show thesis using n by (intro that[of "Inl (case y of Inl e' \<Rightarrow> e' | Inr _ \<Rightarrow> x)" w2]) simp_all
    qed
  qed
qed

lemma lobby_command_effect:
  assumes "lobby_inv w"
  obtains result w' where "lobby_command draw session c w = Returns (result, w')" "lobby_inv w'"
    "case result of Inl e \<Rightarrow> nothing_done session c w w' | Inr _ \<Rightarrow> True"
proof (cases "authorize_session_operation session w")
  case (Inl e)
  have "nothing_done session c w w" using nothing_done_quiet[of "sessions w" w] by simp
  then show thesis using Inl assms by (intro that[of "Inl (NotAuthorized e)" w]) (simp_all add: lobby_command_def)
next
  case (Inr identity)
  show thesis
  proof (cases "is_start c")
    case True
    then obtain p where c: "c = CommandStartRoom p" by (auto simp: is_start_def split: lobby_command_payload.split_asm)
    show thesis
      by (rule start_command_effect[OF assms, of draw session identity p], rule that)
         (auto simp: lobby_command_def Inr c lobby_result_def split: sum.split sum.split_asm)
  next
    case False
    obtain planned where s: "planned_command draw identity c w = Returns planned"
      using planned_total[OF assms, of draw identity c] by (cases "planned_command draw identity c w") auto
    obtain r w' where r: "run_plan planned w = (r, w')" by (cases "run_plan planned w")
    have e: "lobby_command draw session c w = Returns (lobby_result (r, w'))"
      using Inr False s r by (cases c) (simp_all add: lobby_command_def is_start_def)
    have inv: "lobby_inv w'" by (rule run_planned_inv[OF assms s r])
    have "nothing_done session c w w'" if "r = Inl x" for x
      using run_plan_failed[of planned w x w'] r that nothing_done_quiet by auto
    then show thesis using e inv
      by (intro that[of "case r of Inl e \<Rightarrow> Inl (LobbyFailure e) | Inr x \<Rightarrow> Inr x" w'])
         (auto simp: lobby_result_def split: sum.split)
  qed
qed

section \<open>Everyone is shown the committed room\<close>

lemma session_list_Inr:
  assumes "session_list ids us = Inr ts"
  shows "map fst ts = us" "\<forall>t\<in>set ts. \<exists>b. active_identity_by_user_no (fst t) ids = Some b \<and> snd t = bind_owner b"
  using assms
  by (induction us arbitrary: ts) (fastforce simp: attempt_Inr split: option.split_asm)+

text \<open>Different users have different sessions.\<close>

lemma session_list_distinct:
  assumes "session_list ids us = Inr ts" "reg_inv h K ids" "distinct us"
  shows "distinct (map snd ts)"
proof -
  note s = session_list_Inr[OF assms(1)]
  have "inj_on snd (set ts)"
  proof (rule inj_onI)
    fix x y assume a: "x \<in> set ts" "y \<in> set ts" "snd x = snd y"
    obtain b where b: "active_identity_by_user_no (fst x) ids = Some b" "snd x = bind_owner b" using s(2) a(1) by blast
    obtain b' where b': "active_identity_by_user_no (fst y) ids = Some b'" "snd y = bind_owner b'" using s(2) a(2) by blast
    have "bind_owner b = bind_owner b'" using a(3) b(2) b'(2) by simp
    then have "Some b = Some b'"
      unfolding active_user_no(2)[OF assms(2) b(1), symmetric] active_user_no(2)[OF assms(2) b'(1), symmetric]
      by (rule arg_cong)
    then have "b = b'" by (rule option.inject[THEN iffD1])
    then have "fst x = fst y" 
      using active_user_no(1)[OF assms(2) b(1)] active_user_no(1)[OF assms(2) b'(1)] by simp
    then show "x = y" using a(3) by (simp add: prod_eq_iff)
  qed
  moreover have "distinct ts" using assms(3) unfolding s(1)[symmetric] distinct_map by (rule conjunct1)
  ultimately show ?thesis by (simp add: distinct_map)
qed

lemma sent_once:
  assumes "distinct (map fst ds)" "(s, batch) \<in> set ds"
  shows "sent_to s ds = [batch]"
  using assms
proof (induction ds)
  case (Cons d ds)
  show ?case
  proof (cases "fst d = s")
    case True
    have "sent_to s ds = []" using Cons.prems(1) True by (auto simp: sent_to_def filter_empty_conv intro: rev_image_eqI)
    moreover have "batch = snd d" using Cons.prems True by (cases d) (auto intro: rev_image_eqI)
    ultimately show ?thesis using True by simp
  next
    case False
    then show ?thesis using Cons by (cases d) auto
  qed
qed simp

text \<open>A plan that shows the room: one batch for each of its users, each ending with the same packet.\<close>

definition shows_room :: "protocol_room \<Rightarrow> lobby_world \<Rightarrow> deliveries \<Rightarrow> bytes \<Rightarrow> bool" where
  "shows_room r w ds packet \<longleftrightarrow> (\<exists>ts pre. active_room_sessions r w = Inr ts \<and>
     ds = map (\<lambda>(u, s). (s, pre u @ [packet])) ts)"

lemma same_batch_shows: "same_batch_for_room r (pre @ [packet]) w = Inr ds \<Longrightarrow> shows_room r w ds packet"
  by (auto simp: same_batch_for_room_def attempt_Inr shows_room_def intro!: exI[of _ "\<lambda>_. pre"])

lemma snapshot_shows: "requester_then_room_snapshot r q first packet w = Inr ds \<Longrightarrow> shows_room r w ds packet"
  by (auto simp: requester_then_room_snapshot_def attempt_Inr shows_room_def
      intro!: exI[of _ "\<lambda>u. if u = q then [first] else []"])

text \<open>The commands whose effect everyone in the room has to see.\<close>

definition changes_room :: "lobby_command_payload \<Rightarrow> bool" where
  "changes_room c \<longleftrightarrow> (case c of CommandSetSlotState _ \<Rightarrow> True | CommandChangeTeam _ \<Rightarrow> True
     | CommandChangeMaster _ \<Rightarrow> True | CommandChangeTrack _ \<Rightarrow> True | _ \<Rightarrow> False)"

lemma changes_room_plan:
  assumes "changes_room c" "planned_command draw identity c w = Returns (Inr p)"
  obtains rid r where "map_of (protocol_room_by_user w) (bind_user_no identity) = Some rid" "plan_commit p = put_room rid r"
    "shows_room r w (plan_deliveries p) (slot_data_bytes (slot_data r))"
proof -
  have same: "shows_room r w ds q" if "same_batch_for_room r [a, b, q] w = Inr ds" for r ds a b q
    using same_batch_shows[of r "[a, b]" q w ds] that by simp
  have one: "shows_room r w ds q" if "same_batch_for_room r [q] w = Inr ds" for r ds q
    using same_batch_shows[of r "[]" q w ds] that by simp
  have wire: "q = slot_data_bytes (slot_data r)" if "lobby_room_protocol (serialize_gr_slot_data (slot_data r)) = Inr q" for r q
    using that by (auto simp: lobby_room_protocol_def slot_data_layout split: sum.split_asm)
  have "\<exists>rid r. map_of (protocol_room_by_user w) (bind_user_no identity) = Some rid \<and> plan_commit p = put_room rid r \<and>
    shows_room r w (plan_deliveries p) (slot_data_bytes (slot_data r))"
  proof (cases c)
    case (CommandSetSlotState x)
    with assms(2) have "set_slot_state identity x w = Returns (Inr p)" by (simp add: planned_command_def)
    then show ?thesis unfolding set_slot_state_def
      by (rule with_room_Inr) (auto simp: plan_eqs dest!: same wire)
  next
    case (CommandChangeTeam x)
    with assms(2) have "change_team identity x w = Returns (Inr p)" by (simp add: planned_command_def)
    then show ?thesis unfolding change_team_def
      by (rule with_room_Inr) (auto simp: plan_eqs split: sum.split_asm option.split_asm dest!: snapshot_shows wire)
  next
    case (CommandChangeMaster x)
    with assms(2) have "change_master identity x w = Returns (Inr p)" by (simp add: planned_command_def)
    then show ?thesis unfolding change_master_def
      by (rule with_room_Inr) (auto simp: plan_eqs dest!: one wire)
  next
    case (CommandChangeTrack x)
    with assms(2) have "change_track identity x w = Returns (Inr p)" by (simp add: planned_command_def)
    then show ?thesis unfolding change_track_def
      by (rule with_room_Inr) (auto simp: plan_eqs dest!: one wire)
  qed (use assms(1) in \<open>simp_all add: changes_room_def\<close>)
  then show thesis using that by blast
qed

lemma changed_room_shown:
  assumes "lobby_inv w" "changes_room c" "planned_command draw identity c w = Returns planned"
    "run_plan planned w = (Inr outcome, w')"
  shows "\<exists>rid r. map_of (protocol_rooms w') rid = Some r \<and> bind_user_no identity \<in> set (user_nos r) \<and>
    (\<forall>u\<in>set (user_nos r). \<exists>b pre. active_identity_by_user_no u (identities w) = Some b \<and>
       batches (sessions w') (bind_owner b) = batches (sessions w) (bind_owner b) @ [pre @ [slot_data_bytes (slot_data r)]])"
proof -
  obtain p ss where p: "planned = Inr p" "batches ss = batches (sessions w)"
    "\<forall>d\<in>set (plan_deliveries p). writable ss (fst d)"
    "w' = (plan_commit p (w\<lparr>sessions := ss\<rparr>))\<lparr>sessions :=
       publish_reserved (plan_deliveries p) (sessions (plan_commit p (w\<lparr>sessions := ss\<rparr>)))\<rparr>"
    using assms(4) by (rule run_plan_done)
  from assms(3)[unfolded p(1)] obtain rid r where c:
    "map_of (protocol_room_by_user w) (bind_user_no identity) = Some rid" "plan_commit p = put_room rid r"
    "shows_room r w (plan_deliveries p) (slot_data_bytes (slot_data r))"
    by (rule changes_room_plan[OF assms(2)])
  obtain ts pre where ts: "active_room_sessions r w = Inr ts"
    "plan_deliveries p = map (\<lambda>(u, s). (s, pre u @ [slot_data_bytes (slot_data r)])) ts"
    using c(3) by (auto simp: shows_room_def)
  have room: "map_of (protocol_rooms w') rid = Some r" "protocol_room_by_user w' = protocol_room_by_user w"
    by (simp_all add: p(4) c(2) put_room_def)
  have inv: "lobby_inv w'" by (rule run_planned_inv[OF assms(1,3,4)])
  then have dir: "dir_inv w'" by (simp add: lobby_inv_def)
  have dist: "distinct (map fst (plan_deliveries p))"
  proof -
    have "distinct (user_nos r)" using dir_invD(1)[OF dir room(1)] by (simp add: room_entry_ok_def)
    then have "distinct (map snd ts)" using session_list_distinct ts(1) assms(1)
      by (auto simp: active_room_sessions_def lobby_inv_def)
    then show ?thesis using ts(2) by (simp add: comp_def split_beta)
  qed
  have q: "batches (sessions w') s = batches (sessions w) s @ sent_to s (plan_deliveries p)" for s
    using publish_effect[OF p(3)] p(2) by (simp add: p(4) c(2) put_room_def)
  have "bind_user_no identity \<in> set (user_nos r)" using dir_invD(3)[OF dir] c(1) room by fastforce
  moreover have "\<exists>b pre. active_identity_by_user_no u (identities w) = Some b \<and>
       batches (sessions w') (bind_owner b) = batches (sessions w) (bind_owner b) @ [pre @ [slot_data_bytes (slot_data r)]]"
    if "u \<in> set (user_nos r)" for u
  proof -
    note l = session_list_Inr[OF ts(1)[unfolded active_room_sessions_def]]
    have "u \<in> set (map fst ts)" using that l(1) by simp
    then obtain t where t: "t \<in> set ts" "fst t = u" by auto
    then obtain b where b: "active_identity_by_user_no u (identities w) = Some b" "snd t = bind_owner b" using l(2) by blast
    have "(bind_owner b, pre u @ [slot_data_bytes (slot_data r)]) \<in> set (plan_deliveries p)"
      unfolding ts(2) using t b(2) by (force simp: split_beta)
    then have "sent_to (bind_owner b) (plan_deliveries p) = [pre u @ [slot_data_bytes (slot_data r)]]"
      by (rule sent_once[OF dist])
    then show ?thesis using b(1) q by auto
  qed
  ultimately show ?thesis using room(1) by blast
qed

end
