(* ===== verification/DirectoryProps.thy ===== *)
theory DirectoryProps
  imports LobbyProps
begin

text \<open>
  The room directory keeps its invariants (\<open>crates/p4475-server/src/world.rs\<close>): allocation of room
  identifiers, creation, joining, leaving, migration, release, the end of a race.
\<close>

section \<open>Room identifiers\<close>

lemma reuse_Some:
  assumes "reuse_room_id ids w = (Some rid, rest)" "sorted ids" "distinct ids"
  obtains i where "i \<in> set ids" "rid = ucast i" "\<not> room_id_taken rid w" "sorted rest" "distinct rest"
    "set rest \<subseteq> set ids" "i \<notin> set rest"
  using assms
proof (induction ids w arbitrary: thesis rule: reuse_room_id.induct)
  case (2 c cs w)
  show ?case
  proof (cases "room_id_taken (ucast c) w")
    case True
    have *: "reuse_room_id cs w = (Some rid, rest)" "sorted cs" "distinct cs" using 2(3-5) True by simp_all
    show ?thesis by (rule 2(1)[OF True _ *]) (use 2(2) in auto)
  next
    case False
    then show ?thesis using 2(2)[of c] 2(3-5) by auto
  qed
qed simp

lemma reuse_None: "reuse_room_id ids w = (None, rest) \<Longrightarrow> rest = [] \<and> (\<forall>i\<in>set ids. room_id_taken (ucast i) w)"
  by (induction ids w rule: reuse_room_id.induct) (auto split: if_split_asm)

lemma next_nonzero: "max (c + 1) 1 \<noteq> (0 :: u16)"
proof
  assume "max (c + 1) 1 = (0 :: u16)"
  then have "1 \<le> (0 :: u16)" by (metis max.cobounded2)
  then show False by simp
qed

lemma search_Some:
  "search_room_id fuel c w = Some (rid, following) \<Longrightarrow> c \<noteq> 0 \<Longrightarrow>
   \<exists>i::u16. rid = ucast i \<and> i \<noteq> 0 \<and> \<not> room_id_taken rid w"
proof (induction fuel c w rule: search_room_id.induct)
  case (2 fuel c w)
  show ?case using next_nonzero[of c] 2 by (auto split: if_split_asm)
qed simp

text \<open>The candidates of a search, counted from the first.\<close>

definition nth_candidate :: "u16 \<Rightarrow> nat \<Rightarrow> nat" where
  "nth_candidate c k = Suc ((unat c - 1 + k) mod 65535)"

lemma unat_u16_less: "unat (c :: u16) < 65536"
  using unsigned_less[of c, where ?'a = nat] by simp

lemma next_candidate: "c \<noteq> 0 \<Longrightarrow> unat (max (c + 1) 1 :: u16) = nth_candidate c 1"
proof (cases "c = - 1")
  case True
  then show ?thesis by (simp add: nth_candidate_def max_def unsigned_minus_1_eq_mask mask_eq_exp_minus_1)
next
  case False
  assume "c \<noteq> 0"
  then have p: "0 < unat c" by (simp add: unat_gt_0)
  have "unat (c + 1) = Suc (unat c)" using False by (metis add.commute eq_neg_iff_add_eq_0 unatSuc)
  moreover have "Suc (unat c) < 65536" using unat_u16_less[of "c + 1"] calculation by simp
  moreover have "1 \<le> c + 1" using calculation(1) by (simp add: word_le_nat_alt)
  ultimately show ?thesis using p by (simp add: nth_candidate_def max_def)
qed

lemma nth_candidate_step: "c \<noteq> 0 \<Longrightarrow> nth_candidate (max (c + 1) 1) k = nth_candidate c (Suc k)"
  unfolding nth_candidate_def next_candidate[unfolded nth_candidate_def] by (simp add: mod_add_left_eq)

lemma search_None:
  "search_room_id fuel c w = None \<Longrightarrow> c \<noteq> 0 \<Longrightarrow> k < fuel \<Longrightarrow> room_id_taken (of_nat (nth_candidate c k)) w"
proof (induction fuel c w arbitrary: k rule: search_room_id.induct)
  case (2 fuel c w)
  have t: "room_id_taken (ucast c) w" "search_room_id fuel (max (c + 1) 1) w = None"
    using 2(2) by (auto split: if_split_asm)
  show ?case
  proof (cases k)
    case 0
    have "nth_candidate c 0 = unat c" using 2(3) unat_u16_less[of c]
      by (simp add: nth_candidate_def) (metis Suc_diff_1 unat_gt_0 Suc_lessD Suc_less_eq mod_less numeral_nat(2) semiring_norm)
    then show ?thesis using t(1) 0 by (simp add: unsigned_of_nat of_nat_unat)
  next
    case (Suc j)
    show ?thesis using 2(1)[OF t(1,2) next_nonzero, of j] 2(3,4) Suc nth_candidate_step by simp
  qed
qed simp

lemma allocate_Some:
  assumes "dir_inv w" "allocate_protocol_room_id w = (Some rid, w')"
  shows "dir_inv w'" "rid \<noteq> 0" "unat rid < 2 ^ 16" "\<not> room_id_taken rid w'" "ucast rid \<notin> set (free_protocol_room_ids w')"
    "protocol_rooms w' = protocol_rooms w" "protocol_room_by_user w' = protocol_room_by_user w" "rooms w' = rooms w"
    "sessions w' = sessions w" "identities w' = identities w" "host_strings w' = host_strings w"
proof -
  have free: "sorted (free_protocol_room_ids w)" "distinct (free_protocol_room_ids w)"
    "\<And>i. i \<in> set (free_protocol_room_ids w) \<Longrightarrow> i \<noteq> 0 \<and> \<not> room_id_taken (ucast i) w"
    using assms(1) by (simp_all add: dir_inv_def free_ids_ok_def)
  have "\<exists>i::u16. rid = ucast i \<and> i \<noteq> 0 \<and> \<not> room_id_taken rid w \<and>
    (\<exists>rest n. w' = w\<lparr>free_protocol_room_ids := rest, next_room_id := n\<rparr> \<and> sorted rest \<and> distinct rest \<and>
      set rest \<subseteq> set (free_protocol_room_ids w) \<and> i \<notin> set rest)"
  proof (cases "reuse_room_id (free_protocol_room_ids w) w")
    case (Pair reused rest)
    show ?thesis
    proof (cases reused)
      case None
      then have e: "rest = []" using reuse_None Pair by blast
      let ?w = "w\<lparr>free_protocol_room_ids := []\<rparr>"
      obtain n where s: "search_room_id 65535 (first_candidate (next_room_id w)) ?w = Some (rid, n)"
        "w' = ?w\<lparr>next_room_id := n\<rparr>"
        using assms(2) Pair None e
        by (auto simp: allocate_protocol_room_id_def Let_def split: option.split_asm prod.split_asm)
      have "first_candidate (next_room_id w) \<noteq> 0"
      proof (cases "unat (next_room_id w) < 2 ^ 16 \<and> next_room_id w \<noteq> 0")
        case True
        then show ?thesis using wide_narrow[of "next_room_id w"] by (auto simp: first_candidate_def)
      qed (simp only: first_candidate_def if_False, simp)
      from search_Some[OF s(1) this] obtain i :: u16 where "rid = ucast i" "i \<noteq> 0" "\<not> room_id_taken rid w"
        by (auto simp: room_id_taken_def)
      then show ?thesis using s(2) by (intro exI[of _ i]) auto
    next
      case (Some x)
      then have w': "x = rid" "w' = w\<lparr>free_protocol_room_ids := rest\<rparr>"
        using assms(2) Pair by (auto simp: allocate_protocol_room_id_def Let_def)
      from Pair Some w'(1) have r: "reuse_room_id (free_protocol_room_ids w) w = (Some rid, rest)" by simp
      from reuse_Some[OF r free(1,2)] obtain i where i: "i \<in> set (free_protocol_room_ids w)" "rid = ucast i"
        "\<not> room_id_taken rid w" "sorted rest" "distinct rest" "set rest \<subseteq> set (free_protocol_room_ids w)" "i \<notin> set rest"
        by blast
      have "w' = w\<lparr>free_protocol_room_ids := rest, next_room_id := next_room_id w\<rparr>" using w'(2) by simp
      then show ?thesis using i free(3)[OF i(1)] by (intro exI[of _ i]) blast
    qed
  qed
  then obtain i :: u16 and rest n where i: "rid = ucast i" "i \<noteq> 0" "\<not> room_id_taken rid w"
    "w' = w\<lparr>free_protocol_room_ids := rest, next_room_id := n\<rparr>" "sorted rest" "distinct rest"
    "set rest \<subseteq> set (free_protocol_room_ids w)" "i \<notin> set rest" by blast
  show "rid \<noteq> 0"
  proof
    assume "rid = 0"
    then have "ucast (ucast i :: u32) = (0 :: u16)" using i(1) by simp
    then show False using i(2) by simp
  qed
  show "unat rid < 2 ^ 16" using unat_u16_less[of i] i(1) by (simp add: unsigned_ucast_eq take_bit_eq_mod)
  show "\<not> room_id_taken rid w'" using i(3,4) by (simp add: room_id_taken_def)
  show "ucast rid \<notin> set (free_protocol_room_ids w')" using i(1,4,8) by simp
  show "protocol_rooms w' = protocol_rooms w" "protocol_room_by_user w' = protocol_room_by_user w" "rooms w' = rooms w"
    "sessions w' = sessions w" "identities w' = identities w" "host_strings w' = host_strings w" using i(4) by simp_all
  show "dir_inv w'"
    using assms(1) i(4-7) free(3)
    by (auto simp: dir_inv_def rooms_ok_def members_ok_def free_ids_ok_def room_id_taken_def)
qed

lemma allocate_None:
  assumes "allocate_protocol_room_id w = (None, w')" "0 < unat rid" "unat rid < 2 ^ 16"
  shows "room_id_taken rid w"
proof -
  obtain reused rest where p: "reuse_room_id (free_protocol_room_ids w) w = (reused, rest)" by fastforce
  then have n: "reused = None" using assms(1) by (cases reused) (simp_all add: allocate_protocol_room_id_def)
  let ?c = "first_candidate (next_room_id w)" and ?w = "w\<lparr>free_protocol_room_ids := rest\<rparr>"
  have s: "search_room_id 65535 ?c ?w = None"
    using assms(1) p n by (auto simp: allocate_protocol_room_id_def Let_def split: option.split_asm)
  have c: "?c \<noteq> 0"
  proof (cases "unat (next_room_id w) < 2 ^ 16 \<and> next_room_id w \<noteq> 0")
    case True
    then show ?thesis using wide_narrow[of "next_room_id w"] by (auto simp: first_candidate_def)
  qed (simp only: first_candidate_def if_False, simp)
  define x where "x = unat ?c - 1"
  define y where "y = unat rid - 1"
  have xy: "x < 65535" "y < 65535" using c unat_u16_less[of ?c] assms(2,3) by (simp_all add: x_def y_def)
  define k where "k = (if x \<le> y then y - x else y + 65535 - x)"
  have k: "k < 65535" "(x + k) mod 65535 = y" using xy by (auto simp: k_def)
  have "nth_candidate ?c k = unat rid"
    unfolding nth_candidate_def x_def[symmetric] k(2) y_def using assms(2) by simp
  then have "room_id_taken (of_nat (unat rid)) ?w" using search_None[OF s c k(1)] by simp
  then show ?thesis by (simp add: room_id_taken_def)
qed

end
