(* ===== verification/DirectoryInv.thy ===== *)
theory DirectoryInv
  imports DirectoryProps
begin

text \<open>
  Creation, joining, leaving, migration, release and the end of a race keep the room directory's
  invariants and meet no failing \<open>expect\<close>.
\<close>

section \<open>Newcomers\<close>

lemma new_room_fields [simp]:
  "user_nos (new_room rid s) = []" "room_is_empty (new_room rid s)" "room_master (new_room rid s) = 0"
  "phase (new_room rid s) = LobbyPhase" "room_id (new_room rid s) = rid" "settings (new_room rid s) = s"
  by (simp_all add: new_room_def empty_no_users user_nos_def flatten_def ROOM_SLOT_COUNT_def ROOM_OBSERVER_COUNT_def
      map_filter_simps eval_nat_numeral)

lemma new_room_inv: "seat_inv (new_room rid s)"
proof -
  let ?r = "new_room rid s"
  have f: "members_by_id ?r = replicate 8 None" "ais_by_id ?r = replicate 8 None" "closed_slots_by_id ?r = replicate 8 None"
    "observers ?r = replicate ROOM_OBSERVER_COUNT None" "slot_positions ?r = replicate 8 None"
    by (simp_all add: new_room_def ROOM_SLOT_COUNT_def ROOM_OBSERVER_COUNT_def)
  have "room_seats ?r"
    by (rule room_seatsI)
       (simp_all add: room_shape_def one_occupant_def seats_ok_def seated_def closed_named_def f ROOM_SLOT_COUNT_def ROOM_OBSERVER_COUNT_def)
  moreover have "teams_ok ?r" by (simp add: teams_ok_def f)
  moreover have "master_ok ?r" by (simp add: master_ok_def)
  moreover have "presentable ?r" by (auto simp: presentable_def f in_flatten)
  ultimately show ?thesis by (simp add: seat_inv_def)
qed

lemma joined_fields:
  "phase (snd (add_participant u p r)) = phase r \<and> room_id (snd (add_participant u p r)) = room_id r \<and>
   settings (snd (add_participant u p r)) = settings r"
  by (cases rule: add_participant_cases[of u p r]) (simp_all add: racer_joined_def Let_def)

lemma joined_entry:
  assumes "seat_inv r" "distinct (user_nos r)" "room_id r = rid" "rid \<noteq> 0" "unat rid < 2 ^ 16"
    "room_is_empty r \<longrightarrow> room_master r = 0" "u \<notin> set (user_nos r)"
    "add_participant u p r = (True, r')" "slot_data_ok (slot_data r')"
  shows "room_entry_ok rid r'" "set (user_nos r') = insert u (set (user_nos r))"
proof -
  have a: "admissible p" by (rule shown_newcomer[OF assms(1,8,9)])
  have i: "seat_inv r'" "mset (user_nos r') = add_mset u (mset (user_nos r))"
    using add_participant_inv[OF assms(1) a assms(6), of u] assms(8) by simp_all
  show s: "set (user_nos r') = insert u (set (user_nos r))"
    using i(2) by (metis set_mset_add_mset_insert set_mset_mset)
  have "mset (user_nos r') = mset (u # user_nos r)" using i(2) by simp
  then have "distinct (user_nos r')" using assms(2,7) mset_eq_imp_distinct_iff by fastforce
  moreover have "room_id r' = rid" using joined_fields[of u p r] assms(3,8) by simp
  moreover have "\<not> room_is_empty r'" using s by (auto simp: empty_no_users)
  ultimately show "room_entry_ok rid r'" using i(1) assms(4,5) by (simp add: room_entry_ok_def)
qed

lemma dir_inv_joined:
  assumes "dir_inv w" "room_entry_ok rid r'" "map_of (rooms w) rid = None" "ucast rid \<notin> set (free_protocol_room_ids w)"
    "map_of (protocol_room_by_user w) u = None" "set (user_nos r') = insert u us"
    "\<And>v. map_of (protocol_room_by_user w) v = Some rid \<longleftrightarrow> v \<in> us"
  shows "dir_inv (room_joined u rid r' w)"
proof -
  have "dir_inv (put_room rid r' w\<lparr>protocol_room_by_user := tput u rid (protocol_room_by_user w)\<rparr>)"
  proof (rule dir_inv_put[OF assms(1-4)])
    show "map_of (tput u rid (protocol_room_by_user w)) v = Some rid \<longleftrightarrow> v \<in> set (user_nos r')" for v
      using assms(6,7) by (cases "v = u") auto
    show "other \<noteq> rid \<Longrightarrow> map_of (tput u rid (protocol_room_by_user w)) v = Some other \<longleftrightarrow>
        map_of (protocol_room_by_user w) v = Some other" for v other
      using assms(5) by (cases "v = u") auto
  qed
  then show ?thesis by (simp add: room_joined_def put_room_def)
qed

lemma serialized_ok: "serialize_gr_slot_data d = Inr q \<Longrightarrow> slot_data_ok d"
  by (auto simp: slot_data_layout split: if_split_asm sum.split_asm)

section \<open>Creation and joining\<close>

lemma free_id_back:
  assumes "dir_inv w" "rid \<noteq> 0" "unat rid < 2 ^ 16" "\<not> room_id_taken rid w"
  shows "dir_inv (free_room_id rid w)"
proof -
  have bk: "(ucast (ucast rid :: u16) :: u32) = rid" using assms(3) by (rule wide_narrow)
  then have "(ucast rid :: u16) \<noteq> 0" using assms(2) by auto
  then show ?thesis
    using assms(1,4) bk by (auto simp: dir_inv_def rooms_ok_def members_ok_def free_ids_ok_def free_room_id_def
      room_id_taken_def set_insort_insert sorted_insort_insert distinct_insort_insert)
qed

lemma try_create_inv:
  assumes "dir_inv w" "try_create identity request part w = (result, w')"
  shows "dir_inv w' \<and> sessions w' = sessions w \<and> identities w' = identities w \<and> host_strings w' = host_strings w"
proof (cases "try_create identity request part w = (Inr CreateRejected, w)")
  case True
  then show ?thesis using assms by simp
next
  case False
  then obtain ch where ch: "bind_channel identity = Some ch"
    "\<not> (expected_room_game_type (game_type ch) \<noteq> Some (create_game_type request) \<or>
        map_of (protocol_room_by_user w) (bind_user_no identity) \<noteq> None)"
    by (auto simp: try_create_def split: option.split_asm if_split_asm)
  obtain allocated w1 where a: "allocate_protocol_room_id w = (allocated, w1)" by fastforce
  show ?thesis
  proof (cases allocated)
    case None
    then have e: "w' = w1" using assms(2) ch a by (simp add: try_create_def)
    have "dir_inv w1 \<and> sessions w1 = sessions w \<and> identities w1 = identities w \<and> host_strings w1 = host_strings w"
      using a None assms(1)
      by (auto simp: allocate_protocol_room_id_def Let_def dir_inv_def rooms_ok_def members_ok_def free_ids_ok_def
        room_id_taken_def split: prod.split_asm option.split_asm dest!: reuse_None[THEN conjunct1])
    then show ?thesis using e by simp
  next
    case (Some rid)
    note al = allocate_Some[OF assms(1) a[unfolded Some]]
    let ?u = "bind_user_no identity" and ?n = "new_room rid (created_settings ch request)"
    have none: "map_of (protocol_rooms w1) rid = None" "map_of (rooms w1) rid = None"
      using al(4) by (auto simp: room_id_taken_def)
    have free: "dir_inv (free_room_id rid w1)" by (rule free_id_back[OF al(1-4)])
    have keeps: "sessions (free_room_id rid w1) = sessions w \<and> identities (free_room_id rid w1) = identities w \<and>
        host_strings (free_room_id rid w1) = host_strings w" using al by (simp add: free_room_id_def)
    obtain ok r where r: "add_participant ?u (prepare_participant identity part w1) ?n = (ok, r)" by fastforce
    have run: "(result, w') = (if \<not> ok then (Inr CreateRejected, free_room_id rid w1) else
        case serialize_gr_slot_data (slot_data r) of Inl e \<Rightarrow> (Inl e, free_room_id rid w1)
        | Inr _ \<Rightarrow> (Inr CreateAccepted, room_joined ?u rid r w1))"
      using assms(2) ch a Some r by (cases ok) (simp_all add: try_create_def Let_def)
    show ?thesis
    proof (cases "ok \<and> (\<exists>q. serialize_gr_slot_data (slot_data r) = Inr q)")
      case False
      then have "w' = free_room_id rid w1" using run by (auto split: if_split_asm sum.split_asm)
      then show ?thesis using free keeps by simp
    next
      case True
      then have ok: "add_participant ?u (prepare_participant identity part w1) ?n = (True, r)" "slot_data_ok (slot_data r)"
        "w' = room_joined ?u rid r w1" using r run serialized_ok by (auto split: sum.split_asm)
      note e = joined_entry[OF new_room_inv _ _ al(2,3) _ _ ok(1,2), simplified]
      have "dir_inv w'" unfolding ok(3)
      proof (rule dir_inv_joined[OF al(1) e(1) none(2) al(5) _ e(2)])
        show "map_of (protocol_room_by_user w1) ?u = None" using ch(2) al(7) by simp
        show "map_of (protocol_room_by_user w1) v = Some rid \<longleftrightarrow> v \<in> {}" for v
          using dir_invD(3)[OF al(1), of v rid] none(1) by auto
      qed
      then show ?thesis using ok(3) al by (simp add: room_joined_def put_room_def)
    qed
  qed
qed

lemma join_admission_inv:
  assumes "dir_inv w" "join_admission identity request part w = Inr (status, mode, Some r')"
  shows "dir_inv (room_joined (bind_user_no identity) (ucast (join_room_id request)) r' w)"
proof -
  let ?u = "bind_user_no identity" and ?rid = "ucast (join_room_id request) :: u32"
  obtain r where r: "map_of (protocol_rooms w) ?rid = Some r" "phase r = LobbyPhase"
    "map_of (protocol_room_by_user w) ?u = None"
    "add_participant ?u (prepare_participant identity part w) r = (True, r')" "slot_data_ok (slot_data r')"
    using assms(2) by (auto simp: join_admission_def Let_def attempt_Inr split: option.split_asm if_split_asm
      prod.split_asm bool.split_asm dest: serialized_ok)
  note d = dir_invD[OF assms(1)]
  have e: "seat_inv r" "distinct (user_nos r)" "room_id r = ?rid" "?rid \<noteq> 0" "unat ?rid < 2 ^ 16" "\<not> room_is_empty r"
    using d(1)[OF r(1)] r(2) by (simp_all add: room_entry_ok_def)
  have u: "?u \<notin> set (user_nos r)" using d(4)[OF r(1), of ?u] r(3) by auto
  note j = joined_entry[OF e(1-5) _ u r(4,5)]
  show ?thesis
  proof (rule dir_inv_joined[OF assms(1) j(1) d(2)[OF r(1)] known_id_not_free[OF assms(1) r(1)] r(3) j(2)])
    show "map_of (protocol_room_by_user w) v = Some ?rid \<longleftrightarrow> v \<in> set (user_nos r)" for v
      using d(3)[of v ?rid] d(4)[OF r(1), of v] r(1) by auto
  qed (use e(6) in simp_all)
qed

lemma deliver_in_sessions:
  assumes "deliver_in ds w = (failed, w')"
  obtains ss where "w' = w\<lparr>sessions := ss\<rparr>"
  using assms by (auto simp: deliver_in_def split: prod.split_asm)

lemma lobby_inv_delivered: "lobby_inv w \<Longrightarrow> lobby_inv (snd (deliver_in ds w))"
  by (cases "deliver_in ds w") (auto elim!: deliver_in_sessions)

section \<open>Leaving\<close>

lemma lone_user: "mset xs = add_mset u {#} \<Longrightarrow> set xs \<subseteq> {u}"
  using set_mset_mset[of xs] by simp

lemma vacated_empty: "vacated_room_ends r \<Longrightarrow> user_nos r = []"
  by (simp add: vacated_room_ends_def empty_no_users)

text \<open>The table and the room without the user, dropped when the room is over.\<close>

definition room_left :: "u32 \<Rightarrow> u32 \<Rightarrow> protocol_room \<Rightarrow> lobby_world \<Rightarrow> lobby_world" where
  "room_left u rid r w =
     (let w = w\<lparr>protocol_room_by_user := tdel u (protocol_room_by_user w)\<rparr>
      in if vacated_room_ends r then drop_room rid w else put_room rid r w)"

lemma dir_inv_room_left:
  assumes "dir_inv w" "map_of (protocol_room_by_user w) u = Some rid" "map_of (protocol_rooms w) rid = Some r"
  shows "dir_inv (room_left u rid (snd (remove_user u r)) w)"
    "\<not> vacated_room_ends (snd (remove_user u r)) \<Longrightarrow> room_entry_ok rid (snd (remove_user u r))"
    "fst (remove_user u r)"
proof -
  have u: "u \<in> set (user_nos r)" using dir_invD(3)[OF assms(1,2)] assms(3) by auto
  note e = removed_entry[OF dir_invD(1)[OF assms(1,3)] u]
  show "fst (remove_user u r)" by (rule e(1))
  show "\<not> vacated_room_ends (snd (remove_user u r)) \<Longrightarrow> room_entry_ok rid (snd (remove_user u r))" by (rule e(6))
  show "dir_inv (room_left u rid (snd (remove_user u r)) w)"
  proof (cases "vacated_room_ends (snd (remove_user u r))")
    case True
    then have "set (user_nos r) \<subseteq> {u}" using e(2) vacated_empty lone_user by simp
    from dir_inv_dropped[OF assms(1,3) this assms(2)] show ?thesis using True by (simp add: room_left_def Let_def)
  next
    case False
    then show ?thesis using dir_inv_left[OF assms(1,3) e(6) e(2)] by (simp add: room_left_def Let_def)
  qed
qed

definition lobby_frame :: "lobby_world \<Rightarrow> lobby_world \<Rightarrow> bool" where
  "lobby_frame w w' \<longleftrightarrow> sessions w' = sessions w \<and> identities w' = identities w \<and> host_strings w' = host_strings w"

lemma lobby_inv_frame: "lobby_inv w \<Longrightarrow> dir_inv w' \<Longrightarrow> lobby_frame w w' \<Longrightarrow> lobby_inv w'"
  by (simp add: lobby_inv_def lobby_frame_def)

lemma framed_ops [simp]:
  "lobby_frame w (put_room rid r w') = lobby_frame w w'" "lobby_frame w (drop_room rid w') = lobby_frame w w'"
  "lobby_frame w (release_reward_lanes f w') = lobby_frame w w'"
  "lobby_frame w (w'\<lparr>protocol_room_by_user := t\<rparr>) = lobby_frame w w'" "lobby_frame w w"
  "lobby_frame w (w'\<lparr>rooms := t'\<rparr>) = lobby_frame w w'" "lobby_frame w (w'\<lparr>observed_p2p_ports := t''\<rparr>) = lobby_frame w w'"
  "lobby_frame w (w'\<lparr>room_by_identity := t'''\<rparr>) = lobby_frame w w'" "lobby_frame w (room_left u rid r w') = lobby_frame w w'"
  by (simp_all add: lobby_frame_def put_room_def drop_room_def free_room_id_def release_reward_lanes_def room_left_def Let_def)

lemma dir_inv_lanes_dropped [simp]:
  "dir_inv (drop_room rid (release_reward_lanes f w)) = dir_inv (drop_room rid w)"
  "dir_inv (put_room rid r (release_reward_lanes f w)) = dir_inv (put_room rid r w)"
  by (rule dir_inv_cong; simp add: drop_room_def free_room_id_def release_reward_lanes_def put_room_def)+

lemma put_then_drop: "drop_room rid (put_room rid r w) = drop_room rid w"
  by (simp add: drop_room_def free_room_id_def put_room_def tdel_tput)

lemma kept_fields:
  "protocol_room_by_user (put_room rid r w) = protocol_room_by_user w" "rooms (put_room rid r w) = rooms w"
  "protocol_room_by_user (drop_room rid w) = protocol_room_by_user w" "rooms (drop_room rid w) = rooms w"
  "protocol_room_by_user (release_reward_lanes f w) = protocol_room_by_user w"
  "rooms (release_reward_lanes f w) = rooms w"
  by (simp_all add: put_room_def drop_room_def free_room_id_def release_reward_lanes_def)

lemma tdel_absent: "map_of t k = None \<Longrightarrow> tdel k t = t"
  by (induction t) (auto simp: tdel_code split: if_split_asm)

lemma remove_protocol_user_effect:
  assumes "dir_inv w"
  obtains ds w' where "remove_protocol_user u w = Returns (ds, w')" "dir_inv w'" "lobby_frame w w'"
    "protocol_room_by_user w' = tdel u (protocol_room_by_user w)" "rooms w' = rooms w"
proof (cases "map_of (protocol_room_by_user w) u")
  case None
  then have "protocol_room_by_user w = tdel u (protocol_room_by_user w)" by (simp add: tdel_absent)
  then show thesis using None assms by (intro that[of "[]" w]) (simp_all add: remove_protocol_user_def)
next
  case (Some rid)
  obtain r where r: "map_of (protocol_rooms w) rid = Some r" using dir_invD(3)[OF assms Some] by blast
  let ?r = "snd (remove_user u r)" and ?w = "w\<lparr>protocol_room_by_user := tdel u (protocol_room_by_user w)\<rparr>"
  note left = dir_inv_room_left[OF assms Some r]
  show thesis
  proof (cases "vacated_room_ends ?r")
    case True
    then show thesis
      using left(1) Some r
      by (intro that[of "[]" "drop_room rid (case aborted_fence ?r of None \<Rightarrow> put_room rid ?r ?w
            | Some f \<Rightarrow> release_reward_lanes f (put_room rid ?r ?w))"])
         (simp_all add: remove_protocol_user_def Let_def room_left_def put_then_drop kept_fields split: option.split)
  next
    case False
    have d: "dir_inv (put_room rid ?r ?w)" using left(1) False by (simp add: room_left_def Let_def)
    have s: "serialize_gr_slot_data (slot_data ?r) = Inr (slot_data_bytes (slot_data ?r))"
      using left(2)[OF False] by (intro seat_inv_serializes) (simp add: room_entry_ok_def)
    show thesis
      using d False s Some r
      by (intro that[of "if room_is_empty ?r then [] else deliveries_for_users (user_nos ?r)
            [slot_data_bytes (slot_data ?r)] (put_room rid ?r ?w)" "put_room rid ?r ?w"])
         (simp_all add: remove_protocol_user_def Let_def kept_fields)
  qed
qed

lemma protocol_leave_room_effect:
  assumes "lobby_inv w"
  obtains failed w' where "protocol_leave_room session identity w = Returns (failed, w')" "lobby_inv w'"
    "map_of (protocol_room_by_user w') (bind_user_no identity) = None"
proof (cases "map_of (protocol_room_by_user w) (bind_user_no identity)")
  case None
  let ?ds = "[(session, [serialize_ch_leave_room_reply False])]"
  obtain failed w' where e: "deliver_in ?ds w = (failed, w')" by fastforce
  then obtain ss where "w' = w\<lparr>sessions := ss\<rparr>" by (rule deliver_in_sessions)
  then show thesis using that[of failed w'] e None assms by (simp add: protocol_leave_room_def)
next
  case (Some rid)
  have d: "dir_inv w" using assms by (simp add: lobby_inv_def)
  obtain ds w1 where r: "remove_protocol_user (bind_user_no identity) w = Returns (ds, w1)" "dir_inv w1" "lobby_frame w w1"
    "protocol_room_by_user w1 = tdel (bind_user_no identity) (protocol_room_by_user w)" "rooms w1 = rooms w"
    by (rule remove_protocol_user_effect[OF d])
  let ?ds = "(session, [serialize_ch_leave_room_reply True]) # ds"
  obtain failed w' where e: "deliver_in ?ds w1 = (failed, w')" by fastforce
  then obtain ss where "w' = w1\<lparr>sessions := ss\<rparr>" by (rule deliver_in_sessions)
  then show thesis using that[of failed w'] e Some r lobby_inv_frame[OF assms r(2,3)] by (simp add: protocol_leave_room_def)
qed

lemma protocol_first_state_effect:
  assumes "lobby_inv w"
  obtains result w' where "protocol_first_state session identity w = Returns (result, w')" "lobby_inv w'"
proof (cases "map_of (protocol_room_by_user w) (bind_user_no identity)")
  case None
  then show thesis using that[of "Inr []" w] assms by (simp add: protocol_first_state_def)
next
  case (Some rid)
  have d: "dir_inv w" using assms by (simp add: lobby_inv_def)
  obtain r where r: "map_of (protocol_rooms w) rid = Some r" using dir_invD(3)[OF d Some] by blast
  obtain result where res: "serialize_initial_room_state (session_data r) (slot_data r) = result" by blast
  show thesis
  proof (cases result)
    case (Inl e)
    then show thesis using that[of "Inl e" w] Some r res assms by (simp add: protocol_first_state_def)
  next
    case (Inr packets)
    let ?ds = "[(session, map snd packets)]"
    obtain failed w' where e: "deliver_in ?ds w = (failed, w')" by fastforce
    then have "lobby_inv w'" using lobby_inv_delivered[OF assms, of ?ds] by simp
    then show thesis using that[of "Inr failed" w'] e Some r res Inr by (simp add: protocol_first_state_def)
  qed
qed

section \<open>Release, migration and the end of a race\<close>

lemma dir_inv_identity_rooms [simp]: "dir_inv (w\<lparr>room_by_identity := t\<rparr>) = dir_inv w"
  by (rule dir_inv_cong) simp_all

lemma dir_inv_rooms:
  "dir_inv w \<Longrightarrow> map_of (rooms w) rid \<noteq> None \<Longrightarrow> dir_inv (w\<lparr>rooms := tput rid x (rooms w)\<rparr>)"
proof -
  assume a: "dir_inv w" "map_of (rooms w) rid \<noteq> None"
  then have "map_of (protocol_rooms w) rid \<noteq> Some r" for r using dir_invD(2)[OF a(1), of rid r] by auto
  with a show ?thesis
    by (auto simp: dir_inv_def rooms_ok_def members_ok_def free_ids_ok_def room_id_taken_def)
qed

lemma release_room_state_effect:
  assumes "lobby_inv w"
  obtains ds w' where "release_room_state identity publish w = Returns (ds, w')" "lobby_inv w'"
    "map_of (protocol_room_by_user w') (rel_user_no identity) = None" "lobby_frame w w'"
proof -
  define w1 where "w1 = w\<lparr>observed_p2p_ports := tdel (rel_user_no identity) (observed_p2p_ports w)\<rparr>"
  define w2 where "w2 = (case map_of (room_by_identity w1) (rel_nickname identity) of None \<Rightarrow> w1
    | Some rid \<Rightarrow> let w = w1\<lparr>room_by_identity := tdel (rel_nickname identity) (room_by_identity w1)\<rparr>
        in case map_of (rooms w) rid of None \<Rightarrow> w
           | Some r \<Rightarrow> w\<lparr>rooms := tput rid (leave_snapshot (rel_nickname identity) r) (rooms w)\<rparr>)"
  have w: "dir_inv w" using assms by (simp add: lobby_inv_def)
  then have "dir_inv w1" by (simp add: w1_def)
  then have w2: "dir_inv w2"
    using dir_inv_rooms[of "w1\<lparr>room_by_identity := tdel (rel_nickname identity) (room_by_identity w1)\<rparr>"]
    by (simp add: w2_def Let_def split: option.split)
  have f: "lobby_frame w w2" by (simp add: w2_def w1_def Let_def split: option.split)
  obtain ds w' where r: "remove_protocol_user (rel_user_no identity) w2 = Returns (ds, w')" "dir_inv w'" "lobby_frame w2 w'"
    "protocol_room_by_user w' = tdel (rel_user_no identity) (protocol_room_by_user w2)" "rooms w' = rooms w2"
    by (rule remove_protocol_user_effect[OF w2])
  have "release_room_state identity publish w = (case remove_protocol_user (rel_user_no identity) w2 of
      Panics \<Rightarrow> Panics | Returns (ds, w) \<Rightarrow> Returns (if publish then ds else [], w))"
    unfolding release_room_state_def Let_def w2_def w1_def ..
  then have "release_room_state identity publish w = Returns (if publish then ds else [], w')" by (simp add: r(1))
  moreover have "lobby_frame w w'" using f r(3) by (simp add: lobby_frame_def)
  ultimately show thesis using that[of "if publish then ds else []" w'] lobby_inv_frame[OF assms r(2)] r(4) by simp
qed

text \<open>An exit planned on this state removes the user exactly as leaving does.\<close>

lemma exit_plan_commits:
  assumes "dir_inv w" "map_of (protocol_room_by_user w) u = Some rid" "map_of (protocol_rooms w) rid = Some r"
    "plan_protocol_room_exit_from_snapshot u rid r w = Inr (Some d, ds)"
  shows "dir_inv (commit_delta d w)" "lobby_frame w (commit_delta d w)" "lock_delta d w = Inr d"
    "protocol_room_by_user (commit_delta d w) = tdel u (protocol_room_by_user w)"
proof -
  let ?r = "snd (remove_user u r)"
  note left = dir_inv_room_left[OF assms(1-3)]
  have d: "d = \<lparr>delta_user_no = u, delta_room_id = rid, expected_room = r,
      next_room = (if vacated_room_ends ?r then None else Some ?r), remove_membership = True,
      remove_room = vacated_room_ends ?r, aborted_loading_fence = aborted_fence ?r\<rparr>"
    using assms(4) left(3) by (auto simp: plan_protocol_room_exit_from_snapshot_def Let_def
      split: prod.split_asm bool.split_asm if_split_asm sum.split_asm)
  have e: "commit_delta d w = (case aborted_fence ?r of None \<Rightarrow> room_left u rid ?r w
      | Some f \<Rightarrow> release_reward_lanes f (room_left u rid ?r w))"
    by (cases "vacated_room_ends ?r"; cases "aborted_fence ?r") (simp_all add: d commit_delta_def room_left_def Let_def)
  show "dir_inv (commit_delta d w)" "lobby_frame w (commit_delta d w)"
    using left(1) by (simp_all add: e split: option.split)
  show "protocol_room_by_user (commit_delta d w) = tdel u (protocol_room_by_user w)"
    by (simp add: e kept_fields room_left_def Let_def split: option.split)
  show "lock_delta d w = Inr d" using assms(2,3) by (simp add: lock_delta_def d)
qed

text \<open>Changing what a member shows, not who sits where.\<close>

lemma update_member_quiet:
  assumes "seat_inv r" "\<And>m. roster_key (f m) = roster_key m"
    "\<And>m. presentable_player (m_player (f m)) = presentable_player (m_player m)"
    "\<And>m. player_type (m_player (f m)) = player_type (m_player m)"
    "\<And>m. player_nickname (m_player (f m)) = player_nickname (m_player m)"
  shows "quiet r (snd (update_member f u r))"
proof -
  let ?r = "snd (update_member f u r)"
  have s: "room_seats r" "teams_ok r" "master_ok r" "presentable r" using assms(1) by (simp_all add: seat_inv_def)
  have no: "m_user_no (f m) = m_user_no m" for m using assms(2)[of m] by (simp add: roster_key_def)
  have "map_option roster_key (map_option f y) = map_option roster_key y"
    "map_option m_user_no (map_option f y) = map_option m_user_no y" for y
    by (simp_all add: option.map_comp comp_def assms(2) no)
  note key = map_update_key[OF this(1)] map_update_key[OF this(2)]
  have roster: "same_roster r ?r"
  proof (cases "first_index (is_user u) (members_by_id r)")
    case None
    show ?thesis
      by (cases "first_index (is_user u) (observers r)")
         (simp_all add: None update_member_def same_roster_def team_mode_def key del: map_update)
  qed (simp add: update_member_def same_roster_def team_mode_def key del: map_update)
  have fields: "room_id ?r = room_id r" "phase ?r = phase r" "room_master ?r = room_master r"
    by (cases "first_index (is_user u) (members_by_id r)"; cases "first_index (is_user u) (observers r)";
        simp add: update_member_def)+
  have member: "presentable (r\<lparr>members_by_id := (members_by_id r)[i := map_option f (members_by_id r ! i)]\<rparr>)"
    if i: "i < length (members_by_id r)" for i
  proof (cases "members_by_id r ! i")
    case (Some m)
    then have "m \<in> set (flatten (members_by_id r))" by (rule nth_in_flatten[OF i])
    then have "presentable_player (m_player (f m))" "player_type (m_player (f m)) \<in> {2, 3}"
      using s(4) assms(3,4) by (auto simp: presentable_def)
    from presentable_member_update[OF s(4) this, of i] show ?thesis using Some by simp
  qed (use presentable_drop(1)[OF s(4)] in simp)
  have watcher: "presentable (r\<lparr>observers := (observers r)[i := map_option f (observers r ! i)]\<rparr>)"
    if i: "i < length (observers r)" for i
  proof (cases "observers r ! i")
    case (Some m)
    then have "m \<in> set (flatten (observers r))" by (rule nth_in_flatten[OF i])
    then have "utf16_units (player_nickname (m_player (f m))) \<le> 32" using s(4) assms(5) by (auto simp: presentable_def)
    from presentable_observer_update[OF s(4) this, of i] show ?thesis using Some by simp
  qed (use presentable_drop(2)[OF s(4)] in simp)
  have "presentable ?r"
  proof (cases "first_index (is_user u) (members_by_id r)")
    case None
    show ?thesis
    proof (cases "first_index (is_user u) (observers r)")
      case (Some i)
      from watcher[OF first_index_Some[THEN iffD1, OF Some, THEN conjunct1]] show ?thesis
        using None Some by (simp add: update_member_def)
    qed (use s(4) None in \<open>simp add: update_member_def\<close>)
  next
    case (Some i)
    from member[OF first_index_Some[THEN iffD1, OF Some, THEN conjunct1]] show ?thesis
      using Some by (simp add: update_member_def)
  qed
  then show ?thesis
    using same_roster_seats[OF roster s(1)] same_roster_teams[OF roster s(1,2)] same_roster_master[OF roster s(1,3)]
      same_roster_users[OF roster] fields by (simp add: quiet_def seat_inv_def)
qed

lemma endpoint_quiet: "seat_inv r \<Longrightarrow> quiet r (snd (set_p2p_endpoint u a p r))"
  unfolding set_p2p_endpoint_def
  by (rule update_member_quiet) (simp_all add: roster_key_def presentable_player_def)

text \<open>A migration is planned in every state, the plan locks there, and its commit keeps the invariants.\<close>

lemma migration_plan_effect:
  assumes "dir_inv w"
  obtains delta ds where "plan_protocol_migration identity w = Inr (delta, ds)"
    "\<And>d. delta = Some d \<Longrightarrow> lock_delta d w = Inr d \<and> dir_inv (commit_delta d w) \<and> lobby_frame w (commit_delta d w)"
proof (cases "map_of (protocol_room_by_user w) (bind_user_no identity)")
  case None
  then show thesis using that[of None "[]"] by (simp add: plan_protocol_migration_def)
next
  case (Some rid)
  let ?u = "bind_user_no identity"
  obtain r where r: "map_of (protocol_rooms w) rid = Some r" "?u \<in> set (user_nos r)"
    using dir_invD(3)[OF assms Some] by blast
  have seat: "seat_inv r" using dir_invD(1)[OF assms r(1)] by (simp add: room_entry_ok_def)
  show thesis
  proof (cases "bind_channel identity = Some (rs_channel (settings r))")
    case True
    define ep where "ep = legacy_p2p_endpoint (bind_source_ip identity) 0"
    let ?r = "snd (set_p2p_endpoint ?u (ep_address ep) (ep_port ep) r)"
    have f: "fst (set_p2p_endpoint ?u (ep_address ep) (ep_port ep) r)"
      using r(2) is_user_None_absent[of ?u] by (auto simp: set_p2p_endpoint_def update_member_def user_nos_def split: option.split)
    have p: "plan_protocol_migration identity w = Inr (if ?r = r then (None, [])
        else (Some \<lparr>delta_user_no = ?u, delta_room_id = rid, expected_room = r, next_room = Some ?r,
          remove_membership = False, remove_room = False, aborted_loading_fence = None\<rparr>, []))"
      using Some r(1) True f
      by (cases "set_p2p_endpoint ?u (ep_address ep) (ep_port ep) r")
         (simp add: plan_protocol_migration_def attempt_def ok_or_def ep_def[symmetric] Let_def)
    have "dir_inv (put_room rid ?r w)" by (rule quiet_put[OF assms r(1) endpoint_quiet[OF seat]])
    then show thesis
      using p Some r(1) that by (cases "?r = r") (auto simp: lock_delta_def commit_delta_def Let_def)
  next
    case False
    let ?r = "snd (remove_user ?u r)"
    note left = dir_inv_room_left[OF assms Some r(1)]
    have s: "serialize_gr_slot_data (slot_data ?r) = Inr (slot_data_bytes (slot_data ?r))" if "\<not> vacated_room_ends ?r"
      using left(2)[OF that] by (intro seat_inv_serializes) (simp add: room_entry_ok_def)
    have p: "plan_protocol_migration identity w = plan_protocol_room_exit_from_snapshot ?u rid r w"
      using Some r(1) False by (simp add: plan_protocol_migration_def attempt_def ok_or_def)
    have "\<exists>d ds. plan_protocol_room_exit_from_snapshot ?u rid r w = Inr (Some d, ds)"
      using left(3) s by (cases "remove_user ?u r")
        (auto simp: plan_protocol_room_exit_from_snapshot_def Let_def vacated_room_ends_def split: sum.split)
    then obtain d ds where e: "plan_protocol_room_exit_from_snapshot ?u rid r w = Inr (Some d, ds)" by blast
    show thesis using that[of "Some d" ds] p e exit_plan_commits[OF assms Some r(1) e] by simp
  qed
qed

lemma lobby_again_quiet:
  assumes "seat_inv r"
  shows "seat_inv (lobby_again r)" "user_nos (lobby_again r) = user_nos r" "phase (lobby_again r) = LobbyPhase"
    "room_id (lobby_again r) = room_id r" "room_is_empty (lobby_again r) = room_is_empty r"
proof -
  let ?r = "lobby_again r" and ?f = "\<lambda>m. m\<lparr>m_player := (m_player m)\<lparr>player_type := slot_state_wire NotReady\<rparr>\<rparr>"
  have s: "room_seats r" "teams_ok r" "master_ok r" "presentable r" using assms by (simp_all add: seat_inv_def)
  have m: "members_by_id ?r = map (map_option ?f) (members_by_id r)" by (simp add: lobby_again_def)
  have "roster_key \<circ> ?f = roster_key" by (simp add: fun_eq_iff roster_key_def)
  then have roster: "same_roster r ?r"
    by (simp add: same_roster_def lobby_again_def team_mode_def option.map_comp)
  have "flatten (members_by_id ?r) = map ?f (flatten (members_by_id r))" "observers ?r = observers r"
    by (simp_all add: m flatten_map lobby_again_def)
  then have "presentable ?r" using s(4) by (simp add: presentable_def presentable_player_def)
  then show "seat_inv ?r"
    using same_roster_seats[OF roster s(1)] same_roster_teams[OF roster s(1,2)] same_roster_master[OF roster s(1,3)]
    by (simp add: seat_inv_def lobby_again_def)
  show u: "user_nos ?r = user_nos r" by (rule same_roster_users[OF roster])
  show "room_is_empty ?r = room_is_empty r" by (simp add: empty_no_users u)
qed (simp_all add: lobby_again_def)

lemma abort_loading_effect:
  assumes "dir_inv w" "map_of (protocol_rooms w) rid = Some r" "\<not> room_is_empty r"
  obtains w' where "abort_loading_room rid w = Returns w'" "dir_inv w'" "lobby_frame w w'"
proof -
  have e: "room_entry_ok rid r" by (rule dir_invD(1)[OF assms(1,2)])
  note l = lobby_again_quiet[of r]
  have "room_entry_ok rid (lobby_again r)" "set (user_nos (lobby_again r)) = set (user_nos r)"
    using e l assms(3) by (simp_all add: room_entry_ok_def)
  from dir_inv_replace[OF assms(1,2) this] have d: "dir_inv (put_room rid (lobby_again r) w)" .
  have p: "protocol_rooms (release_reward_lanes f w) = protocol_rooms w" for f by (simp add: release_reward_lanes_def)
  show thesis
    using assms(2) d p
    by (intro that[of "put_room rid (lobby_again r) (case race_fence r of None \<Rightarrow> w | Some f \<Rightarrow> release_reward_lanes f w)"])
       (simp_all add: abort_loading_room_def Let_def split: option.split)
qed

lemma next_lobby_fields:
  "phase (snd (apply_next_lobby_master k (apply_next_grid_ranking k r))) = phase r \<and>
   room_id (snd (apply_next_lobby_master k (apply_next_grid_ranking k r))) = room_id r"
  by (simp add: apply_next_lobby_master_def apply_next_grid_ranking_def Let_def split: option.split list.split)

lemma finish_settlement_inv:
  assumes "dir_inv w"
  shows "dir_inv (finish_settlement rid ranking w) \<and> lobby_frame w (finish_settlement rid ranking w)"
proof (cases "map_of (protocol_rooms w) rid")
  case None
  then show ?thesis using assms by (simp add: finish_settlement_def)
next
  case (Some r)
  have e: "room_entry_ok rid r" by (rule dir_invD(1)[OF assms Some])
  let ?n = "snd (apply_next_lobby_master ranking (apply_next_grid_ranking ranking r))"
  show ?thesis
  proof (cases "room_is_empty r")
    case True
    then show ?thesis
      using dir_inv_empty_dropped[OF assms Some] Some
      by (simp add: finish_settlement_def empty_no_users split: option.split)
  next
    case False
    have n: "seat_inv ?n" "user_nos ?n = user_nos r"
      using e next_grid_inv(1)[of r ranking] next_grid_inv(2)[of ranking r] next_master_inv[of "apply_next_grid_ranking ranking r" ranking]
      by (simp_all add: room_entry_ok_def)
    have "room_entry_ok rid (lobby_again ?n)" "set (user_nos (lobby_again ?n)) = set (user_nos r)"
      using e lobby_again_quiet[OF n(1)] n(2) next_lobby_fields[of ranking r] False
      by (simp_all add: room_entry_ok_def empty_no_users)
    from dir_inv_replace[OF assms Some this] show ?thesis
      using Some False by (simp add: finish_settlement_def Let_def split: option.split)
  qed
qed

end
