(* ===== verification/SnapshotRooms.thy ===== *)
theory SnapshotRooms
  imports DirectoryInv
begin

text \<open>
  The rooms of the internal slot protocol: \<open>create_room\<close> always finds an identifier while one is free,
  and the three operations keep the directory.
\<close>

section \<open>The candidates of \<open>create_room\<close>\<close>

definition next_u32 :: "u32 \<Rightarrow> u32" where
  "next_u32 c = max (c + 1) 1"

abbreviation (input) cycle :: nat where "cycle \<equiv> 4294967295"

lemma next_u32_unat: "unat (next_u32 c) = (if unat c = cycle then 1 else unat c + 1)"
proof (cases "c = - 1")
  case True
  then show ?thesis by (simp add: next_u32_def max_def unsigned_minus_1_eq_mask mask_eq_exp_minus_1)
next
  case False
  have l: "unat (x :: u32) < 4294967296" for x using unsigned_less[of x, where ?'a = nat] by simp
  have n: "unat (c + 1) = Suc (unat c)" using False by (metis add.commute eq_neg_iff_add_eq_0 unatSuc)
  moreover have "1 \<le> c + 1" using n by (simp add: word_le_nat_alt)
  ultimately show ?thesis using l[of "c + 1"] by (simp add: next_u32_def max_def)
qed

lemma next_u32_first: "(next_u32 ^^ Suc k) c = (next_u32 ^^ k) (next_u32 c)"
  unfolding funpow_Suc_right comp_apply ..

lemma next_u32_pow: "c \<noteq> 0 \<Longrightarrow> unat ((next_u32 ^^ k) c) = Suc ((unat c - 1 + k) mod cycle)"
proof (induction k)
  case 0
  have "unat c < 4294967296" "0 < unat c" using unsigned_less[of c, where ?'a = nat] 0 by (simp_all add: unat_gt_0)
  then show ?case by simp
next
  case (Suc k)
  let ?m = "(unat c - 1 + k) mod cycle"
  have m: "unat ((next_u32 ^^ k) c) = Suc ?m" by (rule Suc.IH[OF Suc.prems])
  have "(unat c - 1 + Suc k) mod cycle = (if Suc ?m = cycle then 0 else Suc ?m)"
    by (simp add: mod_Suc)
  then show ?case using next_u32_unat[of "(next_u32 ^^ k) c"] m by simp
qed

lemma next_u32_inj: "inj_on (\<lambda>k. (next_u32 ^^ k) c) {..<cycle}"
proof -
  have step: "inj_on (\<lambda>k. (next_u32 ^^ k) c) {..<cycle}" if "c \<noteq> 0" for c
  proof (rule inj_onI)
    have *: "j = k" if "(x + j) mod cycle = (x + k) mod cycle" "j < cycle" "k < cycle" "j \<le> k" for x j k :: nat
    proof -
      have "cycle dvd (x + k) - (x + j)" using that(1,4) mod_eq_dvd_iff_nat[of "x + j" "x + k" cycle] by simp
      then show ?thesis using that(3,4) by (auto dest: dvd_imp_le)
    qed
    fix j k assume "j \<in> {..<cycle}" "k \<in> {..<cycle}" "(next_u32 ^^ j) c = (next_u32 ^^ k) c"
    then have "(unat c - 1 + j) mod cycle = (unat c - 1 + k) mod cycle" "j < cycle" "k < cycle"
      using next_u32_pow[OF that, of j] next_u32_pow[OF that, of k] by simp_all
    then show "j = k" using *[of "unat c - 1" j k] *[of "unat c - 1" k j] by (cases "j \<le> k") simp_all
  qed
  show ?thesis
  proof (cases "c = 0")
    case True
    have n: "next_u32 0 = 1" by (simp add: next_u32_def)
    have pos: "(next_u32 ^^ Suc k) 0 = (next_u32 ^^ k) 1" for k unfolding next_u32_first n ..
    have nz: "(next_u32 ^^ k) 1 \<noteq> 0" for k using next_u32_pow[of 1 k] by auto
    show ?thesis
    proof (rule inj_onI)
      fix j k assume a: "j \<in> {..<cycle}" "k \<in> {..<cycle}" "(next_u32 ^^ j) c = (next_u32 ^^ k) c"
      show "j = k"
      proof (cases j; cases k)
        fix j' k' assume s: "j = Suc j'" "k = Suc k'"
        then have "(next_u32 ^^ j') 1 = (next_u32 ^^ k') 1" using a(3) pos True by (simp del: funpow.simps)
        moreover have "j' \<in> {..<cycle}" "k' \<in> {..<cycle}" using a(1,2) s by simp_all
        ultimately show ?thesis using step[of 1] s by (auto dest: inj_onD)
      qed (use a(3) pos nz True in \<open>auto simp del: funpow.simps(2)\<close>)
    qed
  qed (rule step)
qed

lemma next_snapshot_None:
  "next_snapshot_id fuel w = None \<Longrightarrow> k < fuel \<Longrightarrow> room_id_taken ((next_u32 ^^ k) (next_room_id w)) w"
proof (induction fuel w arbitrary: k rule: next_snapshot_id.induct)
  case (2 fuel w)
  let ?w = "w\<lparr>next_room_id := max (next_room_id w + 1) 1\<rparr>"
  have same: "room_id_taken x ?w = room_id_taken x w" for x by (simp add: room_id_taken_def)
  have t: "room_id_taken (next_room_id w) ?w" "next_snapshot_id fuel ?w = None"
    using 2(2) by (auto simp: Let_def split: if_split_asm)
  show ?case
  proof (cases k)
    case 0
    then show ?thesis using t(1) same by simp
  next
    case (Suc j)
    have "room_id_taken ((next_u32 ^^ j) (next_room_id ?w)) ?w"
      by (rule "2.IH"[OF refl refl t(1) t(2)]) (use 2(3) Suc in simp)
    then have "room_id_taken ((next_u32 ^^ j) (next_u32 (next_room_id w))) w" using same by (simp add: next_u32_def)
    then show ?thesis unfolding Suc next_u32_first .
  qed
qed simp

lemma next_snapshot_found:
  assumes "create_room_fuel w \<le> cycle"
  obtains rid w' where "next_snapshot_id (create_room_fuel w) w = Some (rid, w')"
proof (cases "next_snapshot_id (create_room_fuel w) w")
  case None
  let ?f = "\<lambda>k. (next_u32 ^^ k) (next_room_id w)" and ?n = "create_room_fuel w"
  have "?f ` {..<?n} \<subseteq> fst ` set (rooms w) \<union> fst ` set (protocol_rooms w)"
    using next_snapshot_None[OF None] by (auto simp: room_id_taken_def map_of_eq_None_iff)
  then have "card (?f ` {..<?n}) \<le> card (fst ` set (rooms w) \<union> fst ` set (protocol_rooms w))"
    by (intro card_mono) simp_all
  also have "\<dots> \<le> card (fst ` set (rooms w)) + card (fst ` set (protocol_rooms w))" by (rule card_Un_le)
  also have "\<dots> \<le> card (set (rooms w)) + card (set (protocol_rooms w))" by (intro add_mono card_image_le) simp_all
  also have "\<dots> \<le> length (rooms w) + length (protocol_rooms w)" by (intro add_mono card_length)
  finally have "card (?f ` {..<?n}) < ?n" by (simp add: create_room_fuel_def)
  moreover have "card (?f ` {..<?n}) = ?n"
    using card_image[OF inj_on_subset[OF next_u32_inj[of "next_room_id w"]], of "{..<?n}"] assms by auto
  ultimately show ?thesis by simp
next
  case (Some p)
  then show ?thesis using that by (cases p) simp
qed

lemma next_snapshot_Some:
  "next_snapshot_id fuel w = Some (rid, w') \<Longrightarrow> \<not> room_id_taken rid w \<and>
   (\<exists>n ids. w' = w\<lparr>next_room_id := n, free_protocol_room_ids := ids\<rparr> \<and>
     ids = (if unat rid < 2 ^ 16 then filter (\<lambda>i. i \<noteq> ucast rid) (free_protocol_room_ids w) else free_protocol_room_ids w))"
proof (induction fuel w rule: next_snapshot_id.induct)
  case (2 fuel w)
  let ?w = "w\<lparr>next_room_id := max (next_room_id w + 1) 1\<rparr>"
  have same: "room_id_taken x ?w = room_id_taken x w" for x by (simp add: room_id_taken_def)
  show ?case
  proof (cases "room_id_taken (next_room_id w) ?w")
    case True
    have "next_snapshot_id fuel ?w = Some (rid, w')" using 2(2) True by (simp add: Let_def)
    from "2.IH"[OF refl refl True this] show ?thesis by (auto simp: same)
  next
    case False
    then have e: "rid = next_room_id w" "w' = (if unat (next_room_id w) < 2 ^ 16
        then ?w\<lparr>free_protocol_room_ids := filter (\<lambda>i. i \<noteq> ucast (next_room_id w)) (free_protocol_room_ids w)\<rparr> else ?w)"
      using 2(2) by (auto simp: Let_def split: if_split_asm)
    have "w' = w\<lparr>next_room_id := max (next_room_id w + 1) 1, free_protocol_room_ids :=
        (if unat rid < 2 ^ 16 then filter (\<lambda>i. i \<noteq> ucast rid) (free_protocol_room_ids w) else free_protocol_room_ids w)\<rparr>"
      using e by simp
    then show ?thesis using False same e(1) by blast
  qed
qed simp

section \<open>The directory keeps its invariants\<close>

lemma create_room_inv:
  assumes "dir_inv w" "create_room w = Some (rid, w')"
  shows "dir_inv w' \<and> lobby_frame w w' \<and> \<not> room_id_taken rid w \<and>
    map_of (rooms w') rid = Some \<lparr>snapshot_id = rid, snapshot_slots = replicate ROOM_SLOT_COUNT None\<rparr>"
proof -
  obtain w1 where n: "next_snapshot_id (create_room_fuel w) w = Some (rid, w1)"
    "w' = w1\<lparr>rooms := tput rid \<lparr>snapshot_id = rid, snapshot_slots = replicate ROOM_SLOT_COUNT None\<rparr> (rooms w1)\<rparr>"
    using assms(2) by (auto simp: create_room_def split: option.split_asm)
  from next_snapshot_Some[OF n(1)] obtain k ids where s: "\<not> room_id_taken rid w"
    "w1 = w\<lparr>next_room_id := k, free_protocol_room_ids := ids\<rparr>"
    "ids = (if unat rid < 2 ^ 16 then filter (\<lambda>i. i \<noteq> ucast rid) (free_protocol_room_ids w) else free_protocol_room_ids w)"
    by blast
  have free: "sorted (free_protocol_room_ids w)" "distinct (free_protocol_room_ids w)"
    "\<And>i. i \<in> set (free_protocol_room_ids w) \<Longrightarrow> i \<noteq> 0 \<and> \<not> room_id_taken (ucast i) w"
    and w: "rooms_ok w" "members_ok w"
    using assms(1) by (simp_all add: dir_inv_def free_ids_ok_def)
  have other: "ucast i \<noteq> rid" if "i \<in> set ids" for i :: u16
  proof
    assume e: "ucast i = rid"
    then have "unat rid < 2 ^ 16" using unat_u16_less[of i] by (auto simp: unsigned_ucast_eq take_bit_eq_mod)
    then have "i \<noteq> ucast rid" using that s(3) by simp
    moreover have "ucast rid = i" using e narrow_wide[of i] by simp
    ultimately show False by simp
  qed
  have "sorted ids \<and> distinct ids \<and> set ids \<subseteq> set (free_protocol_room_ids w)"
    using free(1,2) s(3) by (auto intro: sorted_filter[where f = id, simplified])
  then have "free_ids_ok w'"
    using free(3) other by (auto simp: free_ids_ok_def n(2) s(2) room_id_taken_def)
  moreover have "rooms_ok w'" using w(1) s(1) by (auto simp: rooms_ok_def n(2) s(2) room_id_taken_def)
  moreover have "members_ok w'" using w(2) by (simp add: members_ok_def n(2) s(2))
  ultimately show ?thesis using s(1) by (simp add: dir_inv_def lobby_frame_def n(2) s(2))
qed

lemma join_room_inv:
  "dir_inv w \<Longrightarrow> join_room rid identity w = (result, w') \<Longrightarrow> dir_inv w' \<and> lobby_frame w w'"
  by (auto simp: join_room_def dir_inv_rooms lobby_frame_def split: if_split_asm option.split_asm)

lemma leave_room_inv:
  "dir_inv w \<Longrightarrow> leave_room identity w = (result, w') \<Longrightarrow> dir_inv w' \<and> lobby_frame w w'"
  by (auto simp: leave_room_def Let_def lobby_frame_def split: option.split_asm
      intro: dir_inv_rooms[of "w\<lparr>room_by_identity := t\<rparr>" for t, simplified])

end
