(* ===== verification/WorldMachine.thy ===== *)
theory WorldMachine
  imports SnapshotRooms
begin

text \<open>
  The world actor's lobby as a machine: every command of the lobby, the room directory and the internal
  slot protocol, every identity command with the leases its callers hold, and whatever the sessions do
  in between. A step that meets a failing \<open>expect\<close> ends in \<open>Panics\<close>.
\<close>

record server =
  world :: lobby_world
  held_leases :: "operation_lease list"

datatype world_command =
  WorldLobby "nat \<Rightarrow> nat" u64 lobby_command_payload
| WorldRoomList u64 identity_binding ch_get_room_list_request
| WorldCreate u64 identity_binding ch_create_room_request room_participant
| WorldJoin u64 identity_binding ch_join_room_request room_participant
| WorldLeave u64 identity_binding
| WorldFirstState u64 identity_binding
| WorldMigrate identity_binding
| WorldRelease released_identity bool
| WorldAbortLoading u32
| WorldFinish u32 settlement_ranking
| WorldNewRoom
| WorldJoinRoom u32 ustring
| WorldLeaveRoom ustring
| WorldIdentity identity_command
| WorldSessions session_table
| WorldContext "identity_binding option" "(u32, identity_binding \<times> u16) table" "resolved_random_tracks option" bool

definition map_world :: "('a \<times> lobby_world) may_panic \<Rightarrow> lobby_world may_panic" where
  "map_world x = (case x of Panics \<Rightarrow> Panics | Returns (_, w) \<Rightarrow> Returns w)"

text \<open>Plan on this state, lock, commit: what the world does once the identity part of a migration is locked.\<close>

definition migrate_room :: "identity_binding \<Rightarrow> lobby_world \<Rightarrow> lobby_world may_panic" where
  "migrate_room identity w =
     (case plan_protocol_migration identity w of
        Inl _ \<Rightarrow> Panics
      | Inr (None, _) \<Rightarrow> Returns w
      | Inr (Some d, _) \<Rightarrow> (case lock_delta d w of Inl _ \<Rightarrow> Panics | Inr d \<Rightarrow> Returns (commit_delta d w)))"

definition abort_if_loading :: "u32 \<Rightarrow> lobby_world \<Rightarrow> lobby_world may_panic" where
  "abort_if_loading rid w =
     (case map_of (protocol_rooms w) rid of
        Some r \<Rightarrow> if phase r = LoadingPhase then abort_loading_room rid w else Returns w
      | None \<Rightarrow> Returns w)"

fun world_run :: "world_command \<Rightarrow> lobby_world \<Rightarrow> lobby_world may_panic" where
  "world_run (WorldLobby draw session c) w = map_world (lobby_command draw session c w)"
| "world_run (WorldRoomList session identity request) w = Returns (snd (protocol_room_list session identity request w))"
| "world_run (WorldCreate session identity request part) w = Returns (snd (protocol_create_room session identity request part w))"
| "world_run (WorldJoin session identity request part) w = Returns (snd (protocol_join_room session identity request part w))"
| "world_run (WorldLeave session identity) w = map_world (protocol_leave_room session identity w)"
| "world_run (WorldFirstState session identity) w = map_world (protocol_first_state session identity w)"
| "world_run (WorldMigrate identity) w = migrate_room identity w"
| "world_run (WorldRelease identity publish) w = map_world (release_room_state identity publish w)"
| "world_run (WorldAbortLoading rid) w = abort_if_loading rid w"
| "world_run (WorldFinish rid ranking) w = Returns (finish_settlement rid ranking w)"
| "world_run WorldNewRoom w = Returns (case create_room w of None \<Rightarrow> w | Some (_, w) \<Rightarrow> w)"
| "world_run (WorldJoinRoom rid identity) w = Returns (snd (join_room rid identity w))"
| "world_run (WorldLeaveRoom identity) w = Returns (snd (leave_room identity w))"
| "world_run (WorldSessions ss) w = Returns (w\<lparr>sessions := ss\<rparr>)"
| "world_run (WorldContext admitted ports tracks q) w = Returns (w\<lparr>admitted_identity := admitted,
     observed_p2p_ports := ports, world_random_tracks := tracks, quiescing := q\<rparr>)"
| "world_run (WorldIdentity _) w = Returns w"

definition server_step :: "server may_panic \<Rightarrow> world_command \<Rightarrow> server may_panic" where
  "server_step s c =
     (case s of
        Panics \<Rightarrow> Panics
      | Returns s \<Rightarrow>
          (case c of
             WorldIdentity i \<Rightarrow>
               let next = identity_step (host_strings (world s)) \<lparr>reg = identities (world s), leases = held_leases s\<rparr> i
               in Returns (s\<lparr>world := (world s)\<lparr>identities := reg next\<rparr>, held_leases := leases next\<rparr>)
           | _ \<Rightarrow> (case world_run c (world s) of Panics \<Rightarrow> Panics | Returns w \<Rightarrow> Returns (s\<lparr>world := w\<rparr>))))"

text \<open>An empty server with its host, its generations and its stock of race epochs.\<close>

definition new_server :: "host \<Rightarrow> nat \<Rightarrow> server" where
  "new_server h i = \<lparr>world = \<lparr>host_strings = h, identities = default_registry i, admitted_identity = None, sessions = [],
     rooms = [], room_by_identity = [], protocol_rooms = [], protocol_room_by_user = [], free_protocol_room_ids = [],
     next_room_id = 1, next_race_epoch = Some 1, reward_lanes = [], observed_p2p_ports = [], world_random_tracks = None,
     quiescing = False\<rparr>, held_leases = []\<rparr>"

definition server_inv :: "server may_panic \<Rightarrow> bool" where
  "server_inv s \<longleftrightarrow> (case s of Panics \<Rightarrow> False
     | Returns s \<Rightarrow> dir_inv (world s) \<and>
         world_inv (host_strings (world s)) \<lparr>reg = identities (world s), leases = held_leases s\<rparr>)"

section \<open>Every step keeps the invariants\<close>

definition fine :: "lobby_world \<Rightarrow> lobby_world may_panic \<Rightarrow> bool" where
  "fine w x \<longleftrightarrow> (\<exists>w'. x = Returns w' \<and> dir_inv w' \<and> identities w' = identities w \<and> host_strings w' = host_strings w)"

lemma fineI: "dir_inv w' \<Longrightarrow> lobby_frame w w' \<Longrightarrow> fine w (Returns w')"
  by (simp add: fine_def lobby_frame_def)

lemma delivered_fine: "dir_inv w' \<Longrightarrow> lobby_frame w w' \<Longrightarrow> fine w (Returns (snd (deliver_in ds w')))"
  by (cases "deliver_in ds w'") (auto elim!: deliver_in_sessions simp: fine_def lobby_frame_def)

lemma run_plan_frame:
  assumes "planned_command draw identity c w = Returns planned" "run_plan planned w = (result, w')"
  shows "identities w' = identities w \<and> host_strings w' = host_strings w"
proof (cases result)
  case (Inl e)
  then obtain ss where "w' = w\<lparr>sessions := ss\<rparr>" using run_plan_failed assms(2) by blast
  then show ?thesis by simp
next
  case (Inr outcome)
  with assms(2) have "run_plan planned w = (Inr outcome, w')" by simp
  then obtain p ss where p: "planned = Inr p"
    "w' = (plan_commit p (w\<lparr>sessions := ss\<rparr>))\<lparr>sessions :=
       publish_reserved (plan_deliveries p) (sessions (plan_commit p (w\<lparr>sessions := ss\<rparr>)))\<rparr>"
    by (rule run_plan_done)
  have "spares (plan_commit p)" using planned_spares assms(1) p(1) by simp
  then show ?thesis by (simp add: p(2) spares_def)
qed

lemma start_command_frame:
  assumes "start_command draw session identity p w = Returns (result, w')"
  shows "identities w' = identities w \<and> host_strings w' = host_strings w"
proof -
  define q where "q = (if world_random_tracks w \<noteq> None then p\<lparr>plan_random_tracks := world_random_tracks w\<rparr> else p)"
  obtain planned where s: "start_room draw identity q w = Returns planned"
    using assms by (cases "start_room draw identity q w") (simp_all add: start_command_def Let_def q_def)
  obtain r w1 where r: "run_plan planned w = (r, w1)" by (cases "run_plan planned w")
  have w1: "identities w1 = identities w \<and> host_strings w1 = host_strings w"
    by (rule run_plan_frame[OF _ r, of draw identity "CommandStartRoom q"]) (simp add: planned_command_def s)
  have e: "(result, w') = (case (r, w1) of
      (Inr outcome, w) \<Rightarrow> (Inr outcome, w)
    | (Inl e, w) \<Rightarrow> if is_outbound_unavailable e then (Inl e, w)
        else case publish_start_rejection session w of (Inl e', w) \<Rightarrow> (Inl e', w) | (Inr _, w) \<Rightarrow> (Inl e, w))"
    using assms unfolding start_command_def Let_def q_def[symmetric] s may_panic.case r by simp
  show ?thesis
  proof (cases r)
    case (Inr outcome)
    then show ?thesis using e w1 by simp
  next
    case (Inl x)
    obtain y w2 where y: "publish_start_rejection session w1 = (y, w2)" by (cases "publish_start_rejection session w1")
    obtain ss where w2: "w2 = w1\<lparr>sessions := ss\<rparr>" using rejection_effect[OF y] by blast
    have "w' = w1 \<or> w' = w2" using e Inl y by (auto split: if_split_asm sum.split_asm)
    then show ?thesis using w1 w2 by auto
  qed
qed

lemma lobby_command_frame:
  assumes "lobby_command draw session c w = Returns (result, w')"
  shows "identities w' = identities w \<and> host_strings w' = host_strings w"
proof (cases "authorize_session_operation session w")
  case (Inl e)
  then show ?thesis using assms by (simp add: lobby_command_def)
next
  case (Inr identity)
  show ?thesis
  proof (cases "is_start c")
    case True
    then obtain p where c: "c = CommandStartRoom p" by (auto simp: is_start_def split: lobby_command_payload.split_asm)
    obtain r w1 where s: "start_command draw session identity p w = Returns (r, w1)"
      using assms Inr c by (cases "start_command draw session identity p w") (auto simp: lobby_command_def)
    then have "w' = w1" using assms Inr c by (auto simp: lobby_command_def lobby_result_def split: sum.split_asm)
    then show ?thesis using start_command_frame[OF s] by simp
  next
    case False
    obtain planned where s: "planned_command draw identity c w = Returns planned"
      using assms Inr False by (cases "planned_command draw identity c w"; cases c) (simp_all add: lobby_command_def is_start_def)
    obtain r w1 where r: "run_plan planned w = (r, w1)" by (cases "run_plan planned w")
    have "w' = w1" using assms Inr False s r
      by (cases c) (auto simp: lobby_command_def is_start_def lobby_result_def split: sum.split_asm)
    then show ?thesis using run_plan_frame[OF s r] by simp
  qed
qed

lemma lobby_fine:
  assumes "lobby_inv w"
  shows "fine w (map_world (lobby_command draw session c w))"
proof -
  obtain result w' where e: "lobby_command draw session c w = Returns (result, w')" "lobby_inv w'"
    by (rule lobby_command_effect[OF assms])
  then show ?thesis using lobby_command_frame[OF e(1)] by (simp add: map_world_def fine_def lobby_inv_def)
qed

lemma create_fine:
  assumes "dir_inv w"
  shows "fine w (Returns (snd (protocol_create_room session identity request part w)))"
proof (cases "try_create identity request part w")
  case (Pair result w')
  from try_create_inv[OF assms Pair] have "dir_inv w'" "lobby_frame w w'" by (simp_all add: lobby_frame_def)
  then show ?thesis
    using fineI delivered_fine[of w' w "[(session, [serialize_ch_create_room_reply outcome (create_game_type request)])]" for outcome] Pair
    by (cases result) (simp_all add: protocol_create_room_def split_beta)
qed

lemma join_fine:
  assumes "dir_inv w"
  shows "fine w (Returns (snd (protocol_join_room session identity request part w)))"
proof (cases "join_admission identity request part w")
  case (Inl e)
  then show ?thesis using assms by (simp add: protocol_join_room_def fineI)
next
  case (Inr x)
  obtain status mode r where x: "x = (status, mode, r)" by (cases x)
  let ?w = "case r of None \<Rightarrow> w | Some r \<Rightarrow> room_joined (bind_user_no identity) (ucast (join_room_id request)) r w"
  have "dir_inv ?w"
  proof (cases r)
    case (Some r')
    then show ?thesis using join_admission_inv[OF assms] Inr x by simp
  qed (simp add: assms)
  moreover have "lobby_frame w ?w" by (simp add: room_joined_def Let_def split: option.split)
  ultimately have "fine w (Returns (snd (deliver_in [(session, [serialize_ch_join_room_reply status mode])] ?w)))"
    by (rule delivered_fine)
  then show ?thesis using Inr x by (simp add: protocol_join_room_def split_beta Let_def)
qed

lemma leave_fine:
  assumes "dir_inv w"
  shows "fine w (map_world (protocol_leave_room session identity w))"
proof -
  obtain ds w' where r: "remove_protocol_user (bind_user_no identity) w = Returns (ds, w')" "dir_inv w'" "lobby_frame w w'"
    by (rule remove_protocol_user_effect[OF assms])
  let ?left = "map_of (protocol_room_by_user w) (bind_user_no identity) \<noteq> None"
  have "map_world (protocol_leave_room session identity w) = Returns (snd (if ?left
      then deliver_in ((session, [serialize_ch_leave_room_reply True]) # ds) w'
      else deliver_in [(session, [serialize_ch_leave_room_reply False])] w))"
    using r(1) by (auto simp: protocol_leave_room_def map_world_def Let_def split_beta)
  then show ?thesis using delivered_fine r(2,3) delivered_fine[OF assms, of w] by (simp split: if_split)
qed

lemma first_state_fine:
  assumes "dir_inv w"
  shows "fine w (map_world (protocol_first_state session identity w))"
proof (cases "map_of (protocol_room_by_user w) (bind_user_no identity)")
  case None
  then show ?thesis using assms by (simp add: protocol_first_state_def map_world_def fineI)
next
  case (Some rid)
  obtain r where r: "map_of (protocol_rooms w) rid = Some r" using dir_invD(3)[OF assms Some] by blast
  show ?thesis
  proof (cases "serialize_initial_room_state (session_data r) (slot_data r)")
    case (Inl e)
    then show ?thesis using assms Some r by (simp add: protocol_first_state_def map_world_def fineI)
  next
    case (Inr packets)
    then show ?thesis using Some r delivered_fine[OF assms, of w "[(session, map snd packets)]"]
      by (simp add: protocol_first_state_def map_world_def split_beta)
  qed
qed

lemma room_list_fine:
  assumes "dir_inv w"
  shows "fine w (Returns (snd (protocol_room_list session identity request w)))"
  unfolding protocol_room_list_def Let_def
  by (split sum.split) (use delivered_fine[OF assms, of w] fineI[OF assms, of w] in \<open>simp add: split_beta\<close>)

lemma migrate_fine:
  assumes "dir_inv w"
  shows "fine w (migrate_room identity w)"
proof (rule migration_plan_effect[OF assms, of identity])
  fix delta ds
  assume p: "plan_protocol_migration identity w = Inr (delta, ds)"
    and d: "\<And>d. delta = Some d \<Longrightarrow> lock_delta d w = Inr d \<and> dir_inv (commit_delta d w) \<and> lobby_frame w (commit_delta d w)"
  show ?thesis
  proof (cases delta)
    case None
    then show ?thesis using p assms by (simp add: migrate_room_def fineI)
  next
    case (Some x)
    then show ?thesis using p d[OF Some] by (simp add: migrate_room_def fineI)
  qed
qed

lemma abort_fine:
  assumes "dir_inv w"
  shows "fine w (abort_if_loading rid w)"
proof (cases "\<exists>r. map_of (protocol_rooms w) rid = Some r \<and> phase r = LoadingPhase")
  case True
  then obtain r where r: "map_of (protocol_rooms w) rid = Some r" "phase r = LoadingPhase" by blast
  have "\<not> room_is_empty r" using dir_invD(1)[OF assms r(1)] r(2) by (simp add: room_entry_ok_def)
  then obtain w' where "abort_loading_room rid w = Returns w'" "dir_inv w'" "lobby_frame w w'"
    by (rule abort_loading_effect[OF assms r(1)])
  then show ?thesis using r by (simp add: abort_if_loading_def fineI)
next
  case False
  then show ?thesis using assms by (auto simp: abort_if_loading_def fineI split: option.split)
qed

lemma release_fine:
  assumes "lobby_inv w"
  shows "fine w (map_world (release_room_state identity publish w))"
proof -
  obtain ds w' where r: "release_room_state identity publish w = Returns (ds, w')" "lobby_inv w'"
    "map_of (protocol_room_by_user w') (rel_user_no identity) = None" "lobby_frame w w'"
    by (rule release_room_state_effect[OF assms])
  then show ?thesis by (simp add: map_world_def fineI lobby_inv_def)
qed

lemma world_run_fine:
  assumes "lobby_inv w"
  shows "fine w (world_run c w)"
proof -
  have d: "dir_inv w" using assms by (simp add: lobby_inv_def)
  have keeps: "fine w (Returns (snd p))" if "\<And>x w'. p = (x, w') \<Longrightarrow> dir_inv w' \<and> lobby_frame w w'" for p :: "'x \<times> lobby_world"
    using that by (cases p) (simp add: fineI)
  show ?thesis
  proof (cases c)
    case WorldNewRoom
    then show ?thesis using create_room_inv[OF d] d by (auto intro: fineI split: option.split)
  next
    case (WorldJoinRoom rid identity)
    then show ?thesis using keeps[of "join_room rid identity w"] join_room_inv[OF d] by simp
  next
    case (WorldLeaveRoom identity)
    then show ?thesis using keeps[of "leave_room identity w"] leave_room_inv[OF d] by simp
  next
    case (WorldContext admitted ports tracks q)
    have "dir_inv (w\<lparr>admitted_identity := admitted, observed_p2p_ports := ports, world_random_tracks := tracks, quiescing := q\<rparr>) = dir_inv w"
      by (rule dir_inv_cong) simp_all
    then show ?thesis using WorldContext d by (simp add: fine_def)
  next
    case (WorldSessions ss)
    then show ?thesis using d by (simp add: fine_def)
  next
    case (WorldIdentity i)
    then show ?thesis using d by (simp add: fine_def)
  next
    case (WorldFinish rid ranking)
    then show ?thesis using finish_settlement_inv[OF d, of rid ranking] by (simp add: fineI)
  qed (simp_all add: lobby_fine[OF assms] room_list_fine[OF d] create_fine[OF d] join_fine[OF d] leave_fine[OF d]
      first_state_fine[OF d] migrate_fine[OF d] release_fine[OF assms] abort_fine[OF d])
qed

lemma server_inv_Returns:
  "server_inv (Returns s) \<longleftrightarrow> dir_inv (world s) \<and>
     world_inv (host_strings (world s)) \<lparr>reg = identities (world s), leases = held_leases s\<rparr>"
  by (simp add: server_inv_def)

lemma server_inv_lobby: "server_inv (Returns s) \<Longrightarrow> lobby_inv (world s)"
  by (simp add: server_inv_Returns lobby_inv_def world_inv_def)

lemma dir_inv_identities [simp]: "dir_inv (w\<lparr>identities := r\<rparr>) = dir_inv w"
  by (rule dir_inv_cong) simp_all

lemma server_step_inv:
  assumes "server_inv x"
  shows "server_inv (server_step x c)"
proof -
  from assms obtain s where s: "x = Returns s" by (cases x) (simp_all add: server_inv_def)
  note inv = assms[unfolded s server_inv_Returns]
  show ?thesis
  proof (cases "\<exists>i. c = WorldIdentity i")
    case True
    then obtain i where c: "c = WorldIdentity i" by blast
    have "world_inv (host_strings (world s))
        (identity_step (host_strings (world s)) \<lparr>reg = identities (world s), leases = held_leases s\<rparr> i)"
      by (rule identity_step_inv) (use inv in simp)
    then show ?thesis using inv by (simp add: s c server_step_def server_inv_Returns Let_def world_inv_def)
  next
    case False
    obtain w' where w': "world_run c (world s) = Returns w'" "dir_inv w'" "identities w' = identities (world s)"
      "host_strings w' = host_strings (world s)"
      using world_run_fine[OF server_inv_lobby, of s c] assms s by (auto simp: fine_def)
    have "server_step x c = Returns (s\<lparr>world := w'\<rparr>)"
      using False w'(1) s by (cases c) (simp_all add: server_step_def)
    then show ?thesis using inv w' by (simp add: server_inv_Returns)
  qed
qed

lemma new_server_inv: "server_inv (Returns (new_server h i))"
  by (simp add: server_inv_Returns new_server_def dir_inv_def rooms_ok_def members_ok_def free_ids_ok_def
      world_inv_def reg_inv_default lease_inv_default)

interpretation server: machine "\<lambda>s. \<exists>h i. s = Returns (new_server h i)" server_step server_inv
  by unfold_locales (auto simp: new_server_inv server_step_inv)

definition server_after :: "host \<Rightarrow> nat \<Rightarrow> world_command list \<Rightarrow> server may_panic" where
  "server_after h i cs = foldl server_step (Returns (new_server h i)) cs"

lemma server_after_inv: "server_inv (server_after h i cs)"
  unfolding server_after_def by (rule server.inv_reachable) blast

lemma server_after_Returns: "\<exists>s. server_after h i cs = Returns s \<and> lobby_inv (world s)"
  using server_after_inv[of h i cs] server_inv_lobby by (cases "server_after h i cs") (auto simp: server_inv_def)

end
