(* ===== verification/RaceProtocol.thy ===== *)
theory RaceProtocol
  imports RaceStart
begin

text \<open>
  The race-control packets (\<open>crates/p4475-core/src/race_protocol.rs\<close>) and the result packet of a
  settled race (\<open>crates/p4475-core/src/race_result_protocol.rs\<close>). An \<open>f32\<close> is its bit pattern.
\<close>

section \<open>Data\<close>

definition GAME_CONTROL_PACKET_NAME :: string where "GAME_CONTROL_PACKET_NAME = ''GameControlPacket''"
definition GAME_AI_GOAL_IN_PACKET_NAME :: string where "GAME_AI_GOAL_IN_PACKET_NAME = ''GameAiGoalinPacket''"
definition GAME_RACE_TIME_PACKET_NAME :: string where "GAME_RACE_TIME_PACKET_NAME = ''GameRaceTimePacket''"
definition TEAM_BOOSTER_REQUEST_NAME :: string where "TEAM_BOOSTER_REQUEST_NAME = ''GameTeamBoosterRequestAddGaugePacket''"
definition TEAM_BOOSTER_REPLY_NAME :: string where "TEAM_BOOSTER_REPLY_NAME = ''GameTeamBoosterSetGaugePacket''"
definition GAME_AI_MASTER_NOTICE_NAME :: string where "GAME_AI_MASTER_NOTICE_NAME = ''GameAiMasterSlotNoticePacket''"
definition GAME_NEXT_STAGE_PACKET_NAME :: string where "GAME_NEXT_STAGE_PACKET_NAME = ''GameNextStagePacket''"
definition START_COLLECT_RECORD_REQUEST_NAME :: string where "START_COLLECT_RECORD_REQUEST_NAME = ''PqStartCollectRecord''"
definition START_COLLECT_RECORD_REPLY_NAME :: string where "START_COLLECT_RECORD_REPLY_NAME = ''PrStartCollectRecord''"
definition REPORT_USER_COLLECTED_RECORD_NAME :: string where "REPORT_USER_COLLECTED_RECORD_NAME = ''PcReportUserCollectedRecord''"
definition REPORT_GAME_COLLECTED_RECORD_REQUEST_NAME :: string where
  "REPORT_GAME_COLLECTED_RECORD_REQUEST_NAME = ''PqReportGameCollectedRecord''"

definition MAX_GAME_CONTROL_TRAILING_BYTES :: nat where "MAX_GAME_CONTROL_TRAILING_BYTES = 512"
definition CANONICAL_GAME_CONTROL_BODY_LENGTH :: nat where "CANONICAL_GAME_CONTROL_BODY_LENGTH = 81"
definition GAME_CONTROL_FINISH_TRAILING_LENGTH :: nat where "GAME_CONTROL_FINISH_TRAILING_LENGTH = 393"
definition FINISH_SESSION_AUTH_WORDS :: nat where "FINISH_SESSION_AUTH_WORDS = 7"
definition FINISH_RESULT_SUBOBJECT_LENGTH :: nat where "FINISH_RESULT_SUBOBJECT_LENGTH = 54"
definition FINISH_KART_SPEC_LENGTH :: nat where "FINISH_KART_SPEC_LENGTH = 235"
definition FINISH_SHARED_OBJECT_PAYLOAD_LENGTH :: nat where "FINISH_SHARED_OBJECT_PAYLOAD_LENGTH = 22"
definition FINISH_PARTICIPANT_SLOT_COUNT :: nat where "FINISH_PARTICIPANT_SLOT_COUNT = 8"

record game_control_request =
  gc_state :: i32
  gc_optional_pair :: "(i32 \<times> i32) option"
  gc_value0 :: u32
  gc_trailing :: bytes

record game_control_finish_snapshot =
  fs_value1 :: u32
  fs_value2 :: u32
  fs_session_auth :: "u32 list"
  fs_result_subobject :: bytes
  fs_kart_spec_snapshot :: bytes
  fs_shared_object :: bytes
  fs_participant_slots :: "u32 list"
  fs_result_global_metric :: u32
  fs_local_result :: u32
  fs_terminal_client_state :: u8

record ai_goal_in_request =
  goal_player_id :: i32
  goal_race_time :: u32

datatype race_team = RaceRed | RaceBlue

fun race_team_wire :: "race_team \<Rightarrow> u8" where
  "race_team_wire RaceRed = 1"
| "race_team_wire RaceBlue = 2"

record team_booster_gauge_request =
  booster_team :: race_team
  booster_contribution :: u32

record user_collected_record_report =
  rr_elapsed_ms :: u32
  rr_metric_1 :: u32
  rr_metric_2 :: u32
  rr_metric_3 :: u32
  rr_metric_4 :: u32

datatype server_game_control = ControlRaceStart | ControlBeginSettlement | ControlFinalStage

fun game_control_wire :: "server_game_control \<Rightarrow> i32" where
  "game_control_wire ControlRaceStart = 1"
| "game_control_wire ControlBeginSettlement = 3"
| "game_control_wire ControlFinalStage = 4"

datatype race_protocol_error =
  RacePacketError packet_error
| RaceUnexpectedHash string u32 u32
| RaceTrailingBytes string nat
| GameControlTailTooLarge nat nat
| InvalidSharedObjectLength u32 nat
| RaceInvalidPlayerId i32
| RaceInvalidTeam u8
| InvalidBoosterContribution
| InvalidBoosterGauge

definition race_team_of_wire :: "u8 \<Rightarrow> race_protocol_error + race_team" where
  "race_team_of_wire v = (if v = 1 then Inr RaceRed else if v = 2 then Inr RaceBlue else Inl (RaceInvalidTeam v))"

lemma race_team_of_wire_iff: "race_team_of_wire v = Inr t \<longleftrightarrow> v = race_team_wire t"
  by (cases t) (simp_all add: race_team_of_wire_def)

definition race_player_id_ok :: "i32 \<Rightarrow> race_protocol_error + unit" where
  "race_player_id_ok i = ensure (0 \<le> i \<and> i \<le> 15) (RaceInvalidPlayerId i)"

section \<open>Requests\<close>

abbreviation "race_hash \<equiv> check_hash RacePacketError RaceUnexpectedHash"
abbreviation "race_read \<equiv> lift_read RacePacketError"
abbreviation "race_packet \<equiv> parse_packet RacePacketError RaceUnexpectedHash RaceTrailingBytes"

definition parse_start_collect_record_request :: "bytes \<Rightarrow> race_protocol_error + unit" where
  "parse_start_collect_record_request = race_packet START_COLLECT_RECORD_REQUEST_NAME (accepted ())"

definition parse_report_game_collected_record_request :: "bytes \<Rightarrow> race_protocol_error + unit" where
  "parse_report_game_collected_record_request = race_packet REPORT_GAME_COLLECTED_RECORD_REQUEST_NAME (accepted ())"

definition parse_user_collected_record_report :: "bytes \<Rightarrow> race_protocol_error + user_collected_record_report" where
  "parse_user_collected_record_report = race_packet REPORT_USER_COLLECTED_RECORD_NAME
     (rbind (race_read read_u32) (\<lambda>a. rbind (race_read read_u32) (\<lambda>b. rbind (race_read read_u32) (\<lambda>c.
      rbind (race_read read_u32) (\<lambda>d. rbind (race_read read_u32) (\<lambda>e.
      accepted \<lparr>rr_elapsed_ms = a, rr_metric_1 = b, rr_metric_2 = c, rr_metric_3 = d, rr_metric_4 = e\<rparr>))))))"

definition parse_ai_goal_in_request :: "bytes \<Rightarrow> race_protocol_error + ai_goal_in_request" where
  "parse_ai_goal_in_request = race_packet GAME_AI_GOAL_IN_PACKET_NAME
     (rbind (race_read get_i32) (\<lambda>i. rbind (race_read read_u32) (\<lambda>t.
      checked (race_player_id_ok i) (accepted \<lparr>goal_player_id = i, goal_race_time = t\<rparr>))))"

text \<open>
  The rest of a game-control packet is kept, within its bound. An error in the contribution is found
  after the packet is exhausted.
\<close>

definition parse_game_control_request :: "bytes \<Rightarrow> race_protocol_error + game_control_request" where
  "parse_game_control_request = run_parser
     (rbind (race_hash GAME_CONTROL_PACKET_NAME) (\<lambda>_.
      rbind (race_read get_i32) (\<lambda>state.
      rbind (rbind (race_read read_u8) (\<lambda>flag. if flag = 0 then accepted None
        else rbind (race_read get_i32) (\<lambda>a. rbind (race_read get_i32) (\<lambda>b. accepted (Some (a, b)))))) (\<lambda>pair.
      rbind (race_read read_u32) (\<lambda>value0. \<lambda>r.
        if MAX_GAME_CONTROL_TRAILING_BYTES < length (remaining r)
        then (Inl (GameControlTailTooLarge (length (remaining r)) MAX_GAME_CONTROL_TRAILING_BYTES), r)
        else (Inr \<lparr>gc_state = state, gc_optional_pair = pair, gc_value0 = value0, gc_trailing = remaining r\<rparr>, r))))))"

definition parse_team_booster_request :: "bytes \<Rightarrow> race_protocol_error + team_booster_gauge_request" where
  "parse_team_booster_request packet =
     attempt (race_packet TEAM_BOOSTER_REQUEST_NAME
       (rbind (rbind (race_read read_u8) (\<lambda>t. converted (race_team_of_wire t))) (\<lambda>team.
        rbind (race_read read_f32) (\<lambda>contribution.
        accepted \<lparr>booster_team = team, booster_contribution = contribution\<rparr>))) packet) (\<lambda>request.
     if \<not> f32_is_finite (booster_contribution request) \<or> \<not> f32_le 0 (booster_contribution request)
     then Inl InvalidBoosterContribution else Inr request)"

fun read_words :: "nat \<Rightarrow> (race_protocol_error, u32 list) parser" where
  "read_words 0 = accepted []"
| "read_words (Suc n) = rbind (race_read read_u32) (\<lambda>x. rbind (read_words n) (\<lambda>xs. accepted (x # xs)))"

text \<open>Everything of the finish snapshot after the flag that announces the seven words.\<close>

definition finish_snapshot_tail :: "u32 \<Rightarrow> u32 \<Rightarrow> (race_protocol_error, game_control_finish_snapshot option) parser" where
  "finish_snapshot_tail value1 value2 =
     rbind (read_words FINISH_SESSION_AUTH_WORDS) (\<lambda>auth.
     rbind (race_read (take_bytes FINISH_RESULT_SUBOBJECT_LENGTH)) (\<lambda>result.
     rbind (race_read (take_bytes FINISH_KART_SPEC_LENGTH)) (\<lambda>kart.
     rbind (race_read read_u32) (\<lambda>shared_length.
     checked (ensure (shared_length = of_nat FINISH_SHARED_OBJECT_PAYLOAD_LENGTH)
         (InvalidSharedObjectLength shared_length FINISH_SHARED_OBJECT_PAYLOAD_LENGTH))
     (rbind (race_read (take_bytes FINISH_SHARED_OBJECT_PAYLOAD_LENGTH)) (\<lambda>shared.
     rbind (read_words FINISH_PARTICIPANT_SLOT_COUNT) (\<lambda>slots.
     rbind (race_read read_u32) (\<lambda>metric.
     rbind (race_read read_u32) (\<lambda>own.
     rbind (race_read read_u8) (\<lambda>terminal.
     rbind (check_exhausted RaceTrailingBytes GAME_CONTROL_PACKET_NAME) (\<lambda>_.
     accepted (Some \<lparr>fs_value1 = value1, fs_value2 = value2, fs_session_auth = auth, fs_result_subobject = result,
       fs_kart_spec_snapshot = kart, fs_shared_object = shared, fs_participant_slots = slots,
       fs_result_global_metric = metric, fs_local_result = own, fs_terminal_client_state = terminal\<rparr>))))))))))))"

definition parse_game_control_finish_snapshot ::
  "game_control_request \<Rightarrow> race_protocol_error + game_control_finish_snapshot option" where
  "parse_game_control_finish_snapshot request =
     (if gc_state request \<noteq> 2 \<or> gc_optional_pair request \<noteq> None \<or>
         length (gc_trailing request) \<noteq> GAME_CONTROL_FINISH_TRAILING_LENGTH
      then Inr None
      else run_parser
        (rbind (race_read read_u32) (\<lambda>value1. rbind (race_read read_u32) (\<lambda>value2.
         rbind (race_read read_u8) (\<lambda>flag.
         if flag = 0 then accepted None else finish_snapshot_tail value1 value2)))) (gc_trailing request))"

section \<open>Replies\<close>

definition serialize_start_collect_record_reply :: "bool \<Rightarrow> bytes" where
  "serialize_start_collect_record_reply flag = write_bool (named START_COLLECT_RECORD_REPLY_NAME) flag"

definition serialize_game_control :: "server_game_control \<Rightarrow> u32 \<Rightarrow> bytes" where
  "serialize_game_control control value0 =
     (let w = named GAME_CONTROL_PACKET_NAME;
          w = put_i32 w (game_control_wire control);
          w = write_u8 w 0;
          w = write_u32 w value0;
          w = put_i32 w 0;
          w = put_i32 w 0;
          w = write_u8 w 0;
          w = put_i32 w 0;
          w = write_bytes w (replicate 40 0);
          w = write_bytes w (replicate 10 0);
          w = put_i32 w 0;
          w = put_i32 w 0
      in write_encoded_u8 w 0)"

definition serialize_ai_master_notice :: bytes where
  "serialize_ai_master_notice = put_i32 (named GAME_AI_MASTER_NOTICE_NAME) 0"

definition serialize_race_time :: "i32 \<Rightarrow> u32 \<Rightarrow> race_protocol_error + bytes" where
  "serialize_race_time player_id race_time =
     attempt (race_player_id_ok player_id) (\<lambda>_.
     Inr (write_u32 (put_i32 (named GAME_RACE_TIME_PACKET_NAME) player_id) race_time))"

definition serialize_team_booster_gauge :: "race_team \<Rightarrow> u32 \<Rightarrow> race_protocol_error + bytes" where
  "serialize_team_booster_gauge team gauge =
     (if \<not> f32_is_finite gauge \<or> \<not> (f32_le 0 gauge \<and> f32_le gauge 0x3F800000) then Inl InvalidBoosterGauge
      else Inr (write_f32 (write_u8 (named TEAM_BOOSTER_REPLY_NAME) (race_team_wire team)) gauge))"

definition serialize_game_next_stage :: "u8 \<Rightarrow> bytes" where
  "serialize_game_next_stage mode =
     put_i32 (put_i32 (write_u8 (named GAME_NEXT_STAGE_PACKET_NAME) mode) 0) 0"

section \<open>The result of a race\<close>

definition GAME_RESULT_PACKET_NAME :: string where "GAME_RESULT_PACKET_NAME = ''GameResultPacket''"
definition HUMAN_RESULT_RECORD_LENGTH :: nat where "HUMAN_RESULT_RECORD_LENGTH = 212"
definition AI_RESULT_RECORD_LENGTH :: nat where "AI_RESULT_RECORD_LENGTH = 22"
definition EMPTY_GAME_RESULT_LENGTH :: nat where "EMPTY_GAME_RESULT_LENGTH = 52"
definition MAX_RACE_RESULT_PARTICIPANTS :: nat where "MAX_RACE_RESULT_PARTICIPANTS = 8"

record human_race_result =
  hr_player_id :: i32
  hr_finish_time :: u32
  hr_kart_id :: u16
  hr_rank :: i32
  hr_current_rp :: u32
  hr_earned_rp :: u32
  hr_earned_lucci :: u32
  hr_current_lucci :: u32
  hr_team :: "result_team option"
  hr_team_points :: i32
  hr_character_id :: u16
  hr_club_mark_logo :: i32

record ai_race_result =
  ar_player_id :: i32
  ar_finish_time :: u32
  ar_kart_id :: u16
  ar_rank :: i32
  ar_team :: "result_team option"
  ar_team_points :: i32

record game_result =
  gr_winning_team :: "result_team option"
  gr_humans :: "human_race_result list"
  gr_ais :: "ai_race_result list"

datatype race_result_error =
  TooManyParticipants nat nat
| ResultInvalidPlayerId i32
| InvalidRank i32
| RankOutsideParticipantCount i32 nat
| DuplicateRank i32
| DuplicatePlayerId i32
| InconsistentTeamMode
| InvalidTeamPoints i32 i32
| WinningTeamNotPresent
| SoloResultHasTeamPoints i32 i32

fun result_team_wire :: "result_team \<Rightarrow> u8" where
  "result_team_wire ResultRed = 1"
| "result_team_wire ResultBlue = 2"

definition team_byte :: "result_team option \<Rightarrow> u8" where
  "team_byte t = (case t of None \<Rightarrow> 0 | Some t \<Rightarrow> result_team_wire t)"

text \<open>One racer of a result: player, rank, team and points.\<close>

type_synonym result_entry = "i32 \<times> i32 \<times> result_team option \<times> i32"

definition result_entries :: "game_result \<Rightarrow> result_entry list" where
  "result_entries g =
     map (\<lambda>h. (hr_player_id h, hr_rank h, hr_team h, hr_team_points h)) (gr_humans g) @
     map (\<lambda>a. (ar_player_id a, ar_rank a, ar_team a, ar_team_points a)) (gr_ais g)"

text \<open>The loop of \<open>validate_result\<close>, with the sets it has collected and whether the winner was seen.\<close>

fun validate_entries ::
  "result_team option \<Rightarrow> nat \<Rightarrow> i32 list \<Rightarrow> i32 list \<Rightarrow> bool \<Rightarrow> result_entry list \<Rightarrow> race_result_error + bool" where
  "validate_entries winner n ids ranks present [] = Inr present"
| "validate_entries winner n ids ranks present ((player_id, rank, team, points) # rest) =
     (if \<not> (0 \<le> player_id \<and> player_id \<le> 7) then Inl (ResultInvalidPlayerId player_id)
      else if \<not> (0 \<le> rank \<and> rank \<le> 7) then Inl (InvalidRank rank)
      else if n \<le> nat rank then Inl (RankOutsideParticipantCount rank n)
      else if rank \<in> set ranks then Inl (DuplicateRank rank)
      else if player_id \<in> set ids then Inl (DuplicatePlayerId player_id)
      else if (team \<noteq> None) \<noteq> (winner \<noteq> None) then Inl InconsistentTeamMode
      else if winner = None \<and> points \<noteq> 0 then Inl (SoloResultHasTeamPoints player_id points)
      else if winner \<noteq> None \<and> \<not> (0 \<le> points \<and> points \<le> 10) then Inl (InvalidTeamPoints player_id points)
      else validate_entries winner n (player_id # ids) (rank # ranks) (present \<or> team = winner) rest)"

definition validate_result :: "game_result \<Rightarrow> race_result_error + unit" where
  "validate_result g =
     (let n = length (gr_humans g) + length (gr_ais g) in
      if MAX_RACE_RESULT_PARTICIPANTS < n then Inl (TooManyParticipants n MAX_RACE_RESULT_PARTICIPANTS)
      else attempt (validate_entries (gr_winning_team g) n [] [] False (result_entries g)) (\<lambda>present.
        if gr_winning_team g \<noteq> None \<and> \<not> present then Inl WinningTeamNotPresent else Inr ()))"

definition write_human_result :: "writer \<Rightarrow> human_race_result \<Rightarrow> writer" where
  "write_human_result w h =
     (let w = put_i32 w (hr_player_id h);
          w = write_u32 w (hr_finish_time h);
          w = write_u8 w 0;
          w = write_u16 w (hr_kart_id h);
          w = put_i32 w (hr_rank h);
          w = write_i16 w (if hr_team h \<noteq> None then 2 else 0);
          w = write_u8 w 0;
          w = write_u32 w (hr_current_rp h);
          w = write_u32 w (hr_earned_rp h);
          w = write_u32 w (hr_earned_lucci h);
          w = write_u32 w (hr_current_lucci h);
          w = write_bytes w (replicate 29 0);
          w = write_u8 w (team_byte (hr_team h));
          w = put_i32 w (if hr_team h \<noteq> None then hr_team_points h else 0);
          w = write_bytes w (replicate 12 0);
          w = put_i32 w 1;
          w = write_u8 w 0;
          w = write_u16 w (hr_character_id h);
          w = write_bytes w (replicate 49 0);
          w = write_u8 w (- 1);
          w = write_bytes w (replicate 37 0);
          w = put_i32 w (hr_club_mark_logo h)
      in write_bytes w (replicate 34 0))"

definition write_ai_result :: "writer \<Rightarrow> ai_race_result \<Rightarrow> writer" where
  "write_ai_result w a =
     (let w = put_i32 w (ar_player_id a);
          w = write_u32 w (ar_finish_time a);
          w = write_u8 w 0;
          w = write_i16 w (ar_kart_id a);
          w = put_i32 w (ar_rank a);
          w = write_i16 w 0;
          w = write_u8 w (team_byte (ar_team a))
      in put_i32 w (if ar_team a \<noteq> None then ar_team_points a else 0))"

definition serialize_game_result :: "game_result \<Rightarrow> race_result_error + bytes" where
  "serialize_game_result g =
     attempt (validate_result g) (\<lambda>_.
     let w = write_u8 (named GAME_RESULT_PACKET_NAME) (team_byte (gr_winning_team g));
         w = put_i32 w (int (length (gr_humans g)));
         w = foldl write_human_result w (gr_humans g);
         w = put_i32 w (int (length (gr_ais g)));
         w = foldl write_ai_result w (gr_ais g);
         w = write_bytes w (replicate 34 0);
         w = write_u32 w (- 1)
     in Inr (write_u8 w 0))"

section \<open>The languages of the parsers\<close>

lemma collect_record_language:
  "host_fits packet \<Longrightarrow> parse_start_collect_record_request packet = Inr u \<longleftrightarrow> packet = named START_COLLECT_RECORD_REQUEST_NAME"
  "host_fits packet \<Longrightarrow> parse_report_game_collected_record_request packet = Inr u \<longleftrightarrow>
     packet = named REPORT_GAME_COLLECTED_RECORD_REQUEST_NAME"
  unfolding parse_start_collect_record_request_def parse_report_game_collected_record_request_def
  by ((rule parse_packet_languageI, (rule parses_intros)+, auto)[1])+

lemma record_report_language:
  "host_fits packet \<Longrightarrow> parse_user_collected_record_report packet = Inr q \<longleftrightarrow>
     packet = named REPORT_USER_COLLECTED_RECORD_NAME @ le32 (rr_elapsed_ms q) @ le32 (rr_metric_1 q) @
       le32 (rr_metric_2 q) @ le32 (rr_metric_3 q) @ le32 (rr_metric_4 q) @ []"
  unfolding parse_user_collected_record_report_def
proof (rule parse_packet_languageI, (rule parses_intros)+, assumption, goal_cases)
  case 2
  show ?case
    by (insert 2, clarify, rule exI, rule conjI, rule refl) (rule seqI[OF refl] conjI refl | simp)+
qed auto

lemma ai_goal_language:
  "host_fits packet \<Longrightarrow> parse_ai_goal_in_request packet = Inr q \<longleftrightarrow>
     packet = named GAME_AI_GOAL_IN_PACKET_NAME @ le_i32 (goal_player_id q) @ le32 (goal_race_time q) @ [] \<and>
     0 \<le> goal_player_id q \<and> goal_player_id q \<le> 15"
  unfolding parse_ai_goal_in_request_def
proof (rule parse_packet_languageI, (rule parses_intros)+, assumption, goal_cases)
  case 2
  show ?case
    by (insert 2, clarify, rule exI, rule conjI, rule refl)
       (rule seqI[OF refl] conjI refl | simp add: in_i32_def race_player_id_ok_def)+
qed (auto simp: race_player_id_ok_def ensure_Inr)

section \<open>What the result packet is\<close>

definition entry_ok :: "result_team option \<Rightarrow> nat \<Rightarrow> result_entry \<Rightarrow> bool" where
  "entry_ok winner n = (\<lambda>(i, rank, team, points). 0 \<le> i \<and> i \<le> 7 \<and> 0 \<le> rank \<and> rank \<le> 7 \<and> nat rank < n \<and>
     (team \<noteq> None) = (winner \<noteq> None) \<and> (if winner = None then points = 0 else 0 \<le> points \<and> points \<le> 10))"

definition result_ok :: "game_result \<Rightarrow> bool" where
  "result_ok g \<longleftrightarrow> length (result_entries g) \<le> 8 \<and> list_all (entry_ok (gr_winning_team g) (length (result_entries g))) (result_entries g) \<and>
     distinct (map fst (result_entries g)) \<and> distinct (map (\<lambda>e. fst (snd e)) (result_entries g)) \<and>
     (gr_winning_team g = None \<or> list_ex (\<lambda>(_, _, team, _). team = gr_winning_team g) (result_entries g))"

lemma validate_entries_iff:
  "validate_entries winner n ids ranks present es = Inr q \<longleftrightarrow>
     list_all (entry_ok winner n) es \<and> distinct (map fst es) \<and> fst ` set es \<inter> set ids = {} \<and>
     distinct (map (\<lambda>e. fst (snd e)) es) \<and> (\<lambda>e. fst (snd e)) ` set es \<inter> set ranks = {} \<and>
     q = (present \<or> list_ex (\<lambda>(_, _, team, _). team = winner) es)"
proof (induction es arbitrary: ids ranks present)
  case Nil
  show ?case by auto
next
  case (Cons e es)
  obtain i rank team points where e: "e = (i, rank, team, points)" by (cases e)
  show ?case
  proof (cases "entry_ok winner n e \<and> i \<notin> set ids \<and> rank \<notin> set ranks")
    case True
    then show ?thesis using Cons.IH[of "i # ids" "rank # ranks" "present \<or> team = winner"]
      by (auto simp: e entry_ok_def)
  next
    case False
    then show ?thesis by (auto simp: e entry_ok_def)
  qed
qed

lemma validate_result_iff: "validate_result g = Inr u \<longleftrightarrow> result_ok g"
  by (auto simp: validate_result_def Let_def attempt_Inr validate_entries_iff result_ok_def result_entries_def
      MAX_RACE_RESULT_PARTICIPANTS_def)

definition human_bytes :: "human_race_result \<Rightarrow> bytes" where
  "human_bytes h = write_human_result [] h"

definition ai_bytes :: "ai_race_result \<Rightarrow> bytes" where
  "ai_bytes a = write_ai_result [] a"

lemma record_bytes:
  "write_human_result w h = w @ human_bytes h" "length (human_bytes h) = HUMAN_RESULT_RECORD_LENGTH"
  "write_ai_result w a = w @ ai_bytes a" "length (ai_bytes a) = AI_RESULT_RECORD_LENGTH"
  by (simp_all add: human_bytes_def ai_bytes_def write_human_result_def write_ai_result_def Let_def write_simps le_i32_def
      HUMAN_RESULT_RECORD_LENGTH_def AI_RESULT_RECORD_LENGTH_def)

lemma fold_records:
  "foldl write_human_result w hs = w @ concat (map human_bytes hs)"
  "foldl write_ai_result w as = w @ concat (map ai_bytes as)"
  by (induction hs arbitrary: w; simp add: record_bytes) (induction as arbitrary: w; simp add: record_bytes)

lemma game_result_written:
  "serialize_game_result g = Inr packet \<longleftrightarrow> result_ok g \<and>
     packet = named GAME_RESULT_PACKET_NAME @ [team_byte (gr_winning_team g)] @
       le_i32 (int (length (gr_humans g))) @ concat (map human_bytes (gr_humans g)) @
       le_i32 (int (length (gr_ais g))) @ concat (map ai_bytes (gr_ais g)) @ replicate 34 0 @ [255, 255, 255, 255, 0]"
proof -
  have "le32 (- 1) = [255, 255, 255, 255]" by code_simp
  then show ?thesis
    by (auto simp: serialize_game_result_def attempt_Inr validate_result_iff Let_def fold_records write_simps)
qed

lemma game_result_length:
  assumes "serialize_game_result g = Inr packet"
  shows "length packet = EMPTY_GAME_RESULT_LENGTH + length (gr_humans g) * HUMAN_RESULT_RECORD_LENGTH +
    length (gr_ais g) * AI_RESULT_RECORD_LENGTH"
proof -
  have "length (concat (map human_bytes hs)) = length hs * HUMAN_RESULT_RECORD_LENGTH"
    "length (concat (map ai_bytes as)) = length as * AI_RESULT_RECORD_LENGTH" for hs as
    by (simp_all add: length_concat comp_def record_bytes sum_list_triv)
  then show ?thesis using assms[unfolded game_result_written]
    by (simp add: named_def new_writer_def write_u32_def le_i32_def EMPTY_GAME_RESULT_LENGTH_def)
qed

text \<open>The control packet has its canonical length.\<close>

lemma game_control_length: "length (serialize_game_control c v) = 4 + CANONICAL_GAME_CONTROL_BODY_LENGTH"
  by (simp add: serialize_game_control_def Let_def write_simps named_def new_writer_def le_i32_def
      CANONICAL_GAME_CONTROL_BODY_LENGTH_def)

end
