(* ===== verification/RaceSettlement.thy ===== *)
theory RaceSettlement
  imports RaceProtocol
begin

text \<open>
  The settlement of a race (\<open>crates/p4475-server/src/world.rs\<close>): the ranking of the frozen roster, the
  rewards it proposes (\<open>crates/p4475-profile/src/progression.rs\<close>), and the packets that end the race.
\<close>

section \<open>Errors\<close>

datatype reward_roll_error = RpRoll u8 u8 | LucciRoll u16 u16

datatype race_error =
  RaceNotInRoom
| RaceWrongPhase room_phase
| NotFrozenParticipant
| UnsupportedGameControlState i32
| RaceNotRunning room_phase
| RaceHumanRequired
| NoFrozenAiParticipant i32
| RaceOutboundUnavailable u64
| RaceDeadlineOverflow
| SettlementDeadlineOverflow
| SettlementClosed
| PendingRaceFanoutFull
| InvalidFrozenTeam u8
| InvalidSettlementRoster nat
| RewardSamplingFailed i32 reward_roll_error
| RewardsNotDurable
| SettlementInvariant string
| RaceCodec race_protocol_error
| ResultCodec race_result_error

definition race_codec :: "race_protocol_error + 'a \<Rightarrow> race_error + 'a" where
  "race_codec r = map_sum RaceCodec (\<lambda>x. x) r"

definition result_codec :: "race_result_error + 'a \<Rightarrow> race_error + 'a" where
  "result_codec r = map_sum ResultCodec (\<lambda>x. x) r"

lemma codec_Inr [simp]: "race_codec r = Inr x \<longleftrightarrow> r = Inr x" "result_codec s = Inr y \<longleftrightarrow> s = Inr y"
  by (cases r; simp add: race_codec_def) (cases s; simp add: result_codec_def)

text \<open>\<open>iter().map(\<dots>).collect::<Result<Vec<_>, _>>()\<close>.\<close>

fun collect_each :: "('a \<Rightarrow> 'e + 'b) \<Rightarrow> 'a list \<Rightarrow> 'e + 'b list" where
  "collect_each f [] = Inr []"
| "collect_each f (x # xs) = attempt (f x) (\<lambda>y. attempt (collect_each f xs) (\<lambda>ys. Inr (y # ys)))"

lemma collect_each_ok: "(\<And>x. x \<in> set xs \<Longrightarrow> f x = Inr (g x)) \<Longrightarrow> collect_each f xs = Inr (map g xs)"
  by (induction xs) simp_all

section \<open>The ranking\<close>

definition TEAM_POINTS_BY_RANK :: "i32 list" where "TEAM_POINTS_BY_RANK = [10, 8, 6, 5, 4, 3, 2, 1]"
definition FINAL_STAGE_TICK_LEAD :: u32 where "FINAL_STAGE_TICK_LEAD = 6000"

definition race_team_from_wire :: "u8 \<Rightarrow> race_error + race_team" where
  "race_team_from_wire v = (if v = 1 then Inr RaceRed else if v = 2 then Inr RaceBlue else Inl (InvalidFrozenTeam v))"

fun result_team_of :: "race_team \<Rightarrow> result_team" where
  "result_team_of RaceRed = ResultRed"
| "result_team_of RaceBlue = ResultBlue"

text \<open>The racers of a roster with their teams, and their finish times; a missing one counts as \<open>u32::MAX\<close>.\<close>

definition roster_racers :: "frozen_race_roster \<Rightarrow> (i32 \<times> u8) list" where
  "roster_racers f = map (\<lambda>p. (fp_player_id p, fp_team p)) (filter (\<lambda>p. \<not> fp_observer p) (participants f)) @
     map (\<lambda>a. (fa_player_id a, fa_team a)) (frozen_ais f)"

definition settled_time :: "protocol_room \<Rightarrow> i32 \<Rightarrow> u32" where
  "settled_time r i = (case map_of (finish_times (race_progress r)) i of None \<Rightarrow> - 1 | Some t \<Rightarrow> t)"

definition racer_result ::
  "bool \<Rightarrow> nat \<Rightarrow> nat \<Rightarrow> u32 \<Rightarrow> u8 \<Rightarrow> race_error + ranked_race_result" where
  "racer_result teams n rank time wire_team =
     attempt (if teams then attempt (race_team_from_wire wire_team) (\<lambda>t. Inr (Some (result_team_of t))) else Inr None) (\<lambda>team.
     attempt (if teams \<and> time \<noteq> - 1
         then if rank < length TEAM_POINTS_BY_RANK then Inr (TEAM_POINTS_BY_RANK ! rank) else Inl (InvalidSettlementRoster n)
         else Inr 0) (\<lambda>points.
     attempt (ensure (int rank < 2 ^ 31) (SettlementInvariant ''bounded race rank does not fit in i32'')) (\<lambda>_.
     Inr \<lparr>rk_finish_time = time, rk_rank = int rank, rk_team = team, rk_team_points = points\<rparr>)))"

text \<open>The scores of the red and the blue team.\<close>

definition add_points :: "ranked_race_result \<Rightarrow> i32 \<times> i32 \<Rightarrow> i32 \<times> i32" where
  "add_points x scores = (case rk_team x of
       None \<Rightarrow> scores
     | Some ResultRed \<Rightarrow> (fst scores + rk_team_points x, snd scores)
     | Some ResultBlue \<Rightarrow> (fst scores, snd scores + rk_team_points x))"

fun rank_racers ::
  "bool \<Rightarrow> nat \<Rightarrow> nat \<Rightarrow> (u32 \<times> i32 \<times> u8) list \<Rightarrow> i32 \<times> i32 \<Rightarrow> (i32, ranked_race_result) table \<Rightarrow>
   race_error + (i32 \<times> i32) \<times> (i32, ranked_race_result) table" where
  "rank_racers teams n rank [] scores ranked = Inr (scores, ranked)"
| "rank_racers teams n rank ((time, player_id, wire_team) # rest) scores ranked =
     attempt (racer_result teams n rank time wire_team) (\<lambda>x.
     rank_racers teams n (Suc rank) rest (add_points x scores) (tput player_id x ranked))"

definition winner_of ::
  "u8 \<Rightarrow> (u32 \<times> i32 \<times> u8) list \<Rightarrow> i32 \<times> i32 \<Rightarrow> (i32, ranked_race_result) table \<Rightarrow> race_error + result_team" where
  "winner_of mode racers scores ranked =
     (case racers of
        [] \<Rightarrow> Inl (InvalidSettlementRoster 0)
      | (_, first, _) # _ \<Rightarrow>
          attempt (ok_or (SettlementInvariant ''team-mode winner has no frozen team'')
              (Option.bind (map_of ranked first) rk_team)) (\<lambda>first_team.
          if mode = 3 \<and> fst scores > snd scores then Inr ResultRed
          else if mode = 3 \<and> snd scores > fst scores then Inr ResultBlue
          else if mode = 3 \<or> mode = 4 then Inr first_team
          else Inl (SettlementInvariant ''team-mode ranking has a non-team game type'')))"

definition settlement_ranking_of :: "protocol_room \<Rightarrow> race_error + settlement_ranking" where
  "settlement_ranking_of r =
     attempt (ok_or (SettlementInvariant ''settlement ranking has no frozen race roster'') (frozen_race r)) (\<lambda>frozen.
     let racers = map (\<lambda>(i, team). (settled_time r i, i, team)) (roster_racers frozen)
     in attempt (ensure (1 \<le> length racers \<and> length racers \<le> ROOM_SLOT_COUNT) (InvalidSettlementRoster (length racers))) (\<lambda>_.
     let racers = sort_key (\<lambda>(t, i, _). (t, i)) racers
     in attempt (rank_racers (team_mode r) (length racers) 0 racers (0, 0) []) (\<lambda>(scores, ranked).
     attempt (if team_mode r
         then attempt (winner_of (rs_game_type (settings r)) racers scores ranked) (\<lambda>t. Inr (Some t))
         else Inr None) (\<lambda>winner.
     Inr \<lparr>winning_team = winner, by_player_id = ranked\<rparr>))))"

section \<open>Rewards\<close>

definition MAX_TIME_REWARD_RP_ROLL :: u8 where "MAX_TIME_REWARD_RP_ROLL = 50"
definition MAX_TIME_REWARD_LUCCI_ROLL :: u16 where "MAX_TIME_REWARD_LUCCI_ROLL = 500"
definition TIME_REWARD_BASELINE_RANK :: nat where "TIME_REWARD_BASELINE_RANK = 8"

definition time_reward_from_rolls :: "nat \<Rightarrow> u8 \<Rightarrow> u16 \<Rightarrow> reward_roll_error + time_reward" where
  "time_reward_from_rolls ranking rp_roll lucci_roll =
     (if MAX_TIME_REWARD_RP_ROLL < rp_roll then Inl (RpRoll rp_roll MAX_TIME_REWARD_RP_ROLL)
      else if MAX_TIME_REWARD_LUCCI_ROLL < lucci_roll then Inl (LucciRoll lucci_roll MAX_TIME_REWARD_LUCCI_ROLL)
      else let bonus = of_nat (TIME_REWARD_BASELINE_RANK - ranking) :: u32
           in Inr \<lparr>tr_earned_rp = min (ucast rp_roll + bonus div 3) (ucast MAX_TIME_REWARD_RP_ROLL),
                   tr_earned_lucci = min (ucast lucci_roll + bonus * 3) (ucast MAX_TIME_REWARD_LUCCI_ROLL)\<rparr>)"

text \<open>The draws of \<open>RewardRollSource\<close> are an argument, one pair for each racer in order.\<close>

definition plan_reward ::
  "host \<Rightarrow> nat \<Rightarrow> nat \<Rightarrow> settlement_ranking \<Rightarrow> frozen_race_participant \<times> u8 \<times> u16 \<Rightarrow> race_error + reward_persistence_entry" where
  "plan_reward h now human_count ranking = (\<lambda>(p, rp_roll, lucci_roll).
     attempt (ok_or (InvalidSettlementRoster human_count) (map_of (by_player_id ranking) (fp_player_id p))) (\<lambda>ranked.
     attempt (ensure (0 \<le> rk_rank ranked) (InvalidSettlementRoster human_count)) (\<lambda>_.
     attempt (map_sum (RewardSamplingFailed (fp_player_id p)) (\<lambda>x. x)
         (time_reward_from_rolls (nat (rk_rank ranked)) rp_roll lucci_roll)) (\<lambda>reward.
     Inr \<lparr>re_user_no = bind_user_no (fp_identity p), re_nickname = fp_nickname p,
          re_canonical_nickname = canonical_nickname_key h (fp_nickname p), re_player_id = fp_player_id p,
          re_proposed_reward = reward, re_status = RewardQueued now 0\<rparr>))))"

definition plan_reward_persistence ::
  "host \<Rightarrow> nat \<Rightarrow> (nat \<Rightarrow> u8 \<times> u16) \<Rightarrow> protocol_room \<Rightarrow> race_error + settlement_ranking \<times> reward_persistence_entry list" where
  "plan_reward_persistence h now rolls r =
     attempt (settlement_ranking_of r) (\<lambda>ranking.
     attempt (ok_or (InvalidSettlementRoster 0) (frozen_race r)) (\<lambda>frozen.
     let humans = filter (\<lambda>p. \<not> fp_observer p) (participants frozen)
     in attempt (ensure (1 \<le> length humans \<and> length humans \<le> ROOM_SLOT_COUNT) (InvalidSettlementRoster (length humans))) (\<lambda>_.
     attempt (collect_each (plan_reward h now (length humans) ranking) (zip humans (map rolls [0..<length humans]))) (\<lambda>rewards.
     Inr (ranking, rewards)))))"

section \<open>The packets of the end\<close>

definition human_result :: "bool \<Rightarrow> settlement_ranking \<Rightarrow> frozen_race_participant \<Rightarrow> race_error + human_race_result" where
  "human_result teams ranking p =
     attempt (ok_or (SettlementInvariant ''human result is missing from frozen ranking'')
         (map_of (by_player_id ranking) (fp_player_id p))) (\<lambda>ranked.
     attempt (ok_or (SettlementInvariant ''human racer has no result admission snapshot'') (fp_result p)) (\<lambda>snap.
     attempt (ok_or RewardsNotDurable (economy_applied (fr_economy snap))) (\<lambda>economy.
     Inr \<lparr>hr_player_id = fp_player_id p, hr_finish_time = rk_finish_time ranked, hr_kart_id = fr_kart_id snap,
          hr_rank = rk_rank ranked, hr_current_rp = at_current_rp economy, hr_earned_rp = at_earned_rp economy,
          hr_earned_lucci = at_earned_lucci economy, hr_current_lucci = at_current_lucci economy,
          hr_team = (if teams then rk_team ranked else None), hr_team_points = rk_team_points ranked,
          hr_character_id = fr_character_id snap, hr_club_mark_logo = fr_club_mark_logo snap\<rparr>)))"

definition ai_result :: "bool \<Rightarrow> settlement_ranking \<Rightarrow> frozen_ai_participant \<Rightarrow> race_error + ai_race_result" where
  "ai_result teams ranking a =
     attempt (ok_or (SettlementInvariant ''AI result is missing from frozen ranking'')
         (map_of (by_player_id ranking) (fa_player_id a))) (\<lambda>ranked.
     Inr \<lparr>ar_player_id = fa_player_id a, ar_finish_time = rk_finish_time ranked, ar_kart_id = fa_kart_id a,
          ar_rank = rk_rank ranked, ar_team = (if teams then rk_team ranked else None),
          ar_team_points = rk_team_points ranked\<rparr>)"

definition serialize_settlement_result :: "protocol_room \<Rightarrow> settlement_ranking \<Rightarrow> race_error + bytes" where
  "serialize_settlement_result r ranking =
     attempt (ok_or (SettlementInvariant ''Settling room has no frozen race roster'') (frozen_race r)) (\<lambda>frozen.
     attempt (collect_each (human_result (team_mode r) ranking) (filter (\<lambda>p. \<not> fp_observer p) (participants frozen))) (\<lambda>humans.
     attempt (collect_each (ai_result (team_mode r) ranking) (frozen_ais frozen)) (\<lambda>ais.
     result_codec (serialize_game_result
       \<lparr>gr_winning_team = winning_team ranking, gr_humans = humans, gr_ais = ais\<rparr>))))"

definition settlement_packets :: "protocol_room \<Rightarrow> settlement_ranking \<Rightarrow> race_error + bytes list" where
  "settlement_packets r ranking =
     attempt (ok_or (SettlementInvariant ''Settling room has no settlement timing'') (settlement (race_progress r))) (\<lambda>s.
     attempt (serialize_settlement_result r ranking) (\<lambda>result.
     Inr [serialize_game_control ControlFinalStage (end_tick s + FINAL_STAGE_TICK_LEAD),
          serialize_game_next_stage (rs_game_type (settings r)), result]))"

section \<open>Rosters\<close>

text \<open>What a start freezes: distinct racers on the eight seats, in their teams, with a human among them.\<close>

definition racer_ok :: "bool \<Rightarrow> i32 \<times> u8 \<Rightarrow> bool" where
  "racer_ok teams = (\<lambda>(i, team). 0 \<le> i \<and> i \<le> 7 \<and> (teams \<longrightarrow> team = 1 \<or> team = 2))"

definition roster_ok :: "bool \<Rightarrow> frozen_race_roster \<Rightarrow> bool" where
  "roster_ok teams f \<longleftrightarrow> distinct (map fst (roster_racers f)) \<and> list_all (racer_ok teams) (roster_racers f) \<and>
     list_ex (\<lambda>p. \<not> fp_observer p) (participants f) \<and>
     list_all (\<lambda>p. \<not> fp_observer p \<longrightarrow> fp_result p \<noteq> None) (participants f)"

lemma roster_okD:
  assumes "roster_ok teams f"
  shows "distinct (map fst (roster_racers f))" "x \<in> set (roster_racers f) \<Longrightarrow> racer_ok teams x"
    "1 \<le> length (filter (\<lambda>p. \<not> fp_observer p) (participants f))" "length (roster_racers f) \<le> 8"
    "p \<in> set (participants f) \<Longrightarrow> \<not> fp_observer p \<Longrightarrow> fp_result p \<noteq> None"
proof -
  show d: "distinct (map fst (roster_racers f))" and "x \<in> set (roster_racers f) \<Longrightarrow> racer_ok teams x"
    "p \<in> set (participants f) \<Longrightarrow> \<not> fp_observer p \<Longrightarrow> fp_result p \<noteq> None"
    using assms by (auto simp: roster_ok_def list_all_iff)
  have "filter (\<lambda>p. \<not> fp_observer p) (participants f) \<noteq> []"
    using assms by (auto simp: roster_ok_def list_ex_iff filter_empty_conv)
  then show "1 \<le> length (filter (\<lambda>p. \<not> fp_observer p) (participants f))" by (simp add: Suc_le_eq)
  have "set (map fst (roster_racers f)) \<subseteq> {0..7}"
    using assms by (fastforce simp: roster_ok_def list_all_iff racer_ok_def)
  then have "card (set (map fst (roster_racers f))) \<le> card {0::int..7}" by (intro card_mono) simp_all
  then show "length (roster_racers f) \<le> 8" using distinct_card[OF d] by simp
qed

section \<open>Positions\<close>

text \<open>The position of an element in an order without ties is the number of the smaller elements.\<close>

lemma sorted_position:
  fixes key :: "'a \<Rightarrow> 'k::linorder"
  assumes "sorted (map key xs)" "distinct (map key xs)" "k < length xs"
  shows "card {y \<in> set xs. key y < key (xs ! k)} = k"
proof -
  have s: "sorted_wrt (<) (map key xs)" using assms(1,2) by (simp add: strict_sorted_iff)
  have less: "key (xs ! i) < key (xs ! k) \<longleftrightarrow> i < k" if "i < length xs" for i
  proof -
    have "key (xs ! i) < key (xs ! k)" if "i < k"
      using sorted_wrt_nth_less[OF s that] assms(3) that by simp
    moreover have "key (xs ! k) < key (xs ! i)" if "k < i"
      using sorted_wrt_nth_less[OF s that] \<open>i < length xs\<close> that by simp
    ultimately show ?thesis by (metis less_asym less_linear)
  qed
  have "{y \<in> set xs. key y < key (xs ! k)} = (!) xs ` {..<k}"
    using less assms(3) by (auto simp: in_set_conv_nth image_iff) (metis order.strict_trans)
  moreover have "inj_on ((!) xs) {..<k}"
    using assms(2,3) by (intro inj_onI) (simp add: distinct_map nth_eq_iff_index_eq)
  ultimately show ?thesis by (simp add: card_image)
qed

section \<open>What the ranking is\<close>

definition wire_team_result :: "u8 \<Rightarrow> result_team" where
  "wire_team_result w = (if w = 1 then ResultRed else ResultBlue)"

definition racer_entry :: "bool \<Rightarrow> nat \<Rightarrow> u32 \<times> i32 \<times> u8 \<Rightarrow> ranked_race_result" where
  "racer_entry teams rank = (\<lambda>(time, i, team). \<lparr>rk_finish_time = time, rk_rank = int rank,
     rk_team = (if teams then Some (wire_team_result team) else None),
     rk_team_points = (if teams \<and> time \<noteq> - 1 then TEAM_POINTS_BY_RANK ! rank else 0)\<rparr>)"

lemma racer_result_ok:
  assumes "rank < 8" "teams \<Longrightarrow> team = 1 \<or> team = 2"
  shows "racer_result teams n rank time team = Inr (racer_entry teams rank (time, i, team))"
  using assms
  by (auto simp: racer_result_def racer_entry_def race_team_from_wire_def wire_team_result_def TEAM_POINTS_BY_RANK_def)

lemma rank_racers_ok:
  assumes "k + length xs \<le> 8" "\<And>t i w. (t, i, w) \<in> set xs \<Longrightarrow> teams \<Longrightarrow> w = 1 \<or> w = 2"
  shows "rank_racers teams n k xs scores ranked =
    Inr (fold add_points (map (\<lambda>(j, x). racer_entry teams j x) (enumerate k xs)) scores,
      fold (\<lambda>(j, x). tput (fst (snd x)) (racer_entry teams j x)) (enumerate k xs) ranked)"
  using assms
proof (induction xs arbitrary: k scores ranked)
  case (Cons x xs)
  obtain t i w where x: "x = (t, i, w)" by (cases x)
  have "racer_result teams n k t w = Inr (racer_entry teams k (t, i, w))"
    by (rule racer_result_ok) (use Cons.prems x in auto)
  moreover have "rank_racers teams n (Suc k) xs scores' ranked' =
    Inr (fold add_points (map (\<lambda>(j, x). racer_entry teams j x) (enumerate (Suc k) xs)) scores',
      fold (\<lambda>(j, x). tput (fst (snd x)) (racer_entry teams j x)) (enumerate (Suc k) xs) ranked')" for scores' ranked'
    by (rule Cons.IH) (use Cons.prems in auto)
  ultimately show ?case by (simp add: x)
qed simp

lemma ranked_lookup:
  assumes "distinct (map (\<lambda>x. fst (snd x)) xs)"
  shows "j < length xs \<Longrightarrow> map_of (fold (\<lambda>(j, x). tput (fst (snd x)) (g j x)) (enumerate k xs) ranked)
      (fst (snd (xs ! j))) = Some (g (k + j) (xs ! j))"
    "i \<notin> (\<lambda>x. fst (snd x)) ` set xs \<Longrightarrow>
      map_of (fold (\<lambda>(j, x). tput (fst (snd x)) (g j x)) (enumerate k xs) ranked) i = map_of ranked i"
  using assms
proof (induction xs arbitrary: k ranked i j)
  case (Cons x xs)
  {
    case 1
    show ?case
    proof (cases j)
      case 0
      then show ?thesis using Cons.IH(2) 1 by simp
    next
      case (Suc l)
      then show ?thesis using Cons.IH(1)[of l "Suc k"] 1 by simp
    qed
  next
    case 2
    then show ?case using Cons.IH(2) by simp
  }
qed simp_all

lemma fold_add_points:
  "fold add_points xs scores =
     (fst scores + (\<Sum>x\<leftarrow>xs. if rk_team x = Some ResultRed then rk_team_points x else 0),
      snd scores + (\<Sum>x\<leftarrow>xs. if rk_team x = Some ResultBlue then rk_team_points x else 0))"
  by (induction xs arbitrary: scores) (auto simp: add_points_def split: option.split result_team.split)

section \<open>The ranking of a roster\<close>

text \<open>
  The reference: the rank of a racer is the number of racers before it in the order of finish time and
  then player ID; the score of a team is the sum over its racers.
\<close>

definition racer_rank :: "protocol_room \<Rightarrow> frozen_race_roster \<Rightarrow> i32 \<Rightarrow> nat" where
  "racer_rank r f i = card {j \<in> fst ` set (roster_racers f). (settled_time r j, j) < (settled_time r i, i)}"

definition racer_outcome :: "protocol_room \<Rightarrow> frozen_race_roster \<Rightarrow> i32 \<times> u8 \<Rightarrow> ranked_race_result" where
  "racer_outcome r f = (\<lambda>(i, w). racer_entry (team_mode r) (racer_rank r f i) (settled_time r i, i, w))"

definition team_score :: "protocol_room \<Rightarrow> frozen_race_roster \<Rightarrow> result_team \<Rightarrow> i32" where
  "team_score r f t = (\<Sum>x\<in>{x \<in> set (roster_racers f). wire_team_result (snd x) = t}. rk_team_points (racer_outcome r f x))"

definition settled_winner :: "protocol_room \<Rightarrow> frozen_race_roster \<Rightarrow> u8 \<Rightarrow> result_team option" where
  "settled_winner r f first_team =
     (if \<not> team_mode r then None
      else if rs_game_type (settings r) = 3 \<and> team_score r f ResultBlue < team_score r f ResultRed then Some ResultRed
      else if rs_game_type (settings r) = 3 \<and> team_score r f ResultRed < team_score r f ResultBlue then Some ResultBlue
      else Some (wire_team_result first_team))"

definition timed :: "protocol_room \<Rightarrow> frozen_race_roster \<Rightarrow> (u32 \<times> i32 \<times> u8) list" where
  "timed r f = sort_key (\<lambda>(t, i, _). (t, i)) (map (\<lambda>(i, w). (settled_time r i, i, w)) (roster_racers f))"

lemma timed_set: "set (timed r f) = (\<lambda>(i, w). (settled_time r i, i, w)) ` set (roster_racers f)"
  "length (timed r f) = length (roster_racers f)"
  by (simp_all add: timed_def)

lemma timed_distinct:
  assumes "distinct (map fst (roster_racers f))"
  shows "distinct (map (\<lambda>x. fst (snd x)) (timed r f))" "distinct (map (\<lambda>(t, i, _). (t, i)) (timed r f))"
    "distinct (timed r f)"
proof -
  have "map (\<lambda>x. fst (snd x)) (map (\<lambda>(i, w). (settled_time r i, i, w)) (roster_racers f)) = map fst (roster_racers f)"
    by (simp add: comp_def split_beta)
  moreover have "mset (map (\<lambda>x. fst (snd x)) (timed r f)) =
      mset (map (\<lambda>x. fst (snd x)) (map (\<lambda>(i, w). (settled_time r i, i, w)) (roster_racers f)))"
    by (simp only: timed_def mset_map mset_sort)
  ultimately have "mset (map (\<lambda>x. fst (snd x)) (timed r f)) = mset (map fst (roster_racers f))" by (simp only:)
  then show d: "distinct (map (\<lambda>x. fst (snd x)) (timed r f))"
    using assms mset_eq_imp_distinct_iff by blast
  have "map (\<lambda>x. fst (snd x)) (timed r f) = map snd (map (\<lambda>(t, i, _). (t, i)) (timed r f))"
    by (simp add: comp_def split_beta)
  with d show "distinct (map (\<lambda>(t, i, _). (t, i)) (timed r f))" by (simp only: distinct_map)
  show "distinct (timed r f)" using d by (simp only: distinct_map)
qed

lemma timed_rank:
  assumes "distinct (map fst (roster_racers f))" "k < length (timed r f)" "timed r f ! k = (t, i, w)"
  shows "racer_rank r f i = k" "t = settled_time r i" "(i, w) \<in> set (roster_racers f)"
proof -
  have m: "(t, i, w) \<in> set (timed r f)" using assms(2,3) nth_mem by metis
  then show t: "t = settled_time r i" and "(i, w) \<in> set (roster_racers f)" by (auto simp: timed_set)
  let ?key = "\<lambda>(t, i :: i32, _ :: u8). (t :: u32, i)"
  have "sorted (map ?key (timed r f))" by (simp add: timed_def)
  from sorted_position[OF this timed_distinct(2)[OF assms(1)] assms(2)]
  have "card {y \<in> set (timed r f). ?key y < (settled_time r i, i)} = k" by (simp add: assms(3) t)
  moreover have "(\<lambda>x. fst (snd x)) ` {y \<in> set (timed r f). ?key y < (settled_time r i, i)} =
      {j \<in> fst ` set (roster_racers f). (settled_time r j, j) < (settled_time r i, i)}" (is "?A = ?B")
  proof (intro set_eqI iffI)
    fix j assume "j \<in> ?A"
    then obtain v where "(j, v) \<in> set (roster_racers f)" "(settled_time r j, j) < (settled_time r i, i)"
      by (auto simp: timed_set simp del: less_prod_simp)
    then show "j \<in> ?B" by force
  next
    fix j assume "j \<in> ?B"
    then obtain v where v: "(j, v) \<in> set (roster_racers f)" "(settled_time r j, j) < (settled_time r i, i)" by auto
    then have "(settled_time r j, j, v) \<in> set (timed r f)" by (force simp: timed_set)
    then show "j \<in> ?A" using v(2) by force
  qed
  moreover have "inj_on (\<lambda>x. fst (snd x)) {y \<in> set (timed r f). ?key y < (settled_time r i, i)}"
    by (rule inj_on_subset[of _ "set (timed r f)"]) (use timed_distinct(1)[OF assms(1)] in \<open>simp_all add: distinct_map\<close>)
  then have "card ((\<lambda>x. fst (snd x)) ` {y \<in> set (timed r f). ?key y < (settled_time r i, i)}) =
      card {y \<in> set (timed r f). ?key y < (settled_time r i, i)}" by (rule card_image)
  ultimately show "racer_rank r f i = k" by (simp only: racer_rank_def)
qed

lemma timed_position:
  assumes "distinct (map fst (roster_racers f))" "x \<in> set (roster_racers f)"
  obtains k where "k < length (timed r f)" "timed r f ! k = (settled_time r (fst x), x)" "racer_rank r f (fst x) = k"
proof -
  have "(settled_time r (fst x), x) \<in> set (timed r f)" unfolding timed_set(1) by (rule image_eqI[OF _ assms(2)]) (simp add: split_beta)
  then obtain k where k: "k < length (timed r f)" "timed r f ! k = (settled_time r (fst x), x)"
    by (metis in_set_conv_nth)
  then show ?thesis using that timed_rank(1)[OF assms(1) k(1)] by (metis prod.collapse)
qed

text \<open>The entries the code inserts are the outcomes, and the scores it adds up are the teams' scores.\<close>

lemma timed_entries:
  assumes "distinct (map fst (roster_racers f))"
  shows "map (\<lambda>(j, x). racer_entry (team_mode r) j x) (enumerate 0 (timed r f)) =
    map (\<lambda>(t, i, w). racer_outcome r f (i, w)) (timed r f)"
proof (rule nth_equalityI)
  fix k assume "k < length (map (\<lambda>(j, x). racer_entry (team_mode r) j x) (enumerate 0 (timed r f)))"
  then have k: "k < length (timed r f)" by simp
  obtain t i w where x: "timed r f ! k = (t, i, w)" by (cases "timed r f ! k")
  show "map (\<lambda>(j, x). racer_entry (team_mode r) j x) (enumerate 0 (timed r f)) ! k =
      map (\<lambda>(t, i, w). racer_outcome r f (i, w)) (timed r f) ! k"
    using k x timed_rank[OF assms k x] by (simp add: nth_enumerate_eq racer_outcome_def)
qed simp

lemma timed_sum:
  assumes "distinct (map fst (roster_racers f))"
  shows "(\<Sum>x\<leftarrow>map (\<lambda>(t, i, w). h (i, w)) (timed r f). g x) = (\<Sum>x\<in>set (roster_racers f). g (h x) :: int)"
proof -
  have "(\<Sum>x\<leftarrow>map (\<lambda>(t, i, w). h (i, w)) (timed r f). g x) = (\<Sum>x\<in>set (timed r f). g (h (snd x)))"
    using sum_list_distinct_conv_sum_set[OF timed_distinct(3)[OF assms], of "\<lambda>x. g (h (snd x))" r]
    by (simp add: comp_def split_beta)
  also have "\<dots> = (\<Sum>x\<in>set (roster_racers f). g (h x))"
    unfolding timed_set by (subst sum.reindex) (auto intro: inj_onI simp: split_beta comp_def)
  finally show ?thesis .
qed

lemma timed_score:
  assumes "distinct (map fst (roster_racers f))" "team_mode r"
  shows "(\<Sum>x\<leftarrow>map (\<lambda>(t, i, w). racer_outcome r f (i, w)) (timed r f). if rk_team x = Some t then rk_team_points x else 0) =
    team_score r f t"
proof -
  have "(\<Sum>x\<leftarrow>map (\<lambda>(t, i, w). racer_outcome r f (i, w)) (timed r f). if rk_team x = Some t then rk_team_points x else 0) =
      (\<Sum>x\<in>set (roster_racers f). if wire_team_result (snd x) = t then rk_team_points (racer_outcome r f x) else 0)"
    unfolding timed_sum[OF assms(1)]
    by (rule sum.cong) (simp_all add: racer_outcome_def racer_entry_def assms(2) split_beta)
  then show ?thesis by (simp add: team_score_def sum.inter_filter)
qed

lemma settlement_shape:
  assumes "frozen_race r = Some f" "roster_ok (team_mode r) f"
  obtains ranked t i w where "timed r f \<noteq> []" "timed r f ! 0 = (t, i, w)"
    "settlement_ranking_of r = Inr \<lparr>winning_team = settled_winner r f w, by_player_id = ranked\<rparr>"
    "\<And>x. x \<in> set (roster_racers f) \<Longrightarrow> map_of ranked (fst x) = Some (racer_outcome r f x)"
    "\<And>i. i \<notin> fst ` set (roster_racers f) \<Longrightarrow> map_of ranked i = None"
proof -
  note d = roster_okD[OF assms(2)]
  define ranked where "ranked = fold (\<lambda>(j, x). tput (fst (snd x)) (racer_entry (team_mode r) j x)) (enumerate 0 (timed r f)) []"
  define scores where "scores = fold add_points (map (\<lambda>(t, i, w). racer_outcome r f (i, w)) (timed r f)) (0, 0)"
  have "1 \<le> length (roster_racers f)" using d(3) by (simp add: roster_racers_def)
  then have len: "1 \<le> length (timed r f)" "length (timed r f) \<le> 8" using d(4) by (simp_all add: timed_set)
  have teams: "team_mode r \<Longrightarrow> w = 1 \<or> w = 2" if "(t, i, w) \<in> set (timed r f)" for t i w
    using that d(2) by (auto simp: timed_set racer_ok_def)
  have rank: "rank_racers (team_mode r) n 0 (timed r f) (0, 0) [] = Inr (scores, ranked)" for n
    unfolding scores_def ranked_def timed_entries[OF d(1), symmetric]
    by (rule rank_racers_ok) (use len teams in auto)
  have found: "map_of ranked (fst x) = Some (racer_outcome r f x)" if "x \<in> set (roster_racers f)" for x
  proof -
    note x = that
    obtain k where k: "k < length (timed r f)" "timed r f ! k = (settled_time r (fst x), x)" "racer_rank r f (fst x) = k"
      by (rule timed_position[OF d(1) x])
    then show ?thesis
      using ranked_lookup(1)[OF timed_distinct(1)[OF d(1)] k(1), of "racer_entry (team_mode r)" 0] k(2)
      by (simp add: ranked_def racer_outcome_def split_beta)
  qed
  have other: "map_of ranked i = None" if "i \<notin> fst ` set (roster_racers f)" for i
  proof -
    have "i \<notin> (\<lambda>x. fst (snd x)) ` set (timed r f)" using that by (force simp: timed_set)
    from ranked_lookup(2)[OF timed_distinct(1)[OF d(1)] this, of "racer_entry (team_mode r)" 0 "[]"] show ?thesis by (simp add: ranked_def)
  qed
  obtain t i w rest where first: "timed r f = (t, i, w) # rest" using len(1) by (cases "timed r f") auto
  have iw: "(i, w) \<in> set (roster_racers f)" using timed_rank(3)[OF d(1), of 0 r t i w] first by simp
  have winner: "winner_of (rs_game_type (settings r)) (timed r f) scores ranked = Inr (the (settled_winner r f w))"
    if "team_mode r"
  proof -
    have "scores = (team_score r f ResultRed, team_score r f ResultBlue)"
      unfolding scores_def fold_add_points timed_score[OF d(1) that] by simp
    moreover have "Option.bind (map_of ranked i) rk_team = Some (wire_team_result w)"
      using found[OF iw] that by (simp add: racer_outcome_def racer_entry_def)
    ultimately show ?thesis using that by (auto simp: first winner_of_def settled_winner_def team_mode_def)
  qed
  have "settlement_ranking_of r = Inr \<lparr>winning_team = settled_winner r f w, by_player_id = ranked\<rparr>"
    unfolding settlement_ranking_of_def Let_def timed_def[symmetric]
    using len rank winner assms(1) timed_set(2)[of r f]
    by (simp add: ROOM_SLOT_COUNT_def settled_winner_def)
  then show ?thesis using that[of t i w ranked] first found other by simp
qed

text \<open>C7. The ranking of a frozen roster (\<open>settlement_ranking\<close> in \<open>world.rs\<close>): for a
  roster as a start freezes it (distinct player identifiers 0 to 7, a team in the team modes, a human), the
  server computes a ranking of exactly the racers, human and AI. A racer's rank is the number of
  racers with an earlier time, or the same time and a smaller player identifier, where a racer without a
  finish counts as last; points go to finished racers of team modes by that rank, and the winner of a team
  mode is the team with more points, or the team of the first racer when they are equal or in item mode.\<close>

theorem settlement_ranks:
  assumes "frozen_race r = Some f" "roster_ok (team_mode r) f"
  shows "\<exists>ranking. settlement_ranking_of r = Inr ranking \<and>
    dom (map_of (by_player_id ranking)) = fst ` set (roster_racers f) \<and>
    list_all (\<lambda>x. map_of (by_player_id ranking) (fst x) = Some (racer_outcome r f x) \<and>
       (racer_rank r f (fst x) \<noteq> 0 \<or> winning_team ranking = settled_winner r f (snd x))) (roster_racers f)"
  using assms
proof (rule settlement_shape, goal_cases)
  case (1 ranked t i w)
  have "settled_winner r f w = settled_winner r f (snd x)" if "x \<in> set (roster_racers f)" "racer_rank r f (fst x) = 0" for x
  proof -
    note d = roster_okD(1)[OF assms(2)]
    note x = that
    obtain k where k: "k < length (timed r f)" "timed r f ! k = (settled_time r (fst x), x)" "racer_rank r f (fst x) = k"
      by (rule timed_position[OF d x(1)])
    then show ?thesis using 1(2) x(2) by auto
  qed
  then show ?case using 1(3,4,5)
    by (intro exI[of _ "\<lparr>winning_team = settled_winner r f w, by_player_id = ranked\<rparr>"])
       (fastforce simp: list_all_iff dom_def)
qed

section \<open>The result is always written\<close>

lemma racer_rank_bound:
  assumes "distinct (map fst (roster_racers f))" "x \<in> set (roster_racers f)"
  shows "racer_rank r f (fst x) < length (roster_racers f)"
  by (rule timed_position[OF assms, of r]) (simp add: timed_set)

lemma racer_rank_inj:
  assumes "distinct (map fst (roster_racers f))"
  shows "inj_on (\<lambda>x. racer_rank r f (fst x)) (set (roster_racers f))"
proof (rule inj_onI)
  fix x y assume xy: "x \<in> set (roster_racers f)" "y \<in> set (roster_racers f)" "racer_rank r f (fst x) = racer_rank r f (fst y)"
  obtain k where "timed r f ! k = (settled_time r (fst x), x)" "racer_rank r f (fst x) = k"
    by (rule timed_position[OF assms xy(1), of r])
  moreover obtain l where "timed r f ! l = (settled_time r (fst y), y)" "racer_rank r f (fst y) = l"
    by (rule timed_position[OF assms xy(2), of r])
  ultimately show "x = y" using xy(3) by auto
qed

lemma points_bounds: "k < 8 \<Longrightarrow> 0 \<le> TEAM_POINTS_BY_RANK ! k \<and> TEAM_POINTS_BY_RANK ! k \<le> 10"
  by (auto simp: TEAM_POINTS_BY_RANK_def less_Suc_eq eval_nat_numeral nth_Cons')

lemma outcome_points:
  assumes "roster_ok (team_mode r) f" "x \<in> set (roster_racers f)"
  shows "0 \<le> rk_team_points (racer_outcome r f x) \<and> rk_team_points (racer_outcome r f x) \<le> 10"
  using racer_rank_bound[OF roster_okD(1)[OF assms(1)] assms(2), of r] roster_okD(4)[OF assms(1)]
    points_bounds[of "racer_rank r f (fst x)"]
  by (auto simp: racer_outcome_def racer_entry_def split_beta)

lemma score_present:
  assumes "roster_ok (team_mode r) f" "team_score r f other < team_score r f t"
  shows "\<exists>x\<in>set (roster_racers f). wire_team_result (snd x) = t"
proof (rule ccontr)
  assume "\<not> ?thesis"
  then have "team_score r f t = 0" by (force simp: team_score_def intro: sum.neutral)
  moreover have "0 \<le> team_score r f other"
    unfolding team_score_def using outcome_points[OF assms(1)] by (intro sum_nonneg) simp
  ultimately show False using assms(2) by simp
qed

definition outcome_entry :: "protocol_room \<Rightarrow> frozen_race_roster \<Rightarrow> i32 \<times> u8 \<Rightarrow> result_entry" where
  "outcome_entry r f x = (fst x, rk_rank (racer_outcome r f x), rk_team (racer_outcome r f x), rk_team_points (racer_outcome r f x))"

lemma outcomes_ok:
  assumes "roster_ok (team_mode r) f" "timed r f ! 0 = (t, i, w)" "timed r f \<noteq> []"
    "result_entries g = map (outcome_entry r f) (roster_racers f)" "gr_winning_team g = settled_winner r f w"
  shows "result_ok g"
proof -
  note d = roster_okD[OF assms(1)]
  have team: "rk_team (racer_outcome r f x) = (if team_mode r then Some (wire_team_result (snd x)) else None)" for x
    by (simp add: racer_outcome_def racer_entry_def split_beta)
  have rank: "rk_rank (racer_outcome r f x) = int (racer_rank r f (fst x))" for x
    by (simp add: racer_outcome_def racer_entry_def split_beta)
  have "entry_ok (gr_winning_team g) (length (roster_racers f)) (outcome_entry r f x)" if "x \<in> set (roster_racers f)" for x
    using d(2)[OF that] d(4) racer_rank_bound[OF d(1) that, of r] outcome_points[OF assms(1) that]
    by (auto simp: entry_ok_def outcome_entry_def team rank assms(5) settled_winner_def racer_ok_def split_beta
        racer_outcome_def racer_entry_def)
  moreover have "distinct (map (\<lambda>e. fst (snd e)) (map (outcome_entry r f) (roster_racers f)))"
    using racer_rank_inj[OF d(1), of r] d(1) by (simp add: distinct_map outcome_entry_def rank comp_def inj_on_def)
  moreover have "\<exists>x\<in>set (roster_racers f). rk_team (racer_outcome r f x) = gr_winning_team g" if "team_mode r"
  proof -
    have "(i, w) \<in> set (roster_racers f)" using timed_rank(3)[OF d(1) _ assms(2)] assms(3) by simp
    then have "\<exists>x\<in>set (roster_racers f). wire_team_result (snd x) = the (settled_winner r f w)"
      using score_present[OF assms(1)] that by (force simp: settled_winner_def)
    moreover have "settled_winner r f w = Some (the (settled_winner r f w))" using that by (simp add: settled_winner_def)
    ultimately show ?thesis using that by (metis assms(5) team)
  qed
  ultimately show ?thesis
    using d(1,4) assms(4,5)
    by (auto simp: result_ok_def list_all_iff list_ex_iff outcome_entry_def comp_def settled_winner_def)
qed

definition rewarded :: "frozen_race_participant \<Rightarrow> bool" where
  "rewarded p \<longleftrightarrow> fp_observer p \<or> (\<exists>x e. fp_result p = Some x \<and> economy_applied (fr_economy x) = Some e)"

theorem settlement_writes:
  assumes "frozen_race r = Some f" "roster_ok (team_mode r) f" "list_all rewarded (participants f)"
    "settlement (race_progress r) = Some s" "settlement_ranking_of r = Inr ranking"
  shows "\<exists>result. settlement_packets r ranking =
      Inr [serialize_game_control ControlFinalStage (end_tick s + FINAL_STAGE_TICK_LEAD),
           serialize_game_next_stage (rs_game_type (settings r)), result] \<and>
    length result = 52 + 212 * length (filter (\<lambda>p. \<not> fp_observer p) (participants f)) + 22 * length (frozen_ais f)"
  using assms(1,2)
proof (rule settlement_shape, goal_cases)
  case (1 ranked t i w)
  define humans where "humans = filter (\<lambda>p. \<not> fp_observer p) (participants f)"
  have ranking: "winning_team ranking = settled_winner r f w" "by_player_id ranking = ranked" using 1(3) assms(5) by auto
  let ?h = "\<lambda>p. projr (human_result (team_mode r) ranking p)" and ?a = "\<lambda>a. projr (ai_result (team_mode r) ranking a)"
  have team: "(if team_mode r then rk_team (racer_outcome r f x) else None) = rk_team (racer_outcome r f x)" for x
    by (simp add: racer_outcome_def racer_entry_def split_beta)
  have h: "human_result (team_mode r) ranking p = Inr (?h p)"
    "(hr_player_id (?h p), hr_rank (?h p), hr_team (?h p), hr_team_points (?h p)) = outcome_entry r f (fp_player_id p, fp_team p)"
    if "p \<in> set humans" for p
  proof -
    note human = that
    have "(fp_player_id p, fp_team p) \<in> set (roster_racers f)" using that by (auto simp: humans_def roster_racers_def)
    then have look: "map_of ranked (fp_player_id p) = Some (racer_outcome r f (fp_player_id p, fp_team p))"
      using 1(4) by fastforce
    have "rewarded p" using that assms(3) by (auto simp: humans_def list_all_iff)
    then obtain x e where "fp_result p = Some x" "economy_applied (fr_economy x) = Some e"
      using human by (auto simp: rewarded_def humans_def)
    with look show "human_result (team_mode r) ranking p = Inr (?h p)"
      "(hr_player_id (?h p), hr_rank (?h p), hr_team (?h p), hr_team_points (?h p)) = outcome_entry r f (fp_player_id p, fp_team p)"
      by (simp_all add: human_result_def ranking team outcome_entry_def)
  qed
  have a: "ai_result (team_mode r) ranking x = Inr (?a x)"
    "(ar_player_id (?a x), ar_rank (?a x), ar_team (?a x), ar_team_points (?a x)) = outcome_entry r f (fa_player_id x, fa_team x)"
    if "x \<in> set (frozen_ais f)" for x
  proof -
    have "(fa_player_id x, fa_team x) \<in> set (roster_racers f)" using that by (auto simp: roster_racers_def)
    then have "map_of ranked (fa_player_id x) = Some (racer_outcome r f (fa_player_id x, fa_team x))"
      using 1(4) by fastforce
    then show "ai_result (team_mode r) ranking x = Inr (?a x)"
      "(ar_player_id (?a x), ar_rank (?a x), ar_team (?a x), ar_team_points (?a x)) = outcome_entry r f (fa_player_id x, fa_team x)"
      by (simp_all add: ai_result_def ranking team outcome_entry_def)
  qed
  define g where "g = \<lparr>gr_winning_team = winning_team ranking, gr_humans = map ?h humans, gr_ais = map ?a (frozen_ais f)\<rparr>"
  have entries: "result_entries g = map (outcome_entry r f) (roster_racers f)"
    using h(2) a(2) by (simp add: g_def result_entries_def roster_racers_def humans_def[symmetric] comp_def)
  have ok: "result_ok g" by (rule outcomes_ok[OF assms(2) 1(2,1) entries]) (simp add: g_def ranking)
  then obtain packet where p: "serialize_game_result g = Inr packet" by (simp add: game_result_written)
  have "serialize_settlement_result r ranking = Inr packet"
    using collect_each_ok[of humans "human_result (team_mode r) ranking" ?h, OF h(1)]
      collect_each_ok[of "frozen_ais f" "ai_result (team_mode r) ranking" ?a, OF a(1)] p assms(1)
    by (simp add: serialize_settlement_result_def humans_def[symmetric] g_def)
  then show ?case using assms(4) game_result_length[OF p]
    by (simp add: settlement_packets_def g_def humans_def EMPTY_GAME_RESULT_LENGTH_def
        HUMAN_RESULT_RECORD_LENGTH_def AI_RESULT_RECORD_LENGTH_def)
qed

text \<open>An item team race of one finished human against one AI racer.\<close>

definition duel_roster :: frozen_race_roster where
  "duel_roster = \<lparr>roster_fence = \<lparr>fence_room = 1, fence_epoch = 1\<rparr>, concrete_track = 7,
     participants = [\<lparr>fp_identity = \<lparr>bind_nickname = [65], bind_user_no = 1, bind_generation = 1, bind_owner = 1,
         bind_source_ip = V4 1, bind_channel = None\<rparr>,
       fp_nickname = [65], fp_player_id = 0, fp_observer = False, fp_team = 1, fp_result = Some \<lparr>fr_kart_id = 1,
         fr_floater_codes = [], fr_character_id = 1, fr_club_mark_logo = 0, fr_economy = EconomyPending\<rparr>\<rparr>],
     frozen_ais = [\<lparr>fa_player_id = 1, fa_team = 2, fa_kart_id = 1\<rparr>]\<rparr>"

definition duel :: protocol_room where
  "duel = (new_room 1 \<lparr>rs_channel = \<lparr>channel_id = 1, game_type = 4\<rparr>, rs_room_name = [], rs_password = [], rs_game_type = 4, rs_speed_type = 7,
       rs_track = 7, rs_room_data_header = 0, rs_room_data = []\<rparr>)
     \<lparr>frozen_race := Some duel_roster, race_progress := default_race_progress\<lparr>finish_times := [(0, 90000)]\<rparr>\<rparr>"

text \<open>The ranking of the duel.\<close>

theorem settlement_ranks_witness:
  "\<exists>ranking. settlement_ranking_of duel = Inr ranking \<and> dom (map_of (by_player_id ranking)) = {0, 1} \<and>
     list_all (\<lambda>x. map_of (by_player_id ranking) (fst x) = Some (racer_outcome duel duel_roster x) \<and>
       (racer_rank duel duel_roster (fst x) \<noteq> 0 \<or> winning_team ranking = settled_winner duel duel_roster (snd x)))
       [(0, 1), (1, 2)]"
proof -
  have racers: "roster_racers duel_roster = [(0, 1), (1, 2)]" by (simp add: roster_racers_def duel_roster_def)
  have "roster_ok (team_mode duel) duel_roster"
    by (simp add: roster_ok_def racers racer_ok_def) (simp add: duel_roster_def)
  from settlement_ranks[OF _ this] show ?thesis by (simp add: racers) (simp add: duel_def)
qed

end
