(* ===== verification/RaceCourse.thy ===== *)
theory RaceCourse
  imports RaceSettlement RoomDirectory
begin

text \<open>
  The course of a race in the world actor (\<open>crates/p4475-server/src/world.rs\<close>): the loading handshake,
  the start, finishes, the settlement phase and its end. A room is found by its identifier; a failing
  \<open>expect\<close> is \<open>Panics\<close>. An \<open>Instant\<close> counts milliseconds, the server clock is an argument.
\<close>

definition expecting :: "'a option \<Rightarrow> ('a \<Rightarrow> 'b may_panic) \<Rightarrow> 'b may_panic" where
  "expecting x f = (case x of None \<Rightarrow> Panics | Some y \<Rightarrow> f y)"

lemma expecting_simps [simp]: "expecting None f = Panics" "expecting (Some x) f = f x"
  by (simp_all add: expecting_def)

definition LOADING_READY_TIMEOUT :: nat where "LOADING_READY_TIMEOUT = 30000"
definition RACE_START_DELAY :: nat where "RACE_START_DELAY = 1000"
definition RACE_START_TICK_LEAD :: u32 where "RACE_START_TICK_LEAD = 3000"
definition SETTLEMENT_DELAY :: nat where "SETTLEMENT_DELAY = 10000"
definition SETTLEMENT_TICK_LEAD :: u32 where "SETTLEMENT_TICK_LEAD = 10000"

definition race_start_tick :: "u32 \<Rightarrow> u32" where "race_start_tick tick = tick + RACE_START_TICK_LEAD"

section \<open>Who still takes part\<close>

definition exact_identity_in_protocol_room :: "u32 \<Rightarrow> identity_binding \<Rightarrow> lobby_world \<Rightarrow> identity_binding option" where
  "exact_identity_in_protocol_room rid frozen_identity w =
     (if map_of (protocol_room_by_user w) (bind_user_no frozen_identity) \<noteq> Some rid then None
      else case active_identity_by_user_no (bind_user_no frozen_identity) (identities w) of
             Some b \<Rightarrow> if b = frozen_identity then Some b else None
           | None \<Rightarrow> None)"

definition active_frozen_recipient_sessions ::
  "protocol_room \<Rightarrow> frozen_race_roster \<Rightarrow> lobby_world \<Rightarrow> (frozen_race_participant \<times> u64) list" where
  "active_frozen_recipient_sessions r f w = List.map_filter (\<lambda>p.
     map_option (\<lambda>b. (p, bind_owner b)) (exact_identity_in_protocol_room (room_id r) (fp_identity p) w)) (participants f)"

text \<open>The stamps of the participants that are still there, and how many of them race.\<close>

definition active_frozen_participants :: "u32 \<Rightarrow> frozen_race_roster \<Rightarrow> lobby_world \<Rightarrow> frozen_race_participant list" where
  "active_frozen_participants rid f w =
     filter (\<lambda>p. exact_identity_in_protocol_room rid (fp_identity p) w \<noteq> None) (participants f)"

definition active_frozen_participant_stamps ::
  "u32 \<Rightarrow> lobby_world \<Rightarrow> (frozen_participant_stamp list \<times> nat) may_panic" where
  "active_frozen_participant_stamps rid w =
     expecting (map_of (protocol_rooms w) rid) (\<lambda>r. expecting (frozen_race r) (\<lambda>f.
     let active = active_frozen_participants rid f w
     in Returns (remdups (map (\<lambda>p. participant_stamp (fp_identity p)) active),
          length (filter (\<lambda>p. \<not> fp_observer p) active))))"

section \<open>Loading\<close>

datatype race_outcome =
  LoadingAwaiting u32 u64 nat
| IgnoredDuplicate u32 u64
| FinishRecorded u32 u64 i32 bool

type_synonym race_result = "((race_error + race_outcome) \<times> lobby_world) may_panic"

definition arm_loading :: "u32 \<Rightarrow> identity_binding \<Rightarrow> nat \<Rightarrow> lobby_world \<Rightarrow> race_result" where
  "arm_loading rid identity now w =
     expecting (map_of (protocol_rooms w) rid) (\<lambda>r.
     if phase r \<noteq> LoadingPhase then Returns (Inl (RaceWrongPhase (phase r)), w)
     else expecting (frozen_race r) (\<lambda>f.
       if \<not> list_ex (\<lambda>p. fp_identity p = identity) (participants f) then Returns (Inl NotFrozenParticipant, w)
       else if loading_handshake r \<noteq> Dormant
       then Returns (Inr (IgnoredDuplicate rid (fence_epoch (roster_fence f))), w)
       else case instant_checked_add (host_strings w) now LOADING_READY_TIMEOUT of
              None \<Rightarrow> Returns (Inl RaceDeadlineOverflow, w)
            | Some deadline \<Rightarrow>
                let expected = remdups (map (\<lambda>p. participant_stamp (fp_identity p)) (participants f))
                in Returns (Inr (LoadingAwaiting rid (fence_epoch (roster_fence f)) (length expected)),
                     put_room rid (r\<lparr>loading_handshake := Awaiting expected [] deadline\<rparr>) w)))"

record loading_candidate =
  cand_room :: u32
  cand_epoch :: u64
  cand_stamp :: frozen_participant_stamp

definition loading_readiness_candidate :: "identity_binding \<Rightarrow> lobby_world \<Rightarrow> loading_candidate option" where
  "loading_readiness_candidate identity w =
     (if active_identity_by_user_no (bind_user_no identity) (identities w) \<noteq> Some identity then None
      else Option.bind (map_of (protocol_room_by_user w) (bind_user_no identity)) (\<lambda>rid.
      Option.bind (map_of (protocol_rooms w) rid) (\<lambda>r.
      if phase r \<noteq> LoadingPhase then None
      else Option.bind (frozen_race r) (\<lambda>f.
      if Some (roster_fence f) \<noteq> race_fence r \<or> \<not> list_ex (\<lambda>p. fp_identity p = identity) (participants f) then None
      else case loading_handshake r of
             Awaiting expected _ _ \<Rightarrow>
               if participant_stamp identity \<in> set expected
               then Some \<lparr>cand_room = rid, cand_epoch = fence_epoch (roster_fence f), cand_stamp = participant_stamp identity\<rparr>
               else None
           | _ \<Rightarrow> None))))"

definition mark_loading_ready :: "loading_candidate \<Rightarrow> lobby_world \<Rightarrow> bool \<times> lobby_world" where
  "mark_loading_ready c w =
     (case active_identity_by_user_no (stamp_user_no (cand_stamp c)) (identities w) of
        None \<Rightarrow> (False, w)
      | Some active \<Rightarrow>
          if participant_stamp active \<noteq> cand_stamp c then (False, w)
          else case map_of (protocol_rooms w) (cand_room c) of
                 None \<Rightarrow> (False, w)
               | Some r \<Rightarrow>
                   if phase r \<noteq> LoadingPhase \<or> map_option fence_epoch (race_fence r) \<noteq> Some (cand_epoch c) then (False, w)
                   else case frozen_race r of
                          None \<Rightarrow> (False, w)
                        | Some f \<Rightarrow>
                            if fence_epoch (roster_fence f) \<noteq> cand_epoch c \<or>
                               \<not> list_ex (\<lambda>p. fp_identity p = active) (participants f) then (False, w)
                            else case loading_handshake r of
                                   Awaiting expected ready deadline \<Rightarrow>
                                     if cand_stamp c \<in> set expected \<and> cand_stamp c \<notin> set ready
                                     then (True, put_room (cand_room c)
                                       (r\<lparr>loading_handshake := Awaiting expected (ready @ [cand_stamp c]) deadline\<rparr>) w)
                                     else (False, w)
                                 | _ \<Rightarrow> (False, w))"

text \<open>Readiness is what one time-sync reply over UDP shows.\<close>

definition apply_udp_dispatch_readiness :: "loading_candidate option \<Rightarrow> bool \<Rightarrow> nat \<Rightarrow> lobby_world \<Rightarrow> bool \<times> lobby_world" where
  "apply_udp_dispatch_readiness candidate time_sync_reply sent_datagrams w =
     (if \<not> time_sync_reply \<or> sent_datagrams \<noteq> 1 then (False, w)
      else case candidate of None \<Rightarrow> (False, w) | Some c \<Rightarrow> mark_loading_ready c w)"

text \<open>The handshake without the participants that left, and whether the start can be scheduled.\<close>

definition reconciled :: "host \<Rightarrow> frozen_participant_stamp list \<Rightarrow> nat \<Rightarrow> loading_handshake \<Rightarrow> loading_handshake" where
  "reconciled h active now hs =
     (case hs of
        Awaiting expected ready deadline \<Rightarrow>
          let expected = filter (\<lambda>p. p \<in> set active) expected;
              ready = filter (\<lambda>p. p \<in> set expected) ready
          in if length ready = length expected \<or> deadline \<le> now
             then case instant_checked_add h now RACE_START_DELAY of
                    Some at \<Rightarrow> StartScheduled at
                  | None \<Rightarrow> Awaiting expected ready deadline
             else Awaiting expected ready deadline
      | _ \<Rightarrow> hs)"

definition reconcile_loading_handshake ::
  "u32 \<Rightarrow> frozen_participant_stamp list \<Rightarrow> nat \<Rightarrow> lobby_world \<Rightarrow> lobby_world may_panic" where
  "reconcile_loading_handshake rid active now w =
     expecting (map_of (protocol_rooms w) rid) (\<lambda>r. Returns (
     put_room rid (r\<lparr>loading_handshake := reconciled (host_strings w) active now (loading_handshake r)\<rparr>) w))"

definition start_due :: "nat \<Rightarrow> loading_handshake \<Rightarrow> bool" where
  "start_due now hs = (case hs of StartScheduled at \<Rightarrow> at \<le> now | _ \<Rightarrow> False)"

text \<open>
  The award packet of a racer's starting item, if the item catalog selects one, is the argument
  \<open>award\<close> (\<open>item_probability.rs\<close>, \<open>serialize_direct_item_award\<close>), asked in the item modes only.
\<close>

definition start_batch ::
  "(frozen_race_participant \<Rightarrow> u32 \<Rightarrow> bytes option) \<Rightarrow> protocol_room \<Rightarrow> frozen_race_roster \<Rightarrow> u32 \<Rightarrow> bytes list" where
  "start_batch award r f start_tick =
     [serialize_ai_master_notice, serialize_game_control ControlRaceStart start_tick] @
     (if rs_game_type (settings r) = 2 \<or> rs_game_type (settings r) = 4
      then List.map_filter (\<lambda>p. award p start_tick) (filter (\<lambda>p. \<not> fp_observer p \<and> fp_result p \<noteq> None) (participants f))
      else [])"

definition try_start_scheduled_room ::
  "(frozen_race_participant \<Rightarrow> u32 \<Rightarrow> bytes option) \<Rightarrow> u32 \<Rightarrow> nat \<Rightarrow> u32 \<Rightarrow> lobby_world \<Rightarrow> lobby_world may_panic" where
  "try_start_scheduled_room award rid now tick w =
     (case map_of (protocol_rooms w) rid of
        None \<Rightarrow> Returns w
      | Some r \<Rightarrow>
          if \<not> start_due now (loading_handshake r) then Returns w
          else expecting (frozen_race r) (\<lambda>f.
            let batch = start_batch award r f (race_start_tick tick);
                ds = List.map_filter (\<lambda>p. map_option (\<lambda>b. (bind_owner b, batch))
                  (exact_identity_in_protocol_room rid (fp_identity p) w)) (participants f)
            in case reserve_outbound ds [] (sessions w) of
                 (Inl _, ss) \<Rightarrow> Returns (w\<lparr>sessions := ss\<rparr>)
               | (Inr _, ss) \<Rightarrow>
                   let w = put_room rid (r\<lparr>phase := RunningPhase, loading_handshake := Dormant\<rparr>) (w\<lparr>sessions := ss\<rparr>)
                   in Returns (w\<lparr>sessions := publish_reserved ds (sessions w)\<rparr>)))"

definition bind_world :: "'a may_panic \<Rightarrow> ('a \<Rightarrow> 'b may_panic) \<Rightarrow> 'b may_panic" where
  "bind_world x f = (case x of Panics \<Rightarrow> Panics | Returns w \<Rightarrow> f w)"

lemma bind_world_simps [simp]: "bind_world Panics f = Panics" "bind_world (Returns w) f = f w"
  by (simp_all add: bind_world_def)

definition advance_loading_room ::
  "(frozen_race_participant \<Rightarrow> u32 \<Rightarrow> bytes option) \<Rightarrow> nat \<Rightarrow> u32 \<Rightarrow> u32 \<Rightarrow> lobby_world \<Rightarrow> lobby_world may_panic" where
  "advance_loading_room award now tick rid w =
     bind_world (active_frozen_participant_stamps rid w) (\<lambda>(stamps, humans).
     if humans = 0 then abort_loading_room rid w
     else bind_world (reconcile_loading_handshake rid stamps now w) (try_start_scheduled_room award rid now tick))"

section \<open>Fan-out\<close>

definition reserve_race_outbound :: "deliveries \<Rightarrow> lobby_world \<Rightarrow> (race_error + unit) \<times> lobby_world" where
  "reserve_race_outbound ds w =
     (case reserve_outbound ds [] (sessions w) of
        (Inl session, ss) \<Rightarrow> (Inl (RaceOutboundUnavailable session), w\<lparr>sessions := ss\<rparr>)
      | (Inr _, ss) \<Rightarrow> (Inr (), w\<lparr>sessions := ss\<rparr>))"

definition publish_race :: "deliveries \<Rightarrow> lobby_world \<Rightarrow> lobby_world" where
  "publish_race ds w = w\<lparr>sessions := publish_reserved ds (sessions w)\<rparr>"

definition fanout_packets :: "u32 \<Rightarrow> pending_race_fanout \<Rightarrow> bytes list" where
  "fanout_packets user_no x =
     (case fanout_race_time x of None \<Rightarrow> [] | Some t \<Rightarrow> [pt_packet t]) @
     (case fanout_begin_settlement x of
        None \<Rightarrow> []
      | Some b \<Rightarrow> if pb_excluded_user b \<noteq> Some user_no then [pb_packet b] else [])"

definition fanout_deliveries :: "protocol_room \<Rightarrow> frozen_race_roster \<Rightarrow> lobby_world \<Rightarrow> deliveries" where
  "fanout_deliveries r f w = List.map_filter (\<lambda>(p, session).
     let packets = concat (map (fanout_packets (bind_user_no (fp_identity p))) (pending_fanouts (race_progress r)))
     in if packets = [] then None else Some (session, packets)) (active_frozen_recipient_sessions r f w)"

definition try_flush_pending_race_fanouts :: "u32 \<Rightarrow> lobby_world \<Rightarrow> (bool \<times> lobby_world) may_panic" where
  "try_flush_pending_race_fanouts rid w =
     expecting (map_of (protocol_rooms w) rid) (\<lambda>r.
     if pending_fanouts (race_progress r) = [] then Returns (True, w)
     else expecting (frozen_race r) (\<lambda>f.
       let ds = fanout_deliveries r f w
       in case reserve_race_outbound ds w of
            (Inl _, w) \<Rightarrow> Returns (False, w)
          | (Inr _, w) \<Rightarrow> Returns (True, publish_race ds
              (put_room rid (r\<lparr>race_progress := (race_progress r)\<lparr>pending_fanouts := []\<rparr>\<rparr>) w))))"

section \<open>Finishing\<close>

text \<open>The settlement no longer takes finishes.\<close>

definition settlement_closed :: "nat \<Rightarrow> protocol_room \<Rightarrow> bool" where
  "settlement_closed now r \<longleftrightarrow> phase r = SettlingPhase \<and>
     (case settlement (race_progress r) of
        None \<Rightarrow> False
      | Some s \<Rightarrow> settlement_deadline s \<le> now \<or> finalization s \<noteq> AwaitingDeadline)"

definition begin_settlement :: "host \<Rightarrow> nat \<Rightarrow> u32 \<Rightarrow> protocol_room \<Rightarrow> race_error + settlement_state option" where
  "begin_settlement h now tick r =
     (if phase r = RunningPhase
      then attempt (ok_or SettlementDeadlineOverflow (instant_checked_add h now SETTLEMENT_DELAY)) (\<lambda>deadline.
        Inr (Some \<lparr>end_tick = tick + SETTLEMENT_TICK_LEAD, settlement_deadline = deadline, finalization = AwaitingDeadline\<rparr>))
      else Inr None)"

definition pending_begin :: "u32 option \<Rightarrow> settlement_state \<Rightarrow> pending_begin_settlement" where
  "pending_begin excluded s = \<lparr>pb_end_tick = end_tick s, pb_excluded_user = excluded,
     pb_packet = serialize_game_control ControlBeginSettlement (end_tick s)\<rparr>"

text \<open>The room with the finish recorded and announced.\<close>

definition finished_room ::
  "i32 \<Rightarrow> u32 \<Rightarrow> u32 option \<Rightarrow> bytes \<Rightarrow> settlement_state option \<Rightarrow> protocol_room \<Rightarrow> protocol_room" where
  "finished_room player_id race_time excluded packet begun r =
     (let r = r\<lparr>race_progress := (race_progress r)\<lparr>finish_times := tput player_id race_time (finish_times (race_progress r))\<rparr>\<rparr>;
          r = (case begun of
                 None \<Rightarrow> r
               | Some s \<Rightarrow> r\<lparr>phase := SettlingPhase, race_progress := (race_progress r)\<lparr>settlement := Some s\<rparr>\<rparr>)
      in r\<lparr>race_progress := (race_progress r)\<lparr>pending_fanouts := pending_fanouts (race_progress r) @
           [\<lparr>fanout_race_time = Some \<lparr>pt_player_id = player_id, pt_race_time = race_time, pt_packet = packet\<rparr>,
             fanout_begin_settlement = map_option (pending_begin excluded) begun\<rparr>]\<rparr>\<rparr>)"

definition pending_times :: "protocol_room \<Rightarrow> nat" where
  "pending_times r = length (filter (\<lambda>x. fanout_race_time x \<noteq> None) (pending_fanouts (race_progress r)))"

definition finish_plan ::
  "host \<Rightarrow> i32 \<Rightarrow> u32 \<Rightarrow> u32 option \<Rightarrow> nat \<Rightarrow> u32 \<Rightarrow> protocol_room \<Rightarrow> race_error + (settlement_state option \<times> bytes)" where
  "finish_plan h player_id race_time excluded now tick r =
     attempt (begin_settlement h now tick r) (\<lambda>begun.
     attempt (race_codec (serialize_race_time player_id race_time)) (\<lambda>packet.
     attempt (ensure (pending_times r < ROOM_SLOT_COUNT) PendingRaceFanoutFull) (\<lambda>_.
     Inr (begun, packet))))"

definition race_epoch_of :: "protocol_room \<Rightarrow> race_error + u64" where
  "race_epoch_of r = attempt (ok_or (RaceNotRunning (phase r)) (frozen_race r)) (\<lambda>f. Inr (fence_epoch (roster_fence f)))"

definition record_finish ::
  "u32 \<Rightarrow> i32 \<Rightarrow> u32 \<Rightarrow> u32 option \<Rightarrow> nat \<Rightarrow> u32 \<Rightarrow> lobby_world \<Rightarrow> race_result" where
  "record_finish rid player_id race_time excluded now tick w =
     expecting (map_of (protocol_rooms w) rid) (\<lambda>r.
     if settlement_closed now r then Returns (Inl SettlementClosed, w)
     else if map_of (finish_times (race_progress r)) player_id \<noteq> None
     then Returns (attempt (race_epoch_of r) (\<lambda>epoch. Inr (IgnoredDuplicate rid epoch)), w)
     else case finish_plan (host_strings w) player_id race_time excluded now tick r of
            Inl e \<Rightarrow> Returns (Inl e, w)
          | Inr (begun, packet) \<Rightarrow>
              let next = finished_room player_id race_time excluded packet begun r;
                  w = put_room rid next w
              in case race_epoch_of next of
                   Inl e \<Rightarrow> Returns (Inl e, w)
                 | Inr epoch \<Rightarrow> bind_world (try_flush_pending_race_fanouts rid w) (\<lambda>(_, w).
                     Returns (Inr (FinishRecorded rid epoch player_id (phase r = RunningPhase)), w)))"

definition racing :: "protocol_room \<Rightarrow> bool" where
  "racing r \<longleftrightarrow> phase r = RunningPhase \<or> phase r = SettlingPhase"

definition record_human_finish :: "u32 \<Rightarrow> identity_binding \<Rightarrow> u32 \<Rightarrow> nat \<Rightarrow> u32 \<Rightarrow> lobby_world \<Rightarrow> race_result" where
  "record_human_finish rid identity race_time now tick w =
     expecting (map_of (protocol_rooms w) rid) (\<lambda>r.
     if \<not> racing r then Returns (Inl (RaceNotRunning (phase r)), w)
     else expecting (frozen_race r) (\<lambda>f.
       case find (\<lambda>p. fp_identity p = identity) (participants f) of
         None \<Rightarrow> Returns (Inl NotFrozenParticipant, w)
       | Some p \<Rightarrow>
           if fp_observer p then Returns (Inl RaceHumanRequired, w)
           else record_finish rid (fp_player_id p) race_time (Some (bind_user_no identity)) now tick w))"

definition record_ai_finish :: "u32 \<Rightarrow> identity_binding \<Rightarrow> ai_goal_in_request \<Rightarrow> nat \<Rightarrow> u32 \<Rightarrow> lobby_world \<Rightarrow> race_result" where
  "record_ai_finish rid identity request now tick w =
     expecting (map_of (protocol_rooms w) rid) (\<lambda>r.
     if \<not> racing r then Returns (Inl (RaceNotRunning (phase r)), w)
     else expecting (frozen_race r) (\<lambda>f.
       if \<not> list_ex (\<lambda>p. fp_identity p = identity) (participants f) then Returns (Inl NotFrozenParticipant, w)
       else if \<not> list_ex (\<lambda>a. fa_player_id a = goal_player_id request) (frozen_ais f)
       then Returns (Inl (NoFrozenAiParticipant (goal_player_id request)), w)
       else record_finish rid (goal_player_id request) (goal_race_time request) None now tick w))"

datatype race_command_payload = RaceGameControl game_control_request | RaceAiGoalIn ai_goal_in_request

datatype race_failure = RaceNotAuthorized identity_error | RaceFailure race_error

text \<open>\<open>race_command_with_clock\<close>, of the payloads that carry the course of a race.\<close>

definition race_command ::
  "u64 \<Rightarrow> race_command_payload \<Rightarrow> nat \<Rightarrow> u32 \<Rightarrow> lobby_world \<Rightarrow> ((race_failure + race_outcome) \<times> lobby_world) may_panic" where
  "race_command session payload now tick w =
     (case authorize_session_operation session w of
        Inl e \<Rightarrow> Returns (Inl (RaceNotAuthorized e), w)
      | Inr identity \<Rightarrow>
          (case map_of (protocol_room_by_user w) (bind_user_no identity) of
             None \<Rightarrow> Returns (Inl (RaceFailure RaceNotInRoom), w)
           | Some rid \<Rightarrow>
               bind_world
                 (case payload of
                    RaceGameControl request \<Rightarrow>
                      if gc_state request = 0 then arm_loading rid identity now w
                      else if gc_state request = 2 then record_human_finish rid identity (gc_value0 request) now tick w
                      else Returns (Inl (UnsupportedGameControlState (gc_state request)), w)
                  | RaceAiGoalIn request \<Rightarrow> record_ai_finish rid identity request now tick w)
                 (\<lambda>(result, w). Returns (map_sum RaceFailure (\<lambda>x. x) result, w))))"

section \<open>The end of a race\<close>

definition set_settlement :: "settlement_state \<Rightarrow> protocol_room \<Rightarrow> protocol_room" where
  "set_settlement s r = r\<lparr>race_progress := (race_progress r)\<lparr>settlement := Some s\<rparr>\<rparr>"

definition set_finalization :: "settlement_finalization \<Rightarrow> protocol_room \<Rightarrow> protocol_room" where
  "set_finalization x r = (case settlement (race_progress r) of
     None \<Rightarrow> r | Some s \<Rightarrow> set_settlement (s\<lparr>finalization := x\<rparr>) r)"

text \<open>A race whose last human left begins its settlement by itself; here an overflowing deadline is now.\<close>

definition reconcile_running_room :: "nat \<Rightarrow> u32 \<Rightarrow> u32 \<Rightarrow> lobby_world \<Rightarrow> lobby_world may_panic" where
  "reconcile_running_room now tick rid w =
     bind_world (active_frozen_participant_stamps rid w) (\<lambda>(_, humans).
     if humans \<noteq> 0 then Returns w
     else expecting (map_of (protocol_rooms w) rid) (\<lambda>r.
       let s = \<lparr>end_tick = tick + SETTLEMENT_TICK_LEAD,
                settlement_deadline = (case instant_checked_add (host_strings w) now SETTLEMENT_DELAY of
                  Some deadline \<Rightarrow> deadline | None \<Rightarrow> now), finalization = AwaitingDeadline\<rparr>;
           r = set_settlement s (r\<lparr>phase := SettlingPhase\<rparr>)
       in Returns (put_room rid (r\<lparr>race_progress := (race_progress r)\<lparr>pending_fanouts := pending_fanouts (race_progress r) @
            [\<lparr>fanout_race_time = None, fanout_begin_settlement = Some (pending_begin None s)\<rparr>]\<rparr>\<rparr>) w)))"

text \<open>The racer a failed sampling names.\<close>

definition failed_participant :: "race_error \<Rightarrow> frozen_race_roster option \<Rightarrow> frozen_race_participant option" where
  "failed_participant e f =
     (case (e, f) of
        (RewardSamplingFailed player_id _, Some f) \<Rightarrow>
          find (\<lambda>p. \<not> fp_observer p \<and> fp_player_id p = player_id) (participants f)
      | _ \<Rightarrow> None)"

definition reward_failure :: "race_error \<Rightarrow> reward_terminal_reason" where
  "reward_failure e = (case e of RewardSamplingFailed _ _ \<Rightarrow> RewardSampling | _ \<Rightarrow> InvalidRanking)"

definition begin_rewards :: "host \<Rightarrow> nat \<Rightarrow> (nat \<Rightarrow> u8 \<times> u16) \<Rightarrow> protocol_room \<Rightarrow> protocol_room" where
  "begin_rewards h now rolls r =
     (case settlement (race_progress r) of
        None \<Rightarrow> r
      | Some s \<Rightarrow>
          if finalization s \<noteq> AwaitingDeadline then r
          else case plan_reward_persistence h now rolls r of
                 Inr (ranking, rewards) \<Rightarrow> set_finalization (Persisting ranking rewards) r
               | Inl e \<Rightarrow>
                   let failed = failed_participant e (frozen_race r)
                   in set_finalization (retain_as_dead_letter (finalization s) (reward_failure e)
                        (map_option (\<lambda>p. bind_user_no (fp_identity p)) failed) (map_option fp_nickname failed)) r)"

definition begin_reward_persistence :: "nat \<Rightarrow> (nat \<Rightarrow> u8 \<times> u16) \<Rightarrow> u32 \<Rightarrow> lobby_world \<Rightarrow> lobby_world" where
  "begin_reward_persistence now rolls rid w =
     (case map_of (protocol_rooms w) rid of
        None \<Rightarrow> w
      | Some r \<Rightarrow> put_room rid (begin_rewards (host_strings w) now rolls r) w)"

text \<open>The packets are delivered, and the room is back in its lobby or gone.\<close>

definition try_finalize_settlement :: "u32 \<Rightarrow> lobby_world \<Rightarrow> lobby_world may_panic" where
  "try_finalize_settlement rid w =
     bind_world (try_flush_pending_race_fanouts rid w) (\<lambda>(flushed, w).
     if \<not> flushed then Returns w
     else case map_of (protocol_rooms w) rid of
            None \<Rightarrow> Returns w
          | Some r \<Rightarrow>
              (case map_option finalization (settlement (race_progress r)) of
                 Some (SettlementReady ranking rewards packets) \<Rightarrow>
                   expecting (frozen_race r) (\<lambda>f.
                     let ds = map (\<lambda>(_, session). (session, packets)) (active_frozen_recipient_sessions r f w)
                     in case reserve_race_outbound ds w of
                          (Inl _, w) \<Rightarrow> Returns w
                        | (Inr _, w) \<Rightarrow> Returns (publish_race ds (finish_settlement rid ranking w)))
               | _ \<Rightarrow> Returns w))"

section \<open>The heartbeat\<close>

fun each_room :: "(u32 \<Rightarrow> lobby_world \<Rightarrow> lobby_world may_panic) \<Rightarrow> u32 list \<Rightarrow> lobby_world \<Rightarrow> lobby_world may_panic" where
  "each_room f [] w = Returns w"
| "each_room f (rid # rids) w = bind_world (f rid w) (each_room f rids)"

definition rooms_where :: "(protocol_room \<Rightarrow> bool) \<Rightarrow> lobby_world \<Rightarrow> u32 list" where
  "rooms_where P w = map fst (filter (\<lambda>(rid, r). P r) (protocol_rooms w))"

definition deadline_reached :: "nat \<Rightarrow> protocol_room \<Rightarrow> bool" where
  "deadline_reached now r \<longleftrightarrow> phase r = SettlingPhase \<and>
     (case settlement (race_progress r) of None \<Rightarrow> False | Some s \<Rightarrow> settlement_deadline s \<le> now)"

definition advance_active_room :: "nat \<Rightarrow> (u32 \<Rightarrow> nat \<Rightarrow> u8 \<times> u16) \<Rightarrow> u32 \<Rightarrow> lobby_world \<Rightarrow> lobby_world may_panic" where
  "advance_active_room now rolls rid w =
     (case map_of (protocol_rooms w) rid of
        Some r \<Rightarrow>
          if deadline_reached now r then try_finalize_settlement rid (begin_reward_persistence now (rolls rid) rid w)
          else bind_world (try_flush_pending_race_fanouts rid w) (\<lambda>(_, w). Returns w)
      | None \<Rightarrow> bind_world (try_flush_pending_race_fanouts rid w) (\<lambda>(_, w). Returns w))"

definition advance_loading ::
  "(frozen_race_participant \<Rightarrow> u32 \<Rightarrow> bytes option) \<Rightarrow> (u32 \<Rightarrow> nat \<Rightarrow> u8 \<times> u16) \<Rightarrow> nat \<Rightarrow> u32 \<Rightarrow> lobby_world \<Rightarrow> lobby_world may_panic" where
  "advance_loading award rolls now tick w =
     (if quiescing w then Returns w
      else
        bind_world (each_room (advance_loading_room award now tick) (rooms_where (\<lambda>r. phase r = LoadingPhase) w) w) (\<lambda>w.
        bind_world (each_room (reconcile_running_room now tick) (rooms_where (\<lambda>r. phase r = RunningPhase) w) w) (\<lambda>w.
        each_room (advance_active_room now rolls) (rooms_where racing w) w)))"

end
