(* ===== verification/RaceRewards.thy ===== *)
theory RaceRewards
  imports RaceCourse
begin

text \<open>
  The reward scheduler of the world actor (\<open>crates/p4475-server/src/world.rs\<close>): rewards are handed out
  as persistence tasks under a lease and an attempt identifier, retried, completed, and turned into the
  packets of the end. The actor's state is the lobby world with its attempt counter.
\<close>

definition MAX_REWARD_PERSISTENCE_FAILURES :: u8 where "MAX_REWARD_PERSISTENCE_FAILURES = 8"
definition REWARD_RETRY_BASE_DELAY :: nat where "REWARD_RETRY_BASE_DELAY = 100"
definition REWARD_RETRY_MAX_DELAY :: nat where "REWARD_RETRY_MAX_DELAY = 5000"
definition REWARD_ATTEMPT_LEASE :: nat where "REWARD_ATTEMPT_LEASE = 30000"
definition MAX_DUE_REWARD_TASK_BATCH :: nat where "MAX_DUE_REWARD_TASK_BATCH = 64"

text \<open>\<open>saturating_sub\<close> and \<open>saturating_add\<close> of \<open>u8\<close>.\<close>

definition saturating_succ :: "u8 \<Rightarrow> u8" where
  "saturating_succ n = (if n = - 1 then n else n + 1)"

definition reward_retry_delay :: "u8 \<Rightarrow> nat" where
  "reward_retry_delay failure_count =
     (let shift = min (unat failure_count - 1) 31
      in min (REWARD_RETRY_BASE_DELAY * 2 ^ shift) REWARD_RETRY_MAX_DELAY)"

record arena =
  arena_world :: lobby_world
  next_reward_attempt_id :: "u64 option"

record reward_task =
  task_fence :: race_fence
  task_attempt_id :: u64
  task_user_no :: u32
  task_nickname :: ustring
  task_canonical_nickname :: ustring
  task_proposed_reward :: time_reward

datatype reward_world_error =
  RewardSchedulerInvariant u32 u32
| AttemptIdExhausted u32 u64 u32
| AttemptLeaseDeadlineOverflow u32 u64 u32
| AttemptLeaseFailuresExhausted u32 u64 u32
| RetryDeadlineOverflow u32 u64 u32
| RewardRefreshFailed

datatype reward_lease_expiry = NotCurrent | LeaseActive | LeaseRetryScheduled

datatype reward_completion_disposition = RewardApplied | RetryScheduled u8 | TerminalFailure | IgnoredStale

section \<open>Views and updates\<close>

definition update_room :: "u32 \<Rightarrow> (protocol_room \<Rightarrow> protocol_room) \<Rightarrow> arena \<Rightarrow> arena" where
  "update_room rid g a =
     (case map_of (protocol_rooms (arena_world a)) rid of
        None \<Rightarrow> a
      | Some r \<Rightarrow> a\<lparr>arena_world := put_room rid (g r) (arena_world a)\<rparr>)"

definition persisting :: "protocol_room \<Rightarrow> (settlement_ranking \<times> reward_persistence_entry list) option" where
  "persisting r = (case map_option finalization (settlement (race_progress r)) of
     Some (Persisting ranking rewards) \<Rightarrow> Some (ranking, rewards) | _ \<Rightarrow> None)"

definition room_rewards :: "u32 \<Rightarrow> arena \<Rightarrow> reward_persistence_entry list option" where
  "room_rewards rid a = map_option snd (Option.bind (map_of (protocol_rooms (arena_world a)) rid) persisting)"

definition reward_of :: "u32 \<Rightarrow> reward_persistence_entry list \<Rightarrow> reward_persistence_entry option" where
  "reward_of user_no rewards = find (\<lambda>e. re_user_no e = user_no) rewards"

text \<open>The status of the first reward of a user, in a room that is persisting.\<close>

fun set_status :: "u32 \<Rightarrow> reward_persistence_status \<Rightarrow> reward_persistence_entry list \<Rightarrow> reward_persistence_entry list" where
  "set_status user_no st [] = []"
| "set_status user_no st (e # es) =
     (if re_user_no e = user_no then e\<lparr>re_status := st\<rparr> # es else e # set_status user_no st es)"

definition set_reward_status :: "u32 \<Rightarrow> reward_persistence_status \<Rightarrow> protocol_room \<Rightarrow> protocol_room" where
  "set_reward_status user_no st r =
     (case persisting r of
        None \<Rightarrow> r
      | Some (ranking, rewards) \<Rightarrow> set_finalization (Persisting ranking (set_status user_no st rewards)) r)"

definition dead_letter_room :: "reward_terminal_reason \<Rightarrow> u32 option \<Rightarrow> ustring option \<Rightarrow> protocol_room \<Rightarrow> protocol_room" where
  "dead_letter_room reason user_no nickname r =
     (case settlement (race_progress r) of
        None \<Rightarrow> r
      | Some s \<Rightarrow> set_finalization (retain_as_dead_letter (finalization s) reason user_no nickname) r)"

definition fail_reward_settlement :: "reward_task \<Rightarrow> reward_terminal_reason \<Rightarrow> arena \<Rightarrow> (reward_world_error + unit) \<times> arena" where
  "fail_reward_settlement t reason a =
     (case map_of (protocol_rooms (arena_world a)) (fence_room (task_fence t)) of
        None \<Rightarrow> (Inl (RewardSchedulerInvariant (fence_room (task_fence t)) (task_user_no t)), a)
      | Some r \<Rightarrow>
          if race_fence r \<noteq> Some (task_fence t) \<or> settlement (race_progress r) = None
          then (Inl (RewardSchedulerInvariant (fence_room (task_fence t)) (task_user_no t)), a)
          else (Inr (), update_room (fence_room (task_fence t))
            (dead_letter_room reason (Some (task_user_no t)) (Some (task_nickname t))) a))"

section \<open>Leases\<close>

definition task_of :: "race_fence \<Rightarrow> u64 \<Rightarrow> reward_persistence_entry \<Rightarrow> reward_task" where
  "task_of fence attempt_id e = \<lparr>task_fence = fence, task_attempt_id = attempt_id, task_user_no = re_user_no e,
     task_nickname = re_nickname e, task_canonical_nickname = re_canonical_nickname e,
     task_proposed_reward = re_proposed_reward e\<rparr>"

definition current_reward_attempt :: "reward_task \<Rightarrow> arena \<Rightarrow> (u8 \<times> nat) option" where
  "current_reward_attempt t a =
     Option.bind (map_of (protocol_rooms (arena_world a)) (fence_room (task_fence t))) (\<lambda>r.
     if race_fence r \<noteq> Some (task_fence t) then None
     else Option.bind (persisting r) (\<lambda>(_, rewards).
     Option.bind (reward_of (task_user_no t) rewards) (\<lambda>e.
     if re_nickname e \<noteq> task_nickname t \<or> re_canonical_nickname e \<noteq> task_canonical_nickname t \<or>
        re_proposed_reward e \<noteq> task_proposed_reward t then None
     else case re_status e of
            RewardInFlight attempt_id failure_count lease_deadline \<Rightarrow>
              if attempt_id = task_attempt_id t then Some (failure_count, lease_deadline) else None
          | _ \<Rightarrow> None)))"

text \<open>The error of a task that is terminally failed, unless failing it meets an inconsistency.\<close>

definition fail_with ::
  "reward_task \<Rightarrow> reward_terminal_reason \<Rightarrow> reward_world_error \<Rightarrow> arena \<Rightarrow> (reward_world_error + 'a) \<times> arena" where
  "fail_with t reason error a =
     (case fail_reward_settlement t reason a of
        (Inl e, a) \<Rightarrow> (Inl e, a)
      | (Inr _, a) \<Rightarrow> (Inl error, a))"

definition expire_reward_attempt :: "reward_task \<Rightarrow> nat \<Rightarrow> arena \<Rightarrow> (reward_world_error + reward_lease_expiry) \<times> arena" where
  "expire_reward_attempt t now a =
     (let rid = fence_room (task_fence t); epoch = fence_epoch (task_fence t); u = task_user_no t in
      case current_reward_attempt t a of
        None \<Rightarrow> (Inr NotCurrent, a)
      | Some (failure_count, lease_deadline) \<Rightarrow>
          if now < lease_deadline then (Inr LeaseActive, a)
          else let failure_count = saturating_succ failure_count
               in if MAX_REWARD_PERSISTENCE_FAILURES \<le> failure_count
                  then fail_with t RewardPersistence (AttemptLeaseFailuresExhausted rid epoch u) a
                  else case instant_checked_add (host_strings (arena_world a)) now (reward_retry_delay failure_count) of
                         None \<Rightarrow> fail_with t RewardRetryDeadlineOverflow (RetryDeadlineOverflow rid epoch u) a
                       | Some due_at \<Rightarrow> (Inr LeaseRetryScheduled,
                           update_room rid (set_reward_status u (RewardQueued due_at failure_count)) a))"

definition expired_tasks :: "nat \<Rightarrow> arena \<Rightarrow> reward_task list" where
  "expired_tasks now a = concat (map (\<lambda>(rid, r).
     case (race_fence r, persisting r) of
       (Some fence, Some (_, rewards)) \<Rightarrow> List.map_filter (\<lambda>e.
         case re_status e of
           RewardInFlight attempt_id _ lease_deadline \<Rightarrow>
             if lease_deadline \<le> now then Some (task_of fence attempt_id e) else None
         | _ \<Rightarrow> None) rewards
     | _ \<Rightarrow> []) (protocol_rooms (arena_world a)))"

definition task_key :: "reward_task \<Rightarrow> u32 \<times> u64 \<times> u32" where
  "task_key t = (fence_room (task_fence t), fence_epoch (task_fence t), task_user_no t)"

fun expire_each :: "reward_task list \<Rightarrow> nat \<Rightarrow> arena \<Rightarrow> (reward_world_error + unit) \<times> arena" where
  "expire_each [] now a = (Inr (), a)"
| "expire_each (t # ts) now a =
     (case expire_reward_attempt t now a of
        (Inl e, a) \<Rightarrow> (Inl e, a)
      | (Inr _, a) \<Rightarrow> expire_each ts now a)"

definition expire_reward_attempt_leases :: "nat \<Rightarrow> arena \<Rightarrow> (reward_world_error + unit) \<times> arena" where
  "expire_reward_attempt_leases now a = expire_each (sort_key task_key (expired_tasks now a)) now a"

section \<open>Handing out tasks\<close>

definition due_reward_candidates :: "nat \<Rightarrow> nat \<Rightarrow> arena \<Rightarrow> (u32 \<times> u32) list" where
  "due_reward_candidates now maximum a =
     take maximum (sort (concat (map (\<lambda>(rid, r).
       case persisting r of
         Some (_, rewards) \<Rightarrow> List.map_filter (\<lambda>e.
           case re_status e of
             RewardQueued due_at _ \<Rightarrow> if due_at \<le> now then Some (rid, re_user_no e) else None
           | _ \<Rightarrow> None) rewards
       | None \<Rightarrow> []) (protocol_rooms (arena_world a)))))"

definition room_fence_of :: "u32 \<Rightarrow> arena \<Rightarrow> race_fence option" where
  "room_fence_of rid a = Option.bind (map_of (protocol_rooms (arena_world a)) rid) race_fence"

definition nickname_of_reward :: "u32 \<Rightarrow> u32 \<Rightarrow> arena \<Rightarrow> ustring option" where
  "nickname_of_reward rid user_no a =
     map_option re_nickname (Option.bind (room_rewards rid a) (reward_of user_no))"

definition limit_candidates_to_attempt_id_capacity ::
  "(u32 \<times> u32) list \<Rightarrow> arena \<Rightarrow> (reward_world_error + (u32 \<times> u32) list) \<times> arena" where
  "limit_candidates_to_attempt_id_capacity candidates a =
     (case candidates of
        [] \<Rightarrow> (Inr [], a)
      | (rid, user_no) # _ \<Rightarrow>
          (case next_reward_attempt_id a of
             None \<Rightarrow>
               let fence = room_fence_of rid a;
                   a = update_room rid (dead_letter_room RewardAttemptIdExhausted (Some user_no) (nickname_of_reward rid user_no a)) a
               in (case fence of
                     None \<Rightarrow> (Inl (RewardSchedulerInvariant rid user_no), a)
                   | Some fence \<Rightarrow> (Inl (AttemptIdExhausted (fence_room fence) (fence_epoch fence) user_no), a))
           | Some next_attempt_id \<Rightarrow>
               (Inr (if next_attempt_id = - 1 then take 1 candidates else candidates), a)))"

definition allocate_reward_attempt_id :: "arena \<Rightarrow> u64 option \<times> arena" where
  "allocate_reward_attempt_id a =
     (case next_reward_attempt_id a of
        None \<Rightarrow> (None, a)
      | Some raw \<Rightarrow> (Some raw, a\<lparr>next_reward_attempt_id := checked_succ raw\<rparr>))"

definition issue_reward_task :: "u32 \<Rightarrow> u32 \<Rightarrow> nat \<Rightarrow> arena \<Rightarrow> (reward_world_error + reward_task option) \<times> arena" where
  "issue_reward_task rid user_no now a =
     (case allocate_reward_attempt_id a of
        (None, a) \<Rightarrow> (Inl (RewardSchedulerInvariant rid user_no), a)
      | (Some attempt_id, a) \<Rightarrow>
          (case instant_checked_add (host_strings (arena_world a)) now REWARD_ATTEMPT_LEASE of
             None \<Rightarrow>
               let fence = room_fence_of rid a;
                   a = update_room rid (dead_letter_room RewardAttemptLeaseDeadlineOverflow (Some user_no)
                         (nickname_of_reward rid user_no a)) a
               in (case fence of
                     None \<Rightarrow> (Inl (RewardSchedulerInvariant rid user_no), a)
                   | Some fence \<Rightarrow> (Inl (AttemptLeaseDeadlineOverflow (fence_room fence) (fence_epoch fence) user_no), a))
           | Some lease_deadline \<Rightarrow>
               (case (room_fence_of rid a, Option.bind (room_rewards rid a) (reward_of user_no)) of
                  (Some fence, Some e) \<Rightarrow>
                    (case re_status e of
                       RewardQueued due_at failure_count \<Rightarrow>
                         if now < due_at then (Inr None, a)
                         else (Inr (Some (task_of fence attempt_id e)),
                           update_room rid (set_reward_status user_no (RewardInFlight attempt_id failure_count lease_deadline)) a)
                     | _ \<Rightarrow> (Inr None, a))
                | _ \<Rightarrow> (Inr None, a))))"

fun issue_each :: "(u32 \<times> u32) list \<Rightarrow> nat \<Rightarrow> arena \<Rightarrow> (reward_world_error + reward_task list) \<times> arena" where
  "issue_each [] now a = (Inr [], a)"
| "issue_each ((rid, user_no) # cs) now a =
     (case issue_reward_task rid user_no now a of
        (Inl e, a) \<Rightarrow> (Inl e, a)
      | (Inr t, a) \<Rightarrow>
          (case issue_each cs now a of
             (Inl e, a) \<Rightarrow> (Inl e, a)
           | (Inr ts, a) \<Rightarrow> (Inr (case t of None \<Rightarrow> ts | Some t \<Rightarrow> t # ts), a)))"

definition take_due_reward_tasks :: "nat \<Rightarrow> nat \<Rightarrow> arena \<Rightarrow> (reward_world_error + reward_task list) \<times> arena" where
  "take_due_reward_tasks now maximum a =
     (case expire_reward_attempt_leases now a of
        (Inl e, a) \<Rightarrow> (Inl e, a)
      | (Inr _, a) \<Rightarrow>
          let maximum = min maximum MAX_DUE_REWARD_TASK_BATCH
          in if maximum = 0 then (Inr [], a)
             else case limit_candidates_to_attempt_id_capacity (due_reward_candidates now maximum a) a of
                    (Inl e, a) \<Rightarrow> (Inl e, a)
                  | (Inr candidates, a) \<Rightarrow> issue_each candidates now a)"

section \<open>Completions\<close>

text \<open>
  The key of a durable receipt with the reward it applied. What the presentation of a profile in its
  MyRoom makes of the receipt is the argument \<open>refresh\<close>: an error, or the live RP of the racer with the
  error of committing the new presentation, if that fails.
\<close>

record reward_receipt =
  receipt_task :: reward_task
  receipt_run_generation :: "u64 option"
  receipt_store_id :: "u64 option"
  receipt_room_id :: u32
  receipt_race_epoch :: u64
  receipt_user_no :: u32
  receipt_canonical_nickname :: "ustring option"
  receipt_applied :: applied_time_reward

datatype reward_persistence_completion =
  DurableReward reward_receipt
| RetryableFailure reward_task
| FatalFailure reward_task

fun completion_task :: "reward_persistence_completion \<Rightarrow> reward_task" where
  "completion_task (DurableReward receipt) = receipt_task receipt"
| "completion_task (RetryableFailure t) = t"
| "completion_task (FatalFailure t) = t"

definition receipt_matches :: "reward_receipt \<Rightarrow> reward_task \<Rightarrow> bool" where
  "receipt_matches q t \<longleftrightarrow> receipt_run_generation q \<noteq> None \<and> receipt_store_id q \<noteq> None \<and>
     receipt_room_id q = fence_room (task_fence t) \<and> receipt_race_epoch q = fence_epoch (task_fence t) \<and>
     receipt_user_no q = task_user_no t \<and> receipt_canonical_nickname q = Some (task_canonical_nickname t) \<and>
     at_earned_rp (receipt_applied q) = tr_earned_rp (task_proposed_reward t) \<and>
     at_earned_lucci (receipt_applied q) = tr_earned_lucci (task_proposed_reward t)"

definition frozen_racer_of :: "reward_task \<Rightarrow> frozen_race_participant \<Rightarrow> bool" where
  "frozen_racer_of t p \<longleftrightarrow> \<not> fp_observer p \<and> bind_user_no (fp_identity p) = task_user_no t \<and> fp_nickname p = task_nickname t"

text \<open>The applied reward, written into the frozen result of the first participant that is the racer.\<close>

fun apply_economy ::
  "reward_task \<Rightarrow> applied_time_reward \<Rightarrow> frozen_race_participant list \<Rightarrow> frozen_race_participant list option" where
  "apply_economy t applied [] = None"
| "apply_economy t applied (p # ps) =
     (if frozen_racer_of t p
      then map_option (\<lambda>x. p\<lparr>fp_result := Some (x\<lparr>fr_economy := EconomyApplied applied\<rparr>)\<rparr> # ps) (fp_result p)
      else map_option ((#) p) (apply_economy t applied ps))"

definition applied_room :: "reward_task \<Rightarrow> applied_time_reward \<Rightarrow> protocol_room \<Rightarrow> protocol_room option" where
  "applied_room t applied r =
     Option.bind (frozen_race r) (\<lambda>f.
     map_option (\<lambda>ps. r\<lparr>frozen_race := Some (f\<lparr>participants := ps\<rparr>)\<rparr>) (apply_economy t applied (participants f)))"

definition set_live_rp :: "u32 \<Rightarrow> u32 \<Rightarrow> protocol_room \<Rightarrow> protocol_room" where
  "set_live_rp user_no rp r =
     (case first_index (is_user user_no) (members_by_id r) of
        None \<Rightarrow> r
      | Some i \<Rightarrow> r\<lparr>members_by_id := (members_by_id r)[i :=
          map_option (\<lambda>m. m\<lparr>m_player := (m_player m)\<lparr>player_rp := rp\<rparr>\<rparr>) (members_by_id r ! i)]\<rparr>)"

definition update_live_room_rp :: "u32 \<Rightarrow> u32 \<Rightarrow> arena \<Rightarrow> arena" where
  "update_live_room_rp user_no current_rp a =
     (case map_of (protocol_room_by_user (arena_world a)) user_no of
        None \<Rightarrow> a
      | Some rid \<Rightarrow> update_room rid (set_live_rp user_no current_rp) a)"

definition is_durable :: "reward_persistence_entry \<Rightarrow> bool" where
  "is_durable e = (case re_status e of RewardDurable _ \<Rightarrow> True | _ \<Rightarrow> False)"

definition ready_room :: "protocol_room \<Rightarrow> protocol_room \<times> bool" where
  "ready_room r =
     (case persisting r of
        None \<Rightarrow> (r, True)
      | Some (ranking, rewards) \<Rightarrow>
          if \<not> list_all is_durable rewards then (r, True)
          else case settlement_packets r ranking of
                 Inr packets \<Rightarrow> (set_finalization (SettlementReady ranking rewards packets) r, True)
               | Inl _ \<Rightarrow> (dead_letter_room ResultSerialization None None r, False))"

definition prepare_ready_settlement :: "u32 \<Rightarrow> arena \<Rightarrow> (reward_terminal_reason + unit) \<times> arena" where
  "prepare_ready_settlement rid a =
     (case map_of (protocol_rooms (arena_world a)) rid of
        None \<Rightarrow> (Inr (), a)
      | Some r \<Rightarrow> (if snd (ready_room r) then Inr () else Inl ResultSerialization,
          update_room rid (\<lambda>r. fst (ready_room r)) a))"

definition fail_terminally ::
  "reward_task \<Rightarrow> reward_terminal_reason \<Rightarrow> arena \<Rightarrow> (reward_world_error + reward_completion_disposition) \<times> arena" where
  "fail_terminally t reason a =
     (case fail_reward_settlement t reason a of
        (Inl e, a) \<Rightarrow> (Inl e, a)
      | (Inr _, a) \<Rightarrow> (Inr TerminalFailure, a))"

definition complete_retryable ::
  "reward_task \<Rightarrow> u8 \<Rightarrow> nat \<Rightarrow> arena \<Rightarrow> (reward_world_error + reward_completion_disposition) \<times> arena" where
  "complete_retryable t failure_count now a =
     (let failure_count = saturating_succ failure_count
      in if MAX_REWARD_PERSISTENCE_FAILURES \<le> failure_count then fail_terminally t RewardPersistence a
         else case instant_checked_add (host_strings (arena_world a)) now (reward_retry_delay failure_count) of
                None \<Rightarrow> fail_terminally t RewardRetryDeadlineOverflow a
              | Some due_at \<Rightarrow>
                  (case Option.bind (room_rewards (fence_room (task_fence t)) a) (reward_of (task_user_no t)) of
                     None \<Rightarrow> (Inr IgnoredStale, a)
                   | Some _ \<Rightarrow> (Inr (RetryScheduled failure_count),
                       update_room (fence_room (task_fence t))
                         (set_reward_status (task_user_no t) (RewardQueued due_at failure_count)) a)))"

definition complete_durable ::
  "(reward_world_error + u32 \<times> reward_world_error option) \<Rightarrow> reward_receipt \<Rightarrow> arena \<Rightarrow> (reward_world_error + reward_completion_disposition) \<times> arena" where
  "complete_durable refresh q a =
     (let t = receipt_task q; rid = fence_room (task_fence t); u = task_user_no t in
      if \<not> receipt_matches q t then fail_terminally t RewardReceiptMismatch a
      else if \<not> (case Option.bind (map_of (protocol_rooms (arena_world a)) rid) frozen_race of
                   None \<Rightarrow> False | Some f \<Rightarrow> list_ex (frozen_racer_of t) (participants f))
      then fail_terminally t RewardParticipantMissing a
      else case refresh of
             Inl e \<Rightarrow> (Inl e, a)
           | Inr (live_rp, commit_error) \<Rightarrow>
               (case Option.bind (room_rewards rid a) (reward_of u) of
                  None \<Rightarrow> (Inr IgnoredStale, a)
                | Some _ \<Rightarrow>
                    let a = update_room rid (set_reward_status u (RewardDurable (receipt_applied q))) a
                    in (case Option.bind (map_of (protocol_rooms (arena_world a)) rid) (applied_room t (receipt_applied q)) of
                          None \<Rightarrow> fail_terminally t RewardParticipantMissing a
                        | Some r \<Rightarrow>
                            let a = update_room rid (\<lambda>_. r) a;
                                a = update_live_room_rp u live_rp a
                            in (case commit_error of
                                  Some e \<Rightarrow> (Inl e, a)
                                | None \<Rightarrow>
                                    (case prepare_ready_settlement rid a of
                                       (Inr _, a) \<Rightarrow> (Inr RewardApplied, a)
                                     | (Inl _, a) \<Rightarrow> (Inr TerminalFailure, a))))))"

definition complete_reward_task ::
  "(reward_world_error + u32 \<times> reward_world_error option) \<Rightarrow> reward_persistence_completion \<Rightarrow> nat \<Rightarrow> arena \<Rightarrow>
   (reward_world_error + reward_completion_disposition) \<times> arena" where
  "complete_reward_task refresh c now a =
     (let t = completion_task c in
      case expire_reward_attempt t now a of
        (Inl (RewardSchedulerInvariant rid u), a) \<Rightarrow> (Inl (RewardSchedulerInvariant rid u), a)
      | (Inl _, a) \<Rightarrow> (Inr TerminalFailure, a)
      | (Inr NotCurrent, a) \<Rightarrow> (Inr IgnoredStale, a)
      | (Inr LeaseRetryScheduled, a) \<Rightarrow> (Inr IgnoredStale, a)
      | (Inr LeaseActive, a) \<Rightarrow>
          (case current_reward_attempt t a of
             None \<Rightarrow> (Inr IgnoredStale, a)
           | Some (failure_count, _) \<Rightarrow>
               (case c of
                  RetryableFailure _ \<Rightarrow> complete_retryable t failure_count now a
                | FatalFailure _ \<Rightarrow> fail_terminally t RewardPersistence a
                | DurableReward q \<Rightarrow> complete_durable refresh q a)))"

end
