(* ===== verification/Spec2Isabelle.thy ===== *)
theory Spec2Isabelle
  imports Cipher Framing Encoding Packet Handshake ProtocolFsm FinalStage IdentityTransfer OperationGate UdpState RaceObjects MessengerInv RoomState RaceStart WorldProps RaceRewards
begin

text \<open>
  A verification library for the P4475 game server, a Rust workspace that speaks the wire protocol of
  a stock racing-game client. It covers the wire envelopes and codecs of \<open>crates/p4475-core\<close>, the
  authorities of \<open>crates/p4475-server\<close> that decide who owns what (identities, wire work, UDP endpoints,
  race objects, messenger rooms, multiplayer rooms), and the two protocol oracles of
  \<open>crates/p4475-client-oracle\<close>. Every definition is a shallow embedding of one Rust item.

  \<^bold>\<open>How the parts interact.\<close> A client connects by the login handshake (\<open>handshake.rs\<close>), which hands out
  the first vector of the encrypted frames (\<open>frame.rs\<close>, \<open>crypto.rs\<close>). Packets are named by a hash
  (\<open>adler32.rs\<close>) and written and read field by field (\<open>packet.rs\<close>, \<open>encoded.rs\<close>). The identity registry
  (\<open>identity.rs\<close>) owns each nickname by a session and a generation; operations hold leases of the
  generation's gate, so a migration to another channel socket can freeze, drain and move it. The wire
  gate (\<open>operation_gate.rs\<close>) does the same for login work at shutdown. UDP endpoints (\<open>udp_state.rs\<close>)
  and messenger sessions (\<open>messenger_hub.rs\<close>) are bound to identity generations. The world actor
  (\<open>world.rs\<close>) owns the rooms: a lobby packet is parsed (\<open>room_protocol.rs\<close>, \<open>lobby_protocol.rs\<close>),
  authorised against the identity registry, planned, its outbound queue slots reserved, committed and
  published; a start freezes the roster and sends each member its own start command
  (\<open>race_start_protocol.rs\<close>). During an item race the object registry (\<open>race_object_registry.rs\<close>)
  decides which operations count. The oracles say in what order the stock client accepts packets
  (\<open>protocol_fsm.rs\<close>) and how its podium proceeds (\<open>final_stage_scheduler.rs\<close>).

  \<^bold>\<open>Theories.\<close>
  \<^item> \<open>Prelude\<close>: integer types, checked arithmetic, results, tables (hash maps as association lists), and
    the interfaces \<open>keyed_store\<close> (a map with a size), \<open>machine\<close> (a state, a step, an invariant) and
    \<open>fenced_machine\<close> (one with a value that only grows). Every reachability property
    below rests on an interpretation of one of the machines: \<open>identity\<close>, \<open>wire\<close>, \<open>udp\<close>,
    \<open>race_objects\<close>, \<open>hub\<close>, \<open>fsm\<close>, \<open>plain\<close>, \<open>server\<close>.
  \<^item> \<open>Cipher\<close>, \<open>Framing\<close>: the payload transform with the interface \<open>checksummed_cipher\<close> the two envelopes
    use; TCP frames with the rolling vector; datagrams. Round trips of streams, detection of a changed
    byte.
  \<^item> \<open>Encoding\<close>, \<open>Packet\<close>, \<open>Handshake\<close>: hash, scalar substitution, writer and reader (interfaces
    \<open>wire_codec\<close> and \<open>lossless_codec\<close>, one interpretation per primitive), UTF-16 strings, first message.
  \<^item> \<open>Nickname\<close>: validation and canonical keys (\<open>nickname.rs\<close>).
  \<^item> \<open>IdentityGate\<close>, \<open>Identity\<close>: the gate word of a generation and the registry with every operation of
    \<open>IdentityRegistry\<close>. \<open>IdentityInv\<close> states the invariant over the registry and the leases its callers
    hold; \<open>IdentityOps\<close>, \<open>IdentityMigration\<close>, \<open>IdentityRelease\<close> show that each operation keeps it;
    \<open>IdentityMachine\<close> is the registry under any sequence of calls; \<open>IdentityProps\<close> and
    \<open>IdentityTransfer\<close> hold the properties.
  \<^item> \<open>OperationGate\<close>, \<open>UdpState\<close>, \<open>RaceObjects\<close>, \<open>MessengerHub\<close> with \<open>MessengerInv\<close>: one actor each, its
    operations, invariant and properties. \<open>admission_gate\<close> is the contract the identity gate and the
    wire gate share.
  \<^item> \<open>Parsing\<close>, \<open>RoomProtocol\<close>, \<open>LobbyProtocol\<close>, \<open>RaceStart\<close>: the request parsers, characterised as
    accepting exactly the encodings of their requests, and the reply serializers with the layout and
    the length of what they write.
  \<^item> \<open>RoomState\<close>: one room (\<open>ProtocolRoomState\<close>) with every operation; \<open>RoomInv\<close>, \<open>RoomOps\<close>: its invariant
    and preservation; \<open>RoomTracks\<close>: the random track. Also a \<open>RaceProgress\<close> and a \<open>SettlementState\<close> as
    data, with a ranking.
  \<^item> \<open>Lobby\<close>: sessions with their outbound queues and every lobby command. A handler of the code that
    first plans, then reserves, then commits is a \<open>lobby_plan\<close> run by \<open>run_plan\<close>. \<open>RoomDirectory\<close>: room
    identifiers, listing, creation, joining, leaving, first state, the room half of a migration and of
    a release, the end of a loading phase and of a settlement, and the rooms of the internal slot
    protocol.
  \<^item> \<open>LobbyInv\<close>, \<open>LobbyPlans\<close>, \<open>LobbyEffects\<close>, \<open>LobbyProps\<close>: the directory's invariant (every room well
    formed and serializable, membership table exact, free identifiers free), what each command plans,
    what it does to the queues, and the contract of a command. \<open>DirectoryProps\<close>, \<open>DirectoryInv\<close>,
    \<open>SnapshotRooms\<close>: the same for the operations of the directory.
  \<^item> \<open>WorldMachine\<close>: lobby, directory, slot rooms and identity registry as one machine; \<open>WorldProps\<close>: what
    holds in every state it reaches.
  \<^item> \<open>ProtocolFsm\<close>, \<open>FinalStage\<close>: the oracles, the first with a scene graph as its abstract specification.
  \<^item> \<open>RaceProtocol\<close>: the codecs of a race (\<open>race_protocol.rs\<close>, \<open>race_result_protocol.rs\<close>); a result is
    written exactly when it is valid, with its exact length.
  \<^item> \<open>RaceSettlement\<close>: ranking of the frozen roster, proposed rewards (\<open>progression.rs\<close>) and the packets of
    the end. A roster as a start freezes it is always ranked, and once its rewards are applied the result
    is always written. \<open>RaceCourse\<close>: the loading handshake, the scheduled start, finishes with their
    fan-out, the settlement and the heartbeat \<open>advance_loading\<close>. \<open>RaceRewards\<close>: the reward scheduler with
    its leases, retries and completions.

  \<^bold>\<open>Conventions.\<close> A \<open>u8\<close>, \<open>u16\<close>, \<open>u32\<close>, \<open>u64\<close> and the signed widths are words of the same length, with
  \<open>checked_add\<close> and \<open>wrapping_add\<close> as in Rust; \<open>usize\<close> is \<open>nat\<close> where the code only counts what it holds.
  A \<open>Result\<close> is a sum, the error on the left, in the code's own error enumeration. An \<open>expect\<close> or an
  arithmetic overflow that would panic is the value \<open>Panics\<close> of \<open>'a may_panic\<close>, and the theorems show it is
  not reached. A \<open>HashMap\<close> or \<open>BTreeMap\<close> is a table with distinct keys, a set a list or a HOL set, a
  fixed array a list of its length, an \<open>Instant\<close> a natural number, an \<open>f32\<close> its bit pattern. Shared memory behind an \<open>Arc\<close> (identity gates) is a store indexed
  by allocation number; a mutex-guarded state is a record and a waiter the sequence of its polls.

  \<^bold>\<open>Parameters.\<close> Code that is not in the repository is an argument: \<open>host_strings\<close> gives the Unicode
  normalisation and case folding the nickname rules call, the largest \<open>Instant\<close>, and whether a
  reservation of the session index succeeds; the draw of a random track is a number; the
  catalogs of tracks and the observed P2P ports are fields of the state. The theorems hold for all of
  them.

  \<^bold>\<open>Bounds and fuel.\<close> \<open>search_room_id\<close> has the 65535 steps of the code's \<open>for\<close> loop, and finds an identifier
  whenever one is free. The unbounded \<open>loop\<close> of \<open>create_room\<close> is \<open>next_snapshot_id\<close> with a fuel of one
  more than the rooms held; the theorem \<open>create_room_ends\<close> shows that this fuel always yields an
  identifier while the rooms held are fewer than the 4294967295 non-zero identifiers.

  \<^bold>\<open>Not modelled.\<close> Of \<open>world.rs\<close>: the team booster gauge, the operator retry of a dead letter with its drain report,
  the relay of GameSlot packets, MyRoom and rider equipment, and the tasks that run the actor; closing a
  session after a failed delivery is here the loss of its queue plus the registry's \<open>disconnect\<close>.
  \<open>session.rs\<close>, \<open>runtime.rs\<close>, \<open>udp_runtime.rs\<close> and \<open>messenger_runtime.rs\<close> are asynchronous I/O around the
  components above. The MyRoom hub, profiles and their persistence, the item catalogs and physics
  tables, the remaining packet codecs, and the crates \<open>p4475-assets\<close>, \<open>p4475-rho5\<close>, \<open>p4475-connector\<close>
  and \<open>p4475-cli\<close> are not modelled: they are file formats, file-system and process handling, or data
  tables. The C++ sidecar under \<open>native/\<close> is another program.
\<close>

end
